(* ===== verification/Prelude.thy ===== *)
theory Prelude
  imports Main "HOL-Library.Word"
begin

text \<open>
  Shared vocabulary of the development: the machine types of the Go sources, results of
  fallible code, and the generic lemmas on lists, options and words that the component theories
  use. The collections \<open>res_simps\<close> (results) and \<open>record_ops\<close> (the
  operation-recording definitions of the console reader) are filled by the theories that
  declare the facts.
\<close>

section \<open>Machine types\<close>

type_synonym u8 = "8 word"
type_synonym u32 = "32 word"
type_synonym u64 = "64 word"
type_synonym bytes = "u8 list"

named_theorems res_simps "case analysis of fallible computations"
named_theorems record_ops "definitions that append one operation to the reader state"

section \<open>Results of fallible code\<close>

text \<open>
  A Go function that returns \<open>(v, err)\<close> is a function into \<open>'e + 'a\<close>:
  \<open>Inl\<close> is the early return with the error, \<open>Inr\<close> the normal return.
\<close>

definition bind_res :: "'e + 'a \<Rightarrow> ('a \<Rightarrow> 'e + 'b) \<Rightarrow> 'e + 'b" where
  "bind_res r f = (case r of Inl e \<Rightarrow> Inl e | Inr x \<Rightarrow> f x)"

definition from_opt :: "'e \<Rightarrow> 'a option \<Rightarrow> 'e + 'a" where
  "from_opt e v = (case v of None \<Rightarrow> Inl e | Some x \<Rightarrow> Inr x)"

definition guard_res :: "bool \<Rightarrow> 'e \<Rightarrow> 'e + unit" where
  "guard_res b e = (if b then Inr () else Inl e)"

fun fold_res :: "('a \<Rightarrow> 's \<Rightarrow> 'e + 's) \<Rightarrow> 'a list \<Rightarrow> 's \<Rightarrow> 'e + 's" where
  "fold_res f [] s = Inr s"
| "fold_res f (x # xs) s = bind_res (f x s) (fold_res f xs)"

lemma bind_res_simps [simp, res_simps]:
  "bind_res (Inl e) f = Inl e"
  "bind_res (Inr x) f = f x"
  by (simp_all add: bind_res_def)

lemma bind_res_Inr_iff [res_simps]:
  "bind_res r f = Inr y \<longleftrightarrow> (\<exists>x. r = Inr x \<and> f x = Inr y)"
  by (cases r) auto

lemma bind_res_Inl_iff [res_simps]:
  "bind_res r f = Inl e \<longleftrightarrow> r = Inl e \<or> (\<exists>x. r = Inr x \<and> f x = Inl e)"
  by (cases r) auto

lemma from_opt_simps [simp, res_simps]:
  "from_opt e None = Inl e"
  "from_opt e (Some x) = Inr x"
  by (simp_all add: from_opt_def)

lemma from_opt_Inr_iff [simp, res_simps]: "from_opt e v = Inr x \<longleftrightarrow> v = Some x"
  by (cases v) auto

lemma from_opt_Inl_iff [simp, res_simps]: "from_opt e v = Inl e' \<longleftrightarrow> v = None \<and> e' = e"
  by (cases v) auto

lemma guard_res_Inr_iff [simp, res_simps]: "guard_res b e = Inr u \<longleftrightarrow> b"
  by (simp add: guard_res_def)

lemma guard_res_Inl_iff [simp, res_simps]: "guard_res b e = Inl e' \<longleftrightarrow> \<not> b \<and> e' = e"
  by (auto simp: guard_res_def)

lemma guard_res_simps [simp]: "guard_res True e = Inr ()" "guard_res False e = Inl e"
  by (simp_all add: guard_res_def)

lemma fold_res_append:
  "fold_res f (xs @ ys) s = bind_res (fold_res f xs s) (fold_res f ys)"
  by (induction xs arbitrary: s) (auto simp: bind_res_def split: sum.splits)

text \<open>An invariant of every step of a fallible loop is an invariant of the loop.\<close>

lemma fold_res_invariant:
  assumes "fold_res f xs s = Inr s'" and "P s"
    and "\<And>x t t'. x \<in> set xs \<Longrightarrow> P t \<Longrightarrow> f x t = Inr t' \<Longrightarrow> P t'"
  shows "P s'"
  using assms
proof (induction xs arbitrary: s)
  case Nil
  then show ?case by simp
next
  case (Cons x xs)
  from Cons.prems(1) obtain t where t: "f x s = Inr t" "fold_res f xs t = Inr s'"
    by (auto simp: bind_res_Inr_iff)
  have "P t" using Cons.prems(2,3) t(1) by auto
  then show ?case using Cons.IH [OF t(2)] Cons.prems(3) by auto
qed

section \<open>Lists and options\<close>

text \<open>The last element of a list that satisfies a predicate, as the reverse loops of the
  sources look for it.\<close>

definition find_last :: "('a \<Rightarrow> bool) \<Rightarrow> 'a list \<Rightarrow> 'a option" where
  "find_last P xs = find P (rev xs)"

lemma find_append:
  "find P (xs @ ys) = (case find P xs of Some x \<Rightarrow> Some x | None \<Rightarrow> find P ys)"
  by (induction xs) auto

lemma find_last_Nil [simp]: "find_last P [] = None"
  by (simp add: find_last_def)

lemma find_last_snoc [simp]:
  "find_last P (xs @ [x]) = (if P x then Some x else find_last P xs)"
  by (simp add: find_last_def)

lemma find_last_SomeD: "find_last P xs = Some x \<Longrightarrow> x \<in> set xs \<and> P x"
  by (induction xs rule: rev_induct) (auto split: if_splits)

lemma find_last_None_iff: "find_last P xs = None \<longleftrightarrow> (\<forall>x\<in>set xs. \<not> P x)"
  by (auto simp: find_last_def find_None_iff)

lemma find_last_cong:
  "(\<And>x. x \<in> set xs \<Longrightarrow> P x = Q x) \<Longrightarrow> find_last P xs = find_last Q xs"
  by (induction xs rule: rev_induct) auto

lemma find_last_filter: "find_last P (filter Q xs) = find_last (\<lambda>x. Q x \<and> P x) xs"
  by (induction xs rule: rev_induct) auto

lemma sum_list_map_count:
  "(\<Sum>x\<leftarrow>xs. if x = a then 1 else 0) = (count_list xs a :: nat)"
  by (induction xs) auto

section \<open>Words\<close>

lemma max_word_ge [simp]: "(w :: 'a::len word) \<le> - 1"
  by simp

lemma word_neq_max_less: "(w :: 'a::len word) \<noteq> - 1 \<Longrightarrow> w < - 1"
  using word_order.not_eq_extremum by blast

lemma word_less_pred_iff:
  fixes t :: "'a::len word"
  assumes "t \<noteq> 0"
  shows "s < t \<longleftrightarrow> s \<le> t - 1"
proof -
  have "0 < unat t" using assms by (simp add: unat_gt_0)
  then have "unat (t - 1) = unat t - 1" by (simp add: unat_sub_if' Suc_le_eq)
  with \<open>0 < unat t\<close> show ?thesis
    by (auto simp: word_le_nat_alt word_less_nat_alt)
qed

end
