(* ===== verification/GoStd.thy ===== *)
theory GoStd
  imports Prelude
begin

text \<open>
  The parts of the Go standard library that the modelled sources call, on strings as byte
  lists (\<open>char\<close>): \<open>strings.SplitN\<close>, \<open>strings.Split\<close>,
  \<open>strings.HasPrefix\<close>, \<open>strings.ToUpper\<close>, \<open>strconv.ParseInt\<close>,
  \<open>strconv.ParseUint\<close>, \<open>strconv.Atoi\<close> (64-bit), \<open>encoding/hex\<close>,
  \<open>encoding/base64\<close> (the standard alphabet, with padding) and the big-endian
  \<open>PutUint64\<close> and \<open>Uint64\<close> of \<open>encoding/binary\<close>.
\<close>

section \<open>strings\<close>

text \<open>\<open>SplitN(s, sep, n)\<close> for \<open>0 \<le> n\<close> and a one-byte separator: at most
  \<open>n\<close> substrings, the last one the unsplit rest.\<close>

fun SplitN :: "nat \<Rightarrow> char \<Rightarrow> string \<Rightarrow> string list" where
  "SplitN 0 sep s = []"
| "SplitN (Suc 0) sep s = [s]"
| "SplitN (Suc (Suc n)) sep s =
     (case dropWhile (\<lambda>c. c \<noteq> sep) s of
        [] \<Rightarrow> [s]
      | _ # rest \<Rightarrow> takeWhile (\<lambda>c. c \<noteq> sep) s # SplitN (Suc n) sep rest)"

text \<open>\<open>SplitN(s, sep, -1)\<close>, which is \<open>Split(s, sep)\<close>: a string of length
  \<open>m\<close> has at most \<open>m + 1\<close> substrings.\<close>

definition Split :: "char \<Rightarrow> string \<Rightarrow> string list" where
  "Split sep s = SplitN (Suc (length s)) sep s"

fun Join :: "char \<Rightarrow> string list \<Rightarrow> string" where
  "Join sep [] = []"
| "Join sep [x] = x"
| "Join sep (x # y # ys) = x @ sep # Join sep (y # ys)"

fun HasPrefix :: "string \<Rightarrow> string \<Rightarrow> bool" where
  "HasPrefix s [] = True"
| "HasPrefix [] (p # ps) = False"
| "HasPrefix (c # cs) (p # ps) = (c = p \<and> HasPrefix cs ps)"

definition upper_char :: "char \<Rightarrow> char" where
  "upper_char c =
     (let n = (of_char c :: nat) in if 97 \<le> n \<and> n \<le> 122 then char_of (n - 32) else c)"

text \<open>\<open>ToUpper\<close> is used on tags that are then looked up in tables of ASCII names. Beside
  \<open>a\<close> to \<open>z\<close> only the runes U+0131 and U+017F have an ASCII upper case
  (\<open>I\<close> and \<open>S\<close>); every other byte beyond ASCII is kept, which no table
  lookup can tell apart.\<close>

fun ToUpper :: "string \<Rightarrow> string" where
  "ToUpper [] = []"
| "ToUpper [c] = [upper_char c]"
| "ToUpper (c # d # s) =
     (if of_char c = (196 :: nat) \<and> of_char d = (177 :: nat) then CHR ''I'' # ToUpper s
      else if of_char c = (197 :: nat) \<and> of_char d = (191 :: nat) then CHR ''S'' # ToUpper s
      else upper_char c # ToUpper (d # s))"

section \<open>strconv\<close>

definition digit_val :: "char \<Rightarrow> int option" where
  "digit_val c =
     (let n = (of_char c :: nat) in if 48 \<le> n \<and> n \<le> 57 then Some (int n - 48) else None)"

fun digits_val :: "int \<Rightarrow> string \<Rightarrow> int option" where
  "digits_val acc [] = Some acc"
| "digits_val acc (c # cs) =
     (case digit_val c of None \<Rightarrow> None | Some d \<Rightarrow> digits_val (10 * acc + d) cs)"

definition parse_below :: "int \<Rightarrow> string \<Rightarrow> int option" where
  "parse_below bound s =
     (if s = [] then None
      else case digits_val 0 s of
             None \<Rightarrow> None
           | Some v \<Rightarrow> if v < bound then Some v else None)"

definition ParseUint64 :: "string \<Rightarrow> u64 option" where
  "ParseUint64 s = map_option of_int (parse_below 18446744073709551616 s)"

definition ParseInt64 :: "string \<Rightarrow> int option" where
  "ParseInt64 s =
     (case s of
        [] \<Rightarrow> None
      | c # cs \<Rightarrow>
          if c = CHR ''-'' then map_option uminus (parse_below 9223372036854775809 cs)
          else if c = CHR ''+'' then parse_below 9223372036854775808 cs
          else parse_below 9223372036854775808 s)"

abbreviation Atoi :: "string \<Rightarrow> int option" where
  "Atoi \<equiv> ParseInt64"

section \<open>encoding/hex\<close>

definition hex_val :: "char \<Rightarrow> nat option" where
  "hex_val c =
     (let n = (of_char c :: nat) in
      if 48 \<le> n \<and> n \<le> 57 then Some (n - 48)
      else if 97 \<le> n \<and> n \<le> 102 then Some (n - 87)
      else if 65 \<le> n \<and> n \<le> 70 then Some (n - 55)
      else None)"

fun hex_DecodeString :: "string \<Rightarrow> bytes option" where
  "hex_DecodeString [] = Some []"
| "hex_DecodeString [c] = None"
| "hex_DecodeString (c # d # s) =
     (case (hex_val c, hex_val d) of
        (Some h, Some l) \<Rightarrow> map_option (\<lambda>bs. of_nat (16 * h + l) # bs) (hex_DecodeString s)
      | _ \<Rightarrow> None)"

definition hex_digit :: "nat \<Rightarrow> char" where
  "hex_digit n = (if n < 10 then char_of (n + 48) else char_of (n + 87))"

fun hex_EncodeToString :: "bytes \<Rightarrow> string" where
  "hex_EncodeToString [] = []"
| "hex_EncodeToString (b # bs) =
     hex_digit (unat b div 16) # hex_digit (unat b mod 16) # hex_EncodeToString bs"

section \<open>encoding/base64\<close>

definition b64_val :: "char \<Rightarrow> nat option" where
  "b64_val c =
     (let n = (of_char c :: nat) in
      if 65 \<le> n \<and> n \<le> 90 then Some (n - 65)
      else if 97 \<le> n \<and> n \<le> 122 then Some (n - 71)
      else if 48 \<le> n \<and> n \<le> 57 then Some (n + 4)
      else if n = 43 then Some 62
      else if n = 47 then Some 63
      else None)"

text \<open>Quanta of four characters; \<open>=\<close> may only stand in the last two places of the last
  quantum, and the bits under the padding are not checked (the encoding is not strict).\<close>

fun b64_quanta :: "string \<Rightarrow> bytes option" where
  "b64_quanta [] = Some []"
| "b64_quanta (a # b # c # d # s) =
     (case (b64_val a, b64_val b) of
        (Some x, Some y) \<Rightarrow>
          (case (b64_val c, b64_val d) of
             (Some z, Some w) \<Rightarrow>
               map_option
                 (\<lambda>bs. of_nat (x * 4 + y div 16) # of_nat (y mod 16 * 16 + z div 4)
                     # of_nat (z mod 4 * 64 + w) # bs)
                 (b64_quanta s)
           | (Some z, None) \<Rightarrow>
               (if d = CHR ''='' \<and> s = []
                then Some [of_nat (x * 4 + y div 16), of_nat (y mod 16 * 16 + z div 4)]
                else None)
           | (None, _) \<Rightarrow>
               (if c = CHR ''='' \<and> d = CHR ''='' \<and> s = []
                then Some [of_nat (x * 4 + y div 16)] else None))
      | _ \<Rightarrow> None)"
| "b64_quanta s = None"

definition b64_DecodeString :: "string \<Rightarrow> bytes option" where
  "b64_DecodeString s =
     b64_quanta (filter (\<lambda>c. of_char c \<noteq> (10 :: nat) \<and> of_char c \<noteq> (13 :: nat)) s)"

section \<open>encoding/binary, big endian\<close>

definition PutUint64 :: "u64 \<Rightarrow> bytes" where
  "PutUint64 v = map (\<lambda>i. ucast (drop_bit (8 * i) v)) (rev [0..<8])"

definition Uint64 :: "bytes \<Rightarrow> u64" where
  "Uint64 bs = foldl (\<lambda>acc b. acc * 256 + ucast b) 0 (take 8 bs)"

section \<open>Lemmas\<close>

lemma dropWhile_neq_append [simp]:
  "sep \<notin> set x \<Longrightarrow> dropWhile (\<lambda>c. c \<noteq> sep) (x @ sep # r) = sep # r"
  by (induction x) auto

lemma takeWhile_neq_append [simp]:
  "sep \<notin> set x \<Longrightarrow> takeWhile (\<lambda>c. c \<noteq> sep) (x @ sep # r) = x"
  by (induction x) auto

lemma dropWhile_neq_notin [simp]: "sep \<notin> set x \<Longrightarrow> dropWhile (\<lambda>c. c \<noteq> sep) x = []"
  by (induction x) auto

text \<open>Splitting a line of exactly \<open>n\<close> fields, of which only the last may hold the
  separator, gives the fields back.\<close>

lemma SplitN_Join:
  assumes "xs \<noteq> []" and "n = length xs" and "\<forall>x\<in>set (butlast xs). sep \<notin> set x"
  shows "SplitN n sep (Join sep xs) = xs"
  using assms
proof (induction sep xs arbitrary: n rule: Join.induct)
  case (1 sep)
  then show ?case by simp
next
  case (2 sep x)
  then show ?case by simp
next
  case (3 sep x y ys)
  from "3.prems" have n: "n = Suc (Suc (length ys))" and x: "sep \<notin> set x" by simp_all
  have IH: "SplitN (Suc (length ys)) sep (Join sep (y # ys)) = y # ys"
    using "3.prems" by (intro "3.IH") auto
  show ?case using IH n x by simp
qed

lemma SplitN_notin: "sep \<notin> set s \<Longrightarrow> SplitN (Suc n) sep s = [s]"
  by (cases n) simp_all

lemma Split_pair: "sep \<notin> set x \<Longrightarrow> sep \<notin> set y \<Longrightarrow> Split sep (x @ sep # y) = [x, y]"
  by (simp add: Split_def SplitN_notin)

lemma length_SplitN: "length (SplitN n sep s) \<le> n"
  by (induction n sep s rule: SplitN.induct) (auto split: list.splits)

lemma Join_SplitN: "0 < n \<Longrightarrow> Join sep (SplitN n sep s) = s"
proof (induction n sep s rule: SplitN.induct)
  case (3 n sep s)
  show ?case
  proof (cases "dropWhile (\<lambda>c. c \<noteq> sep) s")
    case Nil
    then show ?thesis by (simp del: dropWhile_eq_Nil_conv)
  next
    case (Cons c rest)
    then have c: "c = sep" using hd_dropWhile [of "\<lambda>c. c \<noteq> sep" s] by simp
    have s: "takeWhile (\<lambda>c. c \<noteq> sep) s @ sep # rest = s"
      using takeWhile_dropWhile_id [of "\<lambda>c. c \<noteq> sep" s] unfolding Cons c .
    obtain y ys where sp: "SplitN (Suc n) sep rest = y # ys"
      by (cases n; cases "dropWhile (\<lambda>c. c \<noteq> sep) rest") auto
    have "Join sep (y # ys) = rest" using 3 Cons sp by auto
    then show ?thesis using Cons sp s by auto
  qed
qed simp_all

lemma HasPrefix_iff: "HasPrefix s p \<longleftrightarrow> (\<exists>r. s = p @ r)"
  by (induction s p rule: HasPrefix.induct) auto

lemma HasPrefix_append [simp]: "HasPrefix (p @ r) p"
  by (auto simp: HasPrefix_iff)

lemma digits_val_nonneg: "digits_val acc s = Some v \<Longrightarrow> 0 \<le> acc \<Longrightarrow> 0 \<le> v"
  by (induction acc s rule: digits_val.induct)
    (auto simp: digit_val_def Let_def split: option.splits if_splits)

lemma parse_below_range: "parse_below bound s = Some v \<Longrightarrow> 0 \<le> v \<and> v < bound"
  by (auto simp: parse_below_def dest: digits_val_nonneg split: if_splits option.splits)

lemma ParseInt64_range:
  "ParseInt64 s = Some v \<Longrightarrow> - 9223372036854775808 \<le> v \<and> v < 9223372036854775808"
  by (auto simp: ParseInt64_def dest!: parse_below_range split: list.splits if_splits)

lemma hex_val_digit: "n < 16 \<Longrightarrow> hex_val (hex_digit n) = Some n"
  by (auto simp: hex_val_def hex_digit_def Let_def)

lemma hex_decode_encode [simp]: "hex_DecodeString (hex_EncodeToString bs) = Some bs"
proof (induction bs)
  case (Cons b bs)
  have "unat b < 256" by (rule order_less_le_trans [OF unsigned_less]) simp
  then have "hex_val (hex_digit (unat b div 16)) = Some (unat b div 16)"
    "hex_val (hex_digit (unat b mod 16)) = Some (unat b mod 16)"
    by (simp_all add: hex_val_digit)
  then show ?case using Cons by simp
qed simp

lemma length_hex_DecodeString:
  "hex_DecodeString s = Some bs \<Longrightarrow> length s = 2 * length bs"
  by (induction s arbitrary: bs rule: hex_DecodeString.induct) (auto split: option.splits)

lemma length_PutUint64 [simp]: "length (PutUint64 v) = 8"
  by (simp add: PutUint64_def)

end
