(* ===== verification/CreationTree.thy ===== *)
theory CreationTree
  imports Prelude "HOL-Library.Multiset"
begin

text \<open>
  The creation tree of \<open>codec/creation_tree.go\<close>. The code links \<open>*node\<close> values
  by pointers and fills their \<open>actionIndex\<close> after they were attached to their parent, so
  the model keeps an explicit store: a list of nodes, addressed by position, that only grows.
  The recursion over the store takes fuel; the fuel used by \<open>computeCreationTree\<close> and
  \<open>toFlatTree\<close> is proved to be enough.
\<close>

record creationOp =
  op_kind :: string
  op_actionIndex :: int

record node =
  n_kind :: string
  n_actionIndex :: int
  n_children :: "nat list"

type_synonym node_store = "node list"

datatype tree_error = FirstOpNotRoot string | OpsMapEmptyEntry | TreeDiverges

definition creationOpsToMap :: "creationOp list \<Rightarrow> (int \<rightharpoonup> string list)" where
  "creationOpsToMap ops =
     fold (\<lambda>op m. m(op_actionIndex op \<mapsto>
             (case m (op_actionIndex op) of None \<Rightarrow> [] | Some ks \<Rightarrow> ks) @ [op_kind op]))
       ops Map.empty"

text \<open>Indexing a Go map with a missing key gives the nil slice.\<close>

definition ops_at :: "(int \<rightharpoonup> string list) \<Rightarrow> int \<Rightarrow> string list" where
  "ops_at opsMap i = (case opsMap i of None \<Rightarrow> [] | Some ks \<Rightarrow> ks)"

definition new_node :: "string \<Rightarrow> node" where
  "new_node k = \<lparr>n_kind = k, n_actionIndex = -1, n_children = []\<rparr>"

definition set_index :: "nat \<Rightarrow> int \<Rightarrow> node_store \<Rightarrow> node_store" where
  "set_index a i h = h[a := (h ! a)\<lparr>n_actionIndex := i\<rparr>]"

definition add_child :: "nat \<Rightarrow> string \<Rightarrow> node_store \<Rightarrow> node_store" where
  "add_child root k h =
     (h @ [new_node k])[root := (h ! root)\<lparr>n_children := n_children (h ! root) @ [length h]\<rparr>]"

fun recordChildCreationOp ::
  "nat \<Rightarrow> string list \<Rightarrow> node_store \<Rightarrow> nat list \<times> nat list \<times> nat list \<times> node_store" where
  "recordChildCreationOp root [] h = ([], [], [], h)"
| "recordChildCreationOp root (opKind # opKinds) h =
     (if opKind = ''ROOT'' then recordChildCreationOp root opKinds h
      else case recordChildCreationOp root opKinds (add_child root opKind h) of
             (notifies, cfas, inlines, h') \<Rightarrow>
               (if opKind = ''NOTIFY'' then length h # notifies else notifies,
                if opKind = ''CFA_INLINE'' then length h # cfas else cfas,
                if opKind = ''INLINE'' then length h # inlines else inlines,
                h'))"

definition executeNotify ::
  "int \<Rightarrow> nat \<Rightarrow> (int \<rightharpoonup> string list) \<Rightarrow> node_store \<Rightarrow>
   int \<times> nat list \<times> nat list \<times> nat list \<times> node_store" where
  "executeNotify actionIndex root opsMap h =
     (actionIndex + 1,
      recordChildCreationOp root (ops_at opsMap (actionIndex + 1))
        (set_index root (actionIndex + 1) h))"

text \<open>The first loop of \<open>executeAction\<close>: it walks \<open>notifies\<close> while its body
  appends to it.\<close>

fun notify_loop ::
  "nat \<Rightarrow> int \<Rightarrow> nat list \<Rightarrow> nat list \<Rightarrow> nat list \<Rightarrow> (int \<rightharpoonup> string list) \<Rightarrow> node_store \<Rightarrow>
   (int \<times> nat list \<times> nat list \<times> node_store) option" where
  "notify_loop fuel ai [] cfas inlines opsMap h = Some (ai, cfas, inlines, h)"
| "notify_loop 0 ai (n # notifies) cfas inlines opsMap h = None"
| "notify_loop (Suc fuel) ai (n # notifies) cfas inlines opsMap h =
     (case executeNotify ai n opsMap h of
        (ai', nestedNotifies, nestedCfas, nestedInlines, h') \<Rightarrow>
          notify_loop fuel ai' (notifies @ nestedNotifies) (cfas @ nestedCfas)
            (inlines @ nestedInlines) opsMap h')"

fun executeAction ::
    "nat \<Rightarrow> int \<Rightarrow> nat \<Rightarrow> (int \<rightharpoonup> string list) \<Rightarrow> node_store \<Rightarrow> (int \<times> node_store) option"
  and executeActions ::
    "nat \<Rightarrow> int \<Rightarrow> nat list \<Rightarrow> (int \<rightharpoonup> string list) \<Rightarrow> node_store \<Rightarrow> (int \<times> node_store) option"
  where
  "executeAction 0 actionIndex root opsMap h = None"
| "executeAction (Suc fuel) actionIndex root opsMap h =
     (case executeNotify actionIndex root opsMap h of
        (ai, notifies, cfas, inlines, h1) \<Rightarrow>
          (case notify_loop fuel ai notifies cfas inlines opsMap h1 of
             None \<Rightarrow> None
           | Some (ai1, cfas', inlines', h2) \<Rightarrow>
               (case executeActions fuel ai1 cfas' opsMap h2 of
                  None \<Rightarrow> None
                | Some (ai2, h3) \<Rightarrow> executeActions fuel ai2 inlines' opsMap h3)))"
| "executeActions fuel ai [] opsMap h = Some (ai, h)"
| "executeActions fuel ai (n # ns) opsMap h =
     (case executeAction fuel ai n opsMap h of
        None \<Rightarrow> None
      | Some (ai', h') \<Rightarrow> executeActions fuel ai' ns opsMap h')"

text \<open>The loop of \<open>computeCreationTree\<close> over the root actions.\<close>

fun root_loop ::
  "nat \<Rightarrow> int \<Rightarrow> nat list \<Rightarrow> (int \<rightharpoonup> string list) \<Rightarrow> node_store \<Rightarrow>
   tree_error + nat list \<times> node_store" where
  "root_loop fuel ai roots opsMap h =
     (case opsMap (ai + 1) of
        None \<Rightarrow> Inr (roots, h)
      | Some [] \<Rightarrow> Inl OpsMapEmptyEntry
      | Some (opKind # _) \<Rightarrow>
          if opKind \<noteq> ''ROOT'' then Inl (FirstOpNotRoot opKind)
          else case fuel of
                 0 \<Rightarrow> Inl TreeDiverges
               | Suc fuel' \<Rightarrow>
                   (case executeAction fuel' ai (length h) opsMap (h @ [new_node ''ROOT'']) of
                      None \<Rightarrow> Inl TreeDiverges
                    | Some (ai', h') \<Rightarrow>
                        root_loop fuel' ai' (roots @ [length h]) opsMap h'))"

declare root_loop.simps [simp del]

definition computeCreationTree ::
  "creationOp list \<Rightarrow> tree_error + nat list \<times> node_store" where
  "computeCreationTree ops =
     (if ops = [] then Inr ([], [])
      else root_loop (length ops + 2) (-1) [] (creationOpsToMap ops) [])"

type_synonym CreationFlatNode = "int \<times> int \<times> int"

fun to_flat ::
    "nat \<Rightarrow> node_store \<Rightarrow> nat \<Rightarrow> int \<Rightarrow> int \<Rightarrow> (CreationFlatNode list \<times> int) option"
  and to_flats ::
    "nat \<Rightarrow> node_store \<Rightarrow> nat list \<Rightarrow> int \<Rightarrow> int \<Rightarrow> (CreationFlatNode list \<times> int) option"
  where
  "to_flat 0 h root parentIndex walkIndex = None"
| "to_flat (Suc fuel) h root parentIndex walkIndex =
     (case to_flats fuel h (n_children (h ! root)) walkIndex walkIndex of
        None \<Rightarrow> None
      | Some (tree, walkIndex') \<Rightarrow>
          Some ((walkIndex, parentIndex, n_actionIndex (h ! root)) # tree, walkIndex'))"
| "to_flats fuel h [] parentIndex walkIndex = Some ([], walkIndex)"
| "to_flats fuel h (child # rest) parentIndex walkIndex =
     (case to_flat fuel h child parentIndex (walkIndex + 1) of
        None \<Rightarrow> None
      | Some (tree, walkIndex') \<Rightarrow>
          (case to_flats fuel h rest parentIndex walkIndex' of
             None \<Rightarrow> None
           | Some (tree', walkIndex'') \<Rightarrow> Some (tree @ tree', walkIndex'')))"

definition toFlatTree :: "nat list \<Rightarrow> node_store \<Rightarrow> CreationFlatNode list option" where
  "toFlatTree roots h = map_option fst (to_flats (Suc (length h)) h roots (-1) (-1))"

record CreationFlatNodePb =
  CreatorActionIndex :: "32 word"
  ExecutionActionIndex :: u32

definition CreationTreeToDEOS :: "CreationFlatNode list \<Rightarrow> CreationFlatNodePb list" where
  "CreationTreeToDEOS tree =
     map (\<lambda>(_, creator, execution).
       \<lparr>CreatorActionIndex = word_of_int creator, ExecutionActionIndex = word_of_int execution\<rparr>) tree"

section \<open>The operations by action index\<close>

definition creation_kinds :: "string set" where
  "creation_kinds = {''ROOT'', ''NOTIFY'', ''CFA_INLINE'', ''INLINE''}"

lemma creationOpsToMap_snoc:
  "creationOpsToMap (ops @ [op]) =
     (creationOpsToMap ops)(op_actionIndex op \<mapsto>
        ops_at (creationOpsToMap ops) (op_actionIndex op) @ [op_kind op])"
  by (simp add: creationOpsToMap_def ops_at_def)

lemma creationOpsToMap_eq:
  "creationOpsToMap ops i =
     (let ks = map op_kind (filter (\<lambda>op. op_actionIndex op = i) ops)
      in if ks = [] then None else Some ks)"
proof (induction ops rule: rev_induct)
  case Nil
  then show ?case by (simp add: creationOpsToMap_def)
next
  case (snoc op ops)
  then show ?case
    by (auto simp: creationOpsToMap_snoc ops_at_def Let_def split: if_splits)
qed

lemma ops_at_eq:
  "ops_at (creationOpsToMap ops) i = map op_kind (filter (\<lambda>op. op_actionIndex op = i) ops)"
  by (simp add: ops_at_def creationOpsToMap_eq Let_def)

definition ops_above :: "creationOp list \<Rightarrow> int \<Rightarrow> nat" where
  "ops_above ops ai = length (filter (\<lambda>op. ai < op_actionIndex op) ops)"

definition nonroot_upto :: "creationOp list \<Rightarrow> int \<Rightarrow> nat" where
  "nonroot_upto ops ai =
     length (filter (\<lambda>op. op_kind op \<noteq> ''ROOT'' \<and> 0 \<le> op_actionIndex op \<and> op_actionIndex op \<le> ai) ops)"

lemma ops_above_step:
  "ops_above ops ai = length (ops_at (creationOpsToMap ops) (ai + 1)) + ops_above ops (ai + 1)"
  unfolding ops_above_def ops_at_eq by (induction ops) auto

lemma ops_above_mono: "ai \<le> aj \<Longrightarrow> ops_above ops aj \<le> ops_above ops ai"
  unfolding ops_above_def by (induction ops) auto

lemma nonroot_upto_step:
  "-1 \<le> ai \<Longrightarrow> nonroot_upto ops (ai + 1) =
     nonroot_upto ops ai
     + length (filter (\<lambda>k. k \<noteq> ''ROOT'') (ops_at (creationOpsToMap ops) (ai + 1)))"
  unfolding nonroot_upto_def ops_at_eq by (induction ops) auto

section \<open>Termination: the fuel is enough\<close>

lemma recordChild_lengths:
  "recordChildCreationOp root ks h = (ns, cs, is, h') \<Longrightarrow>
     length ns + length cs + length is \<le> length ks"
  by (induction root ks h arbitrary: ns cs "is" h' rule: recordChildCreationOp.induct)
    (fastforce split: prod.splits if_splits)+

lemma executeNotify_bound:
  assumes "executeNotify ai root (creationOpsToMap ops) h = (ai', ns, cs, is, h')"
  shows "ai' = ai + 1"
    and "length ns + length cs + length is + ops_above ops ai' \<le> ops_above ops ai"
proof -
  from assms show ai': "ai' = ai + 1" by (simp add: executeNotify_def)
  from assms have "recordChildCreationOp root (ops_at (creationOpsToMap ops) (ai + 1))
      (set_index root (ai + 1) h) = (ns, cs, is, h')"
    by (auto simp: executeNotify_def)
  from recordChild_lengths [OF this]
  show "length ns + length cs + length is + ops_above ops ai' \<le> ops_above ops ai"
    unfolding ai' using ops_above_step [of ops ai] by simp
qed

lemma notify_loop_total:
  assumes "length q + ops_above ops ai \<le> fuel"
  shows "\<exists>ai' cs' is' h'.
    notify_loop fuel ai q cs is (creationOpsToMap ops) h = Some (ai', cs', is', h') \<and> ai \<le> ai' \<and>
    length cs' + length is' + ops_above ops ai' \<le> length q + length cs + length is + ops_above ops ai"
  using assms
proof (induction fuel arbitrary: ai q cs "is" h)
  case 0
  then show ?case by simp
next
  case (Suc fuel)
  show ?case
  proof (cases q)
    case Nil
    then show ?thesis by simp
  next
    case (Cons n q')
    obtain ai1 ns1 cs1 is1 h1 where
      e: "executeNotify ai n (creationOpsToMap ops) h = (ai1, ns1, cs1, is1, h1)"
      by (cases "executeNotify ai n (creationOpsToMap ops) h") auto
    note b = executeNotify_bound [OF e]
    have "length (q' @ ns1) + ops_above ops ai1 \<le> fuel"
      using Suc.prems b(2) Cons by simp
    from Suc.IH [OF this, of "cs @ cs1" "is @ is1" h1]
    show ?thesis using Cons e b by fastforce
  qed
qed

lemma executeActions_total_step:
  assumes step: "\<And>ai root h. ops_above ops ai < fuel \<Longrightarrow>
      \<exists>ai' h'. executeAction fuel ai root (creationOpsToMap ops) h = Some (ai', h') \<and> ai < ai'"
    and "xs \<noteq> [] \<longrightarrow> ops_above ops ai < fuel"
  shows "\<exists>ai' h'. executeActions fuel ai xs (creationOpsToMap ops) h = Some (ai', h') \<and> ai \<le> ai'"
  using assms(2)
proof (induction xs arbitrary: ai h)
  case (Cons n ns)
  then obtain ai1 h1 where a: "executeAction fuel ai n (creationOpsToMap ops) h = Some (ai1, h1)"
    "ai < ai1" using step by blast
  have "ns \<noteq> [] \<longrightarrow> ops_above ops ai1 < fuel"
    using Cons.prems ops_above_mono [of ai ai1 ops] a(2) by auto
  from Cons.IH [OF this, of h1] a show ?case by fastforce
qed simp

lemma executeAction_total:
  "ops_above ops ai < fuel \<Longrightarrow>
     \<exists>ai' h'. executeAction fuel ai root (creationOpsToMap ops) h = Some (ai', h') \<and> ai < ai'"
proof (induction fuel arbitrary: ai root h)
  case (Suc fuel)
  let ?m = "creationOpsToMap ops"
  note acts = executeActions_total_step [OF Suc.IH]
  obtain ai1 ns cs "is" h1 where e: "executeNotify ai root ?m h = (ai1, ns, cs, is, h1)"
    by (cases "executeNotify ai root ?m h") auto
  note b = executeNotify_bound [OF e]
  have "length ns + ops_above ops ai1 \<le> fuel" using Suc.prems b(2) by simp
  from notify_loop_total [OF this, of cs "is" h1] obtain ai2 cs2 is2 h2 where
    l: "notify_loop fuel ai1 ns cs is ?m h1 = Some (ai2, cs2, is2, h2)" "ai1 \<le> ai2"
    and le: "length cs2 + length is2 + ops_above ops ai2
      \<le> length ns + length cs + length is + ops_above ops ai1" by blast
  have "cs2 \<noteq> [] \<longrightarrow> ops_above ops ai2 < fuel"
    using le b(2) Suc.prems by (cases cs2) auto
  from acts [OF _ this, of h2]
  obtain ai3 h3 where c: "executeActions fuel ai2 cs2 ?m h2 = Some (ai3, h3)" "ai2 \<le> ai3" by blast
  have "is2 \<noteq> [] \<longrightarrow> ops_above ops ai3 < fuel"
    using le b(2) Suc.prems ops_above_mono [OF c(2), of ops] by (cases is2) auto
  from acts [OF _ this, of h3]
  obtain ai4 h4 where "executeActions fuel ai3 is2 ?m h3 = Some (ai4, h4)" "ai3 \<le> ai4" by blast
  then show ?case using e l c b(1) by simp
qed simp

lemma creationOpsToMap_not_Nil: "creationOpsToMap ops i \<noteq> Some []"
  by (simp add: creationOpsToMap_eq Let_def)

lemma root_loop_total:
  "ops_above ops ai + 2 \<le> fuel \<Longrightarrow>
     root_loop fuel ai roots (creationOpsToMap ops) h \<noteq> Inl TreeDiverges
     \<and> root_loop fuel ai roots (creationOpsToMap ops) h \<noteq> Inl OpsMapEmptyEntry"
proof (induction fuel arbitrary: ai roots h)
  case (Suc fuel)
  let ?m = "creationOpsToMap ops"
  show ?case
  proof (cases "?m (ai + 1)")
    case None
    then show ?thesis by (simp add: root_loop.simps)
  next
    case (Some ks)
    then obtain k ks' where ks: "ks = k # ks'"
      using creationOpsToMap_not_Nil [of ops "ai + 1"] by (cases ks) auto
    have "length (ops_at ?m (ai + 1)) \<ge> 1" using Some ks by (simp add: ops_at_def)
    then have less: "ops_above ops (ai + 1) < ops_above ops ai"
      using ops_above_step [of ops ai] by linarith
    have "ops_above ops ai < fuel" using Suc.prems by simp
    from executeAction_total [OF this] obtain ai' h' where
      e: "executeAction fuel ai (length h) ?m (h @ [new_node ''ROOT'']) = Some (ai', h')" "ai < ai'"
      by blast
    have "ops_above ops ai' + 2 \<le> fuel"
      using ops_above_mono [of "ai + 1" ai' ops] e(2) less Suc.prems by simp
    from Suc.IH [OF this, of "roots @ [length h]" h'] Some ks e show ?thesis
      by (simp add: root_loop.simps [of "Suc fuel"])
  qed
qed simp

section \<open>Invariant of the construction\<close>

text \<open>Every node of the store is a root or the child of exactly one node, and a child comes
  after its parent.\<close>

definition parents_of :: "node_store \<Rightarrow> nat \<Rightarrow> nat" where
  "parents_of h a = (\<Sum>p<length h. count_list (n_children (h ! p)) a)"

definition forest :: "nat list \<Rightarrow> node_store \<Rightarrow> bool" where
  "forest roots h \<longleftrightarrow>
     (\<forall>r\<in>set roots. r < length h)
     \<and> (\<forall>p<length h. \<forall>c\<in>set (n_children (h ! p)). p < c \<and> c < length h)
     \<and> (\<forall>a<length h. count_list roots a + parents_of h a = 1)"

definition pending :: "node_store \<Rightarrow> nat set" where
  "pending h = {a. a < length h \<and> n_actionIndex (h ! a) = -1}"

definition executed :: "node_store \<Rightarrow> nat set" where
  "executed h = {a. a < length h \<and> n_actionIndex (h ! a) \<noteq> -1}"

text \<open>The children of an executed node are the operations of its action index that are not
  \<open>ROOT\<close>, in their order; a node that was not executed has none.\<close>

definition kids_ok :: "creationOp list \<Rightarrow> node_store \<Rightarrow> bool" where
  "kids_ok ops h \<longleftrightarrow> (\<forall>a<length h. map (\<lambda>c. n_kind (h ! c)) (n_children (h ! a)) =
     (if n_actionIndex (h ! a) = -1 then []
      else filter (\<lambda>k. k \<noteq> ''ROOT'') (ops_at (creationOpsToMap ops) (n_actionIndex (h ! a)))))"

definition tree_inv :: "creationOp list \<Rightarrow> nat list \<Rightarrow> int \<Rightarrow> node_store \<Rightarrow> nat multiset \<Rightarrow> bool" where
  "tree_inv ops roots ai h todo \<longleftrightarrow>
     -1 \<le> ai \<and> forest roots h
     \<and> bij_betw (\<lambda>a. n_actionIndex (h ! a)) (executed h) {0..ai}
     \<and> mset_set (pending h) = todo
     \<and> length h = length roots + nonroot_upto ops ai
     \<and> kids_ok ops h"

lemma forest_roots: "forest roots h \<Longrightarrow> r \<in> set roots \<Longrightarrow> r < length h"
  unfolding forest_def by blast

lemma forest_children:
  "forest roots h \<Longrightarrow> p < length h \<Longrightarrow> c \<in> set (n_children (h ! p)) \<Longrightarrow> p < c \<and> c < length h"
  unfolding forest_def by blast

lemma forest_parents: "forest roots h \<Longrightarrow> a < length h \<Longrightarrow> count_list roots a + parents_of h a = 1"
  unfolding forest_def by blast

lemma finite_pending [simp]: "finite (pending h)"
  by (simp add: pending_def)

lemma count_list_notin: "x \<notin> set xs \<Longrightarrow> count_list xs x = 0"
  by (simp add: count_list_0_iff)

lemma length_add_child [simp]: "length (add_child root k h) = Suc (length h)"
  by (simp add: add_child_def)

lemma add_child_nth:
  assumes "root < length h"
  shows "a < length h \<Longrightarrow> n_actionIndex (add_child root k h ! a) = n_actionIndex (h ! a)"
    and "a < length h \<Longrightarrow> n_children (add_child root k h ! a) =
      (if a = root then n_children (h ! a) @ [length h] else n_children (h ! a))"
    and "add_child root k h ! length h = new_node k"
  using assms by (auto simp: add_child_def nth_append nth_list_update)

lemma parents_of_add_child:
  assumes "root < length h"
  shows "parents_of (add_child root k h) a = parents_of h a + (if a = length h then 1 else 0)"
proof -
  have "(\<Sum>p<length h. count_list (n_children (add_child root k h ! p)) a) =
      (\<Sum>p<length h. count_list (n_children (h ! p)) a
         + (if p = root then (if a = length h then 1 else 0) else 0))"
    using assms by (intro sum.cong) (auto simp: add_child_nth)
  also have "\<dots> = parents_of h a + (if a = length h then 1 else 0)"
    using assms by (simp add: sum.distrib parents_of_def)
  finally have "(\<Sum>p<length h. count_list (n_children (add_child root k h ! p)) a) =
      parents_of h a + (if a = length h then 1 else 0)" .
  moreover have "parents_of (add_child root k h) a =
      (\<Sum>p<length h. count_list (n_children (add_child root k h ! p)) a)
      + count_list (n_children (add_child root k h ! length h)) a"
    by (simp only: parents_of_def length_add_child sum.lessThan_Suc)
  ultimately show ?thesis
    by (simp only: add_child_nth(3) [OF assms] new_node_def node.select_convs count_list.simps
        add_0_right)
qed

lemma forest_add_child:
  assumes "forest roots h" and "root < length h"
  shows "forest roots (add_child root k h)"
proof -
  have kids: "\<forall>p<length h. length h \<notin> set (n_children (h ! p))" and "length h \<notin> set roots"
    using forest_children [OF assms(1)] forest_roots [OF assms(1)] by blast+
  then have fresh: "parents_of h (length h) = 0" "count_list roots (length h) = 0"
    by (auto simp: parents_of_def count_list_notin)
  show ?thesis
    unfolding forest_def
  proof (intro conjI ballI allI impI)
    fix r assume "r \<in> set roots"
    then show "r < length (add_child root k h)" using forest_roots [OF assms(1), of r] by simp
  next
    fix p c assume p: "p < length (add_child root k h)"
      and c: "c \<in> set (n_children (add_child root k h ! p))"
    then have "p \<noteq> length h" using assms(2) by (auto simp: add_child_nth new_node_def)
    then have "p < length h" using p by simp
    then have "c \<in> set (n_children (h ! p)) \<or> c = length h"
      using c assms(2) by (auto simp: add_child_nth(2) split: if_splits)
    then have "p < c \<and> c < Suc (length h)"
      using forest_children [OF assms(1) \<open>p < length h\<close>, of c] \<open>p < length h\<close> by auto
    then show "p < c" "c < length (add_child root k h)" by simp_all
  next
    fix a assume "a < length (add_child root k h)"
    then show "count_list roots a + parents_of (add_child root k h) a = 1"
      using assms(2) fresh forest_parents [OF assms(1)]
      by (auto simp: parents_of_add_child less_Suc_eq)
  qed
qed

lemma pending_add_child:
  "root < length h \<Longrightarrow> pending (add_child root k h) = insert (length h) (pending h)"
  by (auto simp: pending_def add_child_nth new_node_def less_Suc_eq)

lemma executed_add_child: "root < length h \<Longrightarrow> executed (add_child root k h) = executed h"
  by (auto simp: executed_def add_child_nth new_node_def less_Suc_eq)

lemma pending_less: "a \<in> pending h \<Longrightarrow> a < length h"
  by (simp add: pending_def)

lemma length_notin_pending: "length h \<notin> pending h"
  by (simp add: pending_def)

text \<open>Recording the children of one action: the new nodes are exactly the addresses handed
  out, all of them pending.\<close>

lemma recordChild_inv:
  assumes "recordChildCreationOp root ks h = (ns, cs, is, h')"
    and "root < length h" and "set ks \<subseteq> creation_kinds" and "forest roots h"
  shows "forest roots h' \<and> length h' = length h + length (filter (\<lambda>k. k \<noteq> ''ROOT'') ks)
    \<and> (\<forall>a<length h. n_actionIndex (h' ! a) = n_actionIndex (h ! a))
    \<and> executed h' = executed h
    \<and> mset_set (pending h') = mset_set (pending h) + mset ns + mset cs + mset is"
  using assms
proof (induction root ks h arbitrary: ns cs "is" h' rule: recordChildCreationOp.induct)
  case (1 root h)
  then show ?case by simp
next
  case (2 root k ks h)
  show ?case
  proof (cases "k = ''ROOT''")
    case True
    then show ?thesis using 2 by simp
  next
    case False
    let ?h = "add_child root k h"
    obtain ns1 cs1 is1 h1 where r: "recordChildCreationOp root ks ?h = (ns1, cs1, is1, h1)"
      by (cases "recordChildCreationOp root ks ?h") auto
    have IH: "forest roots h1 \<and> length h1 = length ?h + length (filter (\<lambda>k. k \<noteq> ''ROOT'') ks)
        \<and> (\<forall>a<length ?h. n_actionIndex (h1 ! a) = n_actionIndex (?h ! a))
        \<and> executed h1 = executed ?h
        \<and> mset_set (pending h1) = mset_set (pending ?h) + mset ns1 + mset cs1 + mset is1"
      using "2.IH"(2) [OF False r] "2.prems" False by (simp add: forest_add_child)
    have new: "mset_set (pending ?h) = add_mset (length h) (mset_set (pending h))"
      using "2.prems"(2) by (simp add: pending_add_child [OF "2.prems"(2)] length_notin_pending)
    have kind: "k = ''NOTIFY'' \<or> k = ''CFA_INLINE'' \<or> k = ''INLINE''"
      using "2.prems"(3) False by (auto simp: creation_kinds_def)
    have "h' = h1" and "mset ns + mset cs + mset is =
        add_mset (length h) (mset ns1 + mset cs1 + mset is1)"
      using "2.prems"(1) False r kind by auto
    then show ?thesis
      using IH new False "2.prems"(2)
      by (simp add: add_child_nth executed_add_child ac_simps)
  qed
qed

lemma recordChild_nodes:
  assumes "recordChildCreationOp root ks h = (ns, cs, is, h')" and "root < length h"
  shows "length h' = length h + length (filter (\<lambda>k. k \<noteq> ''ROOT'') ks)
    \<and> (\<forall>a<length h. n_kind (h' ! a) = n_kind (h ! a) \<and> n_actionIndex (h' ! a) = n_actionIndex (h ! a)
         \<and> n_children (h' ! a) = n_children (h ! a) @ (if a = root then [length h..<length h'] else []))
    \<and> (\<forall>a<length h'. length h \<le> a \<longrightarrow>
         h' ! a = new_node (filter (\<lambda>k. k \<noteq> ''ROOT'') ks ! (a - length h)))"
  using assms
proof (induction root ks h arbitrary: ns cs "is" h' rule: recordChildCreationOp.induct)
  case (2 root k ks h)
  show ?case
  proof (cases "k = ''ROOT''")
    case True
    then show ?thesis using 2 by simp
  next
    case False
    let ?h = "add_child root k h"
    obtain ns1 cs1 is1 where r: "recordChildCreationOp root ks ?h = (ns1, cs1, is1, h')"
      using "2.prems"(1) False by (auto split: prod.splits)
    note IH = "2.IH"(2) [OF False r, simplified, OF less_SucI [OF "2.prems"(2)]]
    have kind: "n_kind (?h ! a) = n_kind (h ! a)" if "a < length h" for a
      using that "2.prems"(2) by (auto simp: add_child_def nth_append nth_list_update)
    have new: "h' ! a = new_node (filter (\<lambda>k. k \<noteq> ''ROOT'') (k # ks) ! (a - length h))"
      if "a < length h'" "length h \<le> a" for a
    proof (cases "a = length h")
      case True
      have "n_kind (?h ! a) = k" "n_actionIndex (?h ! a) = -1" "n_children (?h ! a) = []"
        using add_child_nth(3) [OF "2.prems"(2)] True by (simp_all add: new_node_def)
      then show ?thesis
        using IH [THEN conjunct2, THEN conjunct1, rule_format, of a] True False "2.prems"(2)
        by (simp add: new_node_def)
    next
      case False
      then show ?thesis
        using IH that \<open>k \<noteq> ''ROOT''\<close> by (simp add: nth_Cons' Suc_diff_Suc le_neq_implies_less)
    qed
    have "[length h..<length h'] = length h # [Suc (length h)..<length h']"
      using IH by (intro upt_conv_Cons) simp
    then show ?thesis
      using IH new False "2.prems"(2) by (simp add: kind add_child_nth)
  qed
qed simp

lemma set_index_props:
  assumes "root \<in> pending h" and "i \<noteq> -1"
  shows "length (set_index root i h) = length h"
    and "forest roots (set_index root i h) \<longleftrightarrow> forest roots h"
    and "pending (set_index root i h) = pending h - {root}"
    and "executed (set_index root i h) = insert root (executed h)"
    and "a < length h \<Longrightarrow> n_actionIndex (set_index root i h ! a) =
           (if a = root then i else n_actionIndex (h ! a))"
proof -
  have lt: "root < length h" using assms by (rule_tac pending_less)
  have kids: "n_children (set_index root i h ! p) = n_children (h ! p)" if "p < length h" for p
    using lt that by (auto simp: set_index_def nth_list_update)
  show len: "length (set_index root i h) = length h" by (simp add: set_index_def)
  have "parents_of (set_index root i h) = parents_of h"
    by (auto simp: parents_of_def len kids fun_eq_iff intro!: sum.cong)
  then show "forest roots (set_index root i h) \<longleftrightarrow> forest roots h"
    by (simp add: forest_def len kids)
  show idx: "n_actionIndex (set_index root i h ! a) = (if a = root then i else n_actionIndex (h ! a))"
    if "a < length h" for a
    using lt that by (auto simp: set_index_def nth_list_update)
  show "pending (set_index root i h) = pending h - {root}"
    "executed (set_index root i h) = insert root (executed h)"
    using lt assms by (auto simp: pending_def executed_def len idx split: if_splits)
qed

lemma bij_betw_set_index:
  assumes "root \<in> pending h" and "-1 \<le> ai"
    and "bij_betw (\<lambda>a. n_actionIndex (h ! a)) (executed h) {0..ai}"
  shows "bij_betw (\<lambda>a. n_actionIndex (set_index root (ai + 1) h ! a))
      (executed (set_index root (ai + 1) h)) {0..ai + 1}"
proof -
  have ne: "ai + 1 \<noteq> -1" using assms(2) by simp
  note props = set_index_props [OF assms(1) ne]
  let ?f = "\<lambda>a. n_actionIndex (set_index root (ai + 1) h ! a)"
  have "root \<notin> executed h" using assms(1) by (auto simp: pending_def executed_def)
  have "bij_betw ?f (executed h) {0..ai} \<longleftrightarrow>
      bij_betw (\<lambda>a. n_actionIndex (h ! a)) (executed h) {0..ai}"
  proof (rule bij_betw_cong)
    fix a assume "a \<in> executed h"
    then have "a < length h" "a \<noteq> root" using \<open>root \<notin> executed h\<close> by (auto simp: executed_def)
    then show "?f a = n_actionIndex (h ! a)" using props(5) by simp
  qed
  then have "bij_betw ?f (executed h) {0..ai}" using assms(3) by simp
  moreover have "?f root = ai + 1" using props(5) [of root] pending_less [OF assms(1)] by simp
  ultimately have "bij_betw ?f (executed h \<union> {root}) ({0..ai} \<union> {ai + 1})"
    using notIn_Un_bij_betw [of root "executed h" ?f "{0..ai}"] \<open>root \<notin> executed h\<close> by simp
  moreover have "{0..ai} \<union> {ai + 1} = {0..ai + 1}" using assms(2) by auto
  ultimately show ?thesis by (simp add: props)
qed

definition kinds_ok :: "creationOp list \<Rightarrow> bool" where
  "kinds_ok ops \<longleftrightarrow> (\<forall>op\<in>set ops. op_kind op \<in> creation_kinds)"

lemma tree_inv_pending: "tree_inv ops roots ai h (add_mset a M) \<Longrightarrow> a \<in> pending h"
  unfolding tree_inv_def by (metis finite_pending finite_set_mset_mset_set union_single_eq_member
      add_mset_add_single)

lemma kids_ok_executeNotify:
  assumes "kids_ok ops h" and "forest roots h" and root: "root \<in> pending h" and ai: "ai + 1 \<noteq> -1"
    and r: "recordChildCreationOp root (ops_at (creationOpsToMap ops) (ai + 1))
      (set_index root (ai + 1) h) = (ns, cs, is, h')"
  shows "kids_ok ops h'"
  unfolding kids_ok_def
proof (intro allI impI)
  let ?h = "set_index root (ai + 1) h" and ?m = "creationOpsToMap ops"
  let ?fks = "filter (\<lambda>k. k \<noteq> ''ROOT'') (ops_at ?m (ai + 1))"
  note lt = pending_less [OF root]
  have len: "length ?h = length h" by (simp add: set_index_def)
  have h: "n_kind (?h ! a) = n_kind (h ! a)" "n_children (?h ! a) = n_children (h ! a)"
    "n_actionIndex (?h ! a) = (if a = root then ai + 1 else n_actionIndex (h ! a))"
    if "a < length h" for a
    using that lt by (auto simp: set_index_def nth_list_update)
  note rn = recordChild_nodes [OF r, unfolded len, OF lt]
  have kind: "n_kind (h' ! c) = n_kind (h ! c)" if "c < length h" for c
    using rn that by (simp add: h)
  have kids: "map (\<lambda>c. n_kind (h' ! c)) (n_children (h ! a)) = map (\<lambda>c. n_kind (h ! c)) (n_children (h ! a))"
    if "a < length h" for a
    using forest_children [OF assms(2) that] kind by simp
  have new: "map (\<lambda>c. n_kind (h' ! c)) [length h..<length h'] = ?fks"
    using rn by (intro nth_equalityI) (auto simp: new_node_def)
  fix a assume a: "a < length h'"
  show "map (\<lambda>c. n_kind (h' ! c)) (n_children (h' ! a)) =
     (if n_actionIndex (h' ! a) = -1 then []
      else filter (\<lambda>k. k \<noteq> ''ROOT'') (ops_at ?m (n_actionIndex (h' ! a))))"
  proof (cases "a < length h")
    case True
    then have "map (\<lambda>c. n_kind (h ! c)) (n_children (h ! a)) =
       (if n_actionIndex (h ! a) = -1 then []
        else filter (\<lambda>k. k \<noteq> ''ROOT'') (ops_at ?m (n_actionIndex (h ! a))))"
      using assms(1) by (simp add: kids_ok_def)
    moreover have "n_actionIndex (h ! root) = -1" using root by (simp add: pending_def)
    ultimately show ?thesis
      using rn True ai new by (simp add: h kids)
  next
    case False
    then show ?thesis using rn a by (simp add: new_node_def)
  qed
qed

text \<open>One action, root or notification, gets the next index and its children recorded.\<close>

lemma executeNotify_inv:
  assumes kinds: "kinds_ok ops" and inv: "tree_inv ops roots ai h (add_mset root M)"
    and e: "executeNotify ai root (creationOpsToMap ops) h = (ai', ns, cs, is, h')"
  shows "tree_inv ops roots ai' h' (M + mset ns + mset cs + mset is)"
proof -
  let ?ks = "ops_at (creationOpsToMap ops) (ai + 1)"
  let ?h = "set_index root (ai + 1) h"
  have pend: "root \<in> pending h" using inv by (rule tree_inv_pending)
  have ai: "-1 \<le> ai" "ai + 1 \<noteq> -1" and forest: "forest roots h"
    and bij: "bij_betw (\<lambda>a. n_actionIndex (h ! a)) (executed h) {0..ai}"
    and todo: "mset_set (pending h) = add_mset root M"
    and len: "length h = length roots + nonroot_upto ops ai" and kids: "kids_ok ops h"
    using inv by (auto simp: tree_inv_def)
  note props = set_index_props [OF pend ai(2)]
  have r: "ai' = ai + 1" "recordChildCreationOp root ?ks ?h = (ns, cs, is, h')"
    using e by (auto simp: executeNotify_def)
  have sub: "set ?ks \<subseteq> creation_kinds" using kinds by (auto simp: ops_at_eq kinds_ok_def)
  have lt: "root < length ?h" using pending_less [OF pend] props(1) by simp
  note rc = recordChild_inv [OF r(2) lt sub, of roots, unfolded props(2), OF forest]
  have "bij_betw (\<lambda>a. n_actionIndex (h' ! a)) (executed h') {0..ai + 1} \<longleftrightarrow>
      bij_betw (\<lambda>a. n_actionIndex (?h ! a)) (executed ?h) {0..ai + 1}"
    unfolding rc [THEN conjunct2, THEN conjunct2, THEN conjunct2, THEN conjunct1]
    using rc by (intro bij_betw_cong) (simp add: executed_def)
  then have "bij_betw (\<lambda>a. n_actionIndex (h' ! a)) (executed h') {0..ai + 1}"
    using bij_betw_set_index [OF pend ai(1) bij] by simp
  moreover have "mset_set (pending ?h) = M"
    unfolding props(3) using todo pend by (simp add: mset_set_Diff)
  ultimately show ?thesis
    using rc ai r(1) len props(1) kids_ok_executeNotify [OF kids forest pend ai(2) r(2)]
    by (simp add: tree_inv_def nonroot_upto_step)
qed

lemma notify_loop_inv:
  assumes "kinds_ok ops"
    and "notify_loop fuel ai q cs is (creationOpsToMap ops) h = Some (ai', cs', is', h')"
    and "tree_inv ops roots ai h (M + mset q + mset cs + mset is)"
  shows "tree_inv ops roots ai' h' (M + mset cs' + mset is')"
  using assms(2,3)
proof (induction fuel arbitrary: ai q cs "is" h)
  case 0
  then show ?case by (cases q) auto
next
  case (Suc fuel)
  show ?case
  proof (cases q)
    case Nil
    then show ?thesis using Suc.prems by simp
  next
    case (Cons n q')
    obtain ai1 ns1 cs1 is1 h1 where
      e: "executeNotify ai n (creationOpsToMap ops) h = (ai1, ns1, cs1, is1, h1)"
      by (cases "executeNotify ai n (creationOpsToMap ops) h") auto
    have "tree_inv ops roots ai h (add_mset n (M + mset q' + mset cs + mset is))"
      using Suc.prems(2) Cons by simp
    from executeNotify_inv [OF assms(1) this e] show ?thesis
      using Suc.prems(1) Cons e by (intro Suc.IH) (auto simp: ac_simps)
  qed
qed

lemma executeActions_inv_step:
  assumes step: "\<And>ai root h ai' h' M. executeAction fuel ai root (creationOpsToMap ops) h = Some (ai', h') \<Longrightarrow>
      tree_inv ops roots ai h (add_mset root M) \<Longrightarrow> tree_inv ops roots ai' h' M"
    and "executeActions fuel ai xs (creationOpsToMap ops) h = Some (ai', h')"
    and "tree_inv ops roots ai h (M + mset xs)"
  shows "tree_inv ops roots ai' h' M"
  using assms(2,3)
proof (induction xs arbitrary: ai h)
  case (Cons n ns)
  then obtain ai1 h1 where a: "executeAction fuel ai n (creationOpsToMap ops) h = Some (ai1, h1)"
    "executeActions fuel ai1 ns (creationOpsToMap ops) h1 = Some (ai', h')"
    by (auto split: option.splits)
  have "tree_inv ops roots ai1 h1 (M + mset ns)"
    using step [OF a(1)] Cons.prems(2) by simp
  then show ?case using Cons.IH [OF a(2)] by simp
qed simp

lemma executeAction_inv:
  assumes "kinds_ok ops"
  shows "executeAction fuel ai root (creationOpsToMap ops) h = Some (ai', h') \<Longrightarrow>
    tree_inv ops roots ai h (add_mset root M) \<Longrightarrow> tree_inv ops roots ai' h' M"
proof (induction fuel arbitrary: ai root h ai' h' M)
  case (Suc fuel)
  let ?m = "creationOpsToMap ops"
  note acts = executeActions_inv_step [where fuel = fuel and ops = ops and roots = roots]
  obtain ai1 ns cs "is" h1 where e: "executeNotify ai root ?m h = (ai1, ns, cs, is, h1)"
    by (cases "executeNotify ai root ?m h") auto
  obtain ai2 cs2 is2 h2 ai3 h3 where
    l: "notify_loop fuel ai1 ns cs is ?m h1 = Some (ai2, cs2, is2, h2)"
    and c: "executeActions fuel ai2 cs2 ?m h2 = Some (ai3, h3)"
    and i: "executeActions fuel ai3 is2 ?m h3 = Some (ai', h')"
    using Suc.prems(1) e by (auto split: option.splits)
  have "tree_inv ops roots ai1 h1 (M + mset ns + mset cs + mset is)"
    using executeNotify_inv [OF assms Suc.prems(2) e] .
  from notify_loop_inv [OF assms l this]
  have "tree_inv ops roots ai2 h2 ((M + mset is2) + mset cs2)" by (simp add: ac_simps)
  then have "tree_inv ops roots ai3 h3 (M + mset is2)"
    by (intro acts [OF Suc.IH c]) auto
  then show ?case by (intro acts [OF Suc.IH i]) auto
qed simp

lemma tree_inv_new_root:
  assumes "tree_inv ops roots ai h {#}"
  shows "tree_inv ops (roots @ [length h]) ai (h @ [new_node ''ROOT'']) {#length h#}"
proof -
  let ?h = "h @ [new_node ''ROOT'']"
  have forest: "forest roots h" and kids: "kids_ok ops h" using assms by (simp_all add: tree_inv_def)
  have nth: "?h ! a = (if a < length h then h ! a else new_node ''ROOT'')" if "a < length ?h" for a
    using that by (auto simp: nth_append)
  have "(\<Sum>p<length h. count_list (n_children (?h ! p)) a)
      = (\<Sum>p<length h. count_list (n_children (h ! p)) a)" for a
    by (intro sum.cong) (auto simp: nth_append)
  then have par: "parents_of ?h a = parents_of h a" for a
    by (simp add: parents_of_def new_node_def)
  have "\<forall>p<length h. length h \<notin> set (n_children (h ! p))" and "length h \<notin> set roots"
    using forest_children [OF forest] forest_roots [OF forest] by blast+
  then have fresh: "parents_of h (length h) = 0" "count_list roots (length h) = 0"
    by (auto simp: parents_of_def count_list_notin)
  have "forest (roots @ [length h]) ?h"
    unfolding forest_def
  proof (intro conjI ballI allI impI)
    fix r assume "r \<in> set (roots @ [length h])"
    then show "r < length ?h" using forest_roots [OF forest, of r] by auto
  next
    fix p c assume "p < length ?h" and c: "c \<in> set (n_children (?h ! p))"
    then have "p < length h" and "c \<in> set (n_children (h ! p))"
      by (cases "p = length h"; simp add: nth_append new_node_def split: if_splits)+
    from forest_children [OF forest this] show "p < c" "c < length ?h" by simp_all
  next
    fix a assume "a < length ?h"
    then show "count_list (roots @ [length h]) a + parents_of ?h a = 1"
      using fresh forest_parents [OF forest, of a] par by (auto simp: less_Suc_eq)
  qed
  moreover have "pending ?h = insert (length h) (pending h)"
    by (auto simp: pending_def nth_append new_node_def less_Suc_eq)
  with assms have "mset_set (pending ?h) = {#length h#}"
    using mset_set.insert [OF finite_pending length_notin_pending, of h] by (simp add: tree_inv_def)
  moreover have "executed ?h = executed h"
    by (auto simp: executed_def nth_append new_node_def less_Suc_eq)
  moreover have "bij_betw (\<lambda>a. n_actionIndex (?h ! a)) (executed h) {0..ai} \<longleftrightarrow>
      bij_betw (\<lambda>a. n_actionIndex (h ! a)) (executed h) {0..ai}"
    by (rule bij_betw_cong) (auto simp: executed_def nth_append)
  moreover have "kids_ok ops ?h"
    unfolding kids_ok_def
  proof (intro allI impI)
    fix a assume "a < length ?h"
    have "map (\<lambda>c. n_kind (?h ! c)) (n_children (h ! a)) = map (\<lambda>c. n_kind (h ! c)) (n_children (h ! a))"
      if "a < length h"
      using forest_children [OF forest that] by (simp add: nth_append)
    then show "map (\<lambda>c. n_kind (?h ! c)) (n_children (?h ! a)) =
       (if n_actionIndex (?h ! a) = -1 then []
        else filter (\<lambda>k. k \<noteq> ''ROOT'') (ops_at (creationOpsToMap ops) (n_actionIndex (?h ! a))))"
      using kids unfolding kids_ok_def nth [OF \<open>a < length ?h\<close>]
      by (cases "a < length h") (simp only: if_True, simp add: new_node_def)
  qed
  ultimately show ?thesis
    using assms by (simp add: tree_inv_def)
qed

lemma root_loop_inv:
  assumes "kinds_ok ops"
    and "root_loop fuel ai roots (creationOpsToMap ops) h = Inr (roots', h')"
    and "tree_inv ops roots ai h {#}"
  shows "\<exists>ai'. tree_inv ops roots' ai' h' {#}"
  using assms(2,3)
proof (induction fuel arbitrary: ai roots h)
  case 0
  then show ?case by (auto simp: root_loop.simps split: option.splits list.splits if_splits)
next
  case (Suc fuel)
  let ?m = "creationOpsToMap ops"
  show ?case
  proof (cases "?m (ai + 1)")
    case None
    then show ?thesis using Suc.prems by (auto simp: root_loop.simps [of "Suc fuel"])
  next
    case (Some ks)
    then obtain ai1 h1 where
      e: "executeAction fuel ai (length h) ?m (h @ [new_node ''ROOT'']) = Some (ai1, h1)"
      and r: "root_loop fuel ai1 (roots @ [length h]) ?m h1 = Inr (roots', h')"
      using Suc.prems(1)
      by (auto simp: root_loop.simps [of "Suc fuel"] split: option.splits list.splits if_splits)
    from executeAction_inv [OF assms(1) e, of _ "{#}"] tree_inv_new_root [OF Suc.prems(2)]
    have "tree_inv ops (roots @ [length h]) ai1 h1 {#}" by simp
    then show ?thesis by (rule Suc.IH [OF r])
  qed
qed

section \<open>Depth-first order of the store\<close>

primrec preorder :: "nat \<Rightarrow> node_store \<Rightarrow> nat \<Rightarrow> nat list" where
  "preorder 0 h r = []"
| "preorder (Suc fuel) h r = r # concat (map (preorder fuel h) (n_children (h ! r)))"

definition preorders :: "node_store \<Rightarrow> nat list \<Rightarrow> nat list" where
  "preorders h xs = concat (map (preorder (length h) h) xs)"

lemma preorders_simps [simp]:
  "preorders h [] = []"
  "preorders h (x # xs) = preorder (length h) h x @ preorders h xs"
  by (simp_all add: preorders_def)

lemma preorder_fuel:
  assumes "forest roots h"
  shows "r < length h \<Longrightarrow> length h - r \<le> f \<Longrightarrow> length h - r \<le> g \<Longrightarrow> preorder f h r = preorder g h r"
proof (induction "length h - r" arbitrary: r f g rule: less_induct)
  case less
  obtain f' g' where fg: "f = Suc f'" "g = Suc g'"
    using less.prems by (cases f; cases g) auto
  have "preorder f' h c = preorder g' h c" if "c \<in> set (n_children (h ! r))" for c
    using forest_children [OF assms less.prems(1) that] less.prems fg by (intro less.hyps) auto
  then have "map (preorder f' h) (n_children (h ! r)) = map (preorder g' h) (n_children (h ! r))"
    by simp
  then show ?case by (simp only: fg preorder.simps)
qed

lemma preorder_unfold:
  assumes "forest roots h" and "r < length h"
  shows "preorder (length h) h r = r # preorders h (n_children (h ! r))"
proof -
  obtain n where n: "length h = Suc n" using assms(2) by (cases "length h") auto
  have "preorder n h c = preorder (Suc n) h c" if "c \<in> set (n_children (h ! r))" for c
    using forest_children [OF assms that] n by (intro preorder_fuel [OF assms(1)]) auto
  then have "map (preorder n h) (n_children (h ! r)) = map (preorder (Suc n) h) (n_children (h ! r))"
    by simp
  then show ?thesis by (simp only: n preorder.simps preorders_def)
qed

lemma count_preorders_of:
  assumes "\<And>x. x \<in> set xs \<Longrightarrow> count_list (preorder (length h) h x) a =
      (if x = a then 1 else 0) + (\<Sum>p<length h. count_list (preorder (length h) h x) p * k p)"
  shows "count_list (preorders h xs) a =
      count_list xs a + (\<Sum>p<length h. count_list (preorders h xs) p * k p)"
  using assms
proof (induction xs)
  case (Cons x xs)
  then have "count_list (preorders h xs) a =
      count_list xs a + (\<Sum>p<length h. count_list (preorders h xs) p * k p)" by simp
  with Cons.prems [of x] show ?case
    by (simp add: sum.distrib add_mult_distrib)
qed simp

lemma count_preorder:
  assumes "forest roots h"
  shows "r < length h \<Longrightarrow> count_list (preorder (length h) h r) a =
    (if r = a then 1 else 0)
    + (\<Sum>p<length h. count_list (preorder (length h) h r) p * count_list (n_children (h ! p)) a)"
proof (induction "length h - r" arbitrary: r rule: less_induct)
  case less
  let ?P = "preorders h (n_children (h ! r))" and ?k = "\<lambda>p. count_list (n_children (h ! p)) a"
  have "count_list ?P a = ?k r + (\<Sum>p<length h. count_list ?P p * ?k p)"
    using forest_children [OF assms less.prems]
    by (intro count_preorders_of less.hyps) (fastforce intro: diff_less_mono2 dest: less_trans)+
  moreover have "(\<Sum>p<length h. count_list (r # ?P) p * ?k p)
      = (\<Sum>p<length h. (if p = r then ?k r else 0) + count_list ?P p * ?k p)"
    by (rule sum.cong) auto
  then have "(\<Sum>p<length h. count_list (r # ?P) p * ?k p)
      = ?k r + (\<Sum>p<length h. count_list ?P p * ?k p)"
    using less.prems by (simp only: sum.distrib) simp
  ultimately show ?case
    unfolding preorder_unfold [OF assms less.prems] by (cases "r = a") simp_all
qed

lemma preorder_below:
  assumes "forest roots h"
  shows "r < length h \<Longrightarrow> set (preorder (length h) h r) \<subseteq> {..<length h}"
proof (induction "length h - r" arbitrary: r rule: less_induct)
  case less
  have "set (preorder (length h) h c) \<subseteq> {..<length h}" if "c \<in> set (n_children (h ! r))" for c
    using forest_children [OF assms less.prems that] by (intro less.hyps) auto
  then show ?case
    using less.prems unfolding preorder_unfold [OF assms less.prems] preorders_def by auto
qed

text \<open>The walk from the roots meets every node exactly once.\<close>

lemma preorders_perm:
  assumes "forest roots h"
  shows "mset (preorders h roots) = mset [0..<length h]"
proof (rule multiset_eqI)
  fix a
  let ?N = "count_list (preorders h roots)"
  have eq: "?N b = count_list roots b + (\<Sum>p<length h. ?N p * count_list (n_children (h ! p)) b)" for b
    using count_preorder [OF assms] forest_roots [OF assms] by (intro count_preorders_of) auto
  have one: "b < length h \<Longrightarrow> ?N b = 1" for b
  proof (induction b rule: less_induct)
    case (less b)
    have "?N p * count_list (n_children (h ! p)) b = count_list (n_children (h ! p)) b"
      if "p < length h" for p
      using forest_children [OF assms that, of b] less.IH [of p] that
      by (cases "b \<in> set (n_children (h ! p))") (auto simp: count_list_notin)
    then have "(\<Sum>p<length h. ?N p * count_list (n_children (h ! p)) b) = parents_of h b"
      unfolding parents_of_def by (intro sum.cong) auto
    then show ?case using eq [of b] forest_parents [OF assms less.prems] by simp
  qed
  have "a \<notin> set (preorders h roots)" if "\<not> a < length h"
    using that preorder_below [OF assms] forest_roots [OF assms]
    unfolding preorders_def by fastforce
  then show "count (mset (preorders h roots)) a = count (mset [0..<length h]) a"
    using one [of a] by (cases "a < length h") (simp_all add: count_mset count_list_notin)
qed

section \<open>Flattening\<close>

text \<open>\<open>flat_ok\<close>: entry \<open>i\<close> of the flat tree carries the walk index \<open>base + i\<close> and the
  execution index of the \<open>i\<close>-th node of the walk; its parent index is \<open>p\<close> for the nodes
  \<open>xs\<close> of the top level and otherwise the walk index of the node that lists it as a child.\<close>

definition flat_ok ::
  "node_store \<Rightarrow> nat list \<Rightarrow> int \<Rightarrow> int \<Rightarrow> nat list \<Rightarrow> CreationFlatNode list \<Rightarrow> bool" where
  "flat_ok h xs p base pre t \<longleftrightarrow> length t = length pre \<and>
     (\<forall>i<length pre. \<exists>y. t ! i = (base + int i, y, n_actionIndex (h ! (pre ! i))) \<and>
        (y = p \<and> pre ! i \<in> set xs
         \<or> (\<exists>j<i. y = base + int j \<and> pre ! i \<in> set (n_children (h ! (pre ! j))))))"

lemma flat_ok_append:
  assumes "flat_ok h xs p base pre t" and "flat_ok h ys p (base + int (length pre)) pre' t'"
  shows "flat_ok h (xs @ ys) p base (pre @ pre') (t @ t')"
  unfolding flat_ok_def
proof (intro conjI allI impI)
  show "length (t @ t') = length (pre @ pre')" using assms by (simp add: flat_ok_def)
  fix i assume i: "i < length (pre @ pre')"
  show "\<exists>y. (t @ t') ! i = (base + int i, y, n_actionIndex (h ! ((pre @ pre') ! i))) \<and>
        (y = p \<and> (pre @ pre') ! i \<in> set (xs @ ys)
         \<or> (\<exists>j<i. y = base + int j \<and> (pre @ pre') ! i \<in> set (n_children (h ! ((pre @ pre') ! j)))))"
  proof (cases "i < length pre")
    case True
    with assms(1) show ?thesis by (fastforce simp: flat_ok_def nth_append)
  next
    case False
    then obtain k where k: "i = length pre + k" "k < length pre'"
      using i by (metis add_less_cancel_left le_add_diff_inverse length_append not_less)
    with assms obtain y where y: "t' ! k = (base + int i, y, n_actionIndex (h ! (pre' ! k)))"
      "y = p \<and> pre' ! k \<in> set ys
       \<or> (\<exists>j<k. y = base + int (length pre) + int j \<and> pre' ! k \<in> set (n_children (h ! (pre' ! j))))"
      by (force simp: flat_ok_def)
    have "\<exists>j<i. y = base + int j \<and> pre' ! k \<in> set (n_children (h ! ((pre @ pre') ! j)))"
      if "j < k" "y = base + int (length pre) + int j" "pre' ! k \<in> set (n_children (h ! (pre' ! j)))"
      for j
      using that k by (intro exI [of _ "length pre + j"]) simp
    with y assms(1) k show ?thesis by (auto simp: flat_ok_def nth_append)
  qed
qed

lemma flat_ok_node:
  assumes "flat_ok h (n_children (h ! r)) base (base + 1) pre t"
  shows "flat_ok h [r] p base (r # pre) ((base, p, n_actionIndex (h ! r)) # t)"
  unfolding flat_ok_def
proof (intro conjI allI impI)
  show "length ((base, p, n_actionIndex (h ! r)) # t) = length (r # pre)"
    using assms by (simp add: flat_ok_def)
  fix i assume i: "i < length (r # pre)"
  show "\<exists>y. ((base, p, n_actionIndex (h ! r)) # t) ! i
          = (base + int i, y, n_actionIndex (h ! ((r # pre) ! i))) \<and>
        (y = p \<and> (r # pre) ! i \<in> set [r]
         \<or> (\<exists>j<i. y = base + int j \<and> (r # pre) ! i \<in> set (n_children (h ! ((r # pre) ! j)))))"
  proof (cases i)
    case (Suc k)
    with i assms obtain y where y: "t ! k = (base + int i, y, n_actionIndex (h ! (pre ! k)))"
      "y = base \<and> pre ! k \<in> set (n_children (h ! r))
       \<or> (\<exists>j<k. y = base + 1 + int j \<and> pre ! k \<in> set (n_children (h ! (pre ! j))))"
      by (force simp: flat_ok_def)
    have "\<exists>j<i. y = base + int j \<and> pre ! k \<in> set (n_children (h ! ((r # pre) ! j)))"
      using y(2)
    proof
      assume "y = base \<and> pre ! k \<in> set (n_children (h ! r))"
      then show ?thesis using Suc by (intro exI [of _ 0]) simp
    next
      assume "\<exists>j<k. y = base + 1 + int j \<and> pre ! k \<in> set (n_children (h ! (pre ! j)))"
      then obtain j where "j < k" "y = base + 1 + int j" "pre ! k \<in> set (n_children (h ! (pre ! j)))"
        by blast
      then show ?thesis using Suc by (intro exI [of _ "Suc j"]) simp
    qed
    with y(1) Suc show ?thesis by simp
  qed simp
qed

lemma to_flats_step:
  assumes "\<And>r p w. r \<in> set xs \<Longrightarrow> \<exists>t. to_flat fuel h r p w = Some (t, w + int (length t) - 1)
      \<and> flat_ok h [r] p w (preorder (length h) h r) t"
  shows "\<exists>t. to_flats fuel h xs p w = Some (t, w + int (length t))
      \<and> flat_ok h xs p (w + 1) (preorders h xs) t"
  using assms
proof (induction xs arbitrary: w)
  case Nil
  then show ?case by (simp add: flat_ok_def)
next
  case (Cons x xs)
  from Cons.prems [of x p "w + 1"] obtain t where
    t: "to_flat fuel h x p (w + 1) = Some (t, w + int (length t))"
    and ok: "flat_ok h [x] p (w + 1) (preorder (length h) h x) t" by auto
  from Cons.IH [of "w + int (length t)"] Cons.prems obtain t' where
    t': "to_flats fuel h xs p (w + int (length t))
      = Some (t', w + int (length t) + int (length t'))"
    and ok': "flat_ok h xs p (w + int (length t) + 1) (preorders h xs) t'" by auto
  have "length t = length (preorder (length h) h x)" using ok by (simp add: flat_ok_def)
  with flat_ok_append [OF ok, of xs "preorders h xs" t'] ok' t t' show ?case
    by (simp add: algebra_simps)
qed

lemma to_flat_ok:
  assumes "forest roots h"
  shows "r < length h \<Longrightarrow> length h - r \<le> fuel \<Longrightarrow>
    \<exists>t. to_flat fuel h r p w = Some (t, w + int (length t) - 1)
      \<and> flat_ok h [r] p w (preorder (length h) h r) t"
proof (induction fuel arbitrary: r p w)
  case (Suc fuel)
  have "\<exists>t. to_flat fuel h c p w = Some (t, w + int (length t) - 1)
      \<and> flat_ok h [c] p w (preorder (length h) h c) t"
    if "c \<in> set (n_children (h ! r))" for c p w
    using forest_children [OF assms Suc.prems(1) that] Suc.prems by (intro Suc.IH) auto
  from to_flats_step [of "n_children (h ! r)", OF this, of w w]
  obtain t where "to_flats fuel h (n_children (h ! r)) w w = Some (t, w + int (length t))"
    "flat_ok h (n_children (h ! r)) w (w + 1) (preorders h (n_children (h ! r))) t" by blast
  then show ?case
    using flat_ok_node [of h r w] by (simp add: preorder_unfold [OF assms Suc.prems(1)])
qed simp

lemma toFlatTree_ok:
  assumes "forest roots h"
  shows "\<exists>t. toFlatTree roots h = Some t \<and> flat_ok h roots (-1) 0 (preorders h roots) t"
proof -
  have "\<exists>t. to_flat (Suc (length h)) h r p w = Some (t, w + int (length t) - 1)
      \<and> flat_ok h [r] p w (preorder (length h) h r) t" if "r \<in> set roots" for r p w
    using forest_roots [OF assms that] by (intro to_flat_ok [OF assms]) auto
  from to_flats_step [of roots, OF this, of "-1" "-1"] show ?thesis
    by (auto simp: toFlatTree_def)
qed

section \<open>The computed tree\<close>

lemma computeCreationTree_inv:
  assumes "kinds_ok ops" and "computeCreationTree ops = Inr (roots, h)"
  shows "tree_inv ops roots (int (length h) - 1) h {#}"
proof -
  have init: "tree_inv ops [] (-1) [] {#}"
    by (auto simp: tree_inv_def forest_def parents_of_def executed_def pending_def
        bij_betw_def nonroot_upto_def kids_ok_def filter_empty_conv)
  have "\<exists>ai. tree_inv ops roots ai h {#}"
  proof (cases "ops = []")
    case True
    then show ?thesis using assms(2) init by (auto simp: computeCreationTree_def)
  next
    case False
    then show ?thesis
      using assms(2) init root_loop_inv [OF assms(1), of "length ops + 2" "-1" "[]" "[]" roots h]
      by (simp add: computeCreationTree_def)
  qed
  then obtain ai where inv: "tree_inv ops roots ai h {#}" by blast
  then have "pending h = {}" by (simp add: tree_inv_def mset_set_empty_iff)
  then have "executed h = {..<length h}" by (auto simp: executed_def pending_def)
  moreover have "card (executed h) = card {0..ai}"
    using inv by (intro bij_betw_same_card [of "\<lambda>a. n_actionIndex (h ! a)"]) (simp add: tree_inv_def)
  ultimately have "length h = nat (ai + 1)" by simp
  moreover have "-1 \<le> ai" using inv by (simp add: tree_inv_def)
  ultimately have "ai = int (length h) - 1" by linarith
  then show ?thesis using inv by simp
qed

lemma executed_indices:
  assumes "tree_inv ops roots (int n - 1) h {#}" and "length h = n"
  shows "mset (map (\<lambda>a. n_actionIndex (h ! a)) [0..<n]) = mset (map int [0..<n])"
proof -
  have "pending h = {}" using assms(1) by (simp add: tree_inv_def mset_set_empty_iff)
  then have "executed h = {0..<n}" using assms(2) by (auto simp: executed_def pending_def)
  with assms(1) have bij: "bij_betw (\<lambda>a. n_actionIndex (h ! a)) {0..<n} {0..int n - 1}"
    by (simp add: tree_inv_def)
  have "{0..int n - 1} = int ` {0..<n}"
    by (auto simp: image_iff) (metis atLeastLessThan_iff nat_0_le nat_less_iff zero_le zle_diff1_eq)
  with bij show ?thesis
    by (simp add: bij_betw_def image_mset_mset_set mset_upt)
qed

text \<open>In a forest the entries with parent index \<open>j\<close> are the children of the \<open>j\<close>-th node.\<close>

lemma parents_of_ge:
  assumes "p < length h"
  shows "count_list (n_children (h ! p)) c \<le> parents_of h c"
  unfolding parents_of_def using assms by (intro member_le_sum) auto

lemma unique_parent:
  assumes "forest roots h" and "p < length h" "q < length h"
    and "c \<in> set (n_children (h ! p))" "c \<in> set (n_children (h ! q))"
  shows "p = q"
proof (rule ccontr)
  assume "p \<noteq> q"
  let ?k = "\<lambda>p. count_list (n_children (h ! p)) c"
  have "?k p + ?k q = sum ?k {p, q}" using \<open>p \<noteq> q\<close> by simp
  also have "\<dots> \<le> parents_of h c"
    unfolding parents_of_def using assms by (intro sum_mono2) auto
  finally have "?k p + ?k q \<le> 1"
    using forest_parents [OF assms(1), of c] forest_children [OF assms(1,2,4)] by linarith
  moreover have "?k p \<noteq> 0" "?k q \<noteq> 0" using assms by (simp_all add: count_list_0_iff)
  ultimately show False by linarith
qed

lemma root_no_parent:
  assumes "forest roots h" and "p < length h" and "c \<in> set (n_children (h ! p))"
  shows "c \<notin> set roots"
  using forest_parents [OF assms(1), of c] forest_children [OF assms] parents_of_ge [OF assms(2), of c]
    assms(3) count_list_0_iff [of "n_children (h ! p)" c] count_list_0_iff [of roots c] by linarith

lemma distinct_children:
  assumes "forest roots h" and "p < length h"
  shows "distinct (n_children (h ! p))"
proof -
  have "count_list (n_children (h ! p)) c \<le> 1" for c
    using forest_parents [OF assms(1), of c] forest_children [OF assms, of c]
      parents_of_ge [OF assms(2), of c]
    by (cases "c \<in> set (n_children (h ! p))") (auto simp: count_list_notin)
  then show ?thesis
    by (metis count_list_0_iff distinct_count_atmost_1 count_mset le_antisym less_one not_less)
qed

lemma flat_children:
  assumes "forest roots h" and flat: "flat_ok h roots (-1) 0 pre t"
    and perm: "mset pre = mset [0..<length h]" and j: "j < length pre"
  shows "length (filter (\<lambda>e. fst (snd e) = int j) t) = length (n_children (h ! (pre ! j)))"
proof -
  have pre: "distinct pre" "set pre = {..<length h}" "length t = length pre"
    using mset_eq_imp_distinct_iff [OF perm] mset_eq_setD [OF perm] flat
    by (auto simp: flat_ok_def)
  have lt: "pre ! i < length h" if "i < length pre" for i
    using that pre(2) nth_mem by blast
  have "fst (snd (t ! i)) = int j \<longleftrightarrow> pre ! i \<in> set (n_children (h ! (pre ! j)))"
    if i: "i < length pre" for i
  proof
    assume "fst (snd (t ! i)) = int j"
    then show "pre ! i \<in> set (n_children (h ! (pre ! j)))"
      using flat i by (fastforce simp: flat_ok_def)
  next
    assume c: "pre ! i \<in> set (n_children (h ! (pre ! j)))"
    then have "pre ! i \<notin> set roots" using root_no_parent [OF assms(1) lt [OF j]] by simp
    then obtain k where k: "k < i" "fst (snd (t ! i)) = int k" "pre ! i \<in> set (n_children (h ! (pre ! k)))"
      using flat i by (fastforce simp: flat_ok_def)
    with c lt j i have "pre ! k = pre ! j" using unique_parent [OF assms(1)] by simp
    with pre(1) k(1) i j have "k = j" by (simp add: nth_eq_iff_index_eq)
    then show "fst (snd (t ! i)) = int j" using k by simp
  qed
  then have "{i. i < length t \<and> fst (snd (t ! i)) = int j}
      = {i. i < length pre \<and> pre ! i \<in> set (n_children (h ! (pre ! j)))}"
    using pre(3) by auto
  then have "length (filter (\<lambda>e. fst (snd e) = int j) t)
      = length (filter (\<lambda>a. a \<in> set (n_children (h ! (pre ! j)))) pre)"
    by (simp add: length_filter_conv_card)
  also have "\<dots> = card (set (filter (\<lambda>a. a \<in> set (n_children (h ! (pre ! j)))) pre))"
    using pre(1) by (intro distinct_card [symmetric] distinct_filter)
  also have "set (filter (\<lambda>a. a \<in> set (n_children (h ! (pre ! j)))) pre) = set (n_children (h ! (pre ! j)))"
    using forest_children [OF assms(1) lt [OF j]] pre(2) by auto
  finally show ?thesis
    using distinct_children [OF assms(1) lt [OF j]] by (simp add: distinct_card)
qed

section \<open>Properties\<close>

lemma root_loop_error:
  assumes "root_loop fuel ai roots m h = Inl e"
  shows "(\<exists>k. k \<noteq> ''ROOT'' \<and> e = FirstOpNotRoot k) \<or> e = TreeDiverges \<or> e = OpsMapEmptyEntry"
  using assms
proof (induction fuel arbitrary: ai roots h)
  case 0
  then show ?case by (subst (asm) root_loop.simps) (auto split: option.splits list.splits if_splits)
next
  case (Suc fuel)
  then show ?case by (subst (asm) root_loop.simps) (auto split: option.splits list.splits if_splits)
qed

lemma computeCreationTree_cases:
  "(\<exists>roots h. computeCreationTree ops = Inr (roots, h)) \<or>
   (\<exists>kind. kind \<noteq> ''ROOT'' \<and> computeCreationTree ops = Inl (FirstOpNotRoot kind))"
proof (cases "ops = []")
  case False
  have "ops_above ops (-1) + 2 \<le> length ops + 2" by (simp add: ops_above_def)
  from root_loop_total [OF this, of "[]" "[]"] False show ?thesis
    using root_loop_error [of "length ops + 2" "-1" "[]" "creationOpsToMap ops" "[]"]
    unfolding computeCreationTree_def
    by (cases "root_loop (length ops + 2) (-1) [] (creationOpsToMap ops) []") auto
qed (simp add: computeCreationTree_def)

text \<open>C14: the construction always ends, whatever list of creation operations the console
  carried: the recursion of \<open>executeAction\<close> never runs away and the access \<open>opKinds[0]\<close> never
  panics; the only failure is a first operation that is not \<open>ROOT\<close>.\<close>

theorem computeCreationTree_terminates:
  "(\<exists>roots h. computeCreationTree ops = Inr (roots, h)) \<or>
   (\<exists>kind. kind \<noteq> ''ROOT'' \<and> computeCreationTree ops = Inl (FirstOpNotRoot kind))"
  by (rule computeCreationTree_cases)

text \<open>C5: when every operation has one of the four kinds the chain emits, the flat creation tree
  is well formed. It is produced for every computed tree; entry \<open>i\<close> has walk index \<open>i\<close>; the
  parent index of an entry is \<open>-1\<close> or an earlier entry; the execution indices of the entries are
  \<open>0, 1, ...\<close>, each exactly once; there is one entry per root and per operation recorded for an
  executed action; and an entry is the creator of exactly as many entries as the console lists
  operations, \<open>ROOT\<close> aside, for its action.\<close>

theorem creation_flat_tree_correct:
  assumes "kinds_ok ops" and "computeCreationTree ops = Inr (roots, h)"
  shows "\<exists>flat. toFlatTree roots h = Some flat
    \<and> length flat = length roots + nonroot_upto ops (int (length flat) - 1)
    \<and> (\<forall>i<length flat. fst (flat ! i) = int i
         \<and> -1 \<le> fst (snd (flat ! i)) \<and> fst (snd (flat ! i)) < int i)
    \<and> mset (map (snd \<circ> snd) flat) = mset (map int [0..<length flat])
    \<and> (\<forall>j<length flat. length (filter (\<lambda>e. fst (snd e) = int j) flat)
         = length (filter (\<lambda>op. op_kind op \<noteq> ''ROOT'' \<and> op_actionIndex op = snd (snd (flat ! j))) ops))"
proof -
  note inv = computeCreationTree_inv [OF assms]
  then have forest: "forest roots h" and kids: "kids_ok ops h" and "pending h = {}"
    by (simp_all add: tree_inv_def mset_set_empty_iff)
  let ?pre = "preorders h roots"
  note perm = preorders_perm [OF forest]
  from toFlatTree_ok [OF forest] obtain t where
    t: "toFlatTree roots h = Some t" "flat_ok h roots (-1) 0 ?pre t" by blast
  have len: "length t = length h" "length ?pre = length h"
    using t(2) mset_eq_length [OF perm] by (simp_all add: flat_ok_def)
  have idx: "snd (snd (t ! i)) = n_actionIndex (h ! (?pre ! i))" if "i < length h" for i
    using t(2) len that by (fastforce simp: flat_ok_def)
  have "map (snd \<circ> snd) t = map (\<lambda>a. n_actionIndex (h ! a)) ?pre"
    using len idx by (intro nth_equalityI) auto
  also have "mset \<dots> = mset (map (\<lambda>a. n_actionIndex (h ! a)) [0..<length h])"
    by (simp only: mset_map perm)
  finally have exec: "mset (map (snd \<circ> snd) t) = mset (map int [0..<length t])"
    using executed_indices [OF inv refl] len by simp
  have "length (n_children (h ! (?pre ! j)))
      = length (filter (\<lambda>op. op_kind op \<noteq> ''ROOT'' \<and> op_actionIndex op = snd (snd (t ! j))) ops)"
    if "j < length t" for j
  proof -
    have a: "?pre ! j < length h"
      using that len mset_eq_setD [OF perm] nth_mem [of j ?pre] by auto
    then have "n_actionIndex (h ! (?pre ! j)) \<noteq> -1" using \<open>pending h = {}\<close> by (auto simp: pending_def)
    then have "length (map (\<lambda>c. n_kind (h ! c)) (n_children (h ! (?pre ! j))))
      = length (filter (\<lambda>k. k \<noteq> ''ROOT'') (ops_at (creationOpsToMap ops) (snd (snd (t ! j)))))"
      using kids a idx that len by (simp add: kids_ok_def)
    then show ?thesis by (simp add: ops_at_eq filter_map o_def conj_commute)
  qed
  moreover have "\<forall>i<length t. fst (t ! i) = int i \<and> -1 \<le> fst (snd (t ! i)) \<and> fst (snd (t ! i)) < int i"
    using t(2) len by (fastforce simp: flat_ok_def)
  ultimately show ?thesis
    using t(1) exec flat_children [OF forest t(2) perm] inv len
    by (intro exI [of _ t]) (simp add: tree_inv_def)
qed

definition creation_ops_sample :: "creationOp list" where
  "creation_ops_sample =
     map (\<lambda>(k, i). \<lparr>op_kind = k, op_actionIndex = i\<rparr>)
       [(''ROOT'', 0), (''NOTIFY'', 0), (''INLINE'', 0), (''CFA_INLINE'', 1), (''NOTIFY'', 2)]"

theorem creation_flat_tree_witness:
  "\<exists>roots h flat. computeCreationTree creation_ops_sample = Inr (roots, h)
    \<and> toFlatTree roots h = Some flat \<and> length flat = 5
    \<and> mset (map (snd \<circ> snd) flat) = mset (map int [0..<5])"
proof -
  have k: "kinds_ok creation_ops_sample" by code_simp
  obtain roots h where r: "computeCreationTree creation_ops_sample = Inr (roots, h)"
    and flat: "map_option length (toFlatTree roots h) = Some 5"
  proof
    show "computeCreationTree creation_ops_sample =
        Inr (fst (projr (computeCreationTree creation_ops_sample)),
             snd (projr (computeCreationTree creation_ops_sample)))"
      by code_simp
    show "map_option length (toFlatTree (fst (projr (computeCreationTree creation_ops_sample)))
        (snd (projr (computeCreationTree creation_ops_sample)))) = Some 5"
      by code_simp
  qed
  from creation_flat_tree_correct [OF k r] r flat show ?thesis by auto
qed

end
