(* ===== verification/PbCodec.thy ===== *)
theory PbCodec
  imports GoStd CreationTree
begin

text \<open>
  The protobuf messages of \<open>pb/dfuse/eosio/codec/v1/codec.pb.go\<close> as records, with the fields
  the modelled code reads or writes, and the helper methods of
  \<open>pb/dfuse/eosio/codec/v1/codec.go\<close>. A pointer that the code compares with \<open>nil\<close> is an
  \<open>option\<close>. The field \<open>JsonData\<close> of an action is written through the pointer by the decoding
  workers after the action was stored in a block: an action carries its address \<open>act_ref\<close>
  and the written values live in a heap of the decoder, see \<open>AbiDecoder\<close>.
\<close>

section \<open>Enumerations\<close>

datatype TransactionStatus =
    TRANSACTIONSTATUS_NONE | TRANSACTIONSTATUS_EXECUTED | TRANSACTIONSTATUS_SOFTFAIL
  | TRANSACTIONSTATUS_HARDFAIL | TRANSACTIONSTATUS_DELAYED | TRANSACTIONSTATUS_EXPIRED
  | TRANSACTIONSTATUS_UNKNOWN | TRANSACTIONSTATUS_CANCELED

datatype TrxOp_Operation = TrxOp_OPERATION_UNKNOWN | TrxOp_OPERATION_CREATE

datatype DBOp_Operation =
    DBOp_OPERATION_UNKNOWN | DBOp_OPERATION_INSERT | DBOp_OPERATION_UPDATE | DBOp_OPERATION_REMOVE

datatype KVOp_Operation =
    KVOp_OPERATION_UNKNOWN | KVOp_OPERATION_INSERT | KVOp_OPERATION_UPDATE | KVOp_OPERATION_REMOVE

datatype TableOp_Operation =
    TableOp_OPERATION_UNKNOWN | TableOp_OPERATION_INSERT | TableOp_OPERATION_REMOVE

datatype PermOp_Operation =
    PermOp_OPERATION_UNKNOWN | PermOp_OPERATION_INSERT | PermOp_OPERATION_UPDATE
  | PermOp_OPERATION_REMOVE

datatype RlimitOp_Operation =
    RlimitOp_OPERATION_UNKNOWN | RlimitOp_OPERATION_INSERT | RlimitOp_OPERATION_UPDATE

datatype DTrxOp_Operation =
    DTrxOp_OPERATION_UNKNOWN | DTrxOp_OPERATION_CREATE | DTrxOp_OPERATION_PUSH_CREATE
  | DTrxOp_OPERATION_FAILED | DTrxOp_OPERATION_CANCEL | DTrxOp_OPERATION_MODIFY_CANCEL
  | DTrxOp_OPERATION_MODIFY_CREATE

definition DTrxOp_Operation_value :: "(string \<times> DTrxOp_Operation) list" where
  "DTrxOp_Operation_value =
     [(''OPERATION_UNKNOWN'', DTrxOp_OPERATION_UNKNOWN),
      (''OPERATION_CREATE'', DTrxOp_OPERATION_CREATE),
      (''OPERATION_PUSH_CREATE'', DTrxOp_OPERATION_PUSH_CREATE),
      (''OPERATION_FAILED'', DTrxOp_OPERATION_FAILED),
      (''OPERATION_CANCEL'', DTrxOp_OPERATION_CANCEL),
      (''OPERATION_MODIFY_CANCEL'', DTrxOp_OPERATION_MODIFY_CANCEL),
      (''OPERATION_MODIFY_CREATE'', DTrxOp_OPERATION_MODIFY_CREATE)]"

text \<open>The enumerations of \<open>RAMOp\<close> are the int32 values of the generated code.\<close>

type_synonym RAMOp_Operation = int
type_synonym RAMOp_Namespace = int
type_synonym RAMOp_Action = int

definition RAMOp_Operation_value :: "(string \<times> RAMOp_Operation) list" where
  "RAMOp_Operation_value =
     [(''OPERATION_UNKNOWN'', 0),
      (''OPERATION_CREATE_TABLE'', 1),
      (''OPERATION_DEFERRED_TRX_ADD'', 2),
      (''OPERATION_DEFERRED_TRX_CANCEL'', 3),
      (''OPERATION_DEFERRED_TRX_PUSHED'', 4),
      (''OPERATION_DEFERRED_TRX_RAM_CORRECTION'', 5),
      (''OPERATION_DEFERRED_TRX_REMOVED'', 6),
      (''OPERATION_DELETEAUTH'', 7),
      (''OPERATION_LINKAUTH'', 8),
      (''OPERATION_NEWACCOUNT'', 9),
      (''OPERATION_PRIMARY_INDEX_ADD'', 10),
      (''OPERATION_PRIMARY_INDEX_REMOVE'', 11),
      (''OPERATION_PRIMARY_INDEX_UPDATE'', 12),
      (''OPERATION_PRIMARY_INDEX_UPDATE_ADD_NEW_PAYER'', 13),
      (''OPERATION_PRIMARY_INDEX_UPDATE_REMOVE_OLD_PAYER'', 14),
      (''OPERATION_REMOVE_TABLE'', 15),
      (''OPERATION_SECONDARY_INDEX_ADD'', 16),
      (''OPERATION_SECONDARY_INDEX_REMOVE'', 17),
      (''OPERATION_SECONDARY_INDEX_UPDATE_ADD_NEW_PAYER'', 18),
      (''OPERATION_SECONDARY_INDEX_UPDATE_REMOVE_OLD_PAYER'', 19),
      (''OPERATION_SETABI'', 20),
      (''OPERATION_SETCODE'', 21),
      (''OPERATION_UNLINKAUTH'', 22),
      (''OPERATION_UPDATEAUTH_CREATE'', 23),
      (''OPERATION_UPDATEAUTH_UPDATE'', 24),
      (''OPERATION_DEPRECATED'', 25)]"

definition RAMOp_OPERATION_DEPRECATED :: RAMOp_Operation where
  "RAMOp_OPERATION_DEPRECATED = 25"

definition RAMOp_Namespace_value :: "(string \<times> RAMOp_Namespace) list" where
  "RAMOp_Namespace_value =
     [(''NAMESPACE_UNKNOWN'', 0),
      (''NAMESPACE_ABI'', 1),
      (''NAMESPACE_ACCOUNT'', 2),
      (''NAMESPACE_AUTH'', 3),
      (''NAMESPACE_AUTH_LINK'', 4),
      (''NAMESPACE_CODE'', 5),
      (''NAMESPACE_DEFERRED_TRX'', 6),
      (''NAMESPACE_SECONDARY_INDEX'', 7),
      (''NAMESPACE_TABLE'', 8),
      (''NAMESPACE_TABLE_ROW'', 9),
      (''NAMESPACE_KV'', 10)]"

definition RAMOp_NAMESPACE_DEFERRED_TRX :: RAMOp_Namespace where
  "RAMOp_NAMESPACE_DEFERRED_TRX = 6"

definition RAMOp_Action_value :: "(string \<times> RAMOp_Action) list" where
  "RAMOp_Action_value =
     [(''ACTION_UNKNOWN'', 0),
      (''ACTION_ADD'', 1),
      (''ACTION_CANCEL'', 2),
      (''ACTION_CORRECTION'', 3),
      (''ACTION_PUSH'', 4),
      (''ACTION_REMOVE'', 5),
      (''ACTION_UPDATE'', 6)]"

definition RAMOp_ACTION_REMOVE :: RAMOp_Action where
  "RAMOp_ACTION_REMOVE = 5"

section \<open>Messages\<close>

record PermissionLevel =
  pl_Actor :: string
  pl_Permission :: string

record Action =
  act_ref :: nat
  act_Account :: string
  act_Name :: string
  act_Authorization :: "PermissionLevel list"
  act_JsonData :: string
  act_RawData :: bytes

record ActionReceipt =
  rcpt_Receiver :: string
  rcpt_GlobalSequence :: u64
  rcpt_RecvSequence :: u64

record ActionTrace =
  at_Receiver :: string
  at_Receipt :: "ActionReceipt option"
  at_Action :: Action
  at_Console :: string
  at_ActionOrdinal :: u32
  at_CreatorActionOrdinal :: u32
  at_ClosestUnnotifiedAncestorActionOrdinal :: u32
  at_ExecutionIndex :: u32
  at_FilteringMatched :: bool
  at_FilteringMatchedSystemActionFilter :: bool

record Transaction =
  tx_ContextFreeActions :: "Action list"
  tx_Actions :: "Action list"

record SignedTransaction =
  st_Transaction :: Transaction
  st_Signatures :: "string list"

record TrxOp =
  trx_Operation :: TrxOp_Operation
  trx_Name :: string
  trx_TransactionId :: string
  trx_Transaction :: SignedTransaction

record DBOp =
  db_Operation :: DBOp_Operation
  db_ActionIndex :: u32
  db_OldPayer :: string
  db_NewPayer :: string
  db_Code :: string
  db_Scope :: string
  db_TableName :: string
  db_PrimaryKey :: string
  db_OldData :: bytes
  db_NewData :: bytes

record KVOp =
  kv_Operation :: KVOp_Operation
  kv_ActionIndex :: u32
  kv_OldPayer :: string
  kv_NewPayer :: string
  kv_Code :: string
  kv_Key :: bytes
  kv_OldData :: bytes
  kv_NewData :: bytes

record RAMOp =
  ram_ActionIndex :: u32
  ram_UniqueKey :: string
  ram_Namespace :: RAMOp_Namespace
  ram_Action :: RAMOp_Action
  ram_Operation :: RAMOp_Operation
  ram_Payer :: string
  ram_Usage :: u64
  ram_Delta :: int

record RAMCorrectionOp =
  rco_CorrectionId :: string
  rco_UniqueKey :: string
  rco_Payer :: string
  rco_Delta :: int

record TableOp =
  tbl_Operation :: TableOp_Operation
  tbl_ActionIndex :: u32
  tbl_Payer :: string
  tbl_Code :: string
  tbl_Scope :: string
  tbl_TableName :: string

record DTrxOp =
  dtrx_Operation :: DTrxOp_Operation
  dtrx_ActionIndex :: u32
  dtrx_Sender :: string
  dtrx_SenderId :: string
  dtrx_Payer :: string
  dtrx_PublishedAt :: string
  dtrx_DelayUntil :: string
  dtrx_ExpirationAt :: string
  dtrx_TransactionId :: string
  dtrx_Transaction :: "SignedTransaction option"

record Feature =
  ft_FeatureDigest :: string
  ft_DescriptionDigest :: string
  ft_Dependencies :: "string list"
  ft_ProtocolFeatureType :: string

record FeatureOp =
  fo_Kind :: string
  fo_ActionIndex :: u32
  fo_FeatureDigest :: string
  fo_Feature :: "Feature option"

record KeyWeight =
  kw_PublicKey :: string
  kw_Weight :: u32

record PermissionLevelWeight =
  plw_Permission :: PermissionLevel
  plw_Weight :: u32

record WaitWeight =
  ww_WaitSec :: u32
  ww_Weight :: u32

record Authority =
  auth_Threshold :: u32
  auth_Keys :: "KeyWeight list"
  auth_Accounts :: "PermissionLevelWeight list"
  auth_Waits :: "WaitWeight list"

record PermissionObject =
  po_Id :: u64
  po_ParentId :: u64
  po_Owner :: string
  po_Name :: string
  po_LastUpdated :: int
  po_Authority :: Authority

record PermOp =
  po_Operation :: PermOp_Operation
  po_ActionIndex :: u32
  po_OldPerm :: "PermissionObject option"
  po_NewPerm :: "PermissionObject option"

record UsageAccumulator =
  ua_LastOrdinal :: u32
  ua_ValueEx :: u64
  ua_Consumed :: u64

record Ratio =
  ra_Numerator :: u64
  ra_Denominator :: u64

record ElasticLimitParameters =
  el_Target :: u64
  el_Max :: u64
  el_Periods :: u32
  el_MaxMultiplier :: u32
  el_ContractRate :: Ratio
  el_ExpandRate :: Ratio

record RlimitState =
  rs_AverageBlockNetUsage :: UsageAccumulator
  rs_AverageBlockCpuUsage :: UsageAccumulator
  rs_PendingNetUsage :: u64
  rs_PendingCpuUsage :: u64
  rs_TotalNetWeight :: u64
  rs_TotalCpuWeight :: u64
  rs_TotalRamBytes :: u64
  rs_VirtualNetLimit :: u64
  rs_VirtualCpuLimit :: u64

record RlimitConfig =
  rc_CpuLimitParameters :: ElasticLimitParameters
  rc_NetLimitParameters :: ElasticLimitParameters
  rc_AccountCpuUsageAverageWindow :: u32
  rc_AccountNetUsageAverageWindow :: u32

record RlimitAccountLimits =
  rl_Owner :: string
  rl_NetWeight :: int
  rl_CpuWeight :: int
  rl_RamBytes :: int

record RlimitAccountUsage =
  ru_Owner :: string
  ru_NetUsage :: UsageAccumulator
  ru_CpuUsage :: UsageAccumulator
  ru_RamUsage :: u64

datatype RlimitOp_Kind =
    RlimitOp_State RlimitState
  | RlimitOp_Config RlimitConfig
  | RlimitOp_AccountLimits RlimitAccountLimits
  | RlimitOp_AccountUsage RlimitAccountUsage

record RlimitOp =
  rl_Operation :: RlimitOp_Operation
  rl_Kind :: RlimitOp_Kind

record TransactionReceiptHeader =
  trh_Status :: TransactionStatus
  trh_CpuUsageMicroSeconds :: u32
  trh_NetUsageWords :: u32

text \<open>A transaction trace nests the trace of the deferred transaction that failed.\<close>

record trace_fields =
  tt_Id :: string
  tt_BlockNum :: u64
  tt_Index :: u64
  tt_ProducerBlockId :: string
  tt_Receipt :: "TransactionReceiptHeader option"
  tt_Scheduled :: bool
  tt_ActionTraces :: "ActionTrace list"
  tt_DbOps :: "DBOp list"
  tt_KvOps :: "KVOp list"
  tt_DtrxOps :: "DTrxOp list"
  tt_FeatureOps :: "FeatureOp list"
  tt_PermOps :: "PermOp list"
  tt_RamOps :: "RAMOp list"
  tt_RamCorrectionOps :: "RAMCorrectionOp list"
  tt_RlimitOps :: "RlimitOp list"
  tt_TableOps :: "TableOp list"
  tt_CreationTree :: "CreationFlatNodePb list"

datatype TransactionTrace = TransactionTrace (trace_of: trace_fields) (FailedDtrxTrace: "TransactionTrace option")

definition empty_trace_fields :: trace_fields where
  "empty_trace_fields =
     \<lparr>tt_Id = '''', tt_BlockNum = 0, tt_Index = 0, tt_ProducerBlockId = '''', tt_Receipt = None,
      tt_Scheduled = False, tt_ActionTraces = [], tt_DbOps = [], tt_KvOps = [], tt_DtrxOps = [],
      tt_FeatureOps = [], tt_PermOps = [], tt_RamOps = [], tt_RamCorrectionOps = [],
      tt_RlimitOps = [], tt_TableOps = [], tt_CreationTree = []\<rparr>"

record TransactionReceipt =
  tr_Id :: string
  tr_Index :: u64
  tr_Status :: TransactionStatus
  tr_PackedTransaction :: "bytes option"

record Block =
  blk_Id :: string
  blk_Number :: u32
  blk_Version :: u32
  blk_Previous :: string
  blk_DposIrreversibleBlocknum :: u32
  blk_RlimitOps :: "RlimitOp list"
  blk_UnfilteredTransactions :: "TransactionReceipt list"
  blk_FilteredTransactions :: "TransactionReceipt list"
  blk_UnfilteredTransactionCount :: u32
  blk_UnfilteredImplicitTransactionOps :: "TrxOp list"
  blk_FilteredImplicitTransactionOps :: "TrxOp list"
  blk_UnfilteredTransactionTraces :: "TransactionTrace list"
  blk_FilteredTransactionTraces :: "TransactionTrace list"
  blk_UnfilteredTransactionTraceCount :: u32
  blk_UnfilteredExecutedInputActionCount :: u32
  blk_UnfilteredExecutedTotalActionCount :: u32
  blk_FilteringApplied :: bool
  blk_FilteringIncludeFilterExpr :: string
  blk_FilteringExcludeFilterExpr :: string
  blk_FilteringSystemActionsIncludeFilterExpr :: string
  blk_FilteredTransactionCount :: u32
  blk_FilteredTransactionTraceCount :: u32
  blk_FilteredExecutedInputActionCount :: u32
  blk_FilteredExecutedTotalActionCount :: u32

definition empty_block :: Block where
  "empty_block =
     \<lparr>blk_Id = '''', blk_Number = 0, blk_Version = 0, blk_Previous = '''',
      blk_DposIrreversibleBlocknum = 0, blk_RlimitOps = [],
      blk_UnfilteredTransactions = [], blk_FilteredTransactions = [],
      blk_UnfilteredTransactionCount = 0, blk_UnfilteredImplicitTransactionOps = [],
      blk_FilteredImplicitTransactionOps = [], blk_UnfilteredTransactionTraces = [],
      blk_FilteredTransactionTraces = [], blk_UnfilteredTransactionTraceCount = 0,
      blk_UnfilteredExecutedInputActionCount = 0, blk_UnfilteredExecutedTotalActionCount = 0,
      blk_FilteringApplied = False, blk_FilteringIncludeFilterExpr = '''', blk_FilteringExcludeFilterExpr = '''',
      blk_FilteringSystemActionsIncludeFilterExpr = '''', blk_FilteredTransactionCount = 0, blk_FilteredTransactionTraceCount = 0,
      blk_FilteredExecutedInputActionCount = 0, blk_FilteredExecutedTotalActionCount = 0\<rparr>"

end
