(* ===== verification/PbHelpers.thy ===== *)
theory PbHelpers
  imports PbCodec
begin

text \<open>
  The helper methods of \<open>pb/dfuse/eosio/codec/v1/codec.go\<close> on blocks, traces and operations,
  with what they compute.
\<close>

section \<open>Methods\<close>

definition Block_Num :: "Block \<Rightarrow> u64" where
  "Block_Num b = ucast (blk_Number b)"

definition Block_LIBNum :: "Block \<Rightarrow> u64" where
  "Block_LIBNum b = ucast (blk_DposIrreversibleBlocknum b)"

record BlockRef =
  ref_ID :: string
  ref_Num :: u64

definition AsRef :: "Block \<Rightarrow> BlockRef" where
  "AsRef b = \<lparr>ref_ID = blk_Id b, ref_Num = Block_Num b\<rparr>"

definition Transactions :: "Block \<Rightarrow> TransactionReceipt list" where
  "Transactions b =
     (if blk_FilteringApplied b then blk_FilteredTransactions b else blk_UnfilteredTransactions b)"

definition TransactionTraces :: "Block \<Rightarrow> TransactionTrace list" where
  "TransactionTraces b =
     (if blk_FilteringApplied b then blk_FilteredTransactionTraces b
      else blk_UnfilteredTransactionTraces b)"

definition ImplicitTransactionOps :: "Block \<Rightarrow> TrxOp list" where
  "ImplicitTransactionOps b =
     (if blk_FilteringApplied b then blk_FilteredImplicitTransactionOps b
      else blk_UnfilteredImplicitTransactionOps b)"

definition IsCreateOperation :: "DTrxOp \<Rightarrow> bool" where
  "IsCreateOperation op \<longleftrightarrow>
     dtrx_Operation op = DTrxOp_OPERATION_MODIFY_CREATE
     \<or> dtrx_Operation op = DTrxOp_OPERATION_CREATE
     \<or> dtrx_Operation op = DTrxOp_OPERATION_PUSH_CREATE"

definition IsCancelOperation :: "DTrxOp \<Rightarrow> bool" where
  "IsCancelOperation op \<longleftrightarrow>
     dtrx_Operation op = DTrxOp_OPERATION_MODIFY_CANCEL \<or> dtrx_Operation op = DTrxOp_OPERATION_CANCEL"

definition IsFailedOperation :: "DTrxOp \<Rightarrow> bool" where
  "IsFailedOperation op \<longleftrightarrow> dtrx_Operation op = DTrxOp_OPERATION_FAILED"

text \<open>The loop body shared by \<open>CanceledDTrxIDs\<close> and \<open>CreatedDTrxIDs\<close>: the output and the set
  of identifiers seen.\<close>

definition collect_id ::
  "(DTrxOp \<Rightarrow> bool) \<Rightarrow> DTrxOp \<Rightarrow> string list \<times> string set \<Rightarrow> string list \<times> string set" where
  "collect_id P op st = (case st of (out, seen) \<Rightarrow>
     if P op \<and> dtrx_TransactionId op \<notin> seen
     then (out @ [dtrx_TransactionId op], insert (dtrx_TransactionId op) seen)
     else (out, seen))"

definition CanceledDTrxIDs :: "Block \<Rightarrow> string list" where
  "CanceledDTrxIDs b =
     fst (fold (\<lambda>trx. fold (collect_id IsCancelOperation) (tt_DtrxOps (trace_of trx)))
       (TransactionTraces b) ([], {}))"

definition CreatedDTrxIDs :: "Block \<Rightarrow> string list" where
  "CreatedDTrxIDs b =
     fst (fold (\<lambda>trx. fold (collect_id IsCreateOperation) (tt_DtrxOps (trace_of trx)))
       (TransactionTraces b) ([], {}))"

definition IsInput :: "ActionTrace \<Rightarrow> bool" where
  "IsInput a \<longleftrightarrow> at_CreatorActionOrdinal a = 0"

definition count_action :: "ActionTrace \<Rightarrow> Block \<Rightarrow> Block" where
  "count_action a b =
     (let b1 = b\<lparr>blk_UnfilteredExecutedTotalActionCount := blk_UnfilteredExecutedTotalActionCount b + 1\<rparr>
      in if IsInput a
         then b1\<lparr>blk_UnfilteredExecutedInputActionCount := blk_UnfilteredExecutedInputActionCount b1 + 1\<rparr>
         else b1)"

definition MigrateV0ToV1 :: "Block \<Rightarrow> Block" where
  "MigrateV0ToV1 b =
     (if blk_Version b \<noteq> 0 then b
      else fold (\<lambda>t. fold count_action (tt_ActionTraces (trace_of t)))
        (blk_UnfilteredTransactionTraces b)
        (b\<lparr>blk_Version := 1,
           blk_UnfilteredTransactionCount := word_of_nat (length (blk_UnfilteredTransactions b)),
           blk_UnfilteredTransactionTraceCount := word_of_nat (length (blk_UnfilteredTransactionTraces b)),
           blk_UnfilteredExecutedInputActionCount := 0,
           blk_UnfilteredExecutedTotalActionCount := 0\<rparr>))"

definition isRequiredSystemAction :: "ActionTrace \<Rightarrow> (ActionTrace \<Rightarrow> bool) list \<Rightarrow> bool" where
  "isRequiredSystemAction a requiredSystemActions \<longleftrightarrow> (\<exists>matcher\<in>set requiredSystemActions. matcher a)"

definition FilteringActionMatcher ::
  "Block \<Rightarrow> TransactionTrace \<Rightarrow> (ActionTrace \<Rightarrow> bool) list \<Rightarrow> u32 \<Rightarrow> bool" where
  "FilteringActionMatcher b trxTrace requiredSystemActions actionIndex =
     (if \<not> blk_FilteringApplied b then True
      else actionIndex \<in> fold (\<lambda>a matching.
             if at_FilteringMatched a
                \<and> \<not> (at_FilteringMatchedSystemActionFilter a
                     \<and> \<not> isRequiredSystemAction a requiredSystemActions)
             then insert (at_ExecutionIndex a) matching else matching)
           (tt_ActionTraces (trace_of trxTrace)) {})"

definition Action_SimpleName :: "Action \<Rightarrow> string" where
  "Action_SimpleName a = act_Account a @ '':'' @ act_Name a"

definition SimpleName :: "ActionTrace \<Rightarrow> string" where
  "SimpleName a = Action_SimpleName (at_Action a)"

definition FullName :: "ActionTrace \<Rightarrow> string" where
  "FullName a = at_Receiver a @ '':'' @ Action_SimpleName (at_Action a)"

definition HasBeenReverted :: "trace_fields \<Rightarrow> bool" where
  "HasBeenReverted t =
     (case tt_Receipt t of
        None \<Rightarrow> True
      | Some receipt \<Rightarrow>
          if trh_Status receipt = TRANSACTIONSTATUS_EXECUTED then False
          else if trh_Status receipt = TRANSACTIONSTATUS_SOFTFAIL
            \<and> length (tt_ActionTraces t) \<ge> 1 \<and> SimpleName (tt_ActionTraces t ! 0) = ''eosio:onerror''
          then False
          else True)"

definition DBOpsForAction :: "trace_fields \<Rightarrow> u32 \<Rightarrow> DBOp list" where
  "DBOpsForAction t idx = filter (\<lambda>op. db_ActionIndex op = idx) (tt_DbOps t)"

definition DtrxOpsForAction :: "trace_fields \<Rightarrow> u32 \<Rightarrow> DTrxOp list" where
  "DtrxOpsForAction t idx = filter (\<lambda>op. dtrx_ActionIndex op = idx) (tt_DtrxOps t)"

text \<open>The test \<open>op.ActionIndex < 0\<close> of the source is on a uint32.\<close>

definition FeatureOpsForAction :: "trace_fields \<Rightarrow> u32 \<Rightarrow> FeatureOp list" where
  "FeatureOpsForAction t idx =
     filter (\<lambda>op. \<not> fo_ActionIndex op < 0 \<and> fo_ActionIndex op = idx) (tt_FeatureOps t)"

definition PermOpsForAction :: "trace_fields \<Rightarrow> u32 \<Rightarrow> PermOp list" where
  "PermOpsForAction t idx = filter (\<lambda>op. po_ActionIndex op = idx) (tt_PermOps t)"

definition TableOpsForAction :: "trace_fields \<Rightarrow> u32 \<Rightarrow> TableOp list" where
  "TableOpsForAction t idx = filter (\<lambda>op. tbl_ActionIndex op = idx) (tt_TableOps t)"

definition RAMOpsForAction :: "trace_fields \<Rightarrow> u32 \<Rightarrow> RAMOp list" where
  "RAMOpsForAction t idx = filter (\<lambda>op. ram_ActionIndex op = idx) (tt_RamOps t)"

definition CreatorMap :: "trace_fields \<Rightarrow> (u32 \<rightharpoonup> 32 word)" where
  "CreatorMap t =
     fold (\<lambda>el m. m(ExecutionActionIndex el \<mapsto> CreatorActionIndex el)) (tt_CreationTree t) Map.empty"

definition DBOp_LegacyOperation :: "DBOp \<Rightarrow> string" where
  "DBOp_LegacyOperation op =
     (case db_Operation op of
        DBOp_OPERATION_INSERT \<Rightarrow> ''INS''
      | DBOp_OPERATION_UPDATE \<Rightarrow> ''UPD''
      | DBOp_OPERATION_REMOVE \<Rightarrow> ''REM''
      | _ \<Rightarrow> '''')"

definition TableOp_Path :: "TableOp \<Rightarrow> string" where
  "TableOp_Path op = Join (CHR ''/'') [tbl_Code op, tbl_Scope op, tbl_TableName op]"

definition TableOp_LegacyOperation :: "TableOp \<Rightarrow> string" where
  "TableOp_LegacyOperation op =
     (case tbl_Operation op of
        TableOp_OPERATION_INSERT \<Rightarrow> ''INS''
      | TableOp_OPERATION_REMOVE \<Rightarrow> ''REM''
      | _ \<Rightarrow> '''')"

definition IsGlobalKind :: "RlimitOp \<Rightarrow> bool" where
  "IsGlobalKind r =
     (case rl_Kind r of RlimitOp_Config _ \<Rightarrow> True | RlimitOp_State _ \<Rightarrow> True | _ \<Rightarrow> False)"

definition IsLocalKind :: "RlimitOp \<Rightarrow> bool" where
  "IsLocalKind r =
     (case rl_Kind r of RlimitOp_AccountUsage _ \<Rightarrow> True | RlimitOp_AccountLimits _ \<Rightarrow> True | _ \<Rightarrow> False)"

definition Authorization :: "PermissionLevel \<Rightarrow> string" where
  "Authorization l = pl_Actor l @ ''@'' @ pl_Permission l"

section \<open>What they compute\<close>

lemma rlimit_kind_partition: "IsGlobalKind r \<longleftrightarrow> \<not> IsLocalKind r"
  by (cases "rl_Kind r") (simp_all add: IsGlobalKind_def IsLocalKind_def)

definition dtrx_ids :: "(DTrxOp \<Rightarrow> bool) \<Rightarrow> Block \<Rightarrow> string list" where
  "dtrx_ids P b =
     map dtrx_TransactionId (filter P (concat (map (tt_DtrxOps \<circ> trace_of) (TransactionTraces b))))"

lemma fold_collect_id:
  "distinct out \<Longrightarrow> distinct (fst (fold (collect_id P) ops (out, set out)))
     \<and> set (fst (fold (collect_id P) ops (out, set out)))
       = set out \<union> set (map dtrx_TransactionId (filter P ops))"
proof (induction ops arbitrary: out)
  case (Cons op ops)
  show ?case
  proof (cases "P op \<and> dtrx_TransactionId op \<notin> set out")
    case True
    then have "collect_id P op (out, set out)
        = (out @ [dtrx_TransactionId op], set (out @ [dtrx_TransactionId op]))"
      by (simp add: collect_id_def)
    with Cons.IH [of "out @ [dtrx_TransactionId op]"] Cons.prems True show ?thesis by simp
  next
    case False
    then have "collect_id P op (out, set out) = (out, set out)" by (auto simp: collect_id_def)
    with Cons.IH [of out] Cons.prems False show ?thesis by auto
  qed
qed simp

lemma fold_concat: "fold (\<lambda>x. fold f (g x)) xs s = fold f (concat (map g xs)) s"
  by (induction xs arbitrary: s) auto

lemma collected_ids:
  "distinct (fst (fold (\<lambda>trx. fold (collect_id P) (tt_DtrxOps (trace_of trx))) (TransactionTraces b) ([], {})))
   \<and> set (fst (fold (\<lambda>trx. fold (collect_id P) (tt_DtrxOps (trace_of trx))) (TransactionTraces b) ([], {})))
     = set (dtrx_ids P b)"
  using fold_collect_id [of "[]" P "concat (map (\<lambda>t. tt_DtrxOps (trace_of t)) (TransactionTraces b))"]
  by (simp add: fold_concat dtrx_ids_def o_def)

lemma fold_count_action:
  "blk_UnfilteredExecutedTotalActionCount (fold count_action as b)
     = blk_UnfilteredExecutedTotalActionCount b + word_of_nat (length as)
   \<and> blk_UnfilteredExecutedInputActionCount (fold count_action as b)
     = blk_UnfilteredExecutedInputActionCount b + word_of_nat (length (filter IsInput as))
   \<and> blk_UnfilteredTransactionTraces (fold count_action as b) = blk_UnfilteredTransactionTraces b
   \<and> blk_Version (fold count_action as b) = blk_Version b"
  by (induction as arbitrary: b) (auto simp: count_action_def Let_def)

lemma fold_insert_matching:
  "fold (\<lambda>a M. if P a then insert (f a) M else M) as M = M \<union> f ` {a \<in> set as. P a}"
  by (induction as arbitrary: M) auto

text \<open>The identifiers of the deferred transactions a block cancels are listed once each, and
  they are exactly those of the cancel operations of its transaction traces.\<close>

theorem CanceledDTrxIDs_correct:
  "distinct (CanceledDTrxIDs b) \<and> set (CanceledDTrxIDs b) = set (dtrx_ids IsCancelOperation b)"
  unfolding CanceledDTrxIDs_def by (rule collected_ids)

text \<open>Migrating a version 0 block fills the action counts from its unfiltered traces, modulo
  \<open>2^32\<close>, and a second migration changes nothing.\<close>

theorem MigrateV0ToV1_counts:
  assumes "blk_Version b = 0"
  defines "actions \<equiv> concat (map (tt_ActionTraces \<circ> trace_of) (blk_UnfilteredTransactionTraces b))"
  shows "blk_UnfilteredExecutedTotalActionCount (MigrateV0ToV1 b) = word_of_nat (length actions)
    \<and> blk_UnfilteredExecutedInputActionCount (MigrateV0ToV1 b) = word_of_nat (length (filter IsInput actions))
    \<and> MigrateV0ToV1 (MigrateV0ToV1 b) = MigrateV0ToV1 b"
proof -
  have "blk_Version (MigrateV0ToV1 b) = 1"
    by (simp add: MigrateV0ToV1_def assms(1) fold_concat fold_count_action)
  then have "MigrateV0ToV1 (MigrateV0ToV1 b) = MigrateV0ToV1 b"
    by (simp add: MigrateV0ToV1_def [of "MigrateV0ToV1 b"])
  then show ?thesis
    by (simp add: MigrateV0ToV1_def [of b] assms(1) fold_concat fold_count_action actions_def o_def)
qed

theorem MigrateV0ToV1_counts_witness:
  "MigrateV0ToV1 (MigrateV0ToV1 empty_block) = MigrateV0ToV1 empty_block
   \<and> blk_UnfilteredExecutedTotalActionCount (MigrateV0ToV1 empty_block) = 0"
  using MigrateV0ToV1_counts [of empty_block] by (simp add: empty_block_def)

text \<open>Once a block was filtered, an action index of a trace matches exactly when an action
  trace with this execution index matched the filter and is not a system action kept only for
  matchers that do not require it; without filtering every index matches.\<close>

theorem FilteringActionMatcher_iff:
  "FilteringActionMatcher b t req i =
     (if blk_FilteringApplied b
      then \<exists>a. a \<in> set (tt_ActionTraces (trace_of t)) \<and> at_ExecutionIndex a = i \<and> at_FilteringMatched a
        \<and> (if at_FilteringMatchedSystemActionFilter a then \<exists>m. m \<in> set req \<and> m a else True)
      else True)"
  unfolding FilteringActionMatcher_def fold_insert_matching isRequiredSystemAction_def
  by (simp add: image_iff) (intro impI iff_exI; auto)

end
