(* ===== verification/VersionedIndex.thy ===== *)
theory VersionedIndex
  imports Prelude
begin

text \<open>
  The interface between the ABI cache and its client, the ABI decoder: an index of values
  versioned by a 64-bit sequence number. The laws say what a lookup returns after an insertion
  and after a truncation; the client lemmas say which lookups a run of later updates cannot
  change.
\<close>

datatype ('k, 'v) ix_op = IxAdd 'k u64 'v | IxTruncate u64

fun run_ix ::
  "('k \<Rightarrow> u64 \<Rightarrow> 'v \<Rightarrow> 'c \<Rightarrow> 'e + 'c) \<Rightarrow> (u64 \<Rightarrow> 'c \<Rightarrow> 'c) \<Rightarrow>
   ('k, 'v) ix_op list \<Rightarrow> 'c \<Rightarrow> 'e + 'c" where
  "run_ix add trunc [] c = Inr c"
| "run_ix add trunc (IxAdd k s v # ops) c = bind_res (add k s v c) (run_ix add trunc ops)"
| "run_ix add trunc (IxTruncate t # ops) c = run_ix add trunc ops (trunc t c)"

fun ix_op_above :: "u64 \<Rightarrow> ('k, 'v) ix_op \<Rightarrow> bool" where
  "ix_op_above g (IxAdd k s v) \<longleftrightarrow> g < s"
| "ix_op_above g (IxTruncate t) \<longleftrightarrow> g < t"

locale versioned_index =
  fixes new :: 'c
    and add :: "'k \<Rightarrow> u64 \<Rightarrow> 'v \<Rightarrow> 'c \<Rightarrow> 'e + 'c"
    and lookup :: "'c \<Rightarrow> 'k \<Rightarrow> u64 \<Rightarrow> 'v option"
    and truncate :: "u64 \<Rightarrow> 'c \<Rightarrow> 'c"
    and inv :: "'c \<Rightarrow> bool"
  assumes inv_new: "inv new"
    and inv_add: "inv c \<Longrightarrow> add k s v c = Inr c' \<Longrightarrow> inv c'"
    and inv_truncate: "inv c \<Longrightarrow> inv (truncate t c)"
    and lookup_new: "lookup new k g = None"
    and lookup_add: "inv c \<Longrightarrow> add k s v c = Inr c' \<Longrightarrow>
      lookup c' k' g = (if k' = k \<and> s \<le> g then Some v else lookup c k' g)"
    and lookup_truncate: "inv c \<Longrightarrow>
      lookup (truncate t c) k g =
        (if g < t then lookup c k g else if t = 0 then None else lookup c k (t - 1))"
begin

lemma inv_run: "run_ix add truncate ops c = Inr c' \<Longrightarrow> inv c \<Longrightarrow> inv c'"
proof (induction ops arbitrary: c)
  case (Cons p ops)
  then show ?case
    by (cases p) (auto simp: bind_res_Inr_iff intro: inv_add inv_truncate)
qed simp

lemma lookup_add_above:
  "inv c \<Longrightarrow> add k s v c = Inr c' \<Longrightarrow> g < s \<Longrightarrow> lookup c' k' g = lookup c k' g"
  by (auto simp: lookup_add)

text \<open>A lookup at \<open>g\<close> is not changed by any run of insertions and truncations at
  sequence numbers above \<open>g\<close>.\<close>

lemma lookup_run_above:
  assumes "run_ix add truncate ops c = Inr c'" and "inv c"
    and "\<forall>p\<in>set ops. ix_op_above g p"
  shows "lookup c' k g = lookup c k g"
  using assms
proof (induction ops arbitrary: c)
  case Nil
  then show ?case by simp
next
  case (Cons p ops)
  show ?case
  proof (cases p)
    case (IxAdd k' s v)
    with Cons.prems obtain d where d: "add k' s v c = Inr d" "run_ix add truncate ops d = Inr c'"
      by (auto simp: bind_res_Inr_iff)
    have "lookup c' k g = lookup d k g"
      using Cons.IH [OF d(2)] Cons.prems d(1) by (auto intro: inv_add)
    also have "\<dots> = lookup c k g"
      using Cons.prems d(1) IxAdd by (auto intro!: lookup_add_above)
    finally show ?thesis .
  next
    case (IxTruncate t)
    with Cons.prems have r: "run_ix add truncate ops (truncate t c) = Inr c'" by simp
    have "lookup c' k g = lookup (truncate t c) k g"
      using Cons.IH [OF r] Cons.prems by (auto intro: inv_truncate)
    also have "\<dots> = lookup c k g"
      using Cons.prems IxTruncate by (simp add: lookup_truncate)
    finally show ?thesis .
  qed
qed

text \<open>Two indexes that agree on the lookups below \<open>t\<close> agree everywhere once both are
  truncated at \<open>t\<close>, and the same run of updates keeps indexes that agree in agreement.\<close>

lemma lookup_truncate_cong:
  assumes "inv c" and "inv c'" and "\<And>k g. g < t \<Longrightarrow> lookup c k g = lookup c' k g"
  shows "lookup (truncate t c) k g = lookup (truncate t c') k g"
  using assms by (auto simp: lookup_truncate word_less_pred_iff)

lemma lookup_run_cong:
  assumes "run_ix add truncate ops c = Inr d" and "run_ix add truncate ops c' = Inr d'"
    and "inv c" and "inv c'" and "\<And>k g. lookup c k g = lookup c' k g"
  shows "lookup d k g = lookup d' k g"
  using assms
proof (induction ops arbitrary: c c')
  case (Cons p ops)
  show ?case
  proof (cases p)
    case (IxAdd k' s v)
    with Cons.prems obtain e e' where e: "add k' s v c = Inr e" "run_ix add truncate ops e = Inr d"
      "add k' s v c' = Inr e'" "run_ix add truncate ops e' = Inr d'"
      by (auto simp: bind_res_Inr_iff)
    show ?thesis
    proof (rule Cons.IH [OF e(2,4)])
      show "lookup e k g = lookup e' k g" for k g
        using lookup_add [OF Cons.prems(3) e(1)] lookup_add [OF Cons.prems(4) e(3)] Cons.prems(5) by simp
    qed (use inv_add e Cons.prems in blast)+
  next
    case (IxTruncate t)
    with Cons.prems have "run_ix add truncate ops (truncate t c) = Inr d"
      "run_ix add truncate ops (truncate t c') = Inr d'" by simp_all
    then show ?thesis
      by (rule Cons.IH) (use Cons.prems(3-5) in \<open>auto intro: inv_truncate lookup_truncate_cong\<close>)
  qed
qed simp

end

end
