(* ===== verification/AbiCache.thy ===== *)
theory AbiCache
  imports VersionedIndex "HOL-Library.AList"
begin

text \<open>
  The ABI cache of \<open>codec/abi_cache.go\<close>: for each contract the ABIs it had, by the
  global sequence number of the action that set them, and the ordered list of these numbers.
  The inner Go map is an association list (its emptiness is tested), the outer maps are HOL
  maps. The cache refines a plain history of \<open>setabi\<close> events, and the interface
  \<open>versioned_index\<close> is interpreted on it.
\<close>

record 'abi ABICache =
  abis :: "string \<rightharpoonup> (u64 \<times> 'abi) list"
  abisOrdering :: "string \<rightharpoonup> u64 list"

datatype cache_error = NotSequential u64 u64

definition newABICache :: "'abi ABICache" where
  "newABICache = \<lparr>abis = Map.empty, abisOrdering = Map.empty\<rparr>"

definition addABI ::
  "string \<Rightarrow> u64 \<Rightarrow> 'abi \<Rightarrow> 'abi ABICache \<Rightarrow> cache_error + 'abi ABICache" where
  "addABI contract globalSequence abi c =
     (let found = abisOrdering c contract \<noteq> None;
          contractOrdering = (case abisOrdering c contract of None \<Rightarrow> [] | Some xs \<Rightarrow> xs)
      in if found \<and> contractOrdering \<noteq> [] \<and> last contractOrdering > globalSequence
         then Inl (NotSequential (last contractOrdering) globalSequence)
         else
           let contractAbis = (case abis c contract of None \<Rightarrow> [] | Some m \<Rightarrow> m)
           in Inr (c\<lparr>abis := (abis c)(contract \<mapsto> AList.update globalSequence abi contractAbis),
                     abisOrdering :=
                       (abisOrdering c)(contract \<mapsto> contractOrdering @ [globalSequence])\<rparr>))"

definition findABI :: "'abi ABICache \<Rightarrow> string \<Rightarrow> u64 \<Rightarrow> 'abi option" where
  "findABI c contract globalSequence =
     (case abisOrdering c contract of
        None \<Rightarrow> None
      | Some contractOrdering \<Rightarrow>
          (case find_last (\<lambda>active. active \<le> globalSequence) contractOrdering of
             None \<Rightarrow> None
           | Some active \<Rightarrow>
               (case abis c contract of None \<Rightarrow> None | Some m \<Rightarrow> map_of m active)))"

text \<open>The reverse loop of \<open>truncateAfterOrEqual\<close>, from index \<open>i - 1\<close> down.\<close>

fun pivot_from :: "u64 list \<Rightarrow> u64 \<Rightarrow> nat \<Rightarrow> int" where
  "pivot_from seqs element 0 = -1"
| "pivot_from seqs element (Suc i) =
     (if seqs ! i < element then int i else pivot_from seqs element i)"

definition truncateAfterOrEqual :: "u64 list \<Rightarrow> u64 \<Rightarrow> int \<times> u64 list \<times> u64 list" where
  "truncateAfterOrEqual seqs element =
     (if seqs = [] then (-1, [], [])
      else let pivot = pivot_from seqs element (length seqs) in
        if pivot = int (length seqs) - 1 then (pivot, seqs, [])
        else if pivot = -1 then (pivot, [], seqs)
        else (pivot, take (nat pivot + 1) seqs, drop (nat pivot + 1) seqs))"

text \<open>The body of the loop of \<open>truncateAfterOrEqualTo\<close> for one contract: its entry in
  each of the two maps, before and after. The iterations touch disjoint keys, so their order
  does not matter and the loop is a pointwise update.\<close>

definition truncate_contract ::
  "u64 \<Rightarrow> (u64 \<times> 'abi) list option \<Rightarrow> u64 list option \<Rightarrow>
   (u64 \<times> 'abi) list option \<times> u64 list option" where
  "truncate_contract globalSequence contractAbis contractOrdering =
     (case contractOrdering of
        None \<Rightarrow> (contractAbis, contractOrdering)
      | Some seqs \<Rightarrow>
          if seqs = [] then (contractAbis, contractOrdering)
          else case truncateAfterOrEqual seqs globalSequence of (pivot, preservedSet, cutSet) \<Rightarrow>
            if cutSet = [] then (contractAbis, contractOrdering)
            else
              let left = fold AList.delete cutSet
                           (case contractAbis of None \<Rightarrow> [] | Some m \<Rightarrow> m)
              in (if left = [] then None else Some left,
                  if preservedSet = [] then None else Some preservedSet))"

definition truncateAfterOrEqualTo :: "u64 \<Rightarrow> 'abi ABICache \<Rightarrow> 'abi ABICache" where
  "truncateAfterOrEqualTo globalSequence c =
     \<lparr>abis = (\<lambda>k. fst (truncate_contract globalSequence (abis c k) (abisOrdering c k))),
      abisOrdering = (\<lambda>k. snd (truncate_contract globalSequence (abis c k) (abisOrdering c k)))\<rparr>"

section \<open>Specification: a history of ABI changes\<close>

type_synonym 'abi history = "(string \<times> u64 \<times> 'abi) list"

definition hist_seqs :: "'abi history \<Rightarrow> string \<Rightarrow> u64 list" where
  "hist_seqs h k = map (\<lambda>(_, s, _). s) (filter (\<lambda>(k', _, _). k' = k) h)"

definition hist_at :: "'abi history \<Rightarrow> string \<Rightarrow> u64 \<Rightarrow> 'abi option" where
  "hist_at h k s = map_option (\<lambda>(_, _, a). a) (find_last (\<lambda>(k', s', _). k' = k \<and> s' = s) h)"

text \<open>The ABI of \<open>k\<close> that is active at \<open>g\<close>: the last one set at or before
  \<open>g\<close>.\<close>

definition hist_find :: "'abi history \<Rightarrow> string \<Rightarrow> u64 \<Rightarrow> 'abi option" where
  "hist_find h k g = map_option (\<lambda>(_, _, a). a) (find_last (\<lambda>(k', s, _). k' = k \<and> s \<le> g) h)"

definition hist_truncate :: "u64 \<Rightarrow> 'abi history \<Rightarrow> 'abi history" where
  "hist_truncate t h = filter (\<lambda>(_, s, _). s < t) h"

fun hist_step :: "(string, 'abi) ix_op \<Rightarrow> 'abi history \<Rightarrow> 'abi history" where
  "hist_step (IxAdd k s a) h = h @ [(k, s, a)]"
| "hist_step (IxTruncate t) h = hist_truncate t h"

definition entry_rel ::
  "'abi history \<Rightarrow> string \<Rightarrow> (u64 \<times> 'abi) list option \<Rightarrow> u64 list option \<Rightarrow> bool" where
  "entry_rel h k m ord \<longleftrightarrow>
     sorted (hist_seqs h k)
     \<and> ord = (if hist_seqs h k = [] then None else Some (hist_seqs h k))
     \<and> (case m of
          None \<Rightarrow> hist_seqs h k = []
        | Some m' \<Rightarrow> hist_seqs h k \<noteq> [] \<and> map_of m' = hist_at h k)"

definition cache_rel :: "'abi history \<Rightarrow> 'abi ABICache \<Rightarrow> bool" where
  "cache_rel h c \<longleftrightarrow> (\<forall>k. entry_rel h k (abis c k) (abisOrdering c k))"

definition cache_ok :: "'abi ABICache \<Rightarrow> bool" where
  "cache_ok c \<longleftrightarrow> (\<exists>h. cache_rel h c)"

section \<open>Lemmas on the history\<close>

lemma hist_seqs_Nil [simp]: "hist_seqs [] k = []"
  by (simp add: hist_seqs_def)

lemma hist_seqs_snoc [simp]:
  "hist_seqs (h @ [(k', s, a)]) k = (if k' = k then hist_seqs h k @ [s] else hist_seqs h k)"
  by (simp add: hist_seqs_def)

lemma hist_at_Nil [simp]: "hist_at [] k s = None"
  by (simp add: hist_at_def)

lemma hist_at_snoc [simp]:
  "hist_at (h @ [(k', s', a)]) k s = (if k' = k \<and> s' = s then Some a else hist_at h k s)"
  by (simp add: hist_at_def)

lemma hist_at_snoc_other: "k' \<noteq> k \<Longrightarrow> hist_at (h @ [(k', s', a)]) k = hist_at h k"
  by (simp add: fun_eq_iff)

lemma hist_at_empty: "hist_seqs h k = [] \<Longrightarrow> hist_at h k = Map.empty"
  by (induction h rule: rev_induct) (auto simp: fun_eq_iff split: if_splits)

lemma hist_find_Nil [simp]: "hist_find [] k g = None"
  by (simp add: hist_find_def)

lemma hist_find_snoc [simp]:
  "hist_find (h @ [(k', s, a)]) k g = (if k' = k \<and> s \<le> g then Some a else hist_find h k g)"
  by (simp add: hist_find_def)

lemma hist_seqs_truncate: "hist_seqs (hist_truncate t h) k = filter (\<lambda>s. s < t) (hist_seqs h k)"
  by (induction h) (auto simp: hist_truncate_def hist_seqs_def)

lemma hist_at_truncate: "hist_at (hist_truncate t h) k s = (if s < t then hist_at h k s else None)"
  by (induction h rule: rev_induct) (auto simp: hist_truncate_def)

lemma hist_at_None_iff: "hist_at h k s = None \<longleftrightarrow> s \<notin> set (hist_seqs h k)"
  by (induction h rule: rev_induct) (auto split: if_splits)

text \<open>In a sorted history the active ABI is the one at the greatest sequence number not
  above the requested one.\<close>

lemma hist_find_eq:
  assumes "sorted (hist_seqs h k)"
  shows "hist_find h k g =
    (case find_last (\<lambda>s. s \<le> g) (hist_seqs h k) of None \<Rightarrow> None | Some s \<Rightarrow> hist_at h k s)"
  using assms
proof (induction h rule: rev_induct)
  case Nil
  then show ?case by simp
next
  case (snoc x h)
  obtain k' s a where x: "x = (k', s, a)" by (cases x)
  show ?case
  proof (cases "k' = k")
    case False
    then show ?thesis using snoc x by (auto split: option.splits)
  next
    case True
    with snoc.prems x have sorted: "sorted (hist_seqs h k)" and le: "\<forall>y\<in>set (hist_seqs h k). y \<le> s"
      by (auto simp: sorted_append)
    show ?thesis
    proof (cases "s \<le> g")
      case True
      with x \<open>k' = k\<close> show ?thesis by simp
    next
      case False
      have "y \<noteq> s" if "find_last (\<lambda>s. s \<le> g) (hist_seqs h k) = Some y" for y
        using find_last_SomeD [OF that] False by auto
      with False x \<open>k' = k\<close> snoc.IH [OF sorted] show ?thesis
        by (auto split: option.splits)
    qed
  qed
qed

section \<open>Truncation splits a sorted list at the first element to remove\<close>

lemma sorted_filter_less_take:
  fixes xs :: "'a::linorder list"
  assumes "sorted xs"
  shows "take (length (filter (\<lambda>x. x < e) xs)) xs = filter (\<lambda>x. x < e) xs"
    and "drop (length (filter (\<lambda>x. x < e) xs)) xs = filter (\<lambda>x. \<not> x < e) xs"
proof -
  have none: "filter (\<lambda>y. y < e) ys = []" if "\<forall>y\<in>set ys. x \<le> y" "\<not> x < e" for ys and x :: 'a
    using that by (auto simp: filter_empty_conv)
  from assms show "take (length (filter (\<lambda>x. x < e) xs)) xs = filter (\<lambda>x. x < e) xs"
    by (induction xs) (auto simp: none)
  from assms show "drop (length (filter (\<lambda>x. x < e) xs)) xs = filter (\<lambda>x. \<not> x < e) xs"
    by (induction xs) (auto simp: none intro!: filter_True [symmetric])
qed

lemma pivot_from_eq:
  assumes "sorted xs" and "n \<le> length xs"
  shows "pivot_from xs e n = int (length (filter (\<lambda>x. x < e) (take n xs))) - 1"
  using assms(2)
proof (induction n)
  case 0
  then show ?case by simp
next
  case (Suc i)
  have tk: "take (Suc i) xs = take i xs @ [xs ! i]"
    using Suc.prems by (simp add: take_Suc_conv_app_nth)
  show ?case
  proof (cases "xs ! i < e")
    case True
    have "\<forall>x\<in>set (take i xs). x < e"
      using assms(1) Suc.prems True
      by (auto simp: in_set_conv_nth intro!: le_less_trans [OF sorted_nth_mono [of xs _ i] True])
    then show ?thesis using True Suc.prems tk by simp
  next
    case False
    then show ?thesis using Suc tk by simp
  qed
qed

lemma truncateAfterOrEqual_sorted:
  assumes "sorted xs"
  shows "snd (truncateAfterOrEqual xs e) = (filter (\<lambda>x. x < e) xs, filter (\<lambda>x. \<not> x < e) xs)"
proof (cases "xs = []")
  case False
  let ?n = "length (filter (\<lambda>x. x < e) xs)"
  have piv: "pivot_from xs e (length xs) = int ?n - 1"
    using pivot_from_eq [OF assms, of "length xs"] by simp
  have le: "?n \<le> length xs" by simp
  have all: "filter (\<lambda>x. x < e) xs = xs" if "?n = length xs"
    using sorted_filter_less_take(1) [OF assms, of e] that by simp
  show ?thesis
  proof (cases "?n = length xs")
    case True
    have "filter (\<lambda>x. \<not> x < e) xs = []"
      using sorted_filter_less_take(2) [OF assms, of e] True by simp
    then show ?thesis
      using False piv True all by (simp add: truncateAfterOrEqual_def)
  next
    case neq: False
    show ?thesis
    proof (cases "?n = 0")
      case True
      then have "filter (\<lambda>x. x < e) xs = []" by simp
      then show ?thesis
        using False piv sorted_filter_less_take(2) [OF assms, of e]
        by (simp add: truncateAfterOrEqual_def)
    next
      case nz: False
      have "nat (int ?n - 1) + 1 = ?n" using nz by linarith
      then show ?thesis
        using False piv neq nz le sorted_filter_less_take [OF assms, of e]
        by (simp add: truncateAfterOrEqual_def Let_def)
    qed
  qed
qed (simp add: truncateAfterOrEqual_def)

lemma map_of_fold_delete:
  "map_of (fold AList.delete ks m) = (\<lambda>k. if k \<in> set ks then None else map_of m k)"
  by (induction ks arbitrary: m) (auto simp: AList.delete_conv fun_eq_iff)

lemma truncate_contract_Some:
  assumes "sorted seqs" and "seqs \<noteq> []"
  shows "truncate_contract t (Some m) (Some seqs) =
    (if filter (\<lambda>x. \<not> x < t) seqs = [] then (Some m, Some seqs)
     else let left = fold AList.delete (filter (\<lambda>x. \<not> x < t) seqs) m
          in (if left = [] then None else Some left,
              if filter (\<lambda>x. x < t) seqs = [] then None
              else Some (filter (\<lambda>x. x < t) seqs)))"
  using truncateAfterOrEqual_sorted [OF assms(1), of t] assms(2)
  by (cases "truncateAfterOrEqual seqs t") (auto simp: truncate_contract_def Let_def)

section \<open>The cache refines the history\<close>

lemma cache_rel_new: "cache_rel [] newABICache"
  by (simp add: cache_rel_def entry_rel_def newABICache_def)

lemma cache_rel_entry: "cache_rel h c \<Longrightarrow> entry_rel h k (abis c k) (abisOrdering c k)"
  by (simp add: cache_rel_def)

lemma entry_rel_Nil: "hist_seqs h k = [] \<Longrightarrow> entry_rel h k m ord \<longleftrightarrow> m = None \<and> ord = None"
  by (auto simp: entry_rel_def split: option.splits)

lemma entry_rel_ne:
  "hist_seqs h k \<noteq> [] \<Longrightarrow> entry_rel h k m ord \<longleftrightarrow>
     sorted (hist_seqs h k) \<and> ord = Some (hist_seqs h k)
     \<and> (\<exists>m'. m = Some m' \<and> map_of m' = hist_at h k)"
  by (auto simp: entry_rel_def split: option.splits)

lemma entry_rel_sorted: "entry_rel h k m ord \<Longrightarrow> sorted (hist_seqs h k)"
  by (simp add: entry_rel_def)

lemma entry_rel_abis:
  assumes "entry_rel h k m ord"
  shows "map_of (case m of None \<Rightarrow> [] | Some m' \<Rightarrow> m') = hist_at h k"
  using assms
  by (cases "hist_seqs h k = []")
    (auto simp: entry_rel_Nil entry_rel_ne hist_at_empty)

lemma entry_rel_other:
  "k' \<noteq> k \<Longrightarrow> entry_rel (h @ [(k', s, a)]) k m ord \<longleftrightarrow> entry_rel h k m ord"
  by (cases m) (simp_all add: entry_rel_def hist_at_snoc_other)

lemma sorted_le_last: "sorted xs \<Longrightarrow> xs \<noteq> [] \<Longrightarrow> (\<forall>y\<in>set xs. y \<le> s) \<longleftrightarrow> last xs \<le> s"
  by (induction xs rule: rev_induct) (auto simp: sorted_append)

lemma addABI_eq:
  assumes "cache_rel h c"
  shows "addABI k s a c =
    (if \<forall>y\<in>set (hist_seqs h k). y \<le> s
     then Inr (c\<lparr>abis := (abis c)(k \<mapsto> AList.update s a
             (case abis c k of None \<Rightarrow> [] | Some m \<Rightarrow> m)),
           abisOrdering := (abisOrdering c)(k \<mapsto> hist_seqs h k @ [s])\<rparr>)
     else Inl (NotSequential (last (hist_seqs h k)) s))"
proof (cases "hist_seqs h k = []")
  case True
  then have "abisOrdering c k = None"
    using cache_rel_entry [OF assms, of k] by (simp add: entry_rel_Nil)
  then show ?thesis using True by (simp add: addABI_def)
next
  case False
  then have "abisOrdering c k = Some (hist_seqs h k)" and "sorted (hist_seqs h k)"
    using cache_rel_entry [OF assms, of k] by (simp_all add: entry_rel_ne)
  then show ?thesis
    using False sorted_le_last [of "hist_seqs h k" s] leD not_le_imp_less
    by (auto simp: addABI_def Let_def)
qed

lemma cache_rel_add:
  assumes rel: "cache_rel h c" and ok: "addABI k s a c = Inr c'"
  shows "cache_rel (h @ [(k, s, a)]) c'"
  unfolding cache_rel_def
proof
  fix k'
  note eq = addABI_eq [OF rel, of k s a]
  have le: "\<forall>y\<in>set (hist_seqs h k). y \<le> s" using ok eq by (auto split: if_splits)
  have c': "c' = c\<lparr>abis := (abis c)(k \<mapsto> AList.update s a
        (case abis c k of None \<Rightarrow> [] | Some m \<Rightarrow> m)),
      abisOrdering := (abisOrdering c)(k \<mapsto> hist_seqs h k @ [s])\<rparr>"
    using ok eq le by simp
  show "entry_rel (h @ [(k, s, a)]) k' (abis c' k') (abisOrdering c' k')"
  proof (cases "k' = k")
    case False
    then show ?thesis
      using cache_rel_entry [OF rel, of k'] c' by (simp add: entry_rel_other)
  next
    case True
    have "map_of (AList.update s a (case abis c k of None \<Rightarrow> [] | Some m \<Rightarrow> m))
        = hist_at (h @ [(k, s, a)]) k"
      using entry_rel_abis [OF cache_rel_entry [OF rel, of k]]
      by (simp add: fun_eq_iff update_conv)
    then show ?thesis
      using True c' le entry_rel_sorted [OF cache_rel_entry [OF rel, of k]]
      by (simp add: entry_rel_ne sorted_append)
  qed
qed

lemma entry_rel_truncate:
  assumes rel: "entry_rel h k m ord"
  shows "entry_rel (hist_truncate t h) k
    (fst (truncate_contract t m ord)) (snd (truncate_contract t m ord))"
proof (cases "hist_seqs h k = []")
  case True
  then show ?thesis
    using rel by (simp add: entry_rel_Nil truncate_contract_def hist_seqs_truncate)
next
  case ne: False
  let ?s = "hist_seqs h k"
  let ?keep = "filter (\<lambda>x. x < t) ?s" and ?cut = "filter (\<lambda>x. \<not> x < t) ?s"
  obtain m' where m: "m = Some m'" "map_of m' = hist_at h k" and ord: "ord = Some ?s"
    and sorted: "sorted ?s" using rel ne by (auto simp: entry_rel_ne)
  define left where "left = fold AList.delete ?cut m'"
  have ml: "map_of left = hist_at (hist_truncate t h) k"
    unfolding left_def map_of_fold_delete m(2)
    by (auto simp: fun_eq_iff hist_at_truncate hist_at_None_iff)
  have "left = [] \<longleftrightarrow> (\<forall>x. map_of left x = None)"
    by (metis list.exhaust map_of_eq_empty_iff)
  then have left_Nil: "left = [] \<longleftrightarrow> ?keep = []"
    unfolding ml by (auto simp: hist_at_None_iff hist_seqs_truncate filter_empty_conv)
  have sorted': "sorted ?keep" using sorted by (simp add: sorted_wrt_filter)
  show ?thesis
  proof (cases "?cut = []")
    case True
    then have keep: "?keep = ?s" by (simp add: filter_empty_conv filter_id_conv)
    have "left = m'" using True by (simp add: left_def)
    then show ?thesis
      using truncate_contract_Some [OF sorted ne, of t m'] True keep m ord ml ne sorted
      by (simp add: entry_rel_ne hist_seqs_truncate)
  next
    case False
    then show ?thesis
      using truncate_contract_Some [OF sorted ne, of t m'] m ord ml sorted' left_Nil
      by (simp add: entry_rel_def hist_seqs_truncate left_def [symmetric] Let_def)
  qed
qed

lemma cache_rel_truncate:
  "cache_rel h c \<Longrightarrow> cache_rel (hist_truncate t h) (truncateAfterOrEqualTo t c)"
  by (simp add: cache_rel_def truncateAfterOrEqualTo_def entry_rel_truncate)

lemma findABI_hist:
  assumes "cache_rel h c"
  shows "findABI c k g = hist_find h k g"
proof (cases "hist_seqs h k = []")
  case True
  then show ?thesis
    using cache_rel_entry [OF assms, of k] by (simp add: findABI_def entry_rel_Nil hist_find_eq)
next
  case False
  then show ?thesis
    using cache_rel_entry [OF assms, of k]
    by (auto simp: findABI_def entry_rel_ne hist_find_eq split: option.splits)
qed

lemma cache_rel_run:
  assumes "run_ix addABI truncateAfterOrEqualTo ops c = Inr c'" and "cache_rel h c"
  shows "cache_rel (fold hist_step ops h) c'"
  using assms
proof (induction ops arbitrary: c h)
  case (Cons p ops)
  then show ?case
    by (cases p) (auto simp: bind_res_Inr_iff intro: cache_rel_add cache_rel_truncate)
qed simp

lemma hist_find_truncate:
  "hist_find (hist_truncate t h) k g =
     (if g < t then hist_find h k g else if t = 0 then None else hist_find h k (t - 1))"
proof -
  have "s < t \<and> s \<le> g \<longleftrightarrow> (if g < t then s \<le> g else t \<noteq> 0 \<and> s \<le> t - 1)" for s
    by (cases "t = 0"; cases "g < t") (auto simp: word_less_pred_iff [symmetric])
  then have "find_last (\<lambda>(k', s, _). k' = k \<and> s \<le> g) (hist_truncate t h) =
      find_last (\<lambda>(k', s, _). k' = k \<and> (if g < t then s \<le> g else t \<noteq> 0 \<and> s \<le> t - 1)) h"
    unfolding hist_truncate_def find_last_filter by (intro find_last_cong) auto
  then show ?thesis
    by (auto simp: hist_find_def find_last_None_iff)
qed

interpretation abi_ix: versioned_index newABICache addABI findABI truncateAfterOrEqualTo cache_ok
proof unfold_locales
  show "cache_ok newABICache"
    unfolding cache_ok_def by (blast intro: cache_rel_new)
  show "cache_ok c'" if "cache_ok c" "addABI k s v c = Inr c'" for c :: "'a ABICache" and k s v c'
    using that unfolding cache_ok_def by (blast intro: cache_rel_add)
  show "cache_ok (truncateAfterOrEqualTo t c)" if "cache_ok c" for c :: "'a ABICache" and t
    using that unfolding cache_ok_def by (blast intro: cache_rel_truncate)
  show "findABI newABICache k g = None" for k g
    by (simp add: findABI_def newABICache_def)
  show "findABI c' k' g = (if k' = k \<and> s \<le> g then Some v else findABI c k' g)"
    if ok: "cache_ok c" and add: "addABI k s v c = Inr c'" for c :: "'a ABICache" and k s v c' k' g
  proof -
    obtain h where h: "cache_rel h c" using ok by (auto simp: cache_ok_def)
    show ?thesis
      using findABI_hist [OF cache_rel_add [OF h add]] findABI_hist [OF h] by auto
  qed
  show "findABI (truncateAfterOrEqualTo t c) k g =
      (if g < t then findABI c k g else if t = 0 then None else findABI c k (t - 1))"
    if "cache_ok c" for c :: "'a ABICache" and t k g
    using that by (auto simp: cache_ok_def findABI_hist cache_rel_truncate hist_find_truncate
        findABI_hist [OF cache_rel_truncate])
qed

section \<open>Properties\<close>

text \<open>C7: the cache refines the plain history of ABI changes: after any sequence of additions and
  truncations the cache accepted, a lookup gives the last ABI of the contract set at or before the
  sequence number, in the history from which every truncation removed the changes at or after its
  sequence number.\<close>

theorem abi_cache_refines_history:
  assumes "run_ix addABI truncateAfterOrEqualTo ops newABICache = Inr c"
  shows "findABI c k g = hist_find (fold hist_step ops []) k g"
  using cache_rel_run [OF assms cache_rel_new] by (rule findABI_hist)

theorem abi_cache_refines_history_witness:
  "\<exists>c. run_ix addABI truncateAfterOrEqualTo
      [IxAdd ''acc'' 3 (7 :: nat), IxAdd ''acc'' 9 8, IxTruncate 5, IxAdd ''acc'' 6 9] newABICache = Inr c
    \<and> findABI c ''acc'' 5 = Some 7 \<and> findABI c ''acc'' 6 = Some 9"
proof -
  let ?ops = "[IxAdd ''acc'' 3 (7 :: nat), IxAdd ''acc'' 9 8, IxTruncate 5, IxAdd ''acc'' 6 9]"
  have "\<not> isl (run_ix addABI truncateAfterOrEqualTo ?ops newABICache)" by code_simp
  then obtain c where c: "run_ix addABI truncateAfterOrEqualTo ?ops newABICache = Inr c"
    by (cases "run_ix addABI truncateAfterOrEqualTo ?ops newABICache") auto
  have "hist_find (fold hist_step ?ops []) ''acc'' 5 = Some 7"
    "hist_find (fold hist_step ?ops []) ''acc'' 6 = Some 9" by code_simp+
  with c show ?thesis by (auto simp: abi_cache_refines_history [OF c])
qed

text \<open>An ABI is refused exactly when the contract already has one set at a later sequence
  number; an ABI set again at the last sequence number is accepted.\<close>

theorem addABI_rejects_iff_out_of_order:
  assumes "run_ix addABI truncateAfterOrEqualTo ops newABICache = Inr c"
  shows "isl (addABI k s a c) \<longleftrightarrow> (\<exists>s' a'. (k, s', a') \<in> set (fold hist_step ops []) \<and> s < s')"
  unfolding addABI_eq [OF cache_rel_run [OF assms cache_rel_new]] hist_seqs_def
  by (auto simp: not_le)

theorem addABI_rejects_iff_out_of_order_witness:
  "\<exists>c. run_ix addABI truncateAfterOrEqualTo [IxAdd ''acc'' 3 (7 :: nat)] newABICache = Inr c
    \<and> isl (addABI ''acc'' 2 8 c) \<and> \<not> isl (addABI ''acc'' 3 8 c)"
proof -
  have "\<not> isl (run_ix addABI truncateAfterOrEqualTo [IxAdd ''acc'' 3 (7 :: nat)] newABICache)" by code_simp
  then obtain c where c: "run_ix addABI truncateAfterOrEqualTo [IxAdd ''acc'' 3 (7 :: nat)] newABICache = Inr c"
    by (cases "run_ix addABI truncateAfterOrEqualTo [IxAdd ''acc'' 3 (7 :: nat)] newABICache") auto
  then show ?thesis
    by (auto simp: addABI_rejects_iff_out_of_order [OF c])
qed

end
