(* ===== verification/AbiDecoder.thy ===== *)
theory AbiDecoder
  imports PbHelpers AbiCache
begin

text \<open>
  The ABI decoder of \<open>codec/abi_decoder.go\<close>. Its state is the ABI cache, the block being
  processed, the last block completed, the truncation flag and the queue of decoding jobs handed
  to the ordered worker pool. A worker writes the field \<open>JsonData\<close> of an action through a
  pointer, so the decoder state holds a heap from action addresses to the text written.
  The functions below run the queued jobs in order when the queue is drained; the section on
  schedules relates this to workers that run them at any earlier moment.

  Code of other repositories (the binary and ABI codec of \<open>eos-go\<close>, the JSON encoding of its
  types) is the record \<open>abi_env\<close>, a parameter of the functions that call it.
\<close>

section \<open>Data\<close>

record inject_data =
  inj_Data :: string
  inj_Id :: string
  inj_Payer :: string
  inj_Scope :: string
  inj_Table :: string

record 'abi abi_env =
  eos_UnmarshalABI :: "bool \<Rightarrow> bytes \<Rightarrow> 'abi option"
  eos_SetFitNodeos :: "'abi \<Rightarrow> 'abi"
  eos_UnmarshalSetABI :: "bytes \<Rightarrow> (string \<times> bytes) option"
  eos_ActionForName :: "'abi \<Rightarrow> string \<Rightarrow> string option"
  eos_Decode :: "'abi \<Rightarrow> bytes \<Rightarrow> string \<Rightarrow> string option"
  eos_DecodeTableRow :: "'abi \<Rightarrow> string \<Rightarrow> bytes \<Rightarrow> string option"
  eos_ReadName :: "bytes \<Rightarrow> (string \<times> bytes) option"
  eos_ReadAsset :: "bytes \<Rightarrow> (string \<times> bytes) option"
  eos_ReadString :: "bytes \<Rightarrow> (string \<times> bytes) option"
  json_MarshalTransfer :: "string \<Rightarrow> string \<Rightarrow> string \<Rightarrow> string \<Rightarrow> string option"
  json_UnmarshalInject :: "string \<Rightarrow> inject_data option"
  json_UnmarshalMap :: "string \<Rightarrow> string option"
  json_MarshalInject :: "string \<Rightarrow> inject_data \<Rightarrow> string option"

record 'abi abiOperation =
  ao_account :: string
  ao_actionIndex :: nat
  ao_globalSequence :: u64
  ao_abi :: 'abi

record 'abi actionJob =
  job_action :: Action
  job_actualblockNum :: u64
  job_actualTrxID :: string
  job_globalSequence :: u64
  job_localCache :: "'abi ABICache option"

datatype 'abi decodingJob =
    actionDecodingJob (job_of: "'abi actionJob")
  | dtrxDecodingJob (job_of: "'abi actionJob")

record 'abi ABIDecoder =
  cache :: "'abi ABICache"
  activeBlockNum :: u64
  lastSeenBlockRef :: "BlockRef option"
  truncateOnNextGlobalSequence :: bool
  pool :: "'abi decodingJob list"
  jsonHeap :: "nat \<rightharpoonup> string"

datatype decoder_error =
    AlreadyProcessing u64 u64
  | NoActiveBlock
  | WrongBlockDone u64 u64
  | BadBase64ABI string
  | CacheError cache_error
  | BadSetABI nat string
  | NilActionReceipt
  | ActionIndexOutOfRange
  | NilTransaction
  | JobOfOtherBlock u64 u64

definition mostRecentActiveABI :: u64 where
  "mostRecentActiveABI = -1"

definition noActiveBlockNum :: u64 where
  "noActiveBlockNum = -1"

definition newABIDecoder :: "'abi ABIDecoder" where
  "newABIDecoder =
     \<lparr>cache = newABICache, activeBlockNum = noActiveBlockNum, lastSeenBlockRef = None,
      truncateOnNextGlobalSequence = False, pool = [], jsonHeap = Map.empty\<rparr>"

section \<open>Decoding one action\<close>

text \<open>\<open>findABI\<close> of the decoder: the local cache of the transaction first, then the cache of the
  decoder.\<close>

definition decoder_findABI ::
  "'abi ABICache \<Rightarrow> string \<Rightarrow> u64 \<Rightarrow> 'abi ABICache option \<Rightarrow> 'abi option" where
  "decoder_findABI globalCache contract globalSequence localCache =
     (case localCache of
        None \<Rightarrow> findABI globalCache contract globalSequence
      | Some local \<Rightarrow>
          (case findABI local contract globalSequence of
             Some abi \<Rightarrow> Some abi
           | None \<Rightarrow> findABI globalCache contract globalSequence))"

text \<open>The result is the string stored; on an error the source stores the empty string.\<close>

definition decodeTransfer :: "'abi abi_env \<Rightarrow> bytes \<Rightarrow> string option" where
  "decodeTransfer env d0 =
     (case eos_ReadName env d0 of
        None \<Rightarrow> None
      | Some (from, d1) \<Rightarrow>
          (case eos_ReadName env d1 of
             None \<Rightarrow> None
           | Some (to, d2) \<Rightarrow>
               (case eos_ReadAsset env d2 of
                  None \<Rightarrow> None
                | Some (quantity, d3) \<Rightarrow>
                    (case eos_ReadString env d3 of
                       None \<Rightarrow> None
                     | Some (memo, d4) \<Rightarrow> json_MarshalTransfer env from to quantity memo))))"

definition DecodeTableInject :: "'abi abi_env \<Rightarrow> string \<Rightarrow> 'abi \<Rightarrow> string option" where
  "DecodeTableInject env data abi =
     (case json_UnmarshalInject env data of
        None \<Rightarrow> None
      | Some dataRd \<Rightarrow>
          (case hex_DecodeString (inj_Data dataRd) of
             None \<Rightarrow> None
           | Some rowData \<Rightarrow>
               (case eos_DecodeTableRow env abi (inj_Table dataRd) rowData of
                  None \<Rightarrow> None
                | Some subactionData \<Rightarrow>
                    (case json_UnmarshalMap env subactionData of
                       None \<Rightarrow> None
                     | Some subactionDataMap \<Rightarrow> json_MarshalInject env subactionDataMap dataRd))))"

text \<open>What \<open>decodeAction\<close> writes into \<open>JsonData\<close>: \<open>None\<close> leaves the field as it is.\<close>

definition decoded_data ::
  "'abi abi_env \<Rightarrow> 'abi ABICache \<Rightarrow> Action \<Rightarrow> u64 \<Rightarrow> 'abi ABICache option \<Rightarrow> string option" where
  "decoded_data env globalCache action globalSequence localCache =
     (if act_RawData action = [] then None
      else if act_Account action = ''eosio.token'' \<and> act_Name action = ''transfer''
        \<and> length (act_RawData action) \<ge> 33
      then Some (case decodeTransfer env (act_RawData action) of None \<Rightarrow> '''' | Some s \<Rightarrow> s)
      else
        case decoder_findABI globalCache (act_Account action) globalSequence localCache of
          None \<Rightarrow> None
        | Some abi \<Rightarrow>
            (case eos_ActionForName env abi (act_Name action) of
               None \<Rightarrow> None
             | Some actionType \<Rightarrow>
                 (case eos_Decode env abi (act_RawData action) actionType of
                    None \<Rightarrow> None
                  | Some jsonData \<Rightarrow>
                      if act_Name action = ''inject''
                      then Some (case DecodeTableInject env jsonData abi of None \<Rightarrow> '''' | Some s \<Rightarrow> s)
                      else Some jsonData)))"

definition decodeAction ::
  "'abi abi_env \<Rightarrow> 'abi ABICache \<Rightarrow> 'abi actionJob \<Rightarrow> (nat \<rightharpoonup> string) \<Rightarrow> (nat \<rightharpoonup> string)" where
  "decodeAction env globalCache job heap =
     (case decoded_data env globalCache (job_action job) (job_globalSequence job) (job_localCache job) of
        None \<Rightarrow> heap
      | Some jsonData \<Rightarrow> heap(act_ref (job_action job) \<mapsto> jsonData))"

definition JsonData :: "(nat \<rightharpoonup> string) \<Rightarrow> Action \<Rightarrow> string" where
  "JsonData heap a = (case heap (act_ref a) of None \<Rightarrow> act_JsonData a | Some s \<Rightarrow> s)"

definition executeDecodingJob ::
  "'abi abi_env \<Rightarrow> 'abi decodingJob \<Rightarrow> 'abi ABIDecoder \<Rightarrow> decoder_error + 'abi ABIDecoder" where
  "executeDecodingJob env job d =
     (if job_actualblockNum (job_of job) \<noteq> activeBlockNum d
      then Inl (JobOfOtherBlock (job_actualblockNum (job_of job)) (activeBlockNum d))
      else Inr (d\<lparr>jsonHeap := decodeAction env (cache d) (job_of job) (jsonHeap d)\<rparr>))"

text \<open>The pool runs its jobs; the decoder does not read the error of a job.\<close>

definition run_job :: "'abi abi_env \<Rightarrow> 'abi decodingJob \<Rightarrow> 'abi ABIDecoder \<Rightarrow> 'abi ABIDecoder" where
  "run_job env job d = (case executeDecodingJob env job d of Inl _ \<Rightarrow> d | Inr d' \<Rightarrow> d')"

definition addJobs :: "'abi decodingJob list \<Rightarrow> 'abi ABIDecoder \<Rightarrow> 'abi ABIDecoder" where
  "addJobs jobs d = d\<lparr>pool := pool d @ jobs\<rparr>"

definition drain :: "'abi abi_env \<Rightarrow> 'abi ABIDecoder \<Rightarrow> decoder_error + 'abi ABIDecoder" where
  "drain env d =
     (let doneBlockNum = activeBlockNum d;
          d' = (fold (run_job env) (pool d) d)\<lparr>pool := []\<rparr>
      in if doneBlockNum \<noteq> activeBlockNum d'
         then Inl (WrongBlockDone doneBlockNum (activeBlockNum d'))
         else Inr d')"

section \<open>ABIs of a transaction\<close>

definition resetCache :: "'abi ABIDecoder \<Rightarrow> 'abi ABIDecoder" where
  "resetCache d = d\<lparr>cache := newABICache\<rparr>"

definition lift_cache :: "cache_error + 'abi ABICache \<Rightarrow> decoder_error + 'abi ABICache" where
  "lift_cache r = (case r of Inl e \<Rightarrow> Inl (CacheError e) | Inr c \<Rightarrow> Inr c)"

definition addInitialABI ::
  "'abi abi_env \<Rightarrow> string \<Rightarrow> string \<Rightarrow> 'abi ABIDecoder \<Rightarrow> decoder_error + 'abi ABIDecoder" where
  "addInitialABI env contract b64ABI d =
     (case b64_DecodeString b64ABI of
        None \<Rightarrow> Inl (BadBase64ABI contract)
      | Some rawABI \<Rightarrow>
          (case eos_UnmarshalABI env True rawABI of
             None \<Rightarrow> Inr d
           | Some abi \<Rightarrow>
               bind_res (lift_cache (addABI contract 0 abi (cache d))) (\<lambda>c. Inr (d\<lparr>cache := c\<rparr>))))"

definition actionTraceGlobalSequence :: "ActionTrace \<Rightarrow> u64" where
  "actionTraceGlobalSequence a =
     (case at_Receipt a of
        None \<Rightarrow> mostRecentActiveABI
      | Some r \<Rightarrow> if rcpt_GlobalSequence r \<noteq> 0 then rcpt_GlobalSequence r else mostRecentActiveABI)"

definition findFirstGlobalSequence :: "trace_fields \<Rightarrow> decoder_error + u64 option" where
  "findFirstGlobalSequence t =
     (if HasBeenReverted t \<or> tt_ActionTraces t = [] then Inr None
      else case at_Receipt (tt_ActionTraces t ! 0) of
             None \<Rightarrow> Inl NilActionReceipt
           | Some r \<Rightarrow> Inr (Some (rcpt_GlobalSequence r)))"

definition add_operation ::
  "'abi abiOperation \<Rightarrow> 'abi ABICache \<Rightarrow> decoder_error + 'abi ABICache" where
  "add_operation op c = lift_cache (addABI (ao_account op) (ao_globalSequence op) (ao_abi op) c)"

definition commitABIs ::
  "'abi abiOperation list \<Rightarrow> 'abi ABIDecoder \<Rightarrow> decoder_error + 'abi ABIDecoder" where
  "commitABIs operations d =
     bind_res (fold_res add_operation operations (cache d)) (\<lambda>c. Inr (d\<lparr>cache := c\<rparr>))"

definition createLocalABICache :: "'abi abiOperation list \<Rightarrow> decoder_error + 'abi ABICache" where
  "createLocalABICache operations = fold_res add_operation operations newABICache"

text \<open>One iteration of the loop of \<open>extractABIOperations\<close>.\<close>

definition extract_one ::
  "'abi abi_env \<Rightarrow> string \<Rightarrow> nat \<times> ActionTrace \<Rightarrow> 'abi abiOperation list \<Rightarrow>
   decoder_error + 'abi abiOperation list" where
  "extract_one env trxId ia out =
     (case ia of (i, a) \<Rightarrow>
        (case at_Receipt a of
           None \<Rightarrow> Inr out
         | Some receipt \<Rightarrow>
             if FullName a \<noteq> ''eosio:eosio:setabi'' then Inr out
             else case eos_UnmarshalSetABI env (act_RawData (at_Action a)) of
                    None \<Rightarrow> Inl (BadSetABI i trxId)
                  | Some (account, rawABI) \<Rightarrow>
                      (case eos_UnmarshalABI env False rawABI of
                         None \<Rightarrow> Inr out
                       | Some abi \<Rightarrow>
                           Inr (out @ [\<lparr>ao_account = account, ao_actionIndex = i,
                                        ao_globalSequence = rcpt_GlobalSequence receipt,
                                        ao_abi = eos_SetFitNodeos env abi\<rparr>]))))"

definition extractABIOperations ::
  "'abi abi_env \<Rightarrow> trace_fields \<Rightarrow> decoder_error + 'abi abiOperation list" where
  "extractABIOperations env t =
     fold_res (extract_one env (tt_Id t)) (enumerate 0 (tt_ActionTraces t)) []"

definition truncateCache :: "u64 \<Rightarrow> 'abi ABIDecoder \<Rightarrow> 'abi ABIDecoder" where
  "truncateCache truncateAt d =
     d\<lparr>cache := truncateAfterOrEqualTo truncateAt (cache d),
       truncateOnNextGlobalSequence := False\<rparr>"

section \<open>Transactions and blocks\<close>

definition mk_job ::
  "'abi ABIDecoder \<Rightarrow> string \<Rightarrow> u64 \<Rightarrow> 'abi ABICache option \<Rightarrow> Action \<Rightarrow> 'abi actionJob" where
  "mk_job d trxId globalSequence localCache action =
     \<lparr>job_action = action, job_actualblockNum = activeBlockNum d, job_actualTrxID = trxId,
      job_globalSequence = globalSequence, job_localCache = localCache\<rparr>"

definition action_jobs ::
  "'abi ABIDecoder \<Rightarrow> trace_fields \<Rightarrow> 'abi ABICache option \<Rightarrow> 'abi decodingJob list" where
  "action_jobs d t localCache =
     map (\<lambda>a. actionDecodingJob (mk_job d (tt_Id t) (actionTraceGlobalSequence a) localCache (at_Action a)))
       (tt_ActionTraces t)"

definition transaction_jobs ::
  "'abi ABIDecoder \<Rightarrow> string \<Rightarrow> u64 \<Rightarrow> 'abi ABICache option \<Rightarrow> SignedTransaction \<Rightarrow>
   'abi decodingJob list" where
  "transaction_jobs d trxId globalSequence localCache st =
     map (\<lambda>a. dtrxDecodingJob (mk_job d trxId globalSequence localCache a))
       (tx_ContextFreeActions (st_Transaction st) @ tx_Actions (st_Transaction st))"

text \<open>The body of the loop over \<open>DtrxOps\<close>: indexing past the action traces and reading a
  missing transaction are run-time panics of the source.\<close>

definition dtrx_jobs ::
  "'abi ABIDecoder \<Rightarrow> trace_fields \<Rightarrow> 'abi ABICache option \<Rightarrow> DTrxOp \<Rightarrow>
   'abi decodingJob list \<Rightarrow> decoder_error + 'abi decodingJob list" where
  "dtrx_jobs d t localCache op jobs =
     bind_res
       (if dtrx_Operation op = DTrxOp_OPERATION_PUSH_CREATE then Inr mostRecentActiveABI
        else if unat (dtrx_ActionIndex op) < length (tt_ActionTraces t)
        then Inr (actionTraceGlobalSequence (tt_ActionTraces t ! unat (dtrx_ActionIndex op)))
        else Inl ActionIndexOutOfRange)
       (\<lambda>globalSequence.
         bind_res (from_opt NilTransaction (dtrx_Transaction op)) (\<lambda>st.
           Inr (jobs @ transaction_jobs d (tt_Id t) globalSequence localCache st)))"

definition processTransaction ::
  "'abi abi_env \<Rightarrow> trace_fields \<Rightarrow> 'abi ABIDecoder \<Rightarrow> decoder_error + 'abi ABIDecoder" where
  "processTransaction env t d =
     bind_res
       (if truncateOnNextGlobalSequence d
        then bind_res (findFirstGlobalSequence t) (\<lambda>found.
               Inr (case found of None \<Rightarrow> d | Some truncateAt \<Rightarrow> truncateCache truncateAt d))
        else Inr d)
       (\<lambda>d1. bind_res (extractABIOperations env t) (\<lambda>abiOperations.
         bind_res
           (if abiOperations \<noteq> [] \<and> \<not> HasBeenReverted t then commitABIs abiOperations d1 else Inr d1)
           (\<lambda>d2. bind_res
             (if abiOperations \<noteq> [] \<and> HasBeenReverted t
              then bind_res (createLocalABICache abiOperations) (\<lambda>c. Inr (Some c)) else Inr None)
             (\<lambda>localCache.
               bind_res (fold_res (dtrx_jobs d2 t localCache) (tt_DtrxOps t) (action_jobs d2 t localCache))
                 (\<lambda>decodingJobs. Inr (addJobs decodingJobs d2))))))"

definition processImplicitTransactions :: "TrxOp list \<Rightarrow> 'abi ABIDecoder \<Rightarrow> 'abi ABIDecoder" where
  "processImplicitTransactions trxOps d =
     addJobs (concat (map (\<lambda>trxOp. transaction_jobs d (trx_TransactionId trxOp) mostRecentActiveABI None
                                      (trx_Transaction trxOp)) trxOps)) d"

definition startBlock :: "u64 \<Rightarrow> 'abi ABIDecoder \<Rightarrow> decoder_error + 'abi ABIDecoder" where
  "startBlock blockNum d =
     (if activeBlockNum d \<noteq> noActiveBlockNum then Inl (AlreadyProcessing blockNum (activeBlockNum d))
      else
        let d1 = d\<lparr>activeBlockNum := blockNum\<rparr>
        in Inr (case lastSeenBlockRef d of
                  None \<Rightarrow> d1
                | Some ref \<Rightarrow> if ref_Num ref + 1 \<noteq> blockNum
                    then d1\<lparr>truncateOnNextGlobalSequence := True\<rparr> else d1))"

definition endBlock ::
  "'abi abi_env \<Rightarrow> Block \<Rightarrow> 'abi ABIDecoder \<Rightarrow> decoder_error + 'abi ABIDecoder" where
  "endBlock env block d =
     (if activeBlockNum d = noActiveBlockNum then Inl NoActiveBlock
      else
        bind_res (drain env (processImplicitTransactions (blk_UnfilteredImplicitTransactionOps block) d))
          (\<lambda>d1. Inr (d1\<lparr>activeBlockNum := noActiveBlockNum, lastSeenBlockRef := Some (AsRef block)\<rparr>)))"

definition abortBlock :: "'abi abi_env \<Rightarrow> 'abi ABIDecoder \<Rightarrow> decoder_error + 'abi ABIDecoder" where
  "abortBlock env d =
     (if activeBlockNum d = noActiveBlockNum then Inr d
      else bind_res (drain env d) (\<lambda>d1.
        Inr (d1\<lparr>activeBlockNum := noActiveBlockNum, truncateOnNextGlobalSequence := True\<rparr>)))"

section \<open>Frame properties\<close>

definition heap_job ::
  "'abi abi_env \<Rightarrow> 'abi ABICache \<Rightarrow> u64 \<Rightarrow> 'abi decodingJob \<Rightarrow> (nat \<rightharpoonup> string) \<Rightarrow> (nat \<rightharpoonup> string)" where
  "heap_job env c b job heap =
     (if job_actualblockNum (job_of job) = b then decodeAction env c (job_of job) heap else heap)"

lemma run_job_eq:
  "run_job env job d = d\<lparr>jsonHeap := heap_job env (cache d) (activeBlockNum d) job (jsonHeap d)\<rparr>"
  by (simp add: run_job_def executeDecodingJob_def heap_job_def)

lemma fold_run_job:
  "fold (run_job env) jobs d =
     d\<lparr>jsonHeap := fold (heap_job env (cache d) (activeBlockNum d)) jobs (jsonHeap d)\<rparr>"
  by (induction jobs arbitrary: d) (simp_all add: run_job_eq)

text \<open>Draining always succeeds, empties the queue and writes only decoded data.\<close>

lemma drain_eq:
  "drain env d = Inr (d\<lparr>pool := [],
     jsonHeap := fold (heap_job env (cache d) (activeBlockNum d)) (pool d) (jsonHeap d)\<rparr>)"
  by (simp add: drain_def fold_run_job)

lemma addJobs_simps [simp]:
  "cache (addJobs jobs d) = cache d"
  "activeBlockNum (addJobs jobs d) = activeBlockNum d"
  "lastSeenBlockRef (addJobs jobs d) = lastSeenBlockRef d"
  "truncateOnNextGlobalSequence (addJobs jobs d) = truncateOnNextGlobalSequence d"
  "pool (addJobs jobs d) = pool d @ jobs"
  "jsonHeap (addJobs jobs d) = jsonHeap d"
  by (simp_all add: addJobs_def)

definition ix_of :: "'abi abiOperation \<Rightarrow> (string, 'abi) ix_op" where
  "ix_of op = IxAdd (ao_account op) (ao_globalSequence op) (ao_abi op)"

lemma add_operation_Inr:
  "add_operation op c = Inr c' \<longleftrightarrow> addABI (ao_account op) (ao_globalSequence op) (ao_abi op) c = Inr c'"
  by (auto simp: add_operation_def lift_cache_def split: sum.splits)

lemma fold_add_operation:
  "fold_res add_operation ops c = Inr c' \<longleftrightarrow>
     run_ix addABI truncateAfterOrEqualTo (map ix_of ops) c = Inr c'"
  by (induction ops arbitrary: c) (auto simp: ix_of_def add_operation_Inr bind_res_Inr_iff)

definition receipt_sequences :: "trace_fields \<Rightarrow> u64 set" where
  "receipt_sequences t = {rcpt_GlobalSequence r | a r. a \<in> set (tt_ActionTraces t) \<and> at_Receipt a = Some r}"

lemma extract_one_cases:
  assumes "extract_one env trxId (i, a) out = Inr out'"
  shows "out' = out \<or> (\<exists>r op. at_Receipt a = Some r \<and> ao_globalSequence op = rcpt_GlobalSequence r \<and> out' = out @ [op])"
  using assms
  by (auto simp: extract_one_def split: option.splits prod.splits if_splits)

lemma extractABIOperations_sequences:
  assumes "extractABIOperations env t = Inr ops" and "op \<in> set ops"
  shows "ao_globalSequence op \<in> receipt_sequences t"
proof -
  have "\<forall>op\<in>set ops. ao_globalSequence op \<in> receipt_sequences t"
  proof (rule fold_res_invariant [where P = "\<lambda>out. \<forall>op\<in>set out. ao_globalSequence op \<in> receipt_sequences t"])
    show "fold_res (extract_one env (tt_Id t)) (enumerate 0 (tt_ActionTraces t)) [] = Inr ops"
      using assms(1) by (simp add: extractABIOperations_def)
  next
    fix ia and out out' :: "'a abiOperation list"
    assume ia: "ia \<in> set (enumerate 0 (tt_ActionTraces t))"
      and e: "extract_one env (tt_Id t) ia out = Inr out'"
      and p: "\<forall>op\<in>set out. ao_globalSequence op \<in> receipt_sequences t"
    obtain i a where ia': "ia = (i, a)" by (cases ia)
    have "snd ia \<in> set (map snd (enumerate 0 (tt_ActionTraces t)))" using ia by (metis image_eqI set_map)
    then have "a \<in> set (tt_ActionTraces t)" using ia' by simp
    with ia' show "\<forall>op\<in>set out'. ao_globalSequence op \<in> receipt_sequences t"
      using e p extract_one_cases [of env "tt_Id t" i a out out'] by (fastforce simp: receipt_sequences_def)
  qed simp
  then show ?thesis using assms(2) by blast
qed

section \<open>What a transaction does to the decoder\<close>

definition job_sequences :: "trace_fields \<Rightarrow> u64 set" where
  "job_sequences t = actionTraceGlobalSequence ` set (tt_ActionTraces t)
     \<union> {mostRecentActiveABI | op. op \<in> set (tt_DtrxOps t) \<and> dtrx_Operation op = DTrxOp_OPERATION_PUSH_CREATE}"

lemma transaction_jobs_props:
  "j \<in> set (transaction_jobs d trxId g lc st) \<Longrightarrow>
     job_actualblockNum (job_of j) = activeBlockNum d \<and> job_globalSequence (job_of j) = g"
  by (auto simp: transaction_jobs_def mk_job_def)

lemma dtrx_jobs_props:
  assumes "dtrx_jobs d t lc op jobs = Inr jobs'" and "op \<in> set (tt_DtrxOps t)"
    and "\<forall>j\<in>set jobs. job_actualblockNum (job_of j) = activeBlockNum d
      \<and> job_globalSequence (job_of j) \<in> job_sequences t"
  shows "\<forall>j\<in>set jobs'. job_actualblockNum (job_of j) = activeBlockNum d
      \<and> job_globalSequence (job_of j) \<in> job_sequences t"
proof -
  obtain g st where jobs': "jobs' = jobs @ transaction_jobs d (tt_Id t) g lc st"
    and "if dtrx_Operation op = DTrxOp_OPERATION_PUSH_CREATE then g = mostRecentActiveABI
         else unat (dtrx_ActionIndex op) < length (tt_ActionTraces t)
           \<and> g = actionTraceGlobalSequence (tt_ActionTraces t ! unat (dtrx_ActionIndex op))"
    using assms(1) by (auto simp: dtrx_jobs_def bind_res_Inr_iff split: if_splits)
  then have "g \<in> job_sequences t"
    using assms(2) unfolding job_sequences_def by (auto split: if_splits)
  with assms(3) jobs' transaction_jobs_props [of _ d "tt_Id t" g lc st] show ?thesis by auto
qed

lemma queued_jobs_props:
  assumes "fold_res (dtrx_jobs d t lc) (tt_DtrxOps t) (action_jobs d t lc) = Inr jobs"
  shows "\<forall>j\<in>set jobs. job_actualblockNum (job_of j) = activeBlockNum d
      \<and> job_globalSequence (job_of j) \<in> job_sequences t"
  using assms
proof (rule fold_res_invariant)
  show "\<forall>j\<in>set (action_jobs d t lc). job_actualblockNum (job_of j) = activeBlockNum d
      \<and> job_globalSequence (job_of j) \<in> job_sequences t"
    by (auto simp: action_jobs_def mk_job_def job_sequences_def)
qed (rule dtrx_jobs_props)

lemma findFirstGlobalSequence_receipt:
  assumes "findFirstGlobalSequence t = Inr (Some g)"
  shows "\<not> HasBeenReverted t" and "g \<in> receipt_sequences t"
proof -
  from assms show "\<not> HasBeenReverted t" by (auto simp: findFirstGlobalSequence_def split: if_splits)
  from assms obtain r where "tt_ActionTraces t \<noteq> []" "at_Receipt (tt_ActionTraces t ! 0) = Some r"
    "rcpt_GlobalSequence r = g"
    by (auto simp: findFirstGlobalSequence_def split: if_splits option.splits)
  then show "g \<in> receipt_sequences t"
    unfolding receipt_sequences_def using nth_mem [of 0 "tt_ActionTraces t"] by blast
qed

text \<open>One transaction truncates the cache at its first sequence number when this was requested,
  commits the ABIs it set unless it was reverted, and queues its jobs; nothing else changes.\<close>

lemma processTransaction_steps:
  assumes "processTransaction env t d = Inr d'"
  obtains d1 found ops c lc jobs where
    "if truncateOnNextGlobalSequence d then findFirstGlobalSequence t = Inr found else found = None"
    "d1 = (case found of None \<Rightarrow> d | Some g \<Rightarrow> truncateCache g d)"
    "extractABIOperations env t = Inr ops"
    "if HasBeenReverted t then c = cache d1 else fold_res add_operation ops (cache d1) = Inr c"
    "if ops \<noteq> [] \<and> HasBeenReverted t then map_sum id Some (createLocalABICache ops) = Inr lc else lc = None"
    "fold_res (dtrx_jobs (d1\<lparr>cache := c\<rparr>) t lc) (tt_DtrxOps t) (action_jobs (d1\<lparr>cache := c\<rparr>) t lc) = Inr jobs"
    "d' = addJobs jobs (d1\<lparr>cache := c\<rparr>)"
proof -
  define s1 where "s1 = (if truncateOnNextGlobalSequence d
      then bind_res (findFirstGlobalSequence t) (\<lambda>found.
             Inr (case found of None \<Rightarrow> d | Some g \<Rightarrow> truncateCache g d)) else Inr d)"
  from assms obtain d1 ops d2 lc jobs where
    1: "s1 = Inr d1" "extractABIOperations env t = Inr ops"
    and 2: "(if ops \<noteq> [] \<and> \<not> HasBeenReverted t then commitABIs ops d1 else Inr d1) = Inr d2"
    and lc: "(if ops \<noteq> [] \<and> HasBeenReverted t
      then bind_res (createLocalABICache ops) (\<lambda>c. Inr (Some c)) else Inr None) = Inr lc"
    and 3: "fold_res (dtrx_jobs d2 t lc) (tt_DtrxOps t) (action_jobs d2 t lc) = Inr jobs"
      "d' = addJobs jobs d2"
    unfolding processTransaction_def s1_def [symmetric] by (auto simp only: bind_res_Inr_iff sum.inject)
  from 1(1) obtain found where
    f: "if truncateOnNextGlobalSequence d then findFirstGlobalSequence t = Inr found else found = None"
      "d1 = (case found of None \<Rightarrow> d | Some g \<Rightarrow> truncateCache g d)"
    by (auto simp: s1_def bind_res_Inr_iff split: if_splits)
  from 2 have "\<exists>c. d2 = d1\<lparr>cache := c\<rparr>
      \<and> (if HasBeenReverted t then c = cache d1 else fold_res add_operation ops (cache d1) = Inr c)"
  proof (cases "ops \<noteq> [] \<and> \<not> HasBeenReverted t")
    case True
    with 2 show ?thesis by (auto simp: commitABIs_def bind_res_Inr_iff)
  next
    case False
    with 2 show ?thesis by (intro exI [of _ "cache d1"]) (cases "ops = []"; auto)
  qed
  then obtain c where "d2 = d1\<lparr>cache := c\<rparr>"
    "if HasBeenReverted t then c = cache d1 else fold_res add_operation ops (cache d1) = Inr c" by blast
  moreover have "if ops \<noteq> [] \<and> HasBeenReverted t
      then map_sum id Some (createLocalABICache ops) = Inr lc else lc = None"
    using lc by (auto simp: bind_res_Inr_iff split: if_splits)
  ultimately show ?thesis using f 1(2) 3 that by blast
qed

lemma processTransaction_effect:
  assumes "processTransaction env t d = Inr d'"
  shows "\<exists>trunc ops jobs.
    run_ix addABI truncateAfterOrEqualTo (map IxTruncate trunc @ map ix_of ops) (cache d) = Inr (cache d')
    \<and> set trunc \<subseteq> receipt_sequences t \<and> ao_globalSequence ` set ops \<subseteq> receipt_sequences t
    \<and> (HasBeenReverted t \<longrightarrow> trunc = [] \<and> ops = [])
    \<and> (if truncateOnNextGlobalSequence d
       then findFirstGlobalSequence t = Inr (case trunc of [] \<Rightarrow> None | g # _ \<Rightarrow> Some g) \<and> length trunc \<le> 1
         \<and> truncateOnNextGlobalSequence d' = (trunc = [])
       else trunc = [] \<and> \<not> truncateOnNextGlobalSequence d')
    \<and> activeBlockNum d' = activeBlockNum d \<and> lastSeenBlockRef d' = lastSeenBlockRef d
    \<and> jsonHeap d' = jsonHeap d \<and> pool d' = pool d @ jobs
    \<and> (\<forall>j\<in>set jobs. job_actualblockNum (job_of j) = activeBlockNum d
        \<and> job_globalSequence (job_of j) \<in> job_sequences t)"
  using assms
proof (rule processTransaction_steps)
  fix d1 found ops c lc jobs
  assume f: "if truncateOnNextGlobalSequence d then findFirstGlobalSequence t = Inr found else found = None"
    and d1: "d1 = (case found of None \<Rightarrow> d | Some g \<Rightarrow> truncateCache g d)"
    and ops: "extractABIOperations env t = Inr ops"
    and c: "if HasBeenReverted t then c = cache d1 else fold_res add_operation ops (cache d1) = Inr c"
    and jobs: "fold_res (dtrx_jobs (d1\<lparr>cache := c\<rparr>) t lc) (tt_DtrxOps t)
      (action_jobs (d1\<lparr>cache := c\<rparr>) t lc) = Inr jobs"
    and d': "d' = addJobs jobs (d1\<lparr>cache := c\<rparr>)"
  define trunc where "trunc = (case found of None \<Rightarrow> [] | Some g \<Rightarrow> [g])"
  define ops' where "ops' = (if HasBeenReverted t then [] else ops)"
  have found: "found = Some g \<Longrightarrow> \<not> HasBeenReverted t \<and> g \<in> receipt_sequences t" for g
    using f findFirstGlobalSequence_receipt [of t g] by (auto split: if_splits)
  have run: "run_ix addABI truncateAfterOrEqualTo (map ix_of ops') (cache d1) = Inr c"
    using c by (auto simp: ops'_def simp flip: fold_add_operation split: if_splits)
  have "run_ix addABI truncateAfterOrEqualTo (map IxTruncate trunc @ map ix_of ops') (cache d) = Inr c"
    using run d1 by (cases found) (simp_all add: trunc_def truncateCache_def)
  moreover have "set trunc \<subseteq> receipt_sequences t" "HasBeenReverted t \<longrightarrow> trunc = [] \<and> ops' = []"
    using found by (auto simp: trunc_def ops'_def split: option.splits)
  moreover have "ao_globalSequence ` set ops' \<subseteq> receipt_sequences t"
    using extractABIOperations_sequences [OF ops] by (auto simp: ops'_def)
  moreover have "activeBlockNum d1 = activeBlockNum d" "lastSeenBlockRef d1 = lastSeenBlockRef d"
    "jsonHeap d1 = jsonHeap d" "pool d1 = pool d"
    "truncateOnNextGlobalSequence d1 = (truncateOnNextGlobalSequence d \<and> found = None)"
    using d1 by (cases found; simp add: truncateCache_def)+
  ultimately show ?thesis
    using f d' queued_jobs_props [OF jobs]
    by (intro exI [of _ trunc] exI [of _ ops'] exI [of _ jobs])
      (cases found; auto simp: trunc_def split: if_splits)
qed

lemma processTransaction_effectE:
  assumes "processTransaction env t d = Inr d'"
  obtains trunc ops jobs where
    "run_ix addABI truncateAfterOrEqualTo (map IxTruncate trunc @ map ix_of ops) (cache d) = Inr (cache d')"
    "set trunc \<subseteq> receipt_sequences t" "ao_globalSequence ` set ops \<subseteq> receipt_sequences t"
    "activeBlockNum d' = activeBlockNum d" "jsonHeap d' = jsonHeap d" "pool d' = pool d @ jobs"
    "\<forall>j\<in>set jobs. job_actualblockNum (job_of j) = activeBlockNum d
      \<and> job_globalSequence (job_of j) \<in> job_sequences t"
  using processTransaction_effect [OF assms] by (elim exE conjE) (rule that)

section \<open>Invariant of the decoder\<close>

text \<open>A queued job was queued in the active block, or between two blocks: nothing keeps the reader from
  processing a transaction when no block is active.\<close>

definition decoder_ok :: "'abi ABIDecoder \<Rightarrow> bool" where
  "decoder_ok d \<longleftrightarrow> cache_ok (cache d)
     \<and> (\<forall>j\<in>set (pool d). job_actualblockNum (job_of j) = activeBlockNum d \<or> job_actualblockNum (job_of j) = noActiveBlockNum)"

lemma cache_ok_new [simp]: "cache_ok newABICache"
  by (rule abi_ix.inv_new)

lemma decoder_ok_new: "decoder_ok newABIDecoder"
  by (simp add: decoder_ok_def newABIDecoder_def)

lemma decoder_ok_startBlock:
  "decoder_ok d \<Longrightarrow> startBlock n d = Inr d' \<Longrightarrow> decoder_ok d'"
  by (auto simp: decoder_ok_def startBlock_def Let_def split: if_splits option.splits)

lemma decoder_ok_processTransaction:
  assumes "decoder_ok d" and "processTransaction env t d = Inr d'"
  shows "decoder_ok d'"
proof -
  from assms(2) obtain trunc ops jobs where
    run: "run_ix addABI truncateAfterOrEqualTo (map IxTruncate trunc @ map ix_of ops) (cache d) = Inr (cache d')"
    and rest: "activeBlockNum d' = activeBlockNum d" "pool d' = pool d @ jobs"
      "\<forall>j\<in>set jobs. job_actualblockNum (job_of j) = activeBlockNum d
        \<and> job_globalSequence (job_of j) \<in> job_sequences t"
    by (rule processTransaction_effectE)
  have "cache_ok (cache d')" using abi_ix.inv_run [OF run] assms(1) by (simp add: decoder_ok_def)
  with assms(1) rest show ?thesis by (auto simp: decoder_ok_def)
qed

lemma decoder_ok_endBlock: "decoder_ok d \<Longrightarrow> endBlock env b d = Inr d' \<Longrightarrow> decoder_ok d'"
  by (auto simp: decoder_ok_def endBlock_def processImplicitTransactions_def drain_eq split: if_splits)

lemma decoder_ok_abortBlock: "decoder_ok d \<Longrightarrow> abortBlock env d = Inr d' \<Longrightarrow> decoder_ok d'"
  by (auto simp: decoder_ok_def abortBlock_def drain_eq split: if_splits)

lemma decoder_ok_addInitialABI:
  "decoder_ok d \<Longrightarrow> addInitialABI env k s d = Inr d' \<Longrightarrow> decoder_ok d'"
  by (auto simp: decoder_ok_def addInitialABI_def lift_cache_def bind_res_Inr_iff
      intro: abi_ix.inv_add split: option.splits sum.splits)

lemma decoder_ok_resetCache: "decoder_ok d \<Longrightarrow> decoder_ok (resetCache d)"
  by (simp add: decoder_ok_def resetCache_def)

text \<open>The operations the reader calls on the decoder, and the states they lead to.\<close>

inductive decoder_reachable :: "'abi abi_env \<Rightarrow> 'abi ABIDecoder \<Rightarrow> bool" for env where
  init: "decoder_reachable env newABIDecoder"
| start: "decoder_reachable env d \<Longrightarrow> startBlock n d = Inr d' \<Longrightarrow> decoder_reachable env d'"
| trx: "decoder_reachable env d \<Longrightarrow> processTransaction env t d = Inr d' \<Longrightarrow> decoder_reachable env d'"
| endb: "decoder_reachable env d \<Longrightarrow> endBlock env b d = Inr d' \<Longrightarrow> decoder_reachable env d'"
| abort: "decoder_reachable env d \<Longrightarrow> abortBlock env d = Inr d' \<Longrightarrow> decoder_reachable env d'"
| reset: "decoder_reachable env d \<Longrightarrow> decoder_reachable env (resetCache d)"
| initial: "decoder_reachable env d \<Longrightarrow> addInitialABI env k s d = Inr d' \<Longrightarrow> decoder_reachable env d'"

lemma decoder_reachable_ok: "decoder_reachable env d \<Longrightarrow> decoder_ok d"
  by (induction rule: decoder_reachable.induct)
    (blast intro: decoder_ok_new decoder_ok_startBlock decoder_ok_processTransaction decoder_ok_endBlock
      decoder_ok_abortBlock decoder_ok_resetCache decoder_ok_addInitialABI)+

lemma abortBlock_eq:
  "abortBlock env d = Inr (if activeBlockNum d = noActiveBlockNum then d
     else d\<lparr>pool := [], activeBlockNum := noActiveBlockNum, truncateOnNextGlobalSequence := True,
       jsonHeap := fold (heap_job env (cache d) (activeBlockNum d)) (pool d) (jsonHeap d)\<rparr>)"
  by (simp add: abortBlock_def drain_eq)

section \<open>Properties of the decoder\<close>

text \<open>C13: whatever the reader does to the decoder, transactions between two blocks included, a worker
  refuses a queued job exactly when the job was queued between two blocks and a block has started
  since: a job of the active block is never refused, and none of an earlier block is left in the queue,
  which is empty when a block has ended or was aborted.\<close>

theorem decoder_jobs_of_active_block:
  assumes "decoder_reachable env d"
  shows "(\<forall>j\<in>set (pool d). (\<exists>d'. executeDecodingJob env j d = Inr d') \<longleftrightarrow>
      activeBlockNum d = noActiveBlockNum \<or> job_actualblockNum (job_of j) \<noteq> noActiveBlockNum)
    \<and> (\<forall>b d'. endBlock env b d = Inr d' \<longrightarrow> pool d' = [])
    \<and> (\<forall>d'. abortBlock env d = Inr d' \<longrightarrow> activeBlockNum d \<noteq> noActiveBlockNum \<longrightarrow> pool d' = [])"
proof (intro conjI allI impI ballI)
  fix j assume "j \<in> set (pool d)"
  then show "(\<exists>d'. executeDecodingJob env j d = Inr d') \<longleftrightarrow>
      activeBlockNum d = noActiveBlockNum \<or> job_actualblockNum (job_of j) \<noteq> noActiveBlockNum"
    using decoder_reachable_ok [OF assms] by (auto simp: decoder_ok_def executeDecodingJob_def)
next
  fix b d' assume "endBlock env b d = Inr d'"
  then show "pool d' = []" by (auto simp: endBlock_def drain_eq split: if_splits)
next
  fix d' assume "abortBlock env d = Inr d'" "activeBlockNum d \<noteq> noActiveBlockNum"
  then show "pool d' = []" by (auto simp: abortBlock_eq)
qed

text \<open>Aborting a block never fails and leaves a decoder on which a block of any height can be
  started, the same height included; the queue of the aborted block is empty and, when a block was
  active, the truncation of the ABIs it committed is requested, whatever the height of the next
  block.\<close>

theorem abort_then_start_not_wedged:
  "\<exists>d1 d2. abortBlock env d = Inr d1 \<and> startBlock n d1 = Inr d2 \<and> activeBlockNum d2 = n
    \<and> lastSeenBlockRef d2 = lastSeenBlockRef d
    \<and> (if activeBlockNum d = noActiveBlockNum then pool d2 = pool d
       else pool d2 = [] \<and> truncateOnNextGlobalSequence d2)"
  by (auto simp: abortBlock_eq startBlock_def Let_def split: option.splits)

text \<open>A block that starts requests the truncation of the cache exactly when the last block
  completed does not precede it, or a truncation was already pending.\<close>

theorem startBlock_detects_fork:
  assumes "startBlock n d = Inr d'"
  shows "truncateOnNextGlobalSequence d' \<longleftrightarrow> truncateOnNextGlobalSequence d
    \<or> (\<exists>ref. lastSeenBlockRef d = Some ref \<and> ref_Num ref + 1 \<noteq> n)"
  using assms by (auto simp: startBlock_def Let_def split: if_splits option.splits)

theorem startBlock_detects_fork_witness:
  "\<exists>d'. startBlock 7 (newABIDecoder\<lparr>lastSeenBlockRef := Some \<lparr>ref_ID = ''a'', ref_Num = 9\<rparr>\<rparr>) = Inr (d' :: nat ABIDecoder)
    \<and> truncateOnNextGlobalSequence d'"
proof -
  let ?d = "newABIDecoder\<lparr>lastSeenBlockRef := Some \<lparr>ref_ID = ''a'', ref_Num = 9\<rparr>\<rparr> :: nat ABIDecoder"
  obtain d' where d': "startBlock 7 ?d = Inr d'"
    by (simp add: startBlock_def newABIDecoder_def)
  with startBlock_detects_fork [OF d'] show ?thesis by simp
qed

text \<open>The ABIs set by a transaction that was reverted never reach the cache of the decoder, and
  neither does such a transaction consume a pending truncation.\<close>

theorem reverted_transaction_keeps_cache:
  assumes "HasBeenReverted t" and "processTransaction env t d = Inr d'"
  shows "cache d' = cache d
    \<and> truncateOnNextGlobalSequence d' = truncateOnNextGlobalSequence d"
  using processTransaction_effect [OF assms(2)] assms(1) by (auto split: if_splits)

section \<open>Aborted blocks leave no ABI behind\<close>

lemma ix_ops_above:
  assumes "set trunc \<subseteq> receipt_sequences t" "ao_globalSequence ` set ops \<subseteq> receipt_sequences t"
    and "\<forall>s\<in>receipt_sequences t. x < s"
  shows "\<forall>p\<in>set (map IxTruncate trunc @ map ix_of ops). ix_op_above x p"
  using assms by (auto simp: ix_of_def)

lemma processTransaction_lookup_below:
  assumes "processTransaction env t d = Inr d'" and "cache_ok (cache d)"
    and "\<forall>s\<in>receipt_sequences t. x < s"
  shows "findABI (cache d') k x = findABI (cache d) k x"
  using assms(1)
proof (rule processTransaction_effectE)
  fix trunc ops jobs
  assume "run_ix addABI truncateAfterOrEqualTo (map IxTruncate trunc @ map ix_of ops) (cache d) = Inr (cache d')"
    and "set trunc \<subseteq> receipt_sequences t" "ao_globalSequence ` set ops \<subseteq> receipt_sequences t"
  then show ?thesis
    using abi_ix.lookup_run_above [OF _ assms(2) ix_ops_above [OF _ _ assms(3)]] by blast
qed

lemma cache_ok_processTransaction:
  assumes "processTransaction env t d = Inr d'" and "cache_ok (cache d)"
  shows "cache_ok (cache d')"
  using assms(1) by (rule processTransaction_effectE) (use assms(2) abi_ix.inv_run in blast)

lemma processTransactions_lookup_below:
  assumes "fold_res (processTransaction env) ts d = Inr d'" and "cache_ok (cache d)"
    and "\<forall>t\<in>set ts. \<forall>s\<in>receipt_sequences t. g \<le> s"
  shows "cache_ok (cache d') \<and> (\<forall>k x. x < g \<longrightarrow> findABI (cache d') k x = findABI (cache d) k x)"
  using assms(1)
proof (rule fold_res_invariant)
  fix t e e'
  assume t: "t \<in> set ts" "processTransaction env t e = Inr e'"
    and P: "cache_ok (cache e) \<and> (\<forall>k x. x < g \<longrightarrow> findABI (cache e) k x = findABI (cache d) k x)"
  have "x < g \<Longrightarrow> \<forall>s\<in>receipt_sequences t. x < s" for x
    using assms(3) t(1) by (auto intro: less_le_trans)
  then show "cache_ok (cache e') \<and> (\<forall>k x. x < g \<longrightarrow> findABI (cache e') k x = findABI (cache d) k x)"
    using P cache_ok_processTransaction [OF t(2)] processTransaction_lookup_below [OF t(2)] by simp
qed (use assms(2) in simp)

lemma processTransaction_truncating:
  assumes "processTransaction env t d = Inr d'" and "truncateOnNextGlobalSequence d"
    and "findFirstGlobalSequence t = Inr (Some g)"
  obtains ops where "extractABIOperations env t = Inr ops"
    "run_ix addABI truncateAfterOrEqualTo (map ix_of ops) (truncateAfterOrEqualTo g (cache d)) = Inr (cache d')"
  using assms(1)
proof (rule processTransaction_steps)
  fix d1 found ops c lc jobs
  assume f: "if truncateOnNextGlobalSequence d then findFirstGlobalSequence t = Inr found else found = None"
    and d1: "d1 = (case found of None \<Rightarrow> d | Some g \<Rightarrow> truncateCache g d)"
    and ops: "extractABIOperations env t = Inr ops"
    and c: "if HasBeenReverted t then c = cache d1 else fold_res add_operation ops (cache d1) = Inr c"
    and d': "d' = addJobs jobs (d1\<lparr>cache := c\<rparr>)"
  have "cache d1 = truncateAfterOrEqualTo g (cache d)"
    using f d1 assms(2,3) by (auto simp: truncateCache_def)
  with c d' findFirstGlobalSequence_receipt(1) [OF assms(3)] that ops show ?thesis
    by (auto simp: fold_add_operation)
qed

text \<open>C9: ABIs committed by a block that was aborted leave no trace. Suppose a block processed the
  transactions \<open>ts\<close>, was aborted, and a block of any height started whose first effective
  transaction \<open>t\<close> has first global sequence \<open>g\<close>, with no receipt of \<open>ts\<close> below \<open>g\<close> (the
  replacement resumes where the aborted block started). Then every ABI lookup after \<open>t\<close>
  gives what it gives when \<open>t\<close> is processed as if the aborted block had never been seen.\<close>

theorem abort_discards_committed_abis:
  assumes "decoder_reachable env d0" and "activeBlockNum d0 \<noteq> noActiveBlockNum"
    and "fold_res (processTransaction env) ts d0 = Inr d1"
    and "\<forall>u\<in>set ts. \<forall>s\<in>receipt_sequences u. g \<le> s"
    and "abortBlock env d1 = Inr d2" and "startBlock n d2 = Inr d3"
    and "findFirstGlobalSequence t = Inr (Some g)" and "processTransaction env t d3 = Inr d4"
    and "processTransaction env t (d0\<lparr>truncateOnNextGlobalSequence := True\<rparr>) = Inr d4'"
  shows "findABI (cache d4) k x = findABI (cache d4') k x"
proof -
  have ok: "cache_ok (cache d0)" using decoder_reachable_ok [OF assms(1)] by (simp add: decoder_ok_def)
  note below = processTransactions_lookup_below [OF assms(3) ok assms(4)]
  have "activeBlockNum d1 = activeBlockNum d0"
    using assms(3) by (rule fold_res_invariant) (auto elim: processTransaction_effectE)
  then have d3: "cache d3 = cache d1" "truncateOnNextGlobalSequence d3"
    using assms(2,5,6) by (auto simp: abortBlock_eq startBlock_def Let_def split: if_splits option.splits)
  from processTransaction_truncating [OF assms(8) d3(2) assms(7)] obtain ops where
    ops: "extractABIOperations env t = Inr ops"
    "run_ix addABI truncateAfterOrEqualTo (map ix_of ops) (truncateAfterOrEqualTo g (cache d1)) = Inr (cache d4)"
    unfolding d3(1) by blast
  from processTransaction_truncating [OF assms(9) _ assms(7)] ops(1) have
    "run_ix addABI truncateAfterOrEqualTo (map ix_of ops) (truncateAfterOrEqualTo g (cache d0)) = Inr (cache d4')"
    by auto
  from ops(2) this show ?thesis
    by (rule abi_ix.lookup_run_cong) (use below ok in \<open>auto intro: abi_ix.inv_truncate abi_ix.lookup_truncate_cong\<close>)
qed

section \<open>Schedules of the worker pool\<close>

text \<open>The client processes transactions while the workers take queued jobs, in any order and at any
  moment. \<open>schedule env d0 ts d\<close>: from \<open>d0\<close> the client has processed the transactions \<open>ts\<close> and,
  with the jobs the workers have run so far, the decoder is in state \<open>d\<close>.\<close>

inductive schedule ::
  "'abi abi_env \<Rightarrow> 'abi ABIDecoder \<Rightarrow> trace_fields list \<Rightarrow> 'abi ABIDecoder \<Rightarrow> bool"
  for env d0 where
  start: "schedule env d0 [] d0"
| client: "schedule env d0 ts d \<Longrightarrow> processTransaction env t d = Inr d' \<Longrightarrow> schedule env d0 (ts @ [t]) d'"
| worker: "schedule env d0 ts d \<Longrightarrow> pool d = xs @ j # ys \<Longrightarrow>
    schedule env d0 ts ((run_job env j d)\<lparr>pool := xs @ ys\<rparr>)"

abbreviation job_ref :: "'abi decodingJob \<Rightarrow> nat" where
  "job_ref j \<equiv> act_ref (job_action (job_of j))"

definition heap_val :: "'abi abi_env \<Rightarrow> 'abi ABICache \<Rightarrow> 'abi decodingJob \<Rightarrow> string option \<Rightarrow> string option" where
  "heap_val env c j old =
     (case decoded_data env c (job_action (job_of j)) (job_globalSequence (job_of j)) (job_localCache (job_of j)) of
        None \<Rightarrow> old
      | Some s \<Rightarrow> Some s)"

lemma heap_job_apply:
  "job_actualblockNum (job_of j) = b \<Longrightarrow>
     heap_job env c b j h a = (if a = job_ref j then heap_val env c j (h a) else h a)"
  by (auto simp: heap_job_def decodeAction_def heap_val_def split: option.splits)

text \<open>What a job writes does not depend on cache updates above its sequence number.\<close>

lemma decoder_findABI_stable:
  assumes "findABI c' k g = findABI c k g"
  shows "decoder_findABI c' k g lc = decoder_findABI c k g lc"
  using assms by (simp add: decoder_findABI_def split: option.splits)

lemma heap_val_stable:
  assumes "processTransaction env t d = Inr d'" and "cache_ok (cache d)"
    and "\<forall>s\<in>receipt_sequences t. job_globalSequence (job_of j) < s"
  shows "heap_val env (cache d') j = heap_val env (cache d) j"
proof -
  have "decoder_findABI (cache d') k (job_globalSequence (job_of j)) lc
      = decoder_findABI (cache d) k (job_globalSequence (job_of j)) lc" for k lc
    using processTransaction_lookup_below [OF assms] by (rule decoder_findABI_stable)
  then show ?thesis
    by (intro ext) (simp only: heap_val_def decoded_data_def)
qed

lemma mk_job_cong: "activeBlockNum d = activeBlockNum e \<Longrightarrow> mk_job d = mk_job e"
  by (intro ext) (simp add: mk_job_def)

lemma queued_jobs_cong:
  assumes "activeBlockNum d = activeBlockNum e"
  shows "dtrx_jobs d = dtrx_jobs e" and "action_jobs d = action_jobs e"
  using mk_job_cong [OF assms]
  by (intro ext; simp add: dtrx_jobs_def transaction_jobs_def action_jobs_def)+

text \<open>Processing a transaction does not look at the queue or the heap.\<close>

definition same_client :: "'abi ABIDecoder \<Rightarrow> 'abi ABIDecoder \<Rightarrow> bool" where
  "same_client d e \<longleftrightarrow> cache d = cache e \<and> activeBlockNum d = activeBlockNum e
     \<and> truncateOnNextGlobalSequence d = truncateOnNextGlobalSequence e"

lemma processTransaction_same_client:
  assumes "same_client d e" and "processTransaction env t d = Inr d'" and "processTransaction env t e = Inr e'"
  shows "same_client d' e' \<and> (\<exists>jobs. pool d' = pool d @ jobs \<and> pool e' = pool e @ jobs)
    \<and> jsonHeap d' = jsonHeap d \<and> jsonHeap e' = jsonHeap e"
  using assms(2)
proof (rule processTransaction_steps)
  fix d1 found ops c lc jobs
  assume 1: "if truncateOnNextGlobalSequence d then findFirstGlobalSequence t = Inr found else found = None"
    "d1 = (case found of None \<Rightarrow> d | Some g \<Rightarrow> truncateCache g d)"
    "extractABIOperations env t = Inr ops"
    "if HasBeenReverted t then c = cache d1 else fold_res add_operation ops (cache d1) = Inr c"
    "if ops \<noteq> [] \<and> HasBeenReverted t then map_sum id Some (createLocalABICache ops) = Inr lc else lc = None"
    "fold_res (dtrx_jobs (d1\<lparr>cache := c\<rparr>) t lc) (tt_DtrxOps t) (action_jobs (d1\<lparr>cache := c\<rparr>) t lc) = Inr jobs"
    "d' = addJobs jobs (d1\<lparr>cache := c\<rparr>)"
  from assms(3) show ?thesis
  proof (rule processTransaction_steps)
    fix d1' found' ops' c' lc' jobs'
    assume 2: "if truncateOnNextGlobalSequence e then findFirstGlobalSequence t = Inr found' else found' = None"
      "d1' = (case found' of None \<Rightarrow> e | Some g \<Rightarrow> truncateCache g e)"
      "extractABIOperations env t = Inr ops'"
      "if HasBeenReverted t then c' = cache d1' else fold_res add_operation ops' (cache d1') = Inr c'"
      "if ops' \<noteq> [] \<and> HasBeenReverted t then map_sum id Some (createLocalABICache ops') = Inr lc' else lc' = None"
      "fold_res (dtrx_jobs (d1'\<lparr>cache := c'\<rparr>) t lc') (tt_DtrxOps t) (action_jobs (d1'\<lparr>cache := c'\<rparr>) t lc') = Inr jobs'"
      "e' = addJobs jobs' (d1'\<lparr>cache := c'\<rparr>)"
    have eq: "found' = found" "ops' = ops"
      using 1(1,3) 2(1,3) assms(1) by (auto simp: same_client_def split: if_splits)
    then have lc: "lc' = lc" using 1(5) 2(5) by (auto split: if_splits)
    have d1: "same_client d1 d1'" "pool d1 = pool d" "pool d1' = pool e"
      "jsonHeap d1 = jsonHeap d" "jsonHeap d1' = jsonHeap e"
      using 1(2) 2(2) eq assms(1) by (auto simp: same_client_def truncateCache_def split: option.splits)
    have c: "c' = c" using 1(4) 2(4) eq d1(1) by (auto simp: same_client_def split: if_splits)
    have "activeBlockNum (d1\<lparr>cache := c\<rparr>) = activeBlockNum (d1'\<lparr>cache := c'\<rparr>)"
      using d1(1) by (simp add: same_client_def)
    from queued_jobs_cong [OF this] have "jobs' = jobs" using 1(6) 2(6) lc by simp
    then show ?thesis using 1(7) 2(7) c d1 by (simp add: same_client_def)
  qed
qed

lemma sequential_pool:
  assumes "fold_res (processTransaction env) ts d0 = Inr s" and "pool d0 = []" and "cache_ok (cache d0)"
  shows "cache_ok (cache s) \<and> jsonHeap s = jsonHeap d0 \<and> activeBlockNum s = activeBlockNum d0
    \<and> (\<forall>j\<in>set (pool s). job_actualblockNum (job_of j) = activeBlockNum d0
        \<and> (\<exists>t\<in>set ts. job_globalSequence (job_of j) \<in> job_sequences t))"
  using assms(1)
proof (rule fold_res_invariant)
  fix t d d'
  assume t: "t \<in> set ts" "processTransaction env t d = Inr d'"
    and P: "cache_ok (cache d) \<and> jsonHeap d = jsonHeap d0 \<and> activeBlockNum d = activeBlockNum d0
      \<and> (\<forall>j\<in>set (pool d). job_actualblockNum (job_of j) = activeBlockNum d0
          \<and> (\<exists>t\<in>set ts. job_globalSequence (job_of j) \<in> job_sequences t))"
  from t(2) show "cache_ok (cache d') \<and> jsonHeap d' = jsonHeap d0 \<and> activeBlockNum d' = activeBlockNum d0
      \<and> (\<forall>j\<in>set (pool d'). job_actualblockNum (job_of j) = activeBlockNum d0
          \<and> (\<exists>t\<in>set ts. job_globalSequence (job_of j) \<in> job_sequences t))"
    by (rule processTransaction_effectE)
      (use P t cache_ok_processTransaction [OF t(2)] in auto)
qed (use assms in simp)

lemma fold_res_take_drop:
  assumes "fold_res f ts d0 = Inr s"
  obtains m where "fold_res f (take k ts) d0 = Inr m" and "fold_res f (drop k ts) m = Inr s"
proof -
  have "bind_res (fold_res f (take k ts) d0) (fold_res f (drop k ts)) = Inr s"
    using assms by (metis append_take_drop_id fold_res_append)
  then show ?thesis using that by (auto simp only: bind_res_Inr_iff)
qed

lemma pool_grows:
  assumes "fold_res (processTransaction env) ts d = Inr s"
  shows "\<exists>jobs. pool s = pool d @ jobs"
  using assms by (rule fold_res_invariant) (auto elim: processTransaction_effectE)

text \<open>A queued job whose transaction was processed by the time \<open>k\<close> transactions were.\<close>

definition decoded_at ::
  "'abi abi_env \<Rightarrow> 'abi ABIDecoder \<Rightarrow> trace_fields list \<Rightarrow> nat \<Rightarrow> 'abi decodingJob \<Rightarrow> string option \<Rightarrow> bool" where
  "decoded_at env d0 ts k j v \<longleftrightarrow> k \<le> length ts \<and>
     (\<exists>m. fold_res (processTransaction env) (take k ts) d0 = Inr m \<and> j \<in> set (pool m)
        \<and> v = heap_val env (cache m) j (jsonHeap d0 (job_ref j)))"

definition schedule_inv ::
  "'abi abi_env \<Rightarrow> 'abi ABIDecoder \<Rightarrow> trace_fields list \<Rightarrow> 'abi ABIDecoder \<Rightarrow> 'abi ABIDecoder \<Rightarrow> bool" where
  "schedule_inv env d0 ts s d \<longleftrightarrow> same_client d s \<and> set (pool d) \<subseteq> set (pool s) \<and> distinct (pool d)
     \<and> (\<forall>j\<in>set (pool s). if j \<in> set (pool d) then jsonHeap d (job_ref j) = jsonHeap d0 (job_ref j)
          else \<exists>k. decoded_at env d0 ts k j (jsonHeap d (job_ref j)))
     \<and> (\<forall>a. a \<notin> job_ref ` set (pool s) \<longrightarrow> jsonHeap d a = jsonHeap d0 a)"

lemma schedule_inv_client:
  assumes inv: "schedule_inv env d0 ts s d" and "processTransaction env t d = Inr d'"
    and s': "processTransaction env t s = Inr s'" and dist: "distinct (map job_ref (pool s'))"
  shows "schedule_inv env d0 (ts @ [t]) s' d'"
proof -
  have same: "same_client d s" using inv by (simp add: schedule_inv_def)
  from processTransaction_same_client [OF same assms(2) s'] obtain jobs where
    new: "same_client d' s'" "pool d' = pool d @ jobs" "pool s' = pool s @ jobs" "jsonHeap d' = jsonHeap d"
    by blast
  have fresh: "job_ref j \<notin> job_ref ` set (pool s)" if "j \<in> set jobs" for j
    using dist that by (auto simp: new(3) distinct_map)
  have sub: "set (pool d) \<subseteq> set (pool s)" "distinct (pool d)" using inv by (auto simp: schedule_inv_def)
  have disj: "set (pool s) \<inter> set jobs = {}" "distinct jobs"
    using dist by (auto simp: new(3) distinct_map)
  have later: "decoded_at env d0 ts k j v \<Longrightarrow> decoded_at env d0 (ts @ [t]) k j v" for k j v
    by (simp add: decoded_at_def)
  show ?thesis
    unfolding schedule_inv_def
  proof (intro conjI ballI allI impI)
    fix j assume "j \<in> set (pool s')"
    then consider "j \<in> set (pool s)" "j \<notin> set jobs" | "j \<in> set jobs" using new(3) disj by auto
    then show "if j \<in> set (pool d') then jsonHeap d' (job_ref j) = jsonHeap d0 (job_ref j)
        else \<exists>k. decoded_at env d0 (ts @ [t]) k j (jsonHeap d' (job_ref j))"
    proof cases
      case 1
      then have "if j \<in> set (pool d) then jsonHeap d (job_ref j) = jsonHeap d0 (job_ref j)
          else \<exists>k. decoded_at env d0 ts k j (jsonHeap d (job_ref j))"
        using inv unfolding schedule_inv_def by blast
      then show ?thesis using 1(2) new(2,4) later by (cases "j \<in> set (pool d)") auto
    next
      case 2
      then show ?thesis using inv fresh [OF 2] new(2,4) by (auto simp: schedule_inv_def)
    qed
  next
    fix a assume "a \<notin> job_ref ` set (pool s')"
    then show "jsonHeap d' a = jsonHeap d0 a" using inv new(3,4) by (auto simp: schedule_inv_def)
  qed (use new sub disj in auto)
qed

lemma schedule_inv_worker:
  assumes inv: "schedule_inv env d0 ts s d" and pool: "pool d = xs @ j # ys"
    and s: "fold_res (processTransaction env) ts d0 = Inr s" and dist: "distinct (map job_ref (pool s))"
    and blk: "\<forall>j\<in>set (pool s). job_actualblockNum (job_of j) = activeBlockNum s"
  shows "schedule_inv env d0 ts s ((run_job env j d)\<lparr>pool := xs @ ys\<rparr>)"
proof -
  have j: "j \<in> set (pool s)" "j \<in> set (pool d)" using inv pool by (auto simp: schedule_inv_def)
  have same: "cache d = cache s" "activeBlockNum d = activeBlockNum s"
    using inv by (auto simp: schedule_inv_def same_client_def)
  have d: "distinct (xs @ j # ys)" using inv by (simp add: schedule_inv_def pool)
  have heap: "heap_job env (cache d) (activeBlockNum d) j (jsonHeap d) a =
      (if a = job_ref j then heap_val env (cache s) j (jsonHeap d a) else jsonHeap d a)" for a
    unfolding same using blk j by (intro heap_job_apply) simp
  have other: "job_ref i \<noteq> job_ref j" if "i \<in> set (pool s)" "i \<noteq> j" for i
    using dist j(1) that by (auto simp: distinct_map inj_on_def)
  let ?d = "d\<lparr>jsonHeap := heap_job env (cache d) (activeBlockNum d) j (jsonHeap d), pool := xs @ ys\<rparr>"
  have written: "decoded_at env d0 ts (length ts) j (jsonHeap ?d (job_ref j))"
    using inv j s by (simp add: decoded_at_def heap schedule_inv_def)
  have rest: "if i \<in> set (pool ?d) then jsonHeap ?d (job_ref i) = jsonHeap d0 (job_ref i)
      else \<exists>k. decoded_at env d0 ts k i (jsonHeap ?d (job_ref i))" if i: "i \<in> set (pool s)" for i
  proof (cases "i = j")
    case True
    then show ?thesis using written d by auto
  next
    case False
    then show ?thesis using inv i other [OF i False] d pool by (auto simp: heap schedule_inv_def split: if_splits)
  qed
  have outside: "jsonHeap ?d a = jsonHeap d0 a" if "a \<notin> job_ref ` set (pool s)" for a
    using inv that j(1) by (auto simp: heap schedule_inv_def)
  have run: "(run_job env j d)\<lparr>pool := xs @ ys\<rparr> = ?d" by (simp add: run_job_eq)
  have client: "same_client ?d s" "set (pool ?d) \<subseteq> set (pool s)" "distinct (pool ?d)"
    using inv d pool by (auto simp: schedule_inv_def same_client_def)
  show ?thesis unfolding run schedule_inv_def by (intro conjI ballI allI impI rest outside client)
qed

lemma schedule_invariant:
  assumes "schedule env d0 ts d" and "pool d0 = []" and "cache_ok (cache d0)"
    and "fold_res (processTransaction env) ts d0 = Inr s" and "distinct (map job_ref (pool s))"
  shows "schedule_inv env d0 ts s d"
  using assms(1,4-)
proof (induction arbitrary: s rule: schedule.induct)
  case start
  then show ?case using assms(2) by (simp add: schedule_inv_def same_client_def)
next
  case (client ts d t d')
  from client.prems(1) obtain s0 where
    s0: "fold_res (processTransaction env) ts d0 = Inr s0" "processTransaction env t s0 = Inr s"
    by (auto simp: fold_res_append bind_res_Inr_iff)
  obtain jobs where "pool s = pool s0 @ jobs" using s0(2) by (rule processTransaction_effectE)
  then have "schedule_inv env d0 ts s0 d" using client.IH [OF s0(1)] client.prems(2) by simp
  from this client.hyps(2) s0(2) client.prems(2) show ?case by (rule schedule_inv_client)
next
  case (worker ts d xs j ys)
  have "\<forall>j\<in>set (pool s). job_actualblockNum (job_of j) = activeBlockNum s"
    using sequential_pool [OF worker.prems(1) assms(2,3)] by simp
  with worker.IH [OF worker.prems] worker.hyps(2) worker.prems show ?case
    by (rule schedule_inv_worker)
qed

text \<open>The actions of a transaction that have a global sequence number: those executed, and those of the
  deferred transactions that an executed action created, changed or cancelled.\<close>

definition sequenced_actions :: "trace_fields \<Rightarrow> (Action \<times> u64) set" where
  "sequenced_actions t =
     {(at_Action a, rcpt_GlobalSequence r) | a r.
        a \<in> set (tt_ActionTraces t) \<and> at_Receipt a = Some r \<and> rcpt_GlobalSequence r \<noteq> 0}
     \<union> {(action, rcpt_GlobalSequence r) | op st action r.
        op \<in> set (tt_DtrxOps t) \<and> dtrx_Operation op \<noteq> DTrxOp_OPERATION_PUSH_CREATE \<and> dtrx_Transaction op = Some st
        \<and> action \<in> set (tx_ContextFreeActions (st_Transaction st) @ tx_Actions (st_Transaction st))
        \<and> at_Receipt (tt_ActionTraces t ! unat (dtrx_ActionIndex op)) = Some r \<and> rcpt_GlobalSequence r \<noteq> 0}"

text \<open>The global sequence grows with every executed transaction. Transactions that failed may stand
  anywhere and their receipts may have any number.\<close>

definition executed_ordered :: "trace_fields list \<Rightarrow> bool" where
  "executed_ordered ts \<longleftrightarrow>
     sorted_wrt (\<lambda>t u. \<not> HasBeenReverted t \<longrightarrow> \<not> HasBeenReverted u \<longrightarrow>
       (\<forall>g\<in>receipt_sequences t. \<forall>s\<in>receipt_sequences u. g < s)) ts"

lemma dtrx_jobs_keep:
  assumes "fold_res (dtrx_jobs d t lc) ops jobs = Inr jobs'"
  shows "set jobs \<subseteq> set jobs'"
  using assms by (rule fold_res_invariant) (auto simp: dtrx_jobs_def bind_res_Inr_iff split: if_splits)

lemma dtrx_jobs_complete:
  assumes "fold_res (dtrx_jobs d t lc) ops jobs = Inr jobs'" and "op \<in> set ops"
    and "dtrx_Operation op \<noteq> DTrxOp_OPERATION_PUSH_CREATE" and "dtrx_Transaction op = Some st"
  shows "unat (dtrx_ActionIndex op) < length (tt_ActionTraces t) \<and>
    set (transaction_jobs d (tt_Id t) (actionTraceGlobalSequence (tt_ActionTraces t ! unat (dtrx_ActionIndex op))) lc st) \<subseteq> set jobs'"
  using assms(1,2)
proof (induction ops arbitrary: jobs)
  case (Cons o' ops)
  from Cons.prems(1) obtain jobs1 where 1: "dtrx_jobs d t lc o' jobs = Inr jobs1" "fold_res (dtrx_jobs d t lc) ops jobs1 = Inr jobs'"
    by (auto simp: bind_res_Inr_iff)
  show ?case
  proof (cases "op = o'")
    case True
    then show ?thesis using 1(1) assms(3,4) dtrx_jobs_keep [OF 1(2)] by (auto simp: dtrx_jobs_def bind_res_Inr_iff split: if_splits)
  next
    case False
    then show ?thesis using Cons.IH [OF 1(2)] Cons.prems(2) by simp
  qed
qed simp

lemma sequenced_action_queued:
  assumes "processTransaction env t d = Inr d'" and "\<not> HasBeenReverted t" and "(action, g) \<in> sequenced_actions t"
  obtains j jobs where "pool d' = pool d @ jobs" "j \<in> set jobs" "job_action (job_of j) = action"
    "job_globalSequence (job_of j) = g" "job_localCache (job_of j) = None" "g \<in> receipt_sequences t"
  using assms(1)
proof (rule processTransaction_steps)
  fix d1 found ops c lc jobs
  assume d1: "d1 = (case found of None \<Rightarrow> d | Some g \<Rightarrow> truncateCache g d)"
    and lc: "if ops \<noteq> [] \<and> HasBeenReverted t then map_sum id Some (createLocalABICache ops) = Inr lc else lc = None"
    and jobs: "fold_res (dtrx_jobs (d1\<lparr>cache := c\<rparr>) t lc) (tt_DtrxOps t) (action_jobs (d1\<lparr>cache := c\<rparr>) t lc) = Inr jobs"
    and d': "d' = addJobs jobs (d1\<lparr>cache := c\<rparr>)"
  let ?d = "d1\<lparr>cache := c\<rparr>"
  have lc: "lc = None" using lc assms(2) by simp
  have pool: "pool d' = pool d @ jobs" using d' d1 by (cases found) (simp_all add: truncateCache_def)
  from assms(3) consider (act) a r where "action = at_Action a" "g = rcpt_GlobalSequence r"
      "a \<in> set (tt_ActionTraces t)" "at_Receipt a = Some r" "g \<noteq> 0"
    | (dtrx) op st r where "op \<in> set (tt_DtrxOps t)" "dtrx_Operation op \<noteq> DTrxOp_OPERATION_PUSH_CREATE" "dtrx_Transaction op = Some st"
      "action \<in> set (tx_ContextFreeActions (st_Transaction st) @ tx_Actions (st_Transaction st))"
      "at_Receipt (tt_ActionTraces t ! unat (dtrx_ActionIndex op)) = Some r" "g = rcpt_GlobalSequence r" "g \<noteq> 0"
    unfolding sequenced_actions_def by auto
  then show thesis
  proof cases
    case act
    let ?j = "actionDecodingJob (mk_job ?d (tt_Id t) g None action)"
    have "?j \<in> set (action_jobs ?d t lc)" using act lc by (force simp: action_jobs_def actionTraceGlobalSequence_def)
    then have "?j \<in> set jobs" using dtrx_jobs_keep [OF jobs] by blast
    moreover have "g \<in> receipt_sequences t" using act by (auto simp: receipt_sequences_def)
    ultimately show ?thesis using that [OF pool, of ?j] by (simp add: mk_job_def)
  next
    case dtrx
    let ?j = "dtrxDecodingJob (mk_job ?d (tt_Id t) g None action)" and ?a = "tt_ActionTraces t ! unat (dtrx_ActionIndex op)"
    note all = dtrx_jobs_complete [OF jobs dtrx(1-3)]
    have "actionTraceGlobalSequence ?a = g" using dtrx(5-7) by (simp add: actionTraceGlobalSequence_def)
    then have "?j \<in> set jobs" using all dtrx(4) lc by (auto simp: transaction_jobs_def)
    moreover have "g \<in> receipt_sequences t" using all dtrx(5,6) nth_mem by (fastforce simp: receipt_sequences_def)
    ultimately show ?thesis using that [OF pool, of ?j] by (simp add: mk_job_def)
  qed
qed

lemma lookups_settled:
  assumes "fold_res (processTransaction env) us m = Inr s" and "cache_ok (cache m)"
    and "\<forall>u\<in>set us. \<not> HasBeenReverted u \<longrightarrow> (\<forall>r\<in>receipt_sequences u. job_globalSequence (job_of j) < r)"
  shows "heap_val env (cache s) j = heap_val env (cache m) j"
proof -
  have "cache_ok (cache s) \<and> heap_val env (cache s) j = heap_val env (cache m) j"
    using assms(1)
  proof (rule fold_res_invariant)
    fix u d d'
    assume u: "u \<in> set us" "processTransaction env u d = Inr d'"
      and P: "cache_ok (cache d) \<and> heap_val env (cache d) j = heap_val env (cache m) j"
    have "heap_val env (cache d') j = heap_val env (cache d) j"
      using reverted_transaction_keeps_cache [OF _ u(2)] heap_val_stable [OF u(2) conjunct1 [OF P], of j] assms(3) u(1)
      by (cases "HasBeenReverted u") auto
    then show "cache_ok (cache d') \<and> heap_val env (cache d') j = heap_val env (cache m) j"
      using P cache_ok_processTransaction [OF u(2)] by simp
  qed (use assms(2) in simp)
  then show ?thesis by simp
qed

lemma sequenced_action_decoded:
  assumes sch: "schedule env d0 ts d" and "pool d = []" and p0: "pool d0 = []" and ok: "cache_ok (cache d0)"
    and ord: "executed_ordered ts"
    and s: "fold_res (processTransaction env) ts d0 = Inr s" and dist: "distinct (map job_ref (pool s))"
    and t: "t \<in> set ts" "\<not> HasBeenReverted t" "(action, g) \<in> sequenced_actions t"
  shows "\<exists>j. job_action (job_of j) = action \<and> job_globalSequence (job_of j) = g \<and> job_localCache (job_of j) = None
    \<and> jsonHeap d (job_ref j) = heap_val env (cache s) j (jsonHeap d0 (job_ref j))"
proof -
  obtain i where i: "i < length ts" "ts ! i = t" using t(1) by (auto simp: in_set_conv_nth)
  obtain m where m: "fold_res (processTransaction env) (take i ts) d0 = Inr m" "fold_res (processTransaction env) (drop i ts) m = Inr s"
    using s by (rule fold_res_take_drop)
  have "drop i ts = t # drop (Suc i) ts" using i by (metis Cons_nth_drop_Suc)
  with m(2) obtain m' where m': "processTransaction env t m = Inr m'" "fold_res (processTransaction env) (drop (Suc i) ts) m' = Inr s"
    by (auto simp: bind_res_Inr_iff)
  from sequenced_action_queued [OF m'(1) t(2,3)] obtain j jobs where
    j: "pool m' = pool m @ jobs" "j \<in> set jobs" "job_action (job_of j) = action"
      "job_globalSequence (job_of j) = g" "job_localCache (job_of j) = None" "g \<in> receipt_sequences t" .
  obtain more where more: "pool s = pool m' @ more" using pool_grows [OF m'(2)] by blast
  have fresh: "j \<notin> set (pool m)" and js: "j \<in> set (pool s)" using dist j(1,2) more by (auto simp: distinct_map)
  from schedule_invariant [OF sch p0 ok s dist] js assms(2) obtain k where "decoded_at env d0 ts k j (jsonHeap d (job_ref j))"
    by (auto simp: schedule_inv_def)
  then obtain mk where k: "k \<le> length ts" "fold_res (processTransaction env) (take k ts) d0 = Inr mk" "j \<in> set (pool mk)"
    "jsonHeap d (job_ref j) = heap_val env (cache mk) j (jsonHeap d0 (job_ref j))"
    by (auto simp: decoded_at_def)
  have "i < k"
  proof (rule ccontr)
    assume "\<not> i < k"
    then have "take k ts = take k (take i ts)" by (simp add: min_def)
    then have "fold_res (processTransaction env) (drop k (take i ts)) mk = Inr m"
      using fold_res_take_drop [OF m(1), of k] k(2) by (metis sum.inject(2))
    then show False using pool_grows k(3) fresh by fastforce
  qed
  have rest: "fold_res (processTransaction env) (drop k ts) mk = Inr s"
    using fold_res_take_drop [OF s, of k] k(2) by (metis sum.inject(2))
  have "\<forall>u\<in>set (drop k ts). \<not> HasBeenReverted u \<longrightarrow> (\<forall>r\<in>receipt_sequences u. job_globalSequence (job_of j) < r)"
  proof (intro ballI impI)
    fix u r assume u: "u \<in> set (drop k ts)" "\<not> HasBeenReverted u" "r \<in> receipt_sequences u"
    then obtain n where "n < length (drop k ts)" "u = drop k ts ! n" by (metis in_set_conv_nth)
    then have n: "k + n < length ts" "u = ts ! (k + n)" by auto
    then show "job_globalSequence (job_of j) < r"
      using ord sorted_wrt_nth_less [of _ ts i "k + n", OF _ trans_less_add1 n(1)] \<open>i < k\<close> i(2) t(2) j(4,6) u(2,3) unfolding executed_ordered_def by fastforce
  qed
  moreover have "cache_ok (cache mk)" using sequential_pool [OF k(2) p0 ok] by simp
  ultimately have "heap_val env (cache s) j = heap_val env (cache mk) j" using lookups_settled [OF rest] by blast
  then show ?thesis using j(3-5) k(4) by auto
qed

text \<open>C8: what the workers decode, in every schedule that has run all the jobs queued for the transactions
  \<open>ts\<close> of a block. The actions of executed transactions, and those of the deferred transactions
  they touch, are decoded with the ABI that is active at their global sequence number when the
  block is complete, in every schedule, wherever transactions that failed stand among them. An
  action without a sequence number (of a transaction that failed, or of a pushed deferred transaction) is
  decoded with the cache of some moment after its transaction was processed: which one is up to the
  schedule. No other action is written.\<close>

theorem decoding_schedule_independent:
  assumes "schedule env d0 ts d" and "pool d = []"
    and "decoder_reachable env d0" and "pool d0 = []"
    and "executed_ordered ts"
    and "fold_res (processTransaction env) ts d0 = Inr s" and "distinct (map job_ref (pool s))"
  shows "(\<forall>t\<in>set ts. \<forall>(action, g)\<in>sequenced_actions t. \<not> HasBeenReverted t \<longrightarrow>
      jsonHeap d (act_ref action) = (case decoded_data env (cache s) action g None of
          None \<Rightarrow> jsonHeap d0 (act_ref action) | Some json \<Rightarrow> Some json))
    \<and> (\<forall>j\<in>set (pool s). \<exists>k\<le>length ts. \<exists>m. fold_res (processTransaction env) (take k ts) d0 = Inr m \<and> j \<in> set (pool m)
      \<and> jsonHeap d (job_ref j) = (case decoded_data env (cache m) (job_action (job_of j)) (job_globalSequence (job_of j)) (job_localCache (job_of j)) of
          None \<Rightarrow> jsonHeap d0 (job_ref j) | Some json \<Rightarrow> Some json))
    \<and> (\<forall>a. a \<notin> job_ref ` set (pool s) \<longrightarrow> jsonHeap d a = jsonHeap d0 a)"
proof (intro conjI)
  have ok: "cache_ok (cache d0)" using decoder_reachable_ok [OF assms(3)] by (simp add: decoder_ok_def)
  note inv = schedule_invariant [OF assms(1,4) ok assms(6,7)]
  show "\<forall>t\<in>set ts. \<forall>(action, g)\<in>sequenced_actions t. \<not> HasBeenReverted t \<longrightarrow>
      jsonHeap d (act_ref action) = (case decoded_data env (cache s) action g None of
          None \<Rightarrow> jsonHeap d0 (act_ref action) | Some json \<Rightarrow> Some json)"
    using sequenced_action_decoded [OF assms(1,2,4) ok assms(5-7)] unfolding heap_val_def by fastforce
  show "\<forall>j\<in>set (pool s). \<exists>k\<le>length ts. \<exists>m. fold_res (processTransaction env) (take k ts) d0 = Inr m \<and> j \<in> set (pool m)
      \<and> jsonHeap d (job_ref j) = (case decoded_data env (cache m) (job_action (job_of j)) (job_globalSequence (job_of j)) (job_localCache (job_of j)) of
          None \<Rightarrow> jsonHeap d0 (job_ref j) | Some json \<Rightarrow> Some json)"
    using inv assms(2) unfolding schedule_inv_def decoded_at_def heap_val_def by auto
  show "\<forall>a. a \<notin> job_ref ` set (pool s) \<longrightarrow> jsonHeap d a = jsonHeap d0 a"
    using inv by (simp add: schedule_inv_def)
qed

section \<open>Witnesses\<close>

text \<open>A small instance of the foreign code: an ABI is a number, the length of its encoding, and
  decoding an action gives the name of its type.\<close>

definition sample_env :: "nat abi_env" where
  "sample_env =
     \<lparr>eos_UnmarshalABI = (\<lambda>fit raw. Some (length raw)), eos_SetFitNodeos = (\<lambda>abi. abi),
      eos_UnmarshalSetABI = (\<lambda>raw. Some (''acc'', raw)),
      eos_ActionForName = (\<lambda>abi name. Some name), eos_Decode = (\<lambda>abi raw ty. Some ty),
      eos_DecodeTableRow = (\<lambda>abi table row. None), eos_ReadName = (\<lambda>d. None),
      eos_ReadAsset = (\<lambda>d. None), eos_ReadString = (\<lambda>d. None),
      json_MarshalTransfer = (\<lambda>f t q m. None), json_UnmarshalInject = (\<lambda>s. None),
      json_UnmarshalMap = (\<lambda>s. None), json_MarshalInject = (\<lambda>m d. None)\<rparr>"

definition sample_action :: "nat \<Rightarrow> Action" where
  "sample_action ref = \<lparr>act_ref = ref, act_Account = ''eosio'', act_Name = ''setabi'',
     act_Authorization = [], act_JsonData = '''', act_RawData = [1, 2, 3]\<rparr>"

definition sample_trace :: "TransactionStatus \<Rightarrow> nat \<Rightarrow> u64 \<Rightarrow> trace_fields" where
  "sample_trace status ref g = empty_trace_fields
     \<lparr>tt_Id := ''trx'',
      tt_Receipt := Some \<lparr>trh_Status = status, trh_CpuUsageMicroSeconds = 0, trh_NetUsageWords = 0\<rparr>,
      tt_ActionTraces :=
        [\<lparr>at_Receiver = ''eosio'',
          at_Receipt = Some \<lparr>rcpt_Receiver = ''eosio'', rcpt_GlobalSequence = g, rcpt_RecvSequence = 0\<rparr>,
          at_Action = sample_action ref, at_Console = '''', at_ActionOrdinal = 0, at_CreatorActionOrdinal = 0, at_ClosestUnnotifiedAncestorActionOrdinal = 0,
          at_ExecutionIndex = 0, at_FilteringMatched = False,
          at_FilteringMatchedSystemActionFilter = False\<rparr>]\<rparr>"

abbreviation ok_trace :: "nat \<Rightarrow> u64 \<Rightarrow> trace_fields" where
  "ok_trace \<equiv> sample_trace TRANSACTIONSTATUS_EXECUTED"

definition sample_d0 :: "nat ABIDecoder" where
  "sample_d0 = projr (startBlock 5 newABIDecoder)"

definition sample_d1 :: "nat ABIDecoder" where
  "sample_d1 = projr (processTransaction sample_env (ok_trace 1 10) sample_d0)"

definition sample_d2 :: "nat ABIDecoder" where
  "sample_d2 = projr (abortBlock sample_env sample_d1)"

definition sample_d3 :: "nat ABIDecoder" where
  "sample_d3 = projr (startBlock 5 sample_d2)"

definition sample_d4 :: "nat ABIDecoder" where
  "sample_d4 = projr (processTransaction sample_env (ok_trace 2 10) sample_d3)"

definition sample_d4' :: "nat ABIDecoder" where
  "sample_d4' = projr (processTransaction sample_env (ok_trace 2 10)
     (sample_d0\<lparr>truncateOnNextGlobalSequence := True\<rparr>))"

lemma Inr_projr: "\<not> isl r \<Longrightarrow> r = Inr (projr r)"
  by (cases r) auto

lemma sample_d0_eq: "startBlock 5 newABIDecoder = Inr sample_d0"
  unfolding sample_d0_def by (rule Inr_projr) code_simp

lemma sample_steps:
  "processTransaction sample_env (ok_trace 1 10) sample_d0 = Inr sample_d1"
  "abortBlock sample_env sample_d1 = Inr sample_d2"
  "startBlock 5 sample_d2 = Inr sample_d3"
  "processTransaction sample_env (ok_trace 2 10) sample_d3 = Inr sample_d4"
  "processTransaction sample_env (ok_trace 2 10) (sample_d0\<lparr>truncateOnNextGlobalSequence := True\<rparr>) = Inr sample_d4'"
proof -
  show "processTransaction sample_env (ok_trace 1 10) sample_d0 = Inr sample_d1"
    unfolding sample_d1_def by (rule Inr_projr) code_simp
  show "abortBlock sample_env sample_d1 = Inr sample_d2"
    unfolding sample_d2_def by (rule Inr_projr) code_simp
  show "startBlock 5 sample_d2 = Inr sample_d3"
    unfolding sample_d3_def by (rule Inr_projr) code_simp
  show "processTransaction sample_env (ok_trace 2 10) sample_d3 = Inr sample_d4"
    unfolding sample_d4_def by (rule Inr_projr) code_simp
  show "processTransaction sample_env (ok_trace 2 10) (sample_d0\<lparr>truncateOnNextGlobalSequence := True\<rparr>) = Inr sample_d4'"
    unfolding sample_d4'_def by (rule Inr_projr) code_simp
qed

lemma sample_reachable: "decoder_reachable sample_env sample_d0" "decoder_reachable sample_env sample_d1"
proof -
  show 0: "decoder_reachable sample_env sample_d0"
    using decoder_reachable.init sample_d0_eq by (rule decoder_reachable.start)
  from decoder_reachable.trx [OF 0 sample_steps(1)] show "decoder_reachable sample_env sample_d1" .
qed

lemma receipt_sequences_sample: "receipt_sequences (sample_trace st r g) = {g}"
  by (auto simp: receipt_sequences_def sample_trace_def)

theorem decoder_jobs_of_active_block_witness:
  "length (pool sample_d1) = 1 \<and> (\<exists>d'. executeDecodingJob sample_env (hd (pool sample_d1)) sample_d1 = Inr d')"
proof
  show len: "length (pool sample_d1) = 1" by code_simp
  then have "hd (pool sample_d1) \<in> set (pool sample_d1)" by (cases "pool sample_d1") simp_all
  moreover have "job_actualblockNum (job_of (hd (pool sample_d1))) \<noteq> noActiveBlockNum" by code_simp
  ultimately show "\<exists>d'. executeDecodingJob sample_env (hd (pool sample_d1)) sample_d1 = Inr d'"
    using decoder_jobs_of_active_block [OF sample_reachable(2)] by blast
qed

text \<open>A transaction between two blocks: its job is refused once the next block has started.\<close>

definition sample_between :: "nat ABIDecoder" where
  "sample_between = projr (startBlock 6 (projr (processTransaction sample_env (ok_trace 1 10) newABIDecoder)))"

lemma job_between_blocks_refused:
  "length (pool sample_between) = 1 \<and> isl (executeDecodingJob sample_env (hd (pool sample_between)) sample_between)"
  by code_simp

theorem reverted_transaction_keeps_cache_witness:
  "\<exists>d'. processTransaction sample_env (sample_trace TRANSACTIONSTATUS_HARDFAIL 1 10) sample_d0 = Inr d'
    \<and> cache d' = cache sample_d0"
proof -
  let ?t = "sample_trace TRANSACTIONSTATUS_HARDFAIL 1 10"
  have r: "HasBeenReverted ?t" by code_simp
  have "processTransaction sample_env ?t sample_d0 = Inr (projr (processTransaction sample_env ?t sample_d0))"
    by (rule Inr_projr) code_simp
  from reverted_transaction_keeps_cache [OF r this] this show ?thesis by blast
qed

theorem abort_discards_committed_abis_witness:
  "findABI (cache sample_d1) ''acc'' 10 = Some 3 \<and>
   findABI (cache sample_d4) ''acc'' 10 = findABI (cache sample_d4') ''acc'' 10"
proof
  show "findABI (cache sample_d1) ''acc'' 10 = Some 3" by code_simp
  have "fold_res (processTransaction sample_env) [ok_trace 1 10] sample_d0 = Inr sample_d1"
    using sample_steps(1) by simp
  moreover have "activeBlockNum sample_d0 \<noteq> noActiveBlockNum"
    "findFirstGlobalSequence (ok_trace 2 10) = Inr (Some 10)" by code_simp+
  moreover have "\<forall>u\<in>set [ok_trace 1 10]. \<forall>s\<in>receipt_sequences u. 10 \<le> s"
    by (simp add: receipt_sequences_sample)
  ultimately show "findABI (cache sample_d4) ''acc'' 10 = findABI (cache sample_d4') ''acc'' 10"
    using abort_discards_committed_abis [OF sample_reachable(1)] sample_steps(2-5) by blast
qed

text \<open>A transaction that failed before one that sets the ABI of its contract: the worker runs the job of
  the former before the latter commits its ABI, or afterwards.\<close>

definition sample_abi_env :: "nat abi_env" where
  "sample_abi_env = sample_env\<lparr>eos_UnmarshalSetABI := \<lambda>raw. Some (''eosio'', raw)\<rparr>"

definition failed_trace_without_receipt :: trace_fields where
  "failed_trace_without_receipt = (sample_trace TRANSACTIONSTATUS_HARDFAIL 3 0)
     \<lparr>tt_ActionTraces := map (\<lambda>a. a\<lparr>at_Receipt := None\<rparr>) (tt_ActionTraces (sample_trace TRANSACTIONSTATUS_HARDFAIL 3 0))\<rparr>"

abbreviation sample_block_traces :: "trace_fields list" where
  "sample_block_traces \<equiv> [failed_trace_without_receipt, ok_trace 1 10]"

definition sample_work :: "nat ABIDecoder \<Rightarrow> nat ABIDecoder" where
  "sample_work d = (run_job sample_abi_env (hd (pool d)) d)\<lparr>pool := tl (pool d)\<rparr>"

definition sample_queued :: "nat ABIDecoder" where
  "sample_queued = projr (processTransaction sample_abi_env failed_trace_without_receipt sample_d0)"

definition sample_early :: "nat ABIDecoder" where
  "sample_early = projr (processTransaction sample_abi_env (ok_trace 1 10) (sample_work sample_queued))"

definition sample_late :: "nat ABIDecoder" where
  "sample_late = projr (processTransaction sample_abi_env (ok_trace 1 10) sample_queued)"

lemma sample_work_schedule:
  assumes "schedule sample_abi_env d0 ts d" and "pool d \<noteq> []"
  shows "schedule sample_abi_env d0 ts (sample_work d)"
  using schedule.worker [OF assms(1), of "[]" "hd (pool d)" "tl (pool d)"] assms(2) by (simp add: sample_work_def)

lemma sample_runs:
  "processTransaction sample_abi_env failed_trace_without_receipt sample_d0 = Inr sample_queued"
  "processTransaction sample_abi_env (ok_trace 1 10) (sample_work sample_queued) = Inr sample_early"
  "processTransaction sample_abi_env (ok_trace 1 10) sample_queued = Inr sample_late"
proof -
  show "processTransaction sample_abi_env failed_trace_without_receipt sample_d0 = Inr sample_queued"
    unfolding sample_queued_def by (rule Inr_projr) code_simp
  show "processTransaction sample_abi_env (ok_trace 1 10) (sample_work sample_queued) = Inr sample_early"
    unfolding sample_early_def by (rule Inr_projr) code_simp
  show "processTransaction sample_abi_env (ok_trace 1 10) sample_queued = Inr sample_late"
    unfolding sample_late_def by (rule Inr_projr) code_simp
qed

lemma sample_schedules:
  "schedule sample_abi_env sample_d0 sample_block_traces (sample_work sample_early)"
  "schedule sample_abi_env sample_d0 sample_block_traces (sample_work (sample_work sample_late))"
proof -
  have ne: "pool sample_queued \<noteq> []" "pool sample_early \<noteq> []" "pool sample_late \<noteq> []" "pool (sample_work sample_late) \<noteq> []"
    unfolding length_greater_0_conv [symmetric] by code_simp+
  have q: "schedule sample_abi_env sample_d0 [failed_trace_without_receipt] sample_queued"
    using schedule.client [OF schedule.start sample_runs(1)] by simp
  have "schedule sample_abi_env sample_d0 sample_block_traces sample_early"
    using schedule.client [OF sample_work_schedule [OF q ne(1)] sample_runs(2)] by simp
  then show "schedule sample_abi_env sample_d0 sample_block_traces (sample_work sample_early)" by (rule sample_work_schedule) (rule ne)
  have "schedule sample_abi_env sample_d0 sample_block_traces sample_late"
    using schedule.client [OF q sample_runs(3)] by simp
  then show "schedule sample_abi_env sample_d0 sample_block_traces (sample_work (sample_work sample_late))"
    by (intro sample_work_schedule ne)
qed

theorem decoding_schedule_independent_witness:
  "schedule sample_abi_env sample_d0 sample_block_traces (sample_work sample_early)
   \<and> jsonHeap (sample_work sample_early) 1 = Some ''setabi''"
proof
  show sch: "schedule sample_abi_env sample_d0 sample_block_traces (sample_work sample_early)" by (rule sample_schedules)
  have len: "length (pool (sample_work sample_early)) = 0" "length (pool sample_d0) = 0" "map job_ref (pool sample_late) = [3, 1]" by code_simp+
  have s: "fold_res (processTransaction sample_abi_env) sample_block_traces sample_d0 = Inr sample_late"
    using sample_runs(1,3) by simp
  have "HasBeenReverted failed_trace_without_receipt" by code_simp
  then have ord: "executed_ordered sample_block_traces" by (simp add: executed_ordered_def)
  have r: "decoder_reachable sample_abi_env sample_d0"
    using decoder_reachable.init sample_d0_eq by (rule decoder_reachable.start)
  have action: "(sample_action 1, 10) \<in> sequenced_actions (ok_trace 1 10)"
    by (auto simp: sequenced_actions_def sample_trace_def)
  have ok: "\<not> HasBeenReverted (ok_trace 1 10)" "decoded_data sample_abi_env (cache sample_late) (sample_action 1) 10 None = Some ''setabi''"
    by code_simp+
  have "act_ref (sample_action 1) = 1" by (simp add: sample_action_def)
  with decoding_schedule_independent [OF sch _ r _ ord s] len action ok
  show "jsonHeap (sample_work sample_early) 1 = Some ''setabi''" by fastforce
qed

text \<open>The text of the failed transaction depends on the schedule.\<close>

lemma failed_decoding_depends_on_schedule:
  "\<exists>d e. schedule sample_abi_env sample_d0 sample_block_traces d \<and> pool d = []
     \<and> schedule sample_abi_env sample_d0 sample_block_traces e \<and> pool e = [] \<and> jsonHeap d 3 \<noteq> jsonHeap e 3"
proof (intro exI conjI)
  show "schedule sample_abi_env sample_d0 sample_block_traces (sample_work sample_early)"
    "schedule sample_abi_env sample_d0 sample_block_traces (sample_work (sample_work sample_late))" by (rule sample_schedules)+
  show "pool (sample_work sample_early) = []" "pool (sample_work (sample_work sample_late)) = []"
    unfolding length_0_conv [symmetric] by code_simp+
  show "jsonHeap (sample_work sample_early) 3 \<noteq> jsonHeap (sample_work (sample_work sample_late)) 3" by code_simp
qed

end
