(* ===== verification/EosToProto.thy ===== *)
theory EosToProto
  imports AbiDecoder
begin

text \<open>
  The conversions of \<open>codec/eosio/eos_to_proto.go\<close> and of the three hydrators
  (\<open>codec/eosio/v2.0\<close>, \<open>v2.1\<close>, \<open>v6\<close>): the structures \<open>eos-go\<close> unpacks from the deep mind log
  become protobuf messages. The unpacking itself and the JSON encoding of an action's data are
  code of other repositories, the record \<open>hydrator_env\<close>. \<open>sort.Slice\<close> of Go leaves the order of
  equal elements open, so the sort is a parameter too, with the law \<open>slice_sort_ok\<close>. A panic of
  the conversion is the error value of the result. Header fields that are copied and never read
  by the modelled code (schedules, merkle roots, signatures) are left out of both sides.
\<close>

section \<open>Structures of eos-go\<close>

record eosPermissionLevel =
  epl_Actor :: string
  epl_Permission :: string

datatype eosActionData = DataString string | DataObject string

record eosAction =
  ea_ref :: nat
  ea_Account :: string
  ea_Name :: string
  ea_Authorization :: "eosPermissionLevel list"
  ea_HexData :: bytes
  ea_Data :: "eosActionData option"

record eosActionTraceReceipt =
  ear_Receiver :: string
  ear_GlobalSequence :: u64
  ear_ReceiveSequence :: u64

record eosActionTrace =
  eat_Receiver :: string
  eat_Receipt :: "eosActionTraceReceipt option"
  eat_Action :: eosAction
  eat_Console :: string
  eat_ActionOrdinal :: u32
  eat_CreatorActionOrdinal :: u32
  eat_ClosestUnnotifiedAncestorActionOrdinal :: u32

datatype eosTransactionStatus =
  EosExecuted | EosSoftFail | EosHardFail | EosDelayed | EosExpired | EosUnknownStatus

record eosTransactionReceiptHeader =
  eth_Status :: eosTransactionStatus
  eth_CPUUsageMicroSeconds :: u32
  eth_NetUsageWords :: u32

record eos_trace_fields =
  ett_ID :: string
  ett_BlockNum :: u32
  ett_ProducerBlockID :: string
  ett_Receipt :: "eosTransactionReceiptHeader option"
  ett_Scheduled :: bool
  ett_ActionTraces :: "eosActionTrace list"

datatype eosTransactionTrace = EosTransactionTrace eos_trace_fields "eosTransactionTrace option"

record eosTransactionReceipt =
  etr_ID :: string
  etr_Status :: eosTransactionStatus
  etr_Packed :: "bytes option"

record eosTransaction =
  etx_ContextFreeActions :: "eosAction list"
  etx_Actions :: "eosAction list"

record eosSignedTransaction =
  est_Transaction :: eosTransaction
  est_Signatures :: "string list"

record eosBlockState =
  ebs_BlockID :: string
  ebs_BlockNum :: u32
  ebs_Previous :: string
  ebs_DPoSIrreversibleBlockNum :: u32
  ebs_Transactions :: "eosTransactionReceipt list"

datatype hydrator = Hydrator_v2_0 | Hydrator_v2_1 | Hydrator_v6

record hydrator_env =
  eos_UnmarshalBlockState :: "hydrator \<Rightarrow> bytes \<Rightarrow> eosBlockState option"
  eos_UnmarshalSignedBlock :: "bytes \<Rightarrow> (string \<times> eosTransactionReceipt list) option"
  eos_UnmarshalFinalityData :: "bytes \<Rightarrow> bytes option"
  eos_UnmarshalProposerPolicy :: "bytes \<Rightarrow> bytes option"
  eos_UnmarshalFinalizerPolicy :: "bytes \<Rightarrow> bytes option"
  eos_UnmarshalTransactionTrace :: "hydrator \<Rightarrow> bytes \<Rightarrow> eosTransactionTrace option"
  json_MarshalData :: "eosActionData \<Rightarrow> string option"
  sort_Slice :: "(eosActionTrace \<Rightarrow> eosActionTrace \<Rightarrow> bool) \<Rightarrow> eosActionTrace list \<Rightarrow> eosActionTrace list"

datatype conv_error =
    UnmarshalFailed string
  | PanicBadActionHex
  | PanicMarshalData

section \<open>Conversions\<close>

definition PermissionLevelToDEOS :: "eosPermissionLevel \<Rightarrow> PermissionLevel" where
  "PermissionLevelToDEOS p = \<lparr>pl_Actor = epl_Actor p, pl_Permission = epl_Permission p\<rparr>"

definition AuthorizationToDEOS :: "eosPermissionLevel list \<Rightarrow> PermissionLevel list" where
  "AuthorizationToDEOS ps = map PermissionLevelToDEOS ps"

definition ActionToDEOS :: "hydrator_env \<Rightarrow> eosAction \<Rightarrow> conv_error + Action" where
  "ActionToDEOS env action =
     (let deosAction = \<lparr>act_ref = ea_ref action, act_Account = ea_Account action,
            act_Name = ea_Name action, act_Authorization = AuthorizationToDEOS (ea_Authorization action),
            act_JsonData = '''', act_RawData = ea_HexData action\<rparr>
      in case ea_Data action of
           None \<Rightarrow> Inr deosAction
         | Some data \<Rightarrow>
             (case (data, ea_HexData action) of
                (DataString v, []) \<Rightarrow>
                  (case hex_DecodeString v of
                     None \<Rightarrow> Inl PanicBadActionHex
                   | Some rawData \<Rightarrow> Inr (deosAction\<lparr>act_RawData := rawData\<rparr>))
              | _ \<Rightarrow>
                  (case json_MarshalData env data of
                     None \<Rightarrow> Inl PanicMarshalData
                   | Some serialized \<Rightarrow> Inr (deosAction\<lparr>act_JsonData := serialized\<rparr>))))"

fun map_res :: "('a \<Rightarrow> 'e + 'b) \<Rightarrow> 'a list \<Rightarrow> 'e + 'b list" where
  "map_res f [] = Inr []"
| "map_res f (x # xs) = bind_res (f x) (\<lambda>y. bind_res (map_res f xs) (\<lambda>ys. Inr (y # ys)))"

definition TransactionToDEOS :: "hydrator_env \<Rightarrow> eosTransaction \<Rightarrow> conv_error + Transaction" where
  "TransactionToDEOS env trx =
     bind_res (map_res (ActionToDEOS env) (etx_ContextFreeActions trx)) (\<lambda>cfas.
     bind_res (map_res (ActionToDEOS env) (etx_Actions trx)) (\<lambda>acts.
       Inr \<lparr>tx_ContextFreeActions = cfas, tx_Actions = acts\<rparr>))"

definition SignedTransactionToDEOS ::
  "hydrator_env \<Rightarrow> eosSignedTransaction \<Rightarrow> conv_error + SignedTransaction" where
  "SignedTransactionToDEOS env trx =
     bind_res (TransactionToDEOS env (est_Transaction trx)) (\<lambda>t.
       Inr \<lparr>st_Transaction = t, st_Signatures = est_Signatures trx\<rparr>)"

definition TransactionStatusToDEOS :: "eosTransactionStatus \<Rightarrow> TransactionStatus" where
  "TransactionStatusToDEOS s =
     (case s of
        EosExecuted \<Rightarrow> TRANSACTIONSTATUS_EXECUTED
      | EosSoftFail \<Rightarrow> TRANSACTIONSTATUS_SOFTFAIL
      | EosHardFail \<Rightarrow> TRANSACTIONSTATUS_HARDFAIL
      | EosDelayed \<Rightarrow> TRANSACTIONSTATUS_DELAYED
      | EosExpired \<Rightarrow> TRANSACTIONSTATUS_EXPIRED
      | _ \<Rightarrow> TRANSACTIONSTATUS_UNKNOWN)"

definition TransactionReceiptHeaderToDEOS ::
  "eosTransactionReceiptHeader \<Rightarrow> TransactionReceiptHeader" where
  "TransactionReceiptHeaderToDEOS r =
     \<lparr>trh_Status = TransactionStatusToDEOS (eth_Status r),
      trh_CpuUsageMicroSeconds = eth_CPUUsageMicroSeconds r,
      trh_NetUsageWords = eth_NetUsageWords r\<rparr>"

definition TransactionReceiptToDEOS :: "eosTransactionReceipt \<Rightarrow> TransactionReceipt" where
  "TransactionReceiptToDEOS r =
     \<lparr>tr_Id = etr_ID r, tr_Index = 0, tr_Status = TransactionStatusToDEOS (etr_Status r),
      tr_PackedTransaction = etr_Packed r\<rparr>"

definition ActionTraceReceiptToDEOS :: "eosActionTraceReceipt \<Rightarrow> ActionReceipt" where
  "ActionTraceReceiptToDEOS r =
     \<lparr>rcpt_Receiver = ear_Receiver r, rcpt_GlobalSequence = ear_GlobalSequence r,
      rcpt_RecvSequence = ear_ReceiveSequence r\<rparr>"

text \<open>The conversion options are functions on the converted trace.\<close>

definition ActionTraceToDEOS ::
  "hydrator_env \<Rightarrow> eosActionTrace \<Rightarrow> u32 \<Rightarrow> (ActionTrace \<Rightarrow> ActionTrace) list \<Rightarrow> conv_error + ActionTrace" where
  "ActionTraceToDEOS env a execIndex opts =
     bind_res (ActionToDEOS env (eat_Action a)) (\<lambda>action.
       Inr (fold (\<lambda>opt. opt) opts
         \<lparr>at_Receiver = eat_Receiver a,
          at_Receipt = map_option ActionTraceReceiptToDEOS (eat_Receipt a),
          at_Action = action, at_Console = eat_Console a,
          at_ActionOrdinal = eat_ActionOrdinal a,
          at_CreatorActionOrdinal = eat_CreatorActionOrdinal a,
          at_ClosestUnnotifiedAncestorActionOrdinal = eat_ClosestUnnotifiedAncestorActionOrdinal a,
          at_ExecutionIndex = execIndex, at_FilteringMatched = False,
          at_FilteringMatchedSystemActionFilter = False\<rparr>))"

definition trace_sequence :: "eosActionTrace \<Rightarrow> u64" where
  "trace_sequence a =
     (case eat_Receipt a of
        None \<Rightarrow> -1
      | Some r \<Rightarrow> if ear_GlobalSequence r \<noteq> 0 then ear_GlobalSequence r else -1)"

definition ActionTracesToDEOS ::
  "hydrator_env \<Rightarrow> eosActionTrace list \<Rightarrow> (ActionTrace \<Rightarrow> ActionTrace) list \<Rightarrow> conv_error + ActionTrace list" where
  "ActionTracesToDEOS env actionTraces opts =
     (if actionTraces = [] then Inr []
      else map_res (\<lambda>(idx, a). ActionTraceToDEOS env a (word_of_nat idx) opts)
             (enumerate 0 (sort_Slice env (\<lambda>l r. trace_sequence l < trace_sequence r) actionTraces)))"

fun TransactionTraceToDEOS ::
  "hydrator_env \<Rightarrow> (ActionTrace \<Rightarrow> ActionTrace) list \<Rightarrow> eosTransactionTrace \<Rightarrow> conv_error + TransactionTrace" where
  "TransactionTraceToDEOS env opts (EosTransactionTrace f failed) =
     bind_res (ActionTracesToDEOS env (ett_ActionTraces f) opts) (\<lambda>actionTraces.
     bind_res (case failed of
                 None \<Rightarrow> Inr None
               | Some t \<Rightarrow> bind_res (TransactionTraceToDEOS env opts t) (\<lambda>t'. Inr (Some t')))
       (\<lambda>failedTrace.
         Inr (TransactionTrace
           (empty_trace_fields
             \<lparr>tt_Id := ett_ID f, tt_BlockNum := ucast (ett_BlockNum f),
              tt_ProducerBlockId := ett_ProducerBlockID f, tt_Scheduled := ett_Scheduled f,
              tt_ActionTraces := actionTraces,
              tt_Receipt := map_option TransactionReceiptHeaderToDEOS (ett_Receipt f)\<rparr>)
           failedTrace)))"

section \<open>Hydrators\<close>

definition DecodeTransactionTrace ::
  "hydrator_env \<Rightarrow> hydrator \<Rightarrow> bytes \<Rightarrow> (ActionTrace \<Rightarrow> ActionTrace) list \<Rightarrow> conv_error + TransactionTrace" where
  "DecodeTransactionTrace env h input opts =
     (case eos_UnmarshalTransactionTrace env h input of
        None \<Rightarrow> Inl (UnmarshalFailed ''transaction trace'')
      | Some t \<Rightarrow> TransactionTraceToDEOS env opts t)"

definition index_receipts :: "eosTransactionReceipt list \<Rightarrow> TransactionReceipt list" where
  "index_receipts rs =
     map (\<lambda>(idx, r). (TransactionReceiptToDEOS r)\<lparr>tr_Index := word_of_nat idx\<rparr>) (enumerate 0 rs)"

definition stamp_trace :: "Block \<Rightarrow> nat \<Rightarrow> TransactionTrace \<Rightarrow> TransactionTrace" where
  "stamp_trace block idx t =
     (case t of TransactionTrace f failed \<Rightarrow>
        TransactionTrace (f\<lparr>tt_Index := word_of_nat idx, tt_ProducerBlockId := blk_Id block,
          tt_BlockNum := ucast (blk_Number block)\<rparr>) failed)"

text \<open>The tail the hydrators share: the receipts, then the traces and the action counts. The
  counts are incremented from the value the block has.\<close>

definition hydrate_transactions :: "eosTransactionReceipt list \<Rightarrow> Block \<Rightarrow> Block" where
  "hydrate_transactions receipts block =
     (let b1 = block\<lparr>blk_UnfilteredTransactionCount := word_of_nat (length receipts),
                blk_UnfilteredTransactions := blk_UnfilteredTransactions block @ index_receipts receipts,
                blk_UnfilteredTransactionTraceCount := word_of_nat (length (blk_UnfilteredTransactionTraces block))\<rparr>;
          b2 = b1\<lparr>blk_UnfilteredTransactionTraces :=
                 map (\<lambda>(idx, t). stamp_trace b1 idx t) (enumerate 0 (blk_UnfilteredTransactionTraces b1))\<rparr>
      in fold (\<lambda>t. fold count_action (tt_ActionTraces (trace_of t)))
           (blk_UnfilteredTransactionTraces b2) b2)"

definition HydrateBlock :: "hydrator_env \<Rightarrow> hydrator \<Rightarrow> Block \<Rightarrow> bytes \<Rightarrow> conv_error + Block" where
  "HydrateBlock env h block input =
     (case eos_UnmarshalBlockState env h input of
        None \<Rightarrow> Inl (UnmarshalFailed ''block state'')
      | Some bs \<Rightarrow>
          Inr (hydrate_transactions (ebs_Transactions bs)
            (block\<lparr>blk_Id := ebs_BlockID bs, blk_Number := ebs_BlockNum bs, blk_Version := 1,
               blk_Previous := ebs_Previous bs,
               blk_DposIrreversibleBlocknum := ebs_DPoSIrreversibleBlockNum bs\<rparr>)))"

definition HydrateBlockV2 ::
  "hydrator_env \<Rightarrow> hydrator \<Rightarrow> Block \<Rightarrow> bytes \<Rightarrow> string \<Rightarrow> u32 \<Rightarrow> u32 \<Rightarrow> bytes \<Rightarrow> bytes \<Rightarrow> bytes \<Rightarrow>
   conv_error + Block" where
  "HydrateBlockV2 env h block input blockId blockNumber libNum finalityData proposerPolicy finalizerPolicy =
     (if h \<noteq> Hydrator_v6 then HydrateBlock env h block input
      else
        bind_res (from_opt (UnmarshalFailed ''signed block'') (eos_UnmarshalSignedBlock env input)) (\<lambda>sb.
        bind_res (from_opt (UnmarshalFailed ''finality data'') (eos_UnmarshalFinalityData env finalityData)) (\<lambda>_.
        bind_res (from_opt (UnmarshalFailed ''proposer policy'') (eos_UnmarshalProposerPolicy env proposerPolicy)) (\<lambda>_.
        bind_res (if finalizerPolicy = [] then Inr []
                  else from_opt (UnmarshalFailed ''finalizer policy'') (eos_UnmarshalFinalizerPolicy env finalizerPolicy)) (\<lambda>_.
          Inr (hydrate_transactions (snd sb)
            (block\<lparr>blk_Id := blockId, blk_Number := blockNumber, blk_Version := 1,
               blk_Previous := fst sb, blk_DposIrreversibleBlocknum := libNum\<rparr>)))))))"

section \<open>Order and counts\<close>

text \<open>What Go documents of \<open>sort.Slice\<close>: the result is a permutation in increasing order.\<close>

definition slice_sort_ok :: "hydrator_env \<Rightarrow> bool" where
  "slice_sort_ok env \<longleftrightarrow>
     (\<forall>(f :: eosActionTrace \<Rightarrow> u64) xs. mset (sort_Slice env (\<lambda>l r. f l < f r) xs) = mset xs
        \<and> sorted (map f (sort_Slice env (\<lambda>l r. f l < f r) xs)))"

lemma map_res_Inr:
  "map_res f xs = Inr ys \<longleftrightarrow> length ys = length xs \<and> (\<forall>i<length xs. f (xs ! i) = Inr (ys ! i))"
proof (induction xs arbitrary: ys)
  case (Cons x xs)
  show ?case
  proof (cases ys)
    case Nil
    then show ?thesis by (auto simp: bind_res_Inr_iff)
  next
    case (Cons y zs)
    then show ?thesis by (auto simp: bind_res_Inr_iff Cons.IH All_less_Suc2)
  qed
qed auto

lemma ActionToDEOS_ref: "ActionToDEOS env a = Inr a' \<Longrightarrow> act_ref a' = ea_ref a"
  by (auto simp: ActionToDEOS_def Let_def split: option.splits eosActionData.splits list.splits)

lemma ActionTraceToDEOS_fields:
  assumes "ActionTraceToDEOS env a i [] = Inr t"
  shows "at_ExecutionIndex t = i" and "actionTraceGlobalSequence t = trace_sequence a"
    and "act_ref (at_Action t) = ea_ref (eat_Action a)"
  using assms ActionToDEOS_ref
  by (auto simp: ActionTraceToDEOS_def bind_res_Inr_iff actionTraceGlobalSequence_def trace_sequence_def
      ActionTraceReceiptToDEOS_def mostRecentActiveABI_def split: option.splits)

text \<open>C15: the action traces of a transaction are reordered by global sequence, those without one
  last; the execution index of a trace is its position in this order, and no action is lost or
  duplicated.\<close>

theorem ActionTracesToDEOS_execution_order:
  assumes "slice_sort_ok env" and "ActionTracesToDEOS env xs [] = Inr ys"
  shows "length ys = length xs
    \<and> sorted (map actionTraceGlobalSequence ys)
    \<and> (\<forall>i<length ys. at_ExecutionIndex (ys ! i) = word_of_nat i)
    \<and> mset (map (act_ref \<circ> at_Action) ys) = mset (map (ea_ref \<circ> eat_Action) xs)"
proof (cases "xs = []")
  case True
  then show ?thesis using assms(2) by (simp add: ActionTracesToDEOS_def)
next
  case False
  define zs where "zs = sort_Slice env (\<lambda>l r. trace_sequence l < trace_sequence r) xs"
  have zs: "mset zs = mset xs" "sorted (map trace_sequence zs)"
    using assms(1) by (simp_all add: slice_sort_ok_def zs_def)
  then have len: "length zs = length xs" using mset_eq_length by blast
  have ys: "length ys = length zs" "\<forall>i<length zs. ActionTraceToDEOS env (zs ! i) (word_of_nat i) [] = Inr (ys ! i)"
    using assms(2) False by (auto simp: ActionTracesToDEOS_def map_res_Inr nth_enumerate_eq simp flip: zs_def)
  have "map actionTraceGlobalSequence ys = map trace_sequence zs"
    "map (act_ref \<circ> at_Action) ys = map (ea_ref \<circ> eat_Action) zs"
    using ys ActionTraceToDEOS_fields(2,3) by (auto intro!: nth_equalityI)
  moreover have "mset (map (ea_ref \<circ> eat_Action) zs) = mset (map (ea_ref \<circ> eat_Action) xs)"
    using zs(1) by simp
  ultimately show ?thesis
    using zs(2) ys len ActionTraceToDEOS_fields(1) by auto
qed

lemma fold_count_traces:
  fixes ts b defines "as \<equiv> concat (map (tt_ActionTraces \<circ> trace_of) ts)"
  shows "fold (\<lambda>t. fold count_action (tt_ActionTraces (trace_of t))) ts b = fold count_action as b"
  by (simp add: fold_concat as_def o_def)

lemma count_action_frame:
  "blk_Id (fold count_action as b) = blk_Id b \<and> blk_Number (fold count_action as b) = blk_Number b
   \<and> blk_UnfilteredTransactions (fold count_action as b) = blk_UnfilteredTransactions b
   \<and> blk_UnfilteredTransactionCount (fold count_action as b) = blk_UnfilteredTransactionCount b
   \<and> blk_UnfilteredTransactionTraceCount (fold count_action as b) = blk_UnfilteredTransactionTraceCount b
   \<and> blk_UnfilteredImplicitTransactionOps (fold count_action as b) = blk_UnfilteredImplicitTransactionOps b
   \<and> blk_RlimitOps (fold count_action as b) = blk_RlimitOps b"
  by (induction as arbitrary: b) (auto simp: count_action_def Let_def)

lemma stamp_trace_actions: "tt_ActionTraces (trace_of (stamp_trace b i t)) = tt_ActionTraces (trace_of t)"
  by (cases t) (simp add: stamp_trace_def)

text \<open>Hydrating a block whose counts are still zero stamps the traces with their position and
  the number and id of the block, keeps their actions, and sets the transaction, trace and action
  counts to what the block holds, modulo \<open>2^32\<close>.\<close>

theorem HydrateBlock_counts:
  assumes "HydrateBlock env h block input = Inr b"
    and "blk_UnfilteredExecutedTotalActionCount block = 0" "blk_UnfilteredExecutedInputActionCount block = 0"
    and "blk_UnfilteredTransactions block = []"
  defines "actions \<equiv> concat (map (tt_ActionTraces \<circ> trace_of) (blk_UnfilteredTransactionTraces block))"
  shows "blk_UnfilteredTransactionCount b = word_of_nat (length (blk_UnfilteredTransactions b))
    \<and> blk_UnfilteredTransactionTraceCount b = word_of_nat (length (blk_UnfilteredTransactionTraces b))
    \<and> blk_UnfilteredExecutedTotalActionCount b = word_of_nat (length actions)
    \<and> blk_UnfilteredExecutedInputActionCount b = word_of_nat (length (filter IsInput actions))
    \<and> length (blk_UnfilteredTransactionTraces b) = length (blk_UnfilteredTransactionTraces block)
    \<and> (\<forall>i<length (blk_UnfilteredTransactionTraces b).
         blk_UnfilteredTransactionTraces b ! i = stamp_trace b i (blk_UnfilteredTransactionTraces block ! i))"
proof -
  obtain bs where u: "eos_UnmarshalBlockState env h input = Some bs"
    using assms(1) by (cases "eos_UnmarshalBlockState env h input") (simp_all add: HydrateBlock_def)
  have bs: "b = hydrate_transactions (ebs_Transactions bs)
      (block\<lparr>blk_Id := ebs_BlockID bs, blk_Number := ebs_BlockNum bs, blk_Version := 1,
         blk_Previous := ebs_Previous bs, blk_DposIrreversibleBlocknum := ebs_DPoSIrreversibleBlockNum bs\<rparr>)"
    using assms(1) u by (simp add: HydrateBlock_def)
  have stamp: "stamp_trace b1 i t = stamp_trace b2 i t" if "blk_Id b1 = blk_Id b2" "blk_Number b1 = blk_Number b2"
    for b1 b2 i t using that by (cases t) (simp add: stamp_trace_def)
  have acts: "concat (map (tt_ActionTraces \<circ> trace_of) (map (\<lambda>(idx, t). stamp_trace b' idx t)
      (enumerate 0 (blk_UnfilteredTransactionTraces block)))) = actions" for b'
    by (auto simp: actions_def stamp_trace_actions intro!: arg_cong [of _ _ concat] nth_equalityI
        simp: nth_enumerate_eq)
  show ?thesis
    unfolding bs hydrate_transactions_def Let_def fold_count_traces
    using assms(2-4) acts
    by (auto simp: fold_count_action count_action_frame index_receipts_def nth_enumerate_eq intro!: stamp)
qed

section \<open>Witnesses\<close>

definition sample_eos_trace :: "nat \<Rightarrow> u64 \<Rightarrow> eosActionTrace" where
  "sample_eos_trace ref g =
     \<lparr>eat_Receiver = ''eosio'',
      eat_Receipt = (if g = 0 then None
        else Some \<lparr>ear_Receiver = ''eosio'', ear_GlobalSequence = g, ear_ReceiveSequence = 0\<rparr>),
      eat_Action = \<lparr>ea_ref = ref, ea_Account = ''a'', ea_Name = ''b'', ea_Authorization = [],
        ea_HexData = [1], ea_Data = None\<rparr>,
      eat_Console = '''', eat_ActionOrdinal = 0, eat_CreatorActionOrdinal = 0,
      eat_ClosestUnnotifiedAncestorActionOrdinal = 0\<rparr>"

text \<open>An instance of the foreign code: insertion of each element in front of the first greater
  one, and an empty block state.\<close>

fun insert_less :: "('a \<Rightarrow> 'a \<Rightarrow> bool) \<Rightarrow> 'a \<Rightarrow> 'a list \<Rightarrow> 'a list" where
  "insert_less lt x [] = [x]"
| "insert_less lt x (y # ys) = (if lt y x then y # insert_less lt x ys else x # y # ys)"

definition sample_hydrator_env :: hydrator_env where
  "sample_hydrator_env =
     \<lparr>eos_UnmarshalBlockState = (\<lambda>h bs. Some \<lparr>ebs_BlockID = ''id'', ebs_BlockNum = 5, ebs_Previous = '''',
        ebs_DPoSIrreversibleBlockNum = 4, ebs_Transactions = []\<rparr>),
      eos_UnmarshalSignedBlock = (\<lambda>bs. None), eos_UnmarshalFinalityData = (\<lambda>bs. None),
      eos_UnmarshalProposerPolicy = (\<lambda>bs. None), eos_UnmarshalFinalizerPolicy = (\<lambda>bs. None),
      eos_UnmarshalTransactionTrace = (\<lambda>h bs. None), json_MarshalData = (\<lambda>d. None),
      sort_Slice = (\<lambda>lt xs. foldr (insert_less lt) xs [])\<rparr>"

lemma insert_less_ok:
  fixes f :: "'a \<Rightarrow> u64"
  assumes "sorted (map f ys)"
  shows "mset (insert_less (\<lambda>l r. f l < f r) x ys) = add_mset x (mset ys)
    \<and> sorted (map f (insert_less (\<lambda>l r. f l < f r) x ys))"
  using assms
proof (induction ys)
  case (Cons y ys)
  then have "set (insert_less (\<lambda>l r. f l < f r) x ys) = insert x (set ys)"
    by (metis set_mset_add_mset_insert set_mset_mset sorted_wrt.simps(2) list.simps(9))
  with Cons show ?case by auto
qed simp

lemma sample_sort_ok: "slice_sort_ok sample_hydrator_env"
proof -
  have "mset (foldr (insert_less (\<lambda>l r. f l < f r)) xs []) = mset xs
      \<and> sorted (map f (foldr (insert_less (\<lambda>l r. f l < f r)) xs []))"
    for f :: "eosActionTrace \<Rightarrow> u64" and xs
    using insert_less_ok [of f] by (induction xs) auto
  then show ?thesis by (simp add: slice_sort_ok_def sample_hydrator_env_def)
qed

theorem ActionTracesToDEOS_execution_order_witness:
  "\<exists>ys. ActionTracesToDEOS sample_hydrator_env [sample_eos_trace 1 0, sample_eos_trace 2 9, sample_eos_trace 3 7] [] = Inr ys
    \<and> sorted (map actionTraceGlobalSequence ys) \<and> length ys = 3"
proof -
  let ?r = "ActionTracesToDEOS sample_hydrator_env [sample_eos_trace 1 0, sample_eos_trace 2 9, sample_eos_trace 3 7] []"
  have r: "?r = Inr (projr ?r)" by (rule Inr_projr) code_simp
  from ActionTracesToDEOS_execution_order [OF sample_sort_ok r] show ?thesis
    by (intro exI [of _ "projr ?r"] conjI r) simp_all
qed

theorem HydrateBlock_counts_witness:
  "\<exists>b. HydrateBlock sample_hydrator_env Hydrator_v2_0
      (empty_block\<lparr>blk_UnfilteredTransactionTraces := [TransactionTrace (ok_trace 1 10) None]\<rparr>) [] = Inr b
    \<and> blk_UnfilteredExecutedTotalActionCount b = 1"
proof -
  let ?b = "empty_block\<lparr>blk_UnfilteredTransactionTraces := [TransactionTrace (ok_trace 1 10) None]\<rparr>"
  let ?r = "HydrateBlock sample_hydrator_env Hydrator_v2_0 ?b []"
  have r: "?r = Inr (projr ?r)" by (rule Inr_projr) code_simp
  have "blk_UnfilteredExecutedTotalActionCount (projr ?r) = 1"
    using HydrateBlock_counts [OF r] by (simp add: empty_block_def sample_trace_def)
  then show ?thesis using r by blast
qed

end
