(* ===== verification/DeepMindTypes.thy ===== *)
theory DeepMindTypes
  imports PbCodec
begin

text \<open>
  The JSON objects of the deep mind log, \<open>codec/types.go\<close>, and their conversion to protobuf
  messages. Decoding the JSON text is a parameter of the reader. A \<open>ToProto\<close> method called through
  a nil pointer panics: the result \<open>None\<close>.
\<close>

section \<open>Permissions\<close>

record eosKeyWeight =
  ekw_PublicKey :: string
  ekw_Weight :: "16 word"

record eosPermissionLevelWeight =
  eplw_Actor :: string
  eplw_Permission :: string
  eplw_Weight :: "16 word"

record eosWaitWeight =
  eww_WaitSec :: u32
  eww_Weight :: "16 word"

record eosAuthority =
  eau_Threshold :: u32
  eau_Keys :: "eosKeyWeight list"
  eau_Accounts :: "eosPermissionLevelWeight list"
  eau_Waits :: "eosWaitWeight list"

record permissionObject =
  pj_Owner :: string
  pj_Name :: string
  pj_ParentID :: u64
  pj_LastUpdated :: int
  pj_Auth :: "eosAuthority option"

definition KeyWeightsToDEOS :: "eosKeyWeight list \<Rightarrow> KeyWeight list" where
  "KeyWeightsToDEOS ks =
     map (\<lambda>o'. \<lparr>kw_PublicKey = ekw_PublicKey o', kw_Weight = ucast (ekw_Weight o')\<rparr>) ks"

definition PermissionLevelWeightsToDEOS ::
  "eosPermissionLevelWeight list \<Rightarrow> PermissionLevelWeight list" where
  "PermissionLevelWeightsToDEOS ws =
     map (\<lambda>o'. \<lparr>plw_Permission = \<lparr>pl_Actor = eplw_Actor o', pl_Permission = eplw_Permission o'\<rparr>,
                plw_Weight = ucast (eplw_Weight o')\<rparr>) ws"

definition WaitWeightsToDEOS :: "eosWaitWeight list \<Rightarrow> WaitWeight list" where
  "WaitWeightsToDEOS ws =
     map (\<lambda>o'. \<lparr>ww_WaitSec = eww_WaitSec o', ww_Weight = ucast (eww_Weight o')\<rparr>) ws"

definition AuthoritiesToDEOS :: "eosAuthority option \<Rightarrow> Authority option" where
  "AuthoritiesToDEOS authority =
     (case authority of
        None \<Rightarrow> None
      | Some a \<Rightarrow>
          Some \<lparr>auth_Threshold = eau_Threshold a, auth_Keys = KeyWeightsToDEOS (eau_Keys a),
            auth_Accounts = PermissionLevelWeightsToDEOS (eau_Accounts a),
            auth_Waits = WaitWeightsToDEOS (eau_Waits a)\<rparr>)"

text \<open>\<open>ts\<close> is the check of \<open>ptypes.TimestampProto\<close>; an invalid time panics.\<close>

definition permissionObject_ToProto :: "(int \<Rightarrow> bool) \<Rightarrow> permissionObject option \<Rightarrow> PermissionObject option" where
  "permissionObject_ToProto ts p =
     (case p of
        None \<Rightarrow> None
      | Some p' \<Rightarrow>
          if \<not> ts (pj_LastUpdated p') then None
          else case AuthoritiesToDEOS (pj_Auth p') of
                 None \<Rightarrow> None
               | Some auth \<Rightarrow>
                   Some \<lparr>po_Id = 0, po_ParentId = pj_ParentID p', po_Owner = pj_Owner p',
                     po_Name = pj_Name p', po_LastUpdated = pj_LastUpdated p', po_Authority = auth\<rparr>)"

section \<open>Resource limits\<close>

record usageAccumulator =
  uaj_LastOrdinal :: u32
  uaj_ValueEx :: u64
  uaj_Consumed :: u64

record ratio =
  raj_Numerator :: u64
  raj_Denominator :: u64

record elasticLimitParameters =
  elj_Target :: u64
  elj_Max :: u64
  elj_Periods :: u32
  elj_MaxMultiplier :: u32
  elj_ContractRate :: ratio
  elj_ExpandRate :: ratio

record rlimitState =
  rsj_AverageBlockNetUsage :: "usageAccumulator option"
  rsj_AverageBlockCpuUsage :: "usageAccumulator option"
  rsj_PendingNetUsage :: u64
  rsj_PendingCpuUsage :: u64
  rsj_TotalNetWeight :: u64
  rsj_TotalCpuWeight :: u64
  rsj_TotalRamBytes :: u64
  rsj_VirtualNetLimit :: u64
  rsj_VirtualCpuLimit :: u64

record rlimitConfig =
  rcj_CPULimitParameters :: elasticLimitParameters
  rcj_NetLimitParameters :: elasticLimitParameters
  rcj_AccountCpuUsageAverageWindow :: u32
  rcj_AccountNetUsageAverageWindow :: u32

record rlimitAccountLimits =
  rlj_Owner :: string
  rlj_NetWeight :: int
  rlj_CpuWeight :: int
  rlj_RamBytes :: int

record rlimitAccountUsage =
  ruj_Owner :: string
  ruj_NetUsage :: "usageAccumulator option"
  ruj_CpuUsage :: "usageAccumulator option"
  ruj_RamUsage :: u64

definition usageAccumulator_ToProto :: "usageAccumulator option \<Rightarrow> UsageAccumulator option" where
  "usageAccumulator_ToProto a =
     map_option (\<lambda>u. \<lparr>ua_LastOrdinal = uaj_LastOrdinal u, ua_ValueEx = uaj_ValueEx u,
                       ua_Consumed = uaj_Consumed u\<rparr>) a"

definition ratio_ToProto :: "ratio \<Rightarrow> Ratio" where
  "ratio_ToProto r = \<lparr>ra_Numerator = raj_Numerator r, ra_Denominator = raj_Denominator r\<rparr>"

definition elasticLimitParameters_ToProto :: "elasticLimitParameters \<Rightarrow> ElasticLimitParameters" where
  "elasticLimitParameters_ToProto p =
     \<lparr>el_Target = elj_Target p, el_Max = elj_Max p, el_Periods = elj_Periods p,
      el_MaxMultiplier = elj_MaxMultiplier p, el_ContractRate = ratio_ToProto (elj_ContractRate p),
      el_ExpandRate = ratio_ToProto (elj_ExpandRate p)\<rparr>"

definition rlimitState_ToProto :: "rlimitState option \<Rightarrow> RlimitOp_Kind option" where
  "rlimitState_ToProto obj =
     (case obj of
        None \<Rightarrow> None
      | Some s \<Rightarrow>
          (case usageAccumulator_ToProto (rsj_AverageBlockNetUsage s) of
             None \<Rightarrow> None
           | Some net \<Rightarrow>
               (case usageAccumulator_ToProto (rsj_AverageBlockCpuUsage s) of
                  None \<Rightarrow> None
                | Some cpu \<Rightarrow>
                    Some (RlimitOp_State
                      \<lparr>rs_AverageBlockNetUsage = net, rs_AverageBlockCpuUsage = cpu,
                       rs_PendingNetUsage = rsj_PendingNetUsage s,
                       rs_PendingCpuUsage = rsj_PendingCpuUsage s,
                       rs_TotalNetWeight = rsj_TotalNetWeight s,
                       rs_TotalCpuWeight = rsj_TotalCpuWeight s,
                       rs_TotalRamBytes = rsj_TotalRamBytes s,
                       rs_VirtualNetLimit = rsj_VirtualNetLimit s,
                       rs_VirtualCpuLimit = rsj_VirtualCpuLimit s\<rparr>))))"

definition rlimitConfig_ToProto :: "rlimitConfig option \<Rightarrow> RlimitOp_Kind option" where
  "rlimitConfig_ToProto obj =
     map_option (\<lambda>c. RlimitOp_Config
       \<lparr>rc_CpuLimitParameters = elasticLimitParameters_ToProto (rcj_CPULimitParameters c),
        rc_NetLimitParameters = elasticLimitParameters_ToProto (rcj_NetLimitParameters c),
        rc_AccountCpuUsageAverageWindow = rcj_AccountCpuUsageAverageWindow c,
        rc_AccountNetUsageAverageWindow = rcj_AccountNetUsageAverageWindow c\<rparr>) obj"

definition rlimitAccountLimits_ToProto :: "rlimitAccountLimits option \<Rightarrow> RlimitOp_Kind option" where
  "rlimitAccountLimits_ToProto obj =
     map_option (\<lambda>u. RlimitOp_AccountLimits
       \<lparr>rl_Owner = rlj_Owner u, rl_NetWeight = rlj_NetWeight u, rl_CpuWeight = rlj_CpuWeight u,
        rl_RamBytes = rlj_RamBytes u\<rparr>) obj"

definition rlimitAccountUsage_ToProto :: "rlimitAccountUsage option \<Rightarrow> RlimitOp_Kind option" where
  "rlimitAccountUsage_ToProto obj =
     (case obj of
        None \<Rightarrow> None
      | Some c \<Rightarrow>
          (case usageAccumulator_ToProto (ruj_NetUsage c) of
             None \<Rightarrow> None
           | Some net \<Rightarrow>
               (case usageAccumulator_ToProto (ruj_CpuUsage c) of
                  None \<Rightarrow> None
                | Some cpu \<Rightarrow>
                    Some (RlimitOp_AccountUsage
                      \<lparr>ru_Owner = ruj_Owner c, ru_NetUsage = net, ru_CpuUsage = cpu,
                       ru_RamUsage = ruj_RamUsage c\<rparr>))))"

end
