(* ===== verification/ConsoleReader.thy ===== *)
theory ConsoleReader
  imports EosToProto DeepMindTypes
begin

text \<open>
  The parser of the deep mind log, \<open>codec/consolereader.go\<close>: the parse context, the operations
  that record what a line carries, and one reader per kind of line, with the conditions and the
  error of every early return. Text decoding done by other repositories (JSON into the types of
  \<open>DeepMindTypes\<close>, \<open>gjson\<close>, the unpacking of transactions by \<open>eos-go\<close>) is the record
  \<open>reader_env\<close>; a JSON \<open>null\<close> decodes to a nil pointer, the inner option.
\<close>

section \<open>State and errors\<close>

record 'abi reader_env =
  re_abi :: "'abi abi_env"
  re_hyd :: hydrator_env
  re_SignedTransaction :: "bytes \<Rightarrow> eosSignedTransaction option"
  re_Transaction :: "bytes \<Rightarrow> eosTransaction option"
  re_json_Feature :: "string \<Rightarrow> Feature option option"
  re_json_permissionObject :: "string \<Rightarrow> permissionObject option option"
  re_json_rlimitConfig :: "string \<Rightarrow> rlimitConfig option option"
  re_json_rlimitState :: "string \<Rightarrow> rlimitState option option"
  re_json_rlimitAccountLimits :: "string \<Rightarrow> rlimitAccountLimits option option"
  re_json_rlimitAccountUsage :: "string \<Rightarrow> rlimitAccountUsage option option"
  re_gjson_Get :: "string \<Rightarrow> string \<Rightarrow> string option"
  re_TimestampProto :: "int \<Rightarrow> bool"

datatype reader_error =
    FieldCount nat
  | NotANumber string
  | BlockNumMismatch int int
  | BadHex
  | ConvError conv_error
  | TreeError tree_error
  | DecoderError decoder_error
  | UnknownTag string
  | MissingHalf
  | UpgradeEOSIO
  | BadJSON
  | MissingOldNew
  | NilPanic
  | BootstrapPending
  | UnsupportedVersion u64

record 'abi parseCtx =
  majorVersion :: u64
  minorVersion :: u64
  ctx_hydrator :: hydrator
  abiDecoder :: "'abi ABIDecoder"
  ctx_block :: Block
  ctx_activeBlockNum :: int
  bootstrapOpsPending :: bool
  ctx_trx :: trace_fields
  creationOps :: "creationOp list"
  conversionOptions :: "(ActionTrace \<Rightarrow> ActionTrace) list"

definition new_parseCtx :: "'abi parseCtx" where
  "new_parseCtx =
     \<lparr>majorVersion = 0, minorVersion = 0, ctx_hydrator = Hydrator_v2_0, abiDecoder = newABIDecoder,
      ctx_block = empty_block, ctx_activeBlockNum = 0, bootstrapOpsPending = False,
      ctx_trx = empty_trace_fields, creationOps = [], conversionOptions = []\<rparr>"

definition lift_decoder :: "decoder_error + 'a \<Rightarrow> reader_error + 'a" where
  "lift_decoder r = (case r of Inl e \<Rightarrow> Inl (DecoderError e) | Inr x \<Rightarrow> Inr x)"

definition lift_conv :: "conv_error + 'a \<Rightarrow> reader_error + 'a" where
  "lift_conv r = (case r of Inl e \<Rightarrow> Inl (ConvError e) | Inr x \<Rightarrow> Inr x)"

section \<open>Recording\<close>

definition resetTrx :: "'abi parseCtx \<Rightarrow> 'abi parseCtx" where
  "resetTrx ctx = ctx\<lparr>ctx_trx := empty_trace_fields, creationOps := []\<rparr>"

definition resetBlock :: "'abi parseCtx \<Rightarrow> 'abi parseCtx" where
  "resetBlock ctx =
     (let ctx1 = (if ctx_activeBlockNum ctx \<noteq> 0 then resetTrx ctx else ctx)
      in ctx1\<lparr>ctx_block := empty_block\<rparr>)"

definition upd_trx :: "(trace_fields \<Rightarrow> trace_fields) \<Rightarrow> 'abi parseCtx \<Rightarrow> 'abi parseCtx" where
  "upd_trx f ctx = ctx\<lparr>ctx_trx := f (ctx_trx ctx)\<rparr>"

definition recordCreationOp :: "creationOp \<Rightarrow> 'abi parseCtx \<Rightarrow> 'abi parseCtx" where
  [record_ops]: "recordCreationOp op ctx = ctx\<lparr>creationOps := creationOps ctx @ [op]\<rparr>"

definition recordDBOp :: "DBOp \<Rightarrow> 'abi parseCtx \<Rightarrow> 'abi parseCtx" where
  [record_ops]: "recordDBOp op = upd_trx (\<lambda>t. t\<lparr>tt_DbOps := tt_DbOps t @ [op]\<rparr>)"

definition recordKVOp :: "KVOp \<Rightarrow> 'abi parseCtx \<Rightarrow> 'abi parseCtx" where
  [record_ops]: "recordKVOp op = upd_trx (\<lambda>t. t\<lparr>tt_KvOps := tt_KvOps t @ [op]\<rparr>)"

definition is_deferred_removal :: "RAMOp \<Rightarrow> bool" where
  "is_deferred_removal op \<longleftrightarrow>
     ram_Namespace op = RAMOp_NAMESPACE_DEFERRED_TRX \<and> ram_Action op = RAMOp_ACTION_REMOVE"

definition revertOpsDueToFailedTransaction :: "'abi parseCtx \<Rightarrow> 'abi parseCtx" where
  "revertOpsDueToFailedTransaction ctx =
     (let toRestoreRlimitOps = tt_RlimitOps (ctx_trx ctx);
          deferredRemovalRAMOp = find is_deferred_removal (tt_RamOps (ctx_trx ctx))
      in upd_trx (\<lambda>t. case deferredRemovalRAMOp of
             None \<Rightarrow> t\<lparr>tt_RlimitOps := toRestoreRlimitOps\<rparr>
           | Some op \<Rightarrow> t\<lparr>tt_RlimitOps := toRestoreRlimitOps, tt_RamOps := [op]\<rparr>)
         (resetTrx ctx))"

definition recordDTrxOp :: "DTrxOp \<Rightarrow> 'abi parseCtx \<Rightarrow> 'abi parseCtx" where
  "recordDTrxOp op ctx =
     (let ctx1 = upd_trx (\<lambda>t. t\<lparr>tt_DtrxOps := tt_DtrxOps t @ [op]\<rparr>) ctx
      in if dtrx_Operation op = DTrxOp_OPERATION_FAILED
         then revertOpsDueToFailedTransaction ctx1 else ctx1)"

definition recordFeatureOp :: "FeatureOp \<Rightarrow> 'abi parseCtx \<Rightarrow> 'abi parseCtx" where
  [record_ops]: "recordFeatureOp op = upd_trx (\<lambda>t. t\<lparr>tt_FeatureOps := tt_FeatureOps t @ [op]\<rparr>)"

definition recordPermOp :: "PermOp \<Rightarrow> 'abi parseCtx \<Rightarrow> 'abi parseCtx" where
  [record_ops]: "recordPermOp op = upd_trx (\<lambda>t. t\<lparr>tt_PermOps := tt_PermOps t @ [op]\<rparr>)"

definition recordRAMOp :: "RAMOp \<Rightarrow> 'abi parseCtx \<Rightarrow> 'abi parseCtx" where
  [record_ops]: "recordRAMOp op = upd_trx (\<lambda>t. t\<lparr>tt_RamOps := tt_RamOps t @ [op]\<rparr>)"

definition recordRAMCorrectionOp :: "RAMCorrectionOp \<Rightarrow> 'abi parseCtx \<Rightarrow> 'abi parseCtx" where
  [record_ops]: "recordRAMCorrectionOp op =
     upd_trx (\<lambda>t. t\<lparr>tt_RamCorrectionOps := tt_RamCorrectionOps t @ [op]\<rparr>)"

definition recordRlimitOp :: "RlimitOp \<Rightarrow> 'abi parseCtx \<Rightarrow> 'abi parseCtx" where
  [record_ops]: "recordRlimitOp op ctx =
     (if IsGlobalKind op
      then ctx\<lparr>ctx_block := (ctx_block ctx)\<lparr>blk_RlimitOps := blk_RlimitOps (ctx_block ctx) @ [op]\<rparr>\<rparr>
      else if IsLocalKind op
      then upd_trx (\<lambda>t. t\<lparr>tt_RlimitOps := tt_RlimitOps t @ [op]\<rparr>) ctx
      else ctx)"

definition recordTableOp :: "TableOp \<Rightarrow> 'abi parseCtx \<Rightarrow> 'abi parseCtx" where
  [record_ops]: "recordTableOp op = upd_trx (\<lambda>t. t\<lparr>tt_TableOps := tt_TableOps t @ [op]\<rparr>)"

definition recordTrxOp :: "TrxOp \<Rightarrow> 'abi parseCtx \<Rightarrow> 'abi parseCtx" where
  [record_ops]: "recordTrxOp op ctx =
     ctx\<lparr>ctx_block := (ctx_block ctx)\<lparr>blk_UnfilteredImplicitTransactionOps :=
       blk_UnfilteredImplicitTransactionOps (ctx_block ctx) @ [op]\<rparr>\<rparr>"

text \<open>The filtered list and the operations appended to the failed trace.\<close>

definition transferDeferredRemovedRAMOp :: "RAMOp list \<Rightarrow> RAMOp list \<Rightarrow> RAMOp list \<times> RAMOp list" where
  "transferDeferredRemovedRAMOp initialRAMOps targetRAMOps =
     fold (\<lambda>op (filtered, target).
         if is_deferred_removal op then (filtered, target @ [op]) else (filtered @ [op], target))
       initialRAMOps ([], targetRAMOps)"

definition append_trace :: "TransactionTrace \<Rightarrow> 'abi parseCtx \<Rightarrow> 'abi parseCtx" where
  "append_trace t ctx =
     ctx\<lparr>ctx_block := (ctx_block ctx)\<lparr>blk_UnfilteredTransactionTraces :=
       blk_UnfilteredTransactionTraces (ctx_block ctx) @ [t]\<rparr>\<rparr>"

definition decode_trace ::
  "'abi reader_env \<Rightarrow> trace_fields \<Rightarrow> 'abi parseCtx \<Rightarrow> reader_error + 'abi parseCtx" where
  "decode_trace env t ctx =
     bind_res (lift_decoder (processTransaction (re_abi env) t (abiDecoder ctx)))
       (\<lambda>d. Inr (ctx\<lparr>abiDecoder := d\<rparr>))"

text \<open>The first half of \<open>recordTransaction\<close>, when the trace is an \<open>onerror\<close> handler.\<close>

definition record_failed ::
  "'abi reader_env \<Rightarrow> trace_fields \<Rightarrow> TransactionTrace \<Rightarrow> 'abi parseCtx \<Rightarrow>
   reader_error + TransactionTrace \<times> 'abi parseCtx" where
  "record_failed env trace failedTrace ctx =
     (let f = trace_of failedTrace;
          (filtered, moved) = transferDeferredRemovedRAMOp (tt_RamOps (ctx_trx ctx)) (tt_RamOps f);
          receipt = (case tt_Receipt f of
                       None \<Rightarrow> Some \<lparr>trh_Status = TRANSACTIONSTATUS_SOFTFAIL,
                                    trh_CpuUsageMicroSeconds = 0, trh_NetUsageWords = 0\<rparr>
                     | Some r \<Rightarrow> Some r);
          f' = f\<lparr>tt_RamOps := moved, tt_Receipt := receipt\<rparr>;
          failed' = TransactionTrace f' (FailedDtrxTrace failedTrace);
          ctx1 = append_trace failed' (upd_trx (\<lambda>t. t\<lparr>tt_RamOps := filtered\<rparr>) ctx)
      in bind_res (decode_trace env f' ctx1) (\<lambda>ctx2.
           Inr (failed',
                case tt_Receipt trace of
                  None \<Rightarrow> revertOpsDueToFailedTransaction ctx2
                | Some r \<Rightarrow> if trh_Status r = TRANSACTIONSTATUS_HARDFAIL
                    then revertOpsDueToFailedTransaction ctx2 else ctx2)))"

definition stitch_ops :: "trace_fields \<Rightarrow> CreationFlatNodePb list \<Rightarrow> trace_fields \<Rightarrow> trace_fields" where
  "stitch_ops trx tree t =
     t\<lparr>tt_CreationTree := tree, tt_DtrxOps := tt_DtrxOps trx, tt_DbOps := tt_DbOps trx,
       tt_KvOps := tt_KvOps trx, tt_FeatureOps := tt_FeatureOps trx, tt_PermOps := tt_PermOps trx,
       tt_RamOps := tt_RamOps trx, tt_RamCorrectionOps := tt_RamCorrectionOps trx,
       tt_RlimitOps := tt_RlimitOps trx, tt_TableOps := tt_TableOps trx\<rparr>"

definition creation_tree :: "creationOp list \<Rightarrow> reader_error + CreationFlatNodePb list" where
  "creation_tree ops =
     (case computeCreationTree ops of
        Inl e \<Rightarrow> Inl (TreeError e)
      | Inr (roots, h) \<Rightarrow>
          (case toFlatTree roots h of
             None \<Rightarrow> Inl (TreeError TreeDiverges)
           | Some flat \<Rightarrow> Inr (CreationTreeToDEOS flat)))"

definition recordTransaction ::
  "'abi reader_env \<Rightarrow> TransactionTrace \<Rightarrow> 'abi parseCtx \<Rightarrow> reader_error + 'abi parseCtx" where
  "recordTransaction env trace ctx =
     bind_res
       (case FailedDtrxTrace trace of
          None \<Rightarrow> Inr (None, ctx)
        | Some failedTrace \<Rightarrow>
            bind_res (record_failed env (trace_of trace) failedTrace ctx)
              (\<lambda>(failed', ctx'). Inr (Some failed', ctx')))
       (\<lambda>(failed, ctx1).
         bind_res (creation_tree (creationOps ctx1)) (\<lambda>tree.
           let t = stitch_ops (ctx_trx ctx1) tree (trace_of trace)
           in bind_res (decode_trace env t (append_trace (TransactionTrace t failed) ctx1))
                (\<lambda>ctx2. Inr (resetTrx ctx2))))"

section \<open>Helpers of the line readers\<close>

definition expect_fields :: "nat \<Rightarrow> string list \<Rightarrow> reader_error + unit" where
  "expect_fields n chunks = guard_res (length chunks = n) (FieldCount (length chunks))"

definition parse_int :: "string \<Rightarrow> reader_error + int" where
  "parse_int s = from_opt (NotANumber s) (ParseInt64 s)"

definition parse_uint :: "string \<Rightarrow> reader_error + u64" where
  "parse_uint s = from_opt (NotANumber s) (ParseUint64 s)"

definition decode_hex :: "string \<Rightarrow> reader_error + bytes" where
  "decode_hex s = from_opt BadHex (hex_DecodeString s)"

text \<open>\<open>if len(data) != 0\<close>: an absent half stays nil.\<close>

definition decode_hex_opt :: "string \<Rightarrow> reader_error + bytes" where
  "decode_hex_opt s = (if s \<noteq> '''' then decode_hex s else Inr [])"

definition split_half :: "string \<Rightarrow> reader_error + string \<times> string" where
  "split_half s =
     (let parts = SplitN 2 (CHR '':'') s
      in if length parts \<noteq> 2 then Inl MissingHalf else Inr (parts ! 0, parts ! 1))"

definition splitNToM :: "string \<Rightarrow> nat \<Rightarrow> nat \<Rightarrow> reader_error + string list" where
  "splitNToM line lo hi =
     (let chunks = Split (CHR '' '') line
      in if length chunks < lo \<or> length chunks > hi then Inl (FieldCount (length chunks)) else Inr chunks)"

definition json_obj :: "'a option option \<Rightarrow> reader_error + 'a option" where
  "json_obj r = from_opt BadJSON r"

section \<open>Block lines\<close>

text \<open>Nodeos retries an interrupted block at the same height: the unaccepted attempt is dropped.\<close>

definition discard_attempt ::
  "'abi reader_env \<Rightarrow> int \<Rightarrow> 'abi parseCtx \<Rightarrow> reader_error + 'abi parseCtx" where
  "discard_attempt env blockNum ctx =
     (if activeBlockNum (abiDecoder ctx) = word_of_int blockNum
      then if bootstrapOpsPending ctx then Inl BootstrapPending
           else bind_res (lift_decoder (abortBlock (re_abi env) (abiDecoder ctx)))
                  (\<lambda>d. Inr (ctx\<lparr>abiDecoder := d\<rparr>))
      else Inr ctx)"

definition note_bootstrap :: "'abi parseCtx \<Rightarrow> 'abi parseCtx" where
  "note_bootstrap ctx =
     (if ctx_activeBlockNum ctx = 0
      then ctx\<lparr>bootstrapOpsPending :=
             (length (tt_PermOps (ctx_trx ctx)) + length (tt_RamOps (ctx_trx ctx))
                + length (tt_RlimitOps (ctx_trx ctx)) \<noteq> 0)\<rparr>
      else ctx)"

definition readStartBlock ::
  "'abi reader_env \<Rightarrow> string \<Rightarrow> 'abi parseCtx \<Rightarrow> reader_error + 'abi parseCtx" where
  "readStartBlock env line ctx =
     (let chunks = Split (CHR '' '') line in
      bind_res (expect_fields 2 chunks) (\<lambda>_.
      bind_res (parse_int (chunks ! 1)) (\<lambda>blockNum.
      bind_res (discard_attempt env blockNum ctx) (\<lambda>ctx1.
        let ctx2 = (resetBlock (note_bootstrap ctx1))\<lparr>ctx_activeBlockNum := blockNum\<rparr>
        in bind_res (lift_decoder (startBlock (word_of_int blockNum) (abiDecoder ctx2)))
             (\<lambda>d. Inr (ctx2\<lparr>abiDecoder := d\<rparr>))))))"

text \<open>The tail of the two readers of accepted blocks.\<close>

definition accept_block ::
  "'abi reader_env \<Rightarrow> Block \<Rightarrow> 'abi parseCtx \<Rightarrow> reader_error + Block \<times> 'abi parseCtx" where
  "accept_block env block ctx =
     bind_res (lift_decoder (endBlock (re_abi env) block (abiDecoder ctx)))
       (\<lambda>d. Inr (block, resetBlock (ctx\<lparr>ctx_block := block, abiDecoder := d, bootstrapOpsPending := False\<rparr>)))"

definition readAcceptedBlock ::
  "'abi reader_env \<Rightarrow> string \<Rightarrow> 'abi parseCtx \<Rightarrow> reader_error + Block \<times> 'abi parseCtx" where
  "readAcceptedBlock env line ctx =
     (let chunks = SplitN 3 (CHR '' '') line in
      bind_res (expect_fields 3 chunks) (\<lambda>_.
      bind_res (parse_int (chunks ! 1)) (\<lambda>blockNum.
      bind_res (guard_res (ctx_activeBlockNum ctx = blockNum) (BlockNumMismatch blockNum (ctx_activeBlockNum ctx))) (\<lambda>_.
      bind_res (decode_hex (chunks ! 2)) (\<lambda>blockStateHex.
      bind_res (lift_conv (HydrateBlock (re_hyd env) (ctx_hydrator ctx) (ctx_block ctx) blockStateHex)) (\<lambda>block.
        accept_block env block ctx))))))"

definition readAcceptedBlockV2 ::
  "'abi reader_env \<Rightarrow> string \<Rightarrow> 'abi parseCtx \<Rightarrow> reader_error + Block \<times> 'abi parseCtx" where
  "readAcceptedBlockV2 env line ctx =
     (let chunks = SplitN 8 (CHR '' '') line in
      bind_res (expect_fields 8 chunks) (\<lambda>_.
      bind_res (parse_int (chunks ! 2)) (\<lambda>blockNum.
      bind_res (guard_res (ctx_activeBlockNum ctx = blockNum) (BlockNumMismatch blockNum (ctx_activeBlockNum ctx))) (\<lambda>_.
      bind_res (parse_int (chunks ! 3)) (\<lambda>numLib.
      bind_res (decode_hex (chunks ! 4)) (\<lambda>blockStateHex.
      bind_res (decode_hex (chunks ! 5)) (\<lambda>finalityDataHex.
      bind_res (decode_hex (chunks ! 6)) (\<lambda>proposerPolicyHex.
      bind_res (decode_hex (chunks ! 7)) (\<lambda>finalizerPolicyHex.
      bind_res (lift_conv (HydrateBlockV2 (re_hyd env) (ctx_hydrator ctx) (ctx_block ctx) blockStateHex
        (chunks ! 1) (word_of_int blockNum) (word_of_int numLib) finalityDataHex proposerPolicyHex
        finalizerPolicyHex)) (\<lambda>block.
        accept_block env block ctx))))))))))"

definition readAppliedTransaction ::
  "'abi reader_env \<Rightarrow> string \<Rightarrow> 'abi parseCtx \<Rightarrow> reader_error + 'abi parseCtx" where
  "readAppliedTransaction env line ctx =
     (let chunks = SplitN 3 (CHR '' '') line in
      bind_res (expect_fields 3 chunks) (\<lambda>_.
      bind_res (parse_int (chunks ! 1)) (\<lambda>blockNum.
      bind_res (guard_res (ctx_activeBlockNum ctx = blockNum) (BlockNumMismatch blockNum (ctx_activeBlockNum ctx))) (\<lambda>_.
      bind_res (decode_hex (chunks ! 2)) (\<lambda>trxTraceHex.
      bind_res (lift_conv (DecodeTransactionTrace (re_hyd env) (ctx_hydrator ctx) trxTraceHex [])) (\<lambda>trxTrace.
        recordTransaction env trxTrace ctx))))))"

section \<open>Operation lines\<close>

definition readCreationOp :: "string \<Rightarrow> 'abi parseCtx \<Rightarrow> reader_error + 'abi parseCtx" where
  "readCreationOp line ctx =
     (let chunks = SplitN 3 (CHR '' '') line in
      bind_res (expect_fields 3 chunks) (\<lambda>_.
      let kind = chunks ! 1 in
      bind_res (guard_res (kind = ''ROOT'' \<or> kind = ''NOTIFY'' \<or> kind = ''INLINE'' \<or> kind = ''CFA_INLINE'')
                 (UnknownTag kind)) (\<lambda>_.
      bind_res (parse_int (chunks ! 2)) (\<lambda>actionIndex.
        Inr (recordCreationOp \<lparr>op_kind = kind, op_actionIndex = actionIndex\<rparr> ctx)))))"

definition readDBOp :: "string \<Rightarrow> 'abi parseCtx \<Rightarrow> reader_error + 'abi parseCtx" where
  "readDBOp line ctx =
     (let chunks = SplitN 9 (CHR '' '') line in
      bind_res (expect_fields 9 chunks) (\<lambda>_.
      bind_res (parse_int (chunks ! 2)) (\<lambda>actionIndex.
      bind_res
        (if chunks ! 1 = ''INS'' then Inr (DBOp_OPERATION_INSERT, '''', chunks ! 8, '''', chunks ! 3)
         else if chunks ! 1 = ''UPD''
         then bind_res (split_half (chunks ! 8)) (\<lambda>(oldData, newData).
              bind_res (split_half (chunks ! 3)) (\<lambda>(oldPayer, newPayer).
                Inr (DBOp_OPERATION_UPDATE, oldData, newData, oldPayer, newPayer)))
         else if chunks ! 1 = ''REM'' then Inr (DBOp_OPERATION_REMOVE, chunks ! 8, '''', chunks ! 3, '''')
         else Inl (UnknownTag (chunks ! 1)))
        (\<lambda>(op, oldData, newData, oldPayer, newPayer).
          bind_res (decode_hex_opt oldData) (\<lambda>oldBytes.
          bind_res (decode_hex_opt newData) (\<lambda>newBytes.
            Inr (recordDBOp
              \<lparr>db_Operation = op, db_ActionIndex = word_of_int actionIndex,
               db_OldPayer = oldPayer, db_NewPayer = newPayer, db_Code = chunks ! 4,
               db_Scope = chunks ! 5, db_TableName = chunks ! 6, db_PrimaryKey = chunks ! 7,
               db_OldData = oldBytes, db_NewData = newBytes\<rparr> ctx)))))))"

definition readKVOp :: "string \<Rightarrow> 'abi parseCtx \<Rightarrow> reader_error + 'abi parseCtx" where
  "readKVOp line ctx =
     (let chunks = SplitN 7 (CHR '' '') line in
      bind_res (expect_fields 7 chunks) (\<lambda>_.
      bind_res (parse_int (chunks ! 2)) (\<lambda>actionIndex.
      bind_res
        (if chunks ! 1 = ''INS'' then Inr (KVOp_OPERATION_INSERT, '''', chunks ! 6, '''', chunks ! 4)
         else if chunks ! 1 = ''UPD''
         then bind_res
                (case split_half (chunks ! 4) of
                   Inl e \<Rightarrow> Inl (if majorVersion ctx = 13 then UpgradeEOSIO else e)
                 | Inr p \<Rightarrow> Inr p) (\<lambda>(oldPayer, newPayer).
              bind_res (split_half (chunks ! 6)) (\<lambda>(oldData, newData).
                Inr (KVOp_OPERATION_UPDATE, oldData, newData, oldPayer, newPayer)))
         else if chunks ! 1 = ''REM'' then Inr (KVOp_OPERATION_REMOVE, chunks ! 6, '''', chunks ! 4, '''')
         else Inl (UnknownTag (chunks ! 1)))
        (\<lambda>(op, oldData, newData, oldPayer, newPayer).
          bind_res (decode_hex (chunks ! 5)) (\<lambda>key.
          bind_res (decode_hex_opt oldData) (\<lambda>oldBytes.
          bind_res (decode_hex_opt newData) (\<lambda>newBytes.
            Inr (recordKVOp
              \<lparr>kv_Operation = op, kv_ActionIndex = word_of_int actionIndex,
               kv_OldPayer = oldPayer, kv_NewPayer = newPayer, kv_Code = chunks ! 3,
               kv_Key = key, kv_OldData = oldBytes, kv_NewData = newBytes\<rparr> ctx))))))))"

definition readCreateOrCancelDTrxOp ::
  "'abi reader_env \<Rightarrow> string \<Rightarrow> 'abi parseCtx \<Rightarrow> reader_error + 'abi parseCtx" where
  "readCreateOrCancelDTrxOp env line ctx =
     (let chunks = SplitN 11 (CHR '' '') line in
      bind_res (expect_fields 11 chunks) (\<lambda>_.
      bind_res (from_opt (UnknownTag (chunks ! 1)) (map_of DTrxOp_Operation_value (''OPERATION_'' @ chunks ! 1))) (\<lambda>op.
      bind_res (parse_int (chunks ! 2)) (\<lambda>actionIndex.
      bind_res (decode_hex (chunks ! 10)) (\<lambda>trxHex.
      bind_res
        (if op = DTrxOp_OPERATION_PUSH_CREATE
         then from_opt (ConvError (UnmarshalFailed ''signed transaction'')) (re_SignedTransaction env trxHex)
         else bind_res (from_opt (ConvError (UnmarshalFailed ''transaction'')) (re_Transaction env trxHex))
                (\<lambda>trx. Inr \<lparr>est_Transaction = trx, est_Signatures = []\<rparr>)) (\<lambda>signedTrx.
      bind_res (lift_conv (SignedTransactionToDEOS (re_hyd env) signedTrx)) (\<lambda>trx.
        Inr (recordDTrxOp
          \<lparr>dtrx_Operation = op, dtrx_ActionIndex = word_of_int actionIndex, dtrx_Sender = chunks ! 3,
           dtrx_SenderId = chunks ! 4, dtrx_Payer = chunks ! 5, dtrx_PublishedAt = chunks ! 6,
           dtrx_DelayUntil = chunks ! 7, dtrx_ExpirationAt = chunks ! 8,
           dtrx_TransactionId = chunks ! 9, dtrx_Transaction = Some trx\<rparr> ctx))))))))"

definition readFailedDTrxOp :: "string \<Rightarrow> 'abi parseCtx \<Rightarrow> reader_error + 'abi parseCtx" where
  "readFailedDTrxOp line ctx =
     (let chunks = SplitN 3 (CHR '' '') line in
      bind_res (expect_fields 3 chunks) (\<lambda>_.
      bind_res (parse_int (chunks ! 2)) (\<lambda>actionIndex.
        Inr (recordDTrxOp
          \<lparr>dtrx_Operation = DTrxOp_OPERATION_FAILED, dtrx_ActionIndex = word_of_int actionIndex,
           dtrx_Sender = '''', dtrx_SenderId = '''', dtrx_Payer = '''', dtrx_PublishedAt = '''',
           dtrx_DelayUntil = '''', dtrx_ExpirationAt = '''', dtrx_TransactionId = '''',
           dtrx_Transaction = None\<rparr> ctx))))"

definition readFeatureOpActivate ::
  "'abi reader_env \<Rightarrow> string \<Rightarrow> 'abi parseCtx \<Rightarrow> reader_error + 'abi parseCtx" where
  "readFeatureOpActivate env line ctx =
     (let chunks = SplitN 4 (CHR '' '') line in
      bind_res (expect_fields 4 chunks) (\<lambda>_.
      bind_res (json_obj (re_json_Feature env (chunks ! 3))) (\<lambda>feature.
        Inr (recordFeatureOp
          \<lparr>fo_Kind = chunks ! 1, fo_ActionIndex = 0, fo_FeatureDigest = chunks ! 2,
           fo_Feature = feature\<rparr> ctx))))"

definition readFeatureOpPreActivate ::
  "'abi reader_env \<Rightarrow> string \<Rightarrow> 'abi parseCtx \<Rightarrow> reader_error + 'abi parseCtx" where
  "readFeatureOpPreActivate env line ctx =
     (let chunks = SplitN 5 (CHR '' '') line in
      bind_res (expect_fields 5 chunks) (\<lambda>_.
      bind_res (parse_int (chunks ! 2)) (\<lambda>actionIndex.
      bind_res (json_obj (re_json_Feature env (chunks ! 4))) (\<lambda>feature.
        Inr (recordFeatureOp
          \<lparr>fo_Kind = chunks ! 1, fo_ActionIndex = word_of_int actionIndex,
           fo_FeatureDigest = chunks ! 3, fo_Feature = feature\<rparr> ctx)))))"

definition read_perm ::
  "'abi reader_env \<Rightarrow> u64 \<Rightarrow> string \<Rightarrow> reader_error + PermissionObject option" where
  "read_perm env permissionID data =
     (if data = '''' then Inr None
      else bind_res (json_obj (re_json_permissionObject env data)) (\<lambda>obj.
             bind_res (from_opt NilPanic (permissionObject_ToProto (re_TimestampProto env) obj)) (\<lambda>p.
               Inr (Some (p\<lparr>po_Id := permissionID\<rparr>)))))"

definition readPermOp ::
  "'abi reader_env \<Rightarrow> string \<Rightarrow> 'abi parseCtx \<Rightarrow> reader_error + 'abi parseCtx" where
  "readPermOp env line ctx =
     bind_res (splitNToM line 4 5) (\<lambda>chunks.
     bind_res (parse_int (chunks ! 2)) (\<lambda>actionIndex.
     bind_res
       (if length chunks = 5
        then bind_res (parse_uint (chunks ! 3)) (\<lambda>permissionID. Inr (permissionID, chunks ! 4))
        else Inr (0, chunks ! 3)) (\<lambda>(permissionID, dataChunk).
     bind_res
       (if chunks ! 1 = ''INS'' then Inr (PermOp_OPERATION_INSERT, '''', dataChunk)
        else if chunks ! 1 = ''UPD''
        then bind_res (from_opt MissingOldNew (re_gjson_Get env dataChunk ''old'')) (\<lambda>oldData.
             bind_res (from_opt MissingOldNew (re_gjson_Get env dataChunk ''new'')) (\<lambda>newData.
               Inr (PermOp_OPERATION_UPDATE, oldData, newData)))
        else if chunks ! 1 = ''REM'' then Inr (PermOp_OPERATION_REMOVE, dataChunk, '''')
        else Inl (UnknownTag (chunks ! 1))) (\<lambda>(op, oldData, newData).
     bind_res (read_perm env permissionID newData) (\<lambda>newPerm.
     bind_res (read_perm env permissionID oldData) (\<lambda>oldPerm.
       Inr (recordPermOp
         \<lparr>po_Operation = op, po_ActionIndex = word_of_int actionIndex, po_OldPerm = oldPerm,
          po_NewPerm = newPerm\<rparr> ctx)))))))"

definition normalizeRAMOpAction :: "string \<Rightarrow> string" where
  "normalizeRAMOpAction input =
     (if input = ''create'' then ''add'' else if input = ''erase'' then ''remove'' else input)"

definition readRAMOp :: "string \<Rightarrow> 'abi parseCtx \<Rightarrow> reader_error + 'abi parseCtx" where
  "readRAMOp line ctx =
     (let chunks = SplitN 9 (CHR '' '') line in
      bind_res (expect_fields 9 chunks) (\<lambda>_.
      bind_res (parse_int (chunks ! 1)) (\<lambda>actionIndex.
      bind_res (from_opt (UnknownTag (chunks ! 3))
        (map_of RAMOp_Namespace_value (''NAMESPACE_'' @ ToUpper (chunks ! 3)))) (\<lambda>namespace.
      let actionString = normalizeRAMOpAction (chunks ! 4) in
      bind_res (from_opt (UnknownTag actionString)
        (map_of RAMOp_Action_value (''ACTION_'' @ ToUpper actionString))) (\<lambda>action.
      bind_res
        (if chunks ! 5 \<noteq> ''.''
         then from_opt (UnknownTag (chunks ! 5))
                (map_of RAMOp_Operation_value (''OPERATION_'' @ ToUpper (chunks ! 5)))
         else Inr RAMOp_OPERATION_DEPRECATED) (\<lambda>operation.
      bind_res (parse_int (chunks ! 7)) (\<lambda>usage.
      bind_res (parse_int (chunks ! 8)) (\<lambda>delta.
        Inr (recordRAMOp
          \<lparr>ram_ActionIndex = word_of_int actionIndex, ram_UniqueKey = chunks ! 2,
           ram_Namespace = namespace, ram_Action = action, ram_Operation = operation,
           ram_Payer = chunks ! 6, ram_Usage = word_of_int usage, ram_Delta = delta\<rparr> ctx)))))))))"

definition readRAMCorrectionOp :: "string \<Rightarrow> 'abi parseCtx \<Rightarrow> reader_error + 'abi parseCtx" where
  "readRAMCorrectionOp line ctx =
     (let chunks = SplitN 6 (CHR '' '') line in
      bind_res (expect_fields 6 chunks) (\<lambda>_.
      bind_res (parse_int (chunks ! 5)) (\<lambda>delta.
        Inr (recordRAMCorrectionOp
          \<lparr>rco_CorrectionId = chunks ! 2, rco_UniqueKey = chunks ! 3, rco_Payer = chunks ! 4,
           rco_Delta = delta\<rparr> ctx))))"

definition rlimit_kind ::
  "'abi reader_env \<Rightarrow> string \<Rightarrow> string \<Rightarrow> reader_error + RlimitOp_Kind" where
  "rlimit_kind env kindString data =
     (if kindString = ''CONFIG''
      then bind_res (json_obj (re_json_rlimitConfig env data)) (\<lambda>obj. from_opt NilPanic (rlimitConfig_ToProto obj))
      else if kindString = ''STATE''
      then bind_res (json_obj (re_json_rlimitState env data)) (\<lambda>obj. from_opt NilPanic (rlimitState_ToProto obj))
      else if kindString = ''ACCOUNT_LIMITS''
      then bind_res (json_obj (re_json_rlimitAccountLimits env data)) (\<lambda>obj. from_opt NilPanic (rlimitAccountLimits_ToProto obj))
      else if kindString = ''ACCOUNT_USAGE''
      then bind_res (json_obj (re_json_rlimitAccountUsage env data)) (\<lambda>obj. from_opt NilPanic (rlimitAccountUsage_ToProto obj))
      else Inl (UnknownTag kindString))"

definition readRlimitOp ::
  "'abi reader_env \<Rightarrow> string \<Rightarrow> 'abi parseCtx \<Rightarrow> reader_error + 'abi parseCtx" where
  "readRlimitOp env line ctx =
     (let chunks = SplitN 4 (CHR '' '') line in
      bind_res (expect_fields 4 chunks) (\<lambda>_.
      bind_res
        (if chunks ! 2 = ''INS'' then Inr RlimitOp_OPERATION_INSERT
         else if chunks ! 2 = ''UPD'' then Inr RlimitOp_OPERATION_UPDATE
         else Inl (UnknownTag (chunks ! 2))) (\<lambda>operation.
      bind_res (rlimit_kind env (chunks ! 1) (chunks ! 3)) (\<lambda>kind.
        Inr (recordRlimitOp \<lparr>rl_Operation = operation, rl_Kind = kind\<rparr> ctx)))))"

definition readTableOp :: "string \<Rightarrow> 'abi parseCtx \<Rightarrow> reader_error + 'abi parseCtx" where
  "readTableOp line ctx =
     (let chunks = SplitN 7 (CHR '' '') line in
      bind_res (expect_fields 7 chunks) (\<lambda>_.
      bind_res (parse_int (chunks ! 2)) (\<lambda>actionIndex.
      bind_res
        (if chunks ! 1 = ''INS'' then Inr TableOp_OPERATION_INSERT
         else if chunks ! 1 = ''REM'' then Inr TableOp_OPERATION_REMOVE
         else Inl (UnknownTag (chunks ! 1))) (\<lambda>op.
        Inr (recordTableOp
          \<lparr>tbl_Operation = op, tbl_ActionIndex = word_of_int actionIndex, tbl_Payer = chunks ! 6,
           tbl_Code = chunks ! 3, tbl_Scope = chunks ! 4, tbl_TableName = chunks ! 5\<rparr> ctx)))))"

definition readTrxOp ::
  "'abi reader_env \<Rightarrow> string \<Rightarrow> 'abi parseCtx \<Rightarrow> reader_error + 'abi parseCtx" where
  "readTrxOp env line ctx =
     (let chunks = SplitN 5 (CHR '' '') line in
      bind_res (expect_fields 5 chunks) (\<lambda>_.
      bind_res (if chunks ! 1 = ''CREATE'' then Inr TrxOp_OPERATION_CREATE
                else Inl (UnknownTag (chunks ! 1))) (\<lambda>op.
      bind_res (decode_hex (chunks ! 4)) (\<lambda>trxHex.
      bind_res (from_opt (ConvError (UnmarshalFailed ''signed transaction'')) (re_SignedTransaction env trxHex)) (\<lambda>st.
      bind_res (lift_conv (SignedTransactionToDEOS (re_hyd env) st)) (\<lambda>trx.
        Inr (recordTrxOp
          \<lparr>trx_Operation = op, trx_Name = chunks ! 2, trx_TransactionId = chunks ! 3,
           trx_Transaction = trx\<rparr> ctx)))))))"

section \<open>ABI dump and version lines\<close>

definition readABIStart :: "string \<Rightarrow> 'abi parseCtx \<Rightarrow> reader_error + 'abi parseCtx" where
  "readABIStart line ctx =
     (let chunks = Split (CHR '' '') line in
      bind_res
        (if length chunks = 2 then Inr ()
         else if length chunks = 4
         then bind_res (parse_int (chunks ! 2)) (\<lambda>_. bind_res (parse_int (chunks ! 3)) (\<lambda>_. Inr ()))
         else Inl (FieldCount (length chunks))) (\<lambda>_.
        Inr (ctx\<lparr>abiDecoder := resetCache (abiDecoder ctx)\<rparr>)))"

definition readABIDump ::
  "'abi reader_env \<Rightarrow> string \<Rightarrow> 'abi parseCtx \<Rightarrow> reader_error + 'abi parseCtx" where
  "readABIDump env line ctx =
     bind_res (splitNToM line 4 5) (\<lambda>chunks.
       let (contract, rawABI) =
             (if length chunks = 5 then (chunks ! 3, chunks ! 4) else (chunks ! 2, chunks ! 3))
       in bind_res (lift_decoder (addInitialABI (re_abi env) contract rawABI (abiDecoder ctx)))
            (\<lambda>d. Inr (ctx\<lparr>abiDecoder := d\<rparr>)))"

definition supportedVersions :: "u64 list" where
  "supportedVersions = [12, 13]"

definition inSupportedVersion :: "u64 \<Rightarrow> bool" where
  "inSupportedVersion v \<longleftrightarrow> v \<in> set supportedVersions"

definition readDeepmindVersion :: "string \<Rightarrow> reader_error + u64 \<times> u64 \<times> hydrator" where
  "readDeepmindVersion line =
     bind_res (splitNToM line 2 4) (\<lambda>chunks.
     bind_res
       (if length chunks < 4
        then bind_res (parse_uint (chunks ! 1)) (\<lambda>major. Inr (''eosio'', major))
        else bind_res (parse_uint (chunks ! 2)) (\<lambda>major. Inr (chunks ! 1, major))) (\<lambda>(protocolVersion, major).
     bind_res
       (if length chunks = 3 then parse_uint (chunks ! 2)
        else if length chunks = 4 then parse_uint (chunks ! 3)
        else Inr 0) (\<lambda>minor.
       if \<not> inSupportedVersion major \<and> (protocolVersion = ''leap'' \<or> protocolVersion = ''eosio'')
       then Inl (UnsupportedVersion major)
       else if protocolVersion = ''spring'' \<and> major = 1 then Inr (major, minor, Hydrator_v6)
       else if protocolVersion = ''leap'' \<and> major = 13 then Inr (major, minor, Hydrator_v2_1)
       else Inr (major, minor, Hydrator_v2_0))))"

section \<open>The dispatch loop\<close>

definition switch_fork :: "'abi reader_env \<Rightarrow> 'abi parseCtx \<Rightarrow> reader_error + 'abi parseCtx" where
  "switch_fork env ctx =
     (if bootstrapOpsPending ctx then Inl BootstrapPending
      else bind_res (lift_decoder (abortBlock (re_abi env) (abiDecoder ctx)))
             (\<lambda>d. Inr (resetBlock (ctx\<lparr>abiDecoder := d\<rparr>))))"

definition no_block :: "reader_error + 'abi parseCtx \<Rightarrow> reader_error + Block option \<times> 'abi parseCtx" where
  "no_block r = bind_res r (\<lambda>ctx. Inr (None, ctx))"

definition with_block ::
  "reader_error + Block \<times> 'abi parseCtx \<Rightarrow> reader_error + Block option \<times> 'abi parseCtx" where
  "with_block r = bind_res r (\<lambda>(b, ctx). Inr (Some b, ctx))"

definition readLine ::
  "'abi reader_env \<Rightarrow> string \<Rightarrow> 'abi parseCtx \<Rightarrow> reader_error + Block option \<times> 'abi parseCtx" where
  "readLine env line ctx =
     (if HasPrefix line ''RAM_OP'' then no_block (readRAMOp line ctx)
      else if HasPrefix line ''CREATION_OP'' then no_block (readCreationOp line ctx)
      else if HasPrefix line ''DB_OP'' then no_block (readDBOp line ctx)
      else if HasPrefix line ''RLIMIT_OP'' then no_block (readRlimitOp env line ctx)
      else if HasPrefix line ''TRX_OP'' then no_block (readTrxOp env line ctx)
      else if HasPrefix line ''APPLIED_TRANSACTION'' then no_block (readAppliedTransaction env line ctx)
      else if HasPrefix line ''TBL_OP'' then no_block (readTableOp line ctx)
      else if HasPrefix line ''PERM_OP'' then no_block (readPermOp env line ctx)
      else if HasPrefix line ''KV_OP'' then no_block (readKVOp line ctx)
      else if HasPrefix line ''DTRX_OP CREATE'' then no_block (readCreateOrCancelDTrxOp env line ctx)
      else if HasPrefix line ''DTRX_OP MODIFY_CREATE'' then no_block (readCreateOrCancelDTrxOp env line ctx)
      else if HasPrefix line ''DTRX_OP MODIFY_CANCEL'' then no_block (readCreateOrCancelDTrxOp env line ctx)
      else if HasPrefix line ''RAM_CORRECTION_OP'' then no_block (readRAMCorrectionOp line ctx)
      else if HasPrefix line ''DTRX_OP PUSH_CREATE'' then no_block (readCreateOrCancelDTrxOp env line ctx)
      else if HasPrefix line ''DTRX_OP CANCEL'' then no_block (readCreateOrCancelDTrxOp env line ctx)
      else if HasPrefix line ''DTRX_OP FAILED'' then no_block (readFailedDTrxOp line ctx)
      else if HasPrefix line ''ACCEPTED_BLOCK_V2'' then with_block (readAcceptedBlockV2 env line ctx)
      else if HasPrefix line ''ACCEPTED_BLOCK'' then with_block (readAcceptedBlock env line ctx)
      else if HasPrefix line ''START_BLOCK'' then no_block (readStartBlock env line ctx)
      else if HasPrefix line ''FEATURE_OP ACTIVATE'' then no_block (readFeatureOpActivate env line ctx)
      else if HasPrefix line ''FEATURE_OP PRE_ACTIVATE'' then no_block (readFeatureOpPreActivate env line ctx)
      else if HasPrefix line ''SWITCH_FORK'' then no_block (switch_fork env ctx)
      else if HasPrefix line ''ABIDUMP START'' then no_block (readABIStart line ctx)
      else if HasPrefix line ''ABIDUMP ABI'' then no_block (readABIDump env line ctx)
      else if HasPrefix line ''ABIDUMP END'' then Inr (None, ctx)
      else if HasPrefix line ''DEEP_MIND_VERSION''
      then bind_res (readDeepmindVersion line) (\<lambda>(major, minor, h).
             Inr (None, ctx\<lparr>majorVersion := major, minorVersion := minor, ctx_hydrator := h\<rparr>))
      else Inr (None, ctx))"

datatype read_result = ReadBlock Block | ReadEOF | ReadError reader_error

fun read_lines ::
  "'abi reader_env \<Rightarrow> string list \<Rightarrow> 'abi parseCtx \<Rightarrow> read_result \<times> string list \<times> 'abi parseCtx" where
  "read_lines env [] ctx = (ReadEOF, [], ctx)"
| "read_lines env (line # rest) ctx =
     (case readLine env (drop 6 line) ctx of
        Inl e \<Rightarrow> (ReadError e, rest, ctx)
      | Inr (Some block, ctx') \<Rightarrow> (ReadBlock block, rest, ctx')
      | Inr (None, ctx') \<Rightarrow> read_lines env rest ctx')"

record 'abi ConsoleReader =
  readBuffer :: "string list"
  stopped :: bool
  reader_ctx :: "'abi parseCtx"

text \<open>The scanner keeps the lines of the deep mind log.\<close>

definition NewConsoleReader :: "string list \<Rightarrow> (ActionTrace \<Rightarrow> ActionTrace) list \<Rightarrow> 'abi ConsoleReader" where
  "NewConsoleReader src opts =
     \<lparr>readBuffer = filter (\<lambda>line. HasPrefix line ''DMLOG '') src, stopped = False,
      reader_ctx = new_parseCtx\<lparr>conversionOptions := opts\<rparr>\<rparr>"

definition Close :: "'abi ConsoleReader \<Rightarrow> 'abi ConsoleReader" where
  "Close l = l\<lparr>stopped := True\<rparr>"

definition Read :: "'abi reader_env \<Rightarrow> 'abi ConsoleReader \<Rightarrow> read_result \<times> 'abi ConsoleReader" where
  "Read env l =
     (if stopped l then (ReadEOF, Close l)
      else case read_lines env (readBuffer l) (reader_ctx l) of
             (ReadBlock b, rest, ctx) \<Rightarrow> (ReadBlock b, l\<lparr>readBuffer := rest, reader_ctx := ctx\<rparr>)
           | (r, rest, ctx) \<Rightarrow> (r, Close (l\<lparr>readBuffer := rest, reader_ctx := ctx\<rparr>)))"

end
