(* ===== verification/ConsoleReaderProps.thy ===== *)
theory ConsoleReaderProps
  imports ConsoleReader
begin

text \<open>
  What the parser of the deep mind log guarantees: the invariant of the parse context, where the
  recorded operations go, how failed transactions, forks and retries are handled, and that a
  reader that failed stays closed.
\<close>

section \<open>Invariant of the parse context\<close>

text \<open>The deferred operations waiting for their transaction carry a transaction and none of them is
  a failure; the creation operations have one of the four kinds.\<close>

definition ctx_ok :: "'abi parseCtx \<Rightarrow> bool" where
  "ctx_ok ctx \<longleftrightarrow>
     (\<forall>op\<in>set (tt_DtrxOps (ctx_trx ctx)).
        dtrx_Operation op \<noteq> DTrxOp_OPERATION_FAILED \<and> dtrx_Transaction op \<noteq> None)
     \<and> kinds_ok (creationOps ctx)"

lemma ctx_ok_cong:
  "tt_DtrxOps (ctx_trx ctx') = tt_DtrxOps (ctx_trx ctx) \<Longrightarrow> creationOps ctx' = creationOps ctx \<Longrightarrow>
     ctx_ok ctx' = ctx_ok ctx"
  by (simp add: ctx_ok_def)

lemma ctx_ok_reset [simp]: "ctx_ok (resetTrx ctx)"
  by (simp add: ctx_ok_def resetTrx_def empty_trace_fields_def kinds_ok_def)

lemma ctx_ok_resetBlock: "ctx_ok ctx \<Longrightarrow> ctx_ok (resetBlock ctx)"
  using ctx_ok_reset [of ctx] by (simp add: resetBlock_def Let_def ctx_ok_def)

lemma ctx_ok_other [simp]:
  "ctx_ok (ctx\<lparr>abiDecoder := d\<rparr>) = ctx_ok ctx"
  "ctx_ok (ctx\<lparr>ctx_block := b\<rparr>) = ctx_ok ctx"
  "ctx_ok (ctx\<lparr>bootstrapOpsPending := p\<rparr>) = ctx_ok ctx"
  "ctx_ok (ctx\<lparr>majorVersion := v, minorVersion := w, ctx_hydrator := h\<rparr>) = ctx_ok ctx"
  by (simp_all add: ctx_ok_def)

lemma if_branchE:
  assumes "(if c then x else y) = z" obtains "x = z" | "y = z"
  using assms by (auto split: if_splits)

lemma ctx_ok_new: "ctx_ok (new_parseCtx\<lparr>conversionOptions := opts\<rparr>)"
  by (simp add: ctx_ok_def new_parseCtx_def empty_trace_fields_def kinds_ok_def)

lemma ctx_ok_revert: "ctx_ok (revertOpsDueToFailedTransaction ctx)"
  by (simp add: revertOpsDueToFailedTransaction_def Let_def upd_trx_def resetTrx_def ctx_ok_def
      empty_trace_fields_def kinds_ok_def split: option.splits)

lemma ctx_ok_record:
  "ctx_ok ctx \<Longrightarrow> ctx_ok (recordDBOp a ctx)"
  "ctx_ok ctx \<Longrightarrow> ctx_ok (recordKVOp b ctx)"
  "ctx_ok ctx \<Longrightarrow> ctx_ok (recordFeatureOp c ctx)"
  "ctx_ok ctx \<Longrightarrow> ctx_ok (recordPermOp d ctx)"
  "ctx_ok ctx \<Longrightarrow> ctx_ok (recordRAMOp e ctx)"
  "ctx_ok ctx \<Longrightarrow> ctx_ok (recordRAMCorrectionOp f ctx)"
  "ctx_ok ctx \<Longrightarrow> ctx_ok (recordRlimitOp g ctx)"
  "ctx_ok ctx \<Longrightarrow> ctx_ok (recordTableOp h ctx)"
  "ctx_ok ctx \<Longrightarrow> ctx_ok (recordTrxOp i ctx)"
  by (simp_all add: record_ops upd_trx_def ctx_ok_def)

lemma ctx_ok_recordCreationOp:
  "ctx_ok ctx \<Longrightarrow> op_kind op \<in> creation_kinds \<Longrightarrow> ctx_ok (recordCreationOp op ctx)"
  by (simp add: record_ops ctx_ok_def kinds_ok_def)

lemma ctx_ok_recordDTrxOp:
  "ctx_ok ctx \<Longrightarrow> dtrx_Operation op = DTrxOp_OPERATION_FAILED \<or> dtrx_Transaction op \<noteq> None \<Longrightarrow>
     ctx_ok (recordDTrxOp op ctx)"
  using ctx_ok_revert by (auto simp: recordDTrxOp_def Let_def upd_trx_def) (auto simp: ctx_ok_def)

lemmas reader_simps = Let_def bind_res_Inr_iff from_opt_def guard_res_def expect_fields_def

lemma ctx_ok_readers:
  assumes "ctx_ok ctx"
  shows "readRAMOp line ctx = Inr ctx' \<Longrightarrow> ctx_ok ctx'"
    and "readCreationOp line ctx = Inr ctx' \<Longrightarrow> ctx_ok ctx'"
    and "readDBOp line ctx = Inr ctx' \<Longrightarrow> ctx_ok ctx'"
    and "readRlimitOp env line ctx = Inr ctx' \<Longrightarrow> ctx_ok ctx'"
    and "readTrxOp env line ctx = Inr ctx' \<Longrightarrow> ctx_ok ctx'"
    and "readTableOp line ctx = Inr ctx' \<Longrightarrow> ctx_ok ctx'"
    and "readPermOp env line ctx = Inr ctx' \<Longrightarrow> ctx_ok ctx'"
    and "readKVOp line ctx = Inr ctx' \<Longrightarrow> ctx_ok ctx'"
    and "readRAMCorrectionOp line ctx = Inr ctx' \<Longrightarrow> ctx_ok ctx'"
    and "readFeatureOpActivate env line ctx = Inr ctx' \<Longrightarrow> ctx_ok ctx'"
    and "readFeatureOpPreActivate env line ctx = Inr ctx' \<Longrightarrow> ctx_ok ctx'"
    and "readCreateOrCancelDTrxOp env line ctx = Inr ctx' \<Longrightarrow> ctx_ok ctx'"
    and "readFailedDTrxOp line ctx = Inr ctx' \<Longrightarrow> ctx_ok ctx'"
    and "readABIStart line ctx = Inr ctx' \<Longrightarrow> ctx_ok ctx'"
    and "readABIDump env line ctx = Inr ctx' \<Longrightarrow> ctx_ok ctx'"
  using assms
  by (auto simp: readRAMOp_def readCreationOp_def readDBOp_def readRlimitOp_def readTrxOp_def readTableOp_def
      readPermOp_def readKVOp_def readRAMCorrectionOp_def readFeatureOpActivate_def readFeatureOpPreActivate_def
      readCreateOrCancelDTrxOp_def readFailedDTrxOp_def readABIStart_def readABIDump_def creation_kinds_def
      Let_def bind_res_Inr_iff split: prod.splits if_splits
      intro!: ctx_ok_record ctx_ok_recordCreationOp ctx_ok_recordDTrxOp)

lemma lift_decoder_Inr: "lift_decoder r = Inr x \<longleftrightarrow> r = Inr x"
  by (simp add: lift_decoder_def split: sum.splits)

lemma discard_attempt_Inr:
  "discard_attempt env n ctx = Inr ctx' \<longleftrightarrow>
     (if activeBlockNum (abiDecoder ctx) = word_of_int n
      then \<not> bootstrapOpsPending ctx
        \<and> (\<exists>d. abortBlock (re_abi env) (abiDecoder ctx) = Inr d \<and> ctx' = ctx\<lparr>abiDecoder := d\<rparr>)
      else ctx' = ctx)"
  by (auto simp: discard_attempt_def bind_res_Inr_iff lift_decoder_Inr)

lemma readStartBlock_steps:
  assumes "readStartBlock env line ctx = Inr ctx'"
  obtains n ctx1 d where
    "parse_int (Split (CHR '' '') line ! 1) = Inr n"
    "discard_attempt env n ctx = Inr ctx1"
    "startBlock (word_of_int n) (abiDecoder ctx1) = Inr d"
    "ctx' = (resetBlock (note_bootstrap ctx1))\<lparr>ctx_activeBlockNum := n, abiDecoder := d\<rparr>"
proof -
  from assms obtain n ctx1 d where 1: "parse_int (Split (CHR '' '') line ! 1) = Inr n"
    "discard_attempt env n ctx = Inr ctx1"
    and d: "startBlock (word_of_int n) (abiDecoder ((resetBlock (note_bootstrap ctx1))\<lparr>ctx_activeBlockNum := n\<rparr>)) = Inr d"
    "(resetBlock (note_bootstrap ctx1))\<lparr>ctx_activeBlockNum := n, abiDecoder := d\<rparr> = ctx'"
    unfolding readStartBlock_def Let_def bind_res_Inr_iff lift_decoder_Inr by blast
  have "abiDecoder ((resetBlock (note_bootstrap ctx1))\<lparr>ctx_activeBlockNum := n\<rparr>) = abiDecoder ctx1"
    by (simp add: resetBlock_def resetTrx_def note_bootstrap_def Let_def)
  with 1 d that show ?thesis by auto
qed

lemma readStartBlock_effect:
  assumes "readStartBlock env line ctx = Inr ctx'"
  shows "ctx_block ctx' = empty_block
    \<and> activeBlockNum (abiDecoder ctx') = word_of_int (ctx_activeBlockNum ctx')
    \<and> (if ctx_activeBlockNum ctx = 0 then ctx_trx ctx' = ctx_trx ctx \<and> creationOps ctx' = creationOps ctx
       else ctx_trx ctx' = empty_trace_fields \<and> creationOps ctx' = [])"
  using assms
proof (rule readStartBlock_steps)
  fix n ctx1 d
  assume 1: "discard_attempt env n ctx = Inr ctx1" "startBlock (word_of_int n) (abiDecoder ctx1) = Inr d"
    and c: "ctx' = (resetBlock (note_bootstrap ctx1))\<lparr>ctx_activeBlockNum := n, abiDecoder := d\<rparr>"
  then have "activeBlockNum d = word_of_int n"
    by (auto simp: startBlock_def Let_def split: if_splits option.splits)
  moreover have "ctx_trx ctx1 = ctx_trx ctx" "creationOps ctx1 = creationOps ctx"
    "ctx_activeBlockNum ctx1 = ctx_activeBlockNum ctx"
    using 1(1) by (auto simp: discard_attempt_Inr split: if_splits)
  ultimately show ?thesis by (simp add: c resetBlock_def resetTrx_def note_bootstrap_def Let_def)
qed

lemma ctx_ok_empty: "tt_DtrxOps (ctx_trx ctx) = [] \<Longrightarrow> creationOps ctx = [] \<Longrightarrow> ctx_ok ctx"
  by (simp add: ctx_ok_def kinds_ok_def)

lemma ctx_ok_readStartBlock:
  assumes "ctx_ok ctx" and "readStartBlock env line ctx = Inr ctx'"
  shows "ctx_ok ctx'"
proof (cases "ctx_activeBlockNum ctx = 0")
  case True
  then show ?thesis using readStartBlock_effect [OF assms(2)] assms(1) ctx_ok_cong [of ctx' ctx] by simp
next
  case False
  then show ?thesis
    using readStartBlock_effect [OF assms(2)] by (intro ctx_ok_empty) (simp_all add: empty_trace_fields_def)
qed

lemma ctx_ok_recordTransaction: "recordTransaction env trace ctx = Inr ctx' \<Longrightarrow> ctx_ok ctx'"
  by (auto simp: recordTransaction_def Let_def bind_res_Inr_iff)

lemma ctx_ok_blocks:
  assumes "ctx_ok ctx"
  shows "readAppliedTransaction env line ctx = Inr ctx' \<Longrightarrow> ctx_ok ctx'"
    and "readAcceptedBlock env line ctx = Inr (b, ctx') \<Longrightarrow> ctx_ok ctx'"
    and "readAcceptedBlockV2 env line ctx = Inr (b, ctx') \<Longrightarrow> ctx_ok ctx'"
    and "switch_fork env ctx = Inr ctx' \<Longrightarrow> ctx_ok ctx'"
proof -
  show "readAppliedTransaction env line ctx = Inr ctx' \<Longrightarrow> ctx_ok ctx'"
    by (auto simp: readAppliedTransaction_def Let_def bind_res_Inr_iff intro: ctx_ok_recordTransaction)
  have acc: "accept_block env block ctx = Inr (b, ctx') \<Longrightarrow> ctx_ok ctx'" for block
    using assms by (auto simp: accept_block_def bind_res_Inr_iff intro!: ctx_ok_resetBlock)
  then show "readAcceptedBlock env line ctx = Inr (b, ctx') \<Longrightarrow> ctx_ok ctx'"
    "readAcceptedBlockV2 env line ctx = Inr (b, ctx') \<Longrightarrow> ctx_ok ctx'"
    by (auto simp: readAcceptedBlock_def readAcceptedBlockV2_def Let_def bind_res_Inr_iff)
  show "switch_fork env ctx = Inr ctx' \<Longrightarrow> ctx_ok ctx'"
    using assms by (auto simp: switch_fork_def bind_res_Inr_iff split: if_splits intro!: ctx_ok_resetBlock)
qed

lemma no_block_Inr: "no_block r = Inr (b, ctx') \<longleftrightarrow> b = None \<and> r = Inr ctx'"
  by (auto simp: no_block_def bind_res_Inr_iff)

lemma with_block_Inr: "with_block r = Inr (b, ctx') \<longleftrightarrow> (\<exists>blk. b = Some blk \<and> r = Inr (blk, ctx'))"
  by (auto simp: with_block_def bind_res_Inr_iff)

lemma ctx_ok_readLine:
  assumes "ctx_ok ctx" and "readLine env line ctx = Inr (b, ctx')"
  shows "ctx_ok ctx'"
proof -
  note inv = ctx_ok_readers [OF assms(1)] ctx_ok_blocks [OF assms(1)] ctx_ok_readStartBlock [OF assms(1)]
  from assms(2) show ?thesis
    unfolding readLine_def
    by (elim if_branchE)
      (use assms(1) in \<open>auto simp: no_block_Inr with_block_Inr bind_res_Inr_iff intro: inv\<close>)
qed

section \<open>Reachable contexts\<close>

inductive ctx_reachable :: "'abi reader_env \<Rightarrow> 'abi parseCtx \<Rightarrow> bool" for env where
  init: "ctx_reachable env (new_parseCtx\<lparr>conversionOptions := opts\<rparr>)"
| line: "ctx_reachable env ctx \<Longrightarrow> readLine env line ctx = Inr (b, ctx') \<Longrightarrow> ctx_reachable env ctx'"

lemma ctx_reachable_ok: "ctx_reachable env ctx \<Longrightarrow> ctx_ok ctx"
  by (induction rule: ctx_reachable.induct) (blast intro: ctx_ok_new ctx_ok_readLine)+

lemma fold_res_Inl: "fold_res f xs s = Inl e \<Longrightarrow> \<exists>x\<in>set xs. \<exists>t. f x t = Inl e"
  by (induction xs arbitrary: s) (auto simp: bind_res_Inl_iff)

lemma processTransaction_nil_transaction:
  assumes "processTransaction env t d = Inl NilTransaction"
  shows "\<exists>op\<in>set (tt_DtrxOps t). dtrx_Transaction op = None"
proof -
  have 1: "findFirstGlobalSequence t \<noteq> Inl NilTransaction"
    by (simp add: findFirstGlobalSequence_def split: option.splits)
  have 2: "extractABIOperations env t \<noteq> Inl NilTransaction"
    by (auto simp: extractABIOperations_def extract_one_def dest!: fold_res_Inl split: option.splits if_splits)
  have 3: "fold_res add_operation ops c \<noteq> Inl NilTransaction" for ops and c :: "'a ABICache"
    by (auto simp: add_operation_def lift_cache_def dest!: fold_res_Inl split: sum.splits)
  have 4: "\<exists>op\<in>set (tt_DtrxOps t). dtrx_Transaction op = None"
    if "fold_res (dtrx_jobs d' t lc) (tt_DtrxOps t) js = Inl NilTransaction" for d' lc js
    using fold_res_Inl [OF that]
    by (auto simp: dtrx_jobs_def bind_res_Inl_iff from_opt_def split: if_splits option.splits)
  from assms show ?thesis
    using 1 2 3 4
    by (auto simp: processTransaction_def commitABIs_def createLocalABICache_def bind_res_Inl_iff
        split: if_splits)
qed

lemma creation_tree_error:
  assumes "kinds_ok ops" and "creation_tree ops = Inl e"
  shows "\<exists>k. k \<noteq> ''ROOT'' \<and> e = TreeError (FirstOpNotRoot k)"
proof -
  have "\<exists>t. toFlatTree roots h = Some t" if "computeCreationTree ops = Inr (roots, h)" for roots h
    using computeCreationTree_inv [OF assms(1) that] toFlatTree_ok [of roots h] by (auto simp: tree_inv_def)
  then show ?thesis
    using assms(2) computeCreationTree_cases [of ops]
    by (fastforce simp: creation_tree_def split: sum.splits option.splits)
qed

section \<open>Transactions\<close>

lemma transfer_eq:
  "transferDeferredRemovedRAMOp ops target =
     (filter (\<lambda>op. \<not> is_deferred_removal op) ops, target @ filter is_deferred_removal ops)"
proof -
  have "fold (\<lambda>op (filtered, target). if is_deferred_removal op then (filtered, target @ [op])
        else (filtered @ [op], target)) ops (xs, ys)
      = (xs @ filter (\<lambda>op. \<not> is_deferred_removal op) ops, ys @ filter is_deferred_removal ops)" for xs ys
    by (induction ops arbitrary: xs ys) auto
  then show ?thesis by (simp add: transferDeferredRemovedRAMOp_def)
qed

lemma decode_trace_Inr:
  "decode_trace env t ctx = Inr ctx' \<longleftrightarrow>
     (\<exists>d. processTransaction (re_abi env) t (abiDecoder ctx) = Inr d \<and> ctx' = ctx\<lparr>abiDecoder := d\<rparr>)"
  by (auto simp: decode_trace_def bind_res_Inr_iff lift_decoder_Inr)

definition handler_failed :: "trace_fields \<Rightarrow> bool" where
  "handler_failed t \<longleftrightarrow> (case tt_Receipt t of None \<Rightarrow> True | Some r \<Rightarrow> trh_Status r = TRANSACTIONSTATUS_HARDFAIL)"

text \<open>The operations that reach the trace: those recorded since the last transaction, without the
  removals handed to the failed deferred transaction; for a handler that failed only the
  resource limits.\<close>

definition kept_ops :: "bool \<Rightarrow> trace_fields \<Rightarrow> trace_fields" where
  "kept_ops reverted trx =
     (if reverted then empty_trace_fields\<lparr>tt_RlimitOps := tt_RlimitOps trx\<rparr>
      else trx\<lparr>tt_RamOps := filter (\<lambda>op. \<not> is_deferred_removal op) (tt_RamOps trx)\<rparr>)"

definition failed_trace :: "trace_fields \<Rightarrow> TransactionTrace \<Rightarrow> TransactionTrace" where
  "failed_trace trx ft =
     TransactionTrace
       ((trace_of ft)\<lparr>tt_RamOps := tt_RamOps (trace_of ft) @ filter is_deferred_removal (tt_RamOps trx),
          tt_Receipt := (case tt_Receipt (trace_of ft) of
             None \<Rightarrow> Some \<lparr>trh_Status = TRANSACTIONSTATUS_SOFTFAIL, trh_CpuUsageMicroSeconds = 0, trh_NetUsageWords = 0\<rparr>
           | Some r \<Rightarrow> Some r)\<rparr>)
       (FailedDtrxTrace ft)"

lemma revert_after_transfer:
  assumes "ctx_trx ctx = trx\<lparr>tt_RamOps := filter (\<lambda>op. \<not> is_deferred_removal op) (tt_RamOps trx)\<rparr>"
  shows "ctx_trx (revertOpsDueToFailedTransaction ctx) = kept_ops True trx"
    and "creationOps (revertOpsDueToFailedTransaction ctx) = []"
    and "ctx_block (revertOpsDueToFailedTransaction ctx) = ctx_block ctx"
    and "abiDecoder (revertOpsDueToFailedTransaction ctx) = abiDecoder ctx"
proof -
  have "find is_deferred_removal (filter (\<lambda>op. \<not> is_deferred_removal op) ops) = None" for ops
    by (simp add: find_None_iff)
  then show "ctx_trx (revertOpsDueToFailedTransaction ctx) = kept_ops True trx"
    "creationOps (revertOpsDueToFailedTransaction ctx) = []"
    "ctx_block (revertOpsDueToFailedTransaction ctx) = ctx_block ctx"
    "abiDecoder (revertOpsDueToFailedTransaction ctx) = abiDecoder ctx"
    by (simp_all add: revertOpsDueToFailedTransaction_def Let_def upd_trx_def resetTrx_def assms kept_ops_def)
qed

lemma record_failed_eq:
  "record_failed env trace ft ctx =
     bind_res (decode_trace env (trace_of (failed_trace (ctx_trx ctx) ft))
       (append_trace (failed_trace (ctx_trx ctx) ft)
         (upd_trx (\<lambda>t. t\<lparr>tt_RamOps := filter (\<lambda>op. \<not> is_deferred_removal op) (tt_RamOps (ctx_trx ctx))\<rparr>) ctx)))
       (\<lambda>ctx2. Inr (failed_trace (ctx_trx ctx) ft,
          if handler_failed trace then revertOpsDueToFailedTransaction ctx2 else ctx2))"
  unfolding record_failed_def Let_def transfer_eq prod.case failed_trace_def handler_failed_def
    TransactionTrace.sel
  by (cases "tt_Receipt trace") simp_all

lemma record_failed_effect:
  assumes "record_failed env trace ft ctx = Inr (failed', ctx')"
  shows "failed' = failed_trace (ctx_trx ctx) ft
    \<and> blk_UnfilteredTransactionTraces (ctx_block ctx') = blk_UnfilteredTransactionTraces (ctx_block ctx) @ [failed']
    \<and> ctx_trx ctx' = kept_ops (handler_failed trace) (ctx_trx ctx)
    \<and> creationOps ctx' = (if handler_failed trace then [] else creationOps ctx)
    \<and> blk_RlimitOps (ctx_block ctx') = blk_RlimitOps (ctx_block ctx)
    \<and> blk_UnfilteredImplicitTransactionOps (ctx_block ctx') = blk_UnfilteredImplicitTransactionOps (ctx_block ctx)"
proof -
  from assms obtain d where
    f: "failed' = failed_trace (ctx_trx ctx) ft"
    and c: "ctx' = (if handler_failed trace then revertOpsDueToFailedTransaction else id)
      ((append_trace failed' (upd_trx (\<lambda>t. t\<lparr>tt_RamOps := filter (\<lambda>op. \<not> is_deferred_removal op) (tt_RamOps (ctx_trx ctx))\<rparr>) ctx))
        \<lparr>abiDecoder := d\<rparr>)"
    unfolding record_failed_eq bind_res_Inr_iff decode_trace_Inr by fastforce
  show ?thesis
  proof (cases "handler_failed trace")
    case True
    then show ?thesis
      using f c by (simp add: revert_after_transfer [of _ "ctx_trx ctx"] append_trace_def upd_trx_def)
  next
    case False
    then show ?thesis using f c by (simp add: append_trace_def upd_trx_def kept_ops_def)
  qed
qed


section \<open>The operations of the log\<close>

text \<open>The operations that lines of the log record between two transactions, in the order of the log.\<close>

datatype read_op =
    ReadCreation creationOp | ReadDB DBOp | ReadKV KVOp | ReadDTrx DTrxOp | ReadFeature FeatureOp | ReadPerm PermOp
  | ReadRAM RAMOp | ReadRAMCorrection RAMCorrectionOp | ReadRlimit RlimitOp | ReadTable TableOp | ReadTrx TrxOp

fun record_op :: "read_op \<Rightarrow> 'abi parseCtx \<Rightarrow> 'abi parseCtx" where
  "record_op (ReadCreation x) = recordCreationOp x"
| "record_op (ReadDB x) = recordDBOp x"
| "record_op (ReadKV x) = recordKVOp x"
| "record_op (ReadDTrx x) = recordDTrxOp x"
| "record_op (ReadFeature x) = recordFeatureOp x"
| "record_op (ReadPerm x) = recordPermOp x"
| "record_op (ReadRAM x) = recordRAMOp x"
| "record_op (ReadRAMCorrection x) = recordRAMCorrectionOp x"
| "record_op (ReadRlimit x) = recordRlimitOp x"
| "record_op (ReadTable x) = recordTableOp x"
| "record_op (ReadTrx x) = recordTrxOp x"

text \<open>The lists of operations a trace is to carry for them. Resource limits of accounts belong to the
  transaction; those of the chain and implicit transactions belong to the block.\<close>

definition log_ops :: "read_op list \<Rightarrow> trace_fields \<Rightarrow> trace_fields" where
  "log_ops ops t =
     t\<lparr>tt_DbOps := tt_DbOps t @ [x. ReadDB x \<leftarrow> ops],
       tt_KvOps := tt_KvOps t @ [x. ReadKV x \<leftarrow> ops],
       tt_DtrxOps := tt_DtrxOps t @ [x. ReadDTrx x \<leftarrow> ops],
       tt_FeatureOps := tt_FeatureOps t @ [x. ReadFeature x \<leftarrow> ops],
       tt_PermOps := tt_PermOps t @ [x. ReadPerm x \<leftarrow> ops],
       tt_RamOps := tt_RamOps t @ [x. ReadRAM x \<leftarrow> ops],
       tt_RamCorrectionOps := tt_RamCorrectionOps t @ [x. ReadRAMCorrection x \<leftarrow> ops],
       tt_RlimitOps := tt_RlimitOps t @ [x. ReadRlimit x \<leftarrow> ops, IsLocalKind x],
       tt_TableOps := tt_TableOps t @ [x. ReadTable x \<leftarrow> ops]\<rparr>"

definition block_ops :: "read_op list \<Rightarrow> Block \<Rightarrow> Block" where
  "block_ops ops b =
     b\<lparr>blk_RlimitOps := blk_RlimitOps b @ [x. ReadRlimit x \<leftarrow> ops, IsGlobalKind x],
       blk_UnfilteredImplicitTransactionOps := blk_UnfilteredImplicitTransactionOps b @ [x. ReadTrx x \<leftarrow> ops]\<rparr>"

definition none_failed :: "read_op list \<Rightarrow> bool" where
  "none_failed ops \<longleftrightarrow> (\<forall>op. ReadDTrx op \<in> set ops \<longrightarrow> dtrx_Operation op \<noteq> DTrxOp_OPERATION_FAILED)"

lemma record_op_effect:
  assumes "none_failed [op]"
  shows "ctx_trx (record_op op ctx) = log_ops [op] (ctx_trx ctx)"
    and "ctx_block (record_op op ctx) = block_ops [op] (ctx_block ctx)"
    and "creationOps (record_op op ctx) = creationOps ctx @ [x. ReadCreation x \<leftarrow> [op]]"
    and "ctx_activeBlockNum (record_op op ctx) = ctx_activeBlockNum ctx"
  using assms by (cases op; simp add: record_ops recordDTrxOp_def upd_trx_def log_ops_def block_ops_def none_failed_def Let_def rlimit_kind_partition)+

lemma ops_Cons:
  "log_ops (op # ops) t = log_ops ops (log_ops [op] t)"
  "block_ops (op # ops) b = block_ops ops (block_ops [op] b)"
  by (simp_all add: log_ops_def block_ops_def)

lemma log_ops_nonempty:
  "tt_PermOps (log_ops ops empty_trace_fields) \<noteq> [] \<longleftrightarrow> (\<exists>x. ReadPerm x \<in> set ops)"
  "tt_RamOps (log_ops ops empty_trace_fields) \<noteq> [] \<longleftrightarrow> (\<exists>x. ReadRAM x \<in> set ops)"
  "tt_RlimitOps (log_ops ops empty_trace_fields) \<noteq> [] \<longleftrightarrow> (\<exists>x. ReadRlimit x \<in> set ops \<and> IsLocalKind x)"
  by (induction ops) (auto simp: log_ops_def empty_trace_fields_def split: read_op.splits)

lemma record_ops_effect:
  assumes "none_failed ops"
  shows "ctx_trx (fold record_op ops ctx) = log_ops ops (ctx_trx ctx)
    \<and> ctx_block (fold record_op ops ctx) = block_ops ops (ctx_block ctx)
    \<and> creationOps (fold record_op ops ctx) = creationOps ctx @ [x. ReadCreation x \<leftarrow> ops]
    \<and> ctx_activeBlockNum (fold record_op ops ctx) = ctx_activeBlockNum ctx"
  using assms
proof (induction ops arbitrary: ctx)
  case Nil
  then show ?case by (simp add: log_ops_def block_ops_def)
next
  case (Cons op ops)
  have "none_failed [op]" "none_failed ops" using Cons.prems by (auto simp: none_failed_def)
  then show ?case using Cons.IH record_op_effect [of op ctx] by (simp add: ops_Cons [of op ops])
qed




text \<open>No trace the hydrators produce carries deferred operations of its own.\<close>

lemma TransactionTraceToDEOS_no_ops:
  "TransactionTraceToDEOS env opts t = Inr t' \<Longrightarrow>
     tt_DtrxOps (trace_of t') = [] \<and> (\<forall>f. FailedDtrxTrace t' = Some f \<longrightarrow> tt_DtrxOps (trace_of f) = [])"
proof (induction env opts t arbitrary: t' rule: TransactionTraceToDEOS.induct)
  case (1 env opts f failed)
  then show ?case
    by (cases failed) (auto simp: bind_res_Inr_iff empty_trace_fields_def)
qed

lemma decode_trace_Inl_nil:
  assumes "decode_trace env t ctx = Inl (DecoderError NilTransaction)"
  shows "\<exists>op\<in>set (tt_DtrxOps t). dtrx_Transaction op = None"
  using assms processTransaction_nil_transaction [of "re_abi env" t "abiDecoder ctx"]
  by (auto simp: decode_trace_def bind_res_Inl_iff lift_decoder_def split: sum.splits)

lemma decode_trace_Inl_tree: "decode_trace env t ctx \<noteq> Inl (TreeError e)"
  by (auto simp: decode_trace_def bind_res_Inl_iff lift_decoder_def split: sum.splits)

lemma kept_ops_dtrx: "set (tt_DtrxOps (kept_ops b trx)) \<subseteq> set (tt_DtrxOps trx)"
  by (simp add: kept_ops_def empty_trace_fields_def)

lemma recordTransaction_errors:
  assumes ok: "ctx_ok ctx" and ft: "\<forall>f. FailedDtrxTrace trace = Some f \<longrightarrow> tt_DtrxOps (trace_of f) = []"
    and err: "recordTransaction env trace ctx = Inl e"
  shows "e \<noteq> DecoderError NilTransaction"
    and "e = TreeError te \<Longrightarrow> \<exists>k. k \<noteq> ''ROOT'' \<and> te = FirstOpNotRoot k"
proof -
  have main: "(\<forall>op\<in>set (tt_DtrxOps (ctx_trx ctx1)). dtrx_Transaction op \<noteq> None) \<and> kinds_ok (creationOps ctx1)
      \<Longrightarrow> bind_res (creation_tree (creationOps ctx1)) (\<lambda>tree.
           bind_res (decode_trace env (stitch_ops (ctx_trx ctx1) tree (trace_of trace))
             (append_trace (TransactionTrace (stitch_ops (ctx_trx ctx1) tree (trace_of trace)) failed) ctx1))
                (\<lambda>ctx2. Inr (resetTrx ctx2))) = Inl e
      \<Longrightarrow> e \<noteq> DecoderError NilTransaction \<and> (\<forall>te. e = TreeError te \<longrightarrow> (\<exists>k. k \<noteq> ''ROOT'' \<and> te = FirstOpNotRoot k))"
    for ctx1 failed
    using decode_trace_Inl_nil [of env] decode_trace_Inl_tree [of env] creation_tree_error [of "creationOps ctx1"]
    by (fastforce simp: bind_res_Inl_iff stitch_ops_def)
  have "e \<noteq> DecoderError NilTransaction \<and> (\<forall>te. e = TreeError te \<longrightarrow> (\<exists>k. k \<noteq> ''ROOT'' \<and> te = FirstOpNotRoot k))"
  proof (cases "FailedDtrxTrace trace")
    case None
    with err ok main [of ctx None] show ?thesis by (simp add: recordTransaction_def Let_def ctx_ok_def)
  next
    case (Some f)
    show ?thesis
    proof (cases "record_failed env (trace_of trace) f ctx")
      case (Inl e')
      then have "e = e'" using err Some by (simp add: recordTransaction_def)
      moreover have "tt_DtrxOps (trace_of (failed_trace (ctx_trx ctx) f)) = []"
        using ft Some by (simp add: failed_trace_def)
      ultimately show ?thesis
        using Inl decode_trace_Inl_nil [of env] decode_trace_Inl_tree [of env]
        by (fastforce simp: record_failed_eq bind_res_Inl_iff)
    next
      case (Inr p)
      obtain failed' ctx1 where p: "p = (failed', ctx1)" by (cases p)
      note eff = record_failed_effect [OF Inr [unfolded p]]
      have "(\<forall>op\<in>set (tt_DtrxOps (ctx_trx ctx1)). dtrx_Transaction op \<noteq> None) \<and> kinds_ok (creationOps ctx1)"
        using eff ok kept_ops_dtrx [of "handler_failed (trace_of trace)" "ctx_trx ctx"]
        by (auto simp: ctx_ok_def kinds_ok_def)
      from main [OF this, of "Some failed'"] err Some Inr p show ?thesis
        by (simp add: recordTransaction_def Let_def)
    qed
  qed
  then show "e \<noteq> DecoderError NilTransaction" "e = TreeError te \<Longrightarrow> \<exists>k. k \<noteq> ''ROOT'' \<and> te = FirstOpNotRoot k"
    by auto
qed

lemma bind_res_InlE:
  assumes "bind_res r f = Inl e"
  obtains "r = Inl e" | x where "r = Inr x" "f x = Inl e"
  using assms by (auto simp: bind_res_Inl_iff)

text \<open>The errors of the field readers, none of which comes from the decoder or the tree.\<close>

lemma field_errors:
  "expect_fields n chunks = Inl e \<longleftrightarrow> length chunks \<noteq> n \<and> e = FieldCount (length chunks)"
  "parse_int s = Inl e \<longleftrightarrow> ParseInt64 s = None \<and> e = NotANumber s"
  "guard_res b e' = Inl e \<longleftrightarrow> \<not> b \<and> e = e'"
  "decode_hex s = Inl e \<longleftrightarrow> hex_DecodeString s = None \<and> e = BadHex"
  "lift_conv r = Inl e \<longleftrightarrow> (\<exists>c. r = Inl c \<and> e = ConvError c)"
  by (auto simp: expect_fields_def parse_int_def guard_res_def decode_hex_def from_opt_def lift_conv_def
      split: option.splits sum.splits)

text \<open>C10: in a context reached from a new reader, an \<open>APPLIED_TRANSACTION\<close> line never makes the
  decoder read the missing transaction of a deferred operation (the failure marker never survives
  until a trace is recorded), and the creation tree only fails on a first operation that is not
  \<open>ROOT\<close>.\<close>

theorem readAppliedTransaction_no_nil_deref:
  assumes "ctx_reachable env ctx" and "readAppliedTransaction env line ctx = Inl e"
  shows "e \<noteq> DecoderError NilTransaction \<and>
    (\<forall>te. e = TreeError te \<longrightarrow> (\<exists>k. k \<noteq> ''ROOT'' \<and> te = FirstOpNotRoot k))"
proof -
  note ok = ctx_reachable_ok [OF assms(1)]
  have dec: "\<forall>f. FailedDtrxTrace t = Some f \<longrightarrow> tt_DtrxOps (trace_of f) = []"
    if "lift_conv (DecodeTransactionTrace (re_hyd env) (ctx_hydrator ctx) hex []) = Inr t" for hex t
    using that TransactionTraceToDEOS_no_ops
    by (auto simp: lift_conv_def DecodeTransactionTrace_def split: sum.splits option.splits)
  let ?P = "e \<noteq> DecoderError NilTransaction
    \<and> (\<forall>te. e = TreeError te \<longrightarrow> (\<exists>k. k \<noteq> ''ROOT'' \<and> te = FirstOpNotRoot k))"
  from assms(2) show ?P
    unfolding readAppliedTransaction_def Let_def
  proof (elim bind_res_InlE)
    fix hex t
    assume t: "lift_conv (DecodeTransactionTrace (re_hyd env) (ctx_hydrator ctx) hex []) = Inr t"
      and r: "recordTransaction env t ctx = Inl e"
    show ?P using recordTransaction_errors [OF ok dec [OF t] r] by auto
  qed (auto simp: field_errors)
qed

section \<open>Failed transactions, forks and retries\<close>

lemma revert_fields:
  "ctx_trx (revertOpsDueToFailedTransaction ctx) = empty_trace_fields
     \<lparr>tt_RlimitOps := tt_RlimitOps (ctx_trx ctx),
      tt_RamOps := (case find is_deferred_removal (tt_RamOps (ctx_trx ctx)) of None \<Rightarrow> [] | Some op \<Rightarrow> [op])\<rparr>"
  "creationOps (revertOpsDueToFailedTransaction ctx) = []"
  "ctx_block (revertOpsDueToFailedTransaction ctx) = ctx_block ctx"
  by (simp_all add: revertOpsDueToFailedTransaction_def Let_def upd_trx_def resetTrx_def
      empty_trace_fields_def split: option.splits)

text \<open>C16: after a deferred transaction is reported as failed, all the operations recorded for it are
  dropped, its creation operations too, except the resource limits and the first RAM operation
  that removes a deferred transaction.\<close>

theorem failed_dtrx_reverts_ops:
  assumes "readFailedDTrxOp line ctx = Inr ctx'"
  shows "ctx_trx ctx' = empty_trace_fields
      \<lparr>tt_RlimitOps := tt_RlimitOps (ctx_trx ctx),
       tt_RamOps := (case find is_deferred_removal (tt_RamOps (ctx_trx ctx)) of None \<Rightarrow> [] | Some op \<Rightarrow> [op])\<rparr>
    \<and> creationOps ctx' = [] \<and> ctx_block ctx' = ctx_block ctx"
proof -
  from assms obtain op where "ctx' = recordDTrxOp op ctx" "dtrx_Operation op = DTrxOp_OPERATION_FAILED"
    unfolding readFailedDTrxOp_def Let_def bind_res_Inr_iff by force
  then show ?thesis by (simp add: recordDTrxOp_def revert_fields upd_trx_def)
qed

text \<open>C12: a fork marker followed by the start of a block of any height is accepted in every state
  without pending genesis operations, so an interrupted block never wedges the reader; the next
  block starts empty.\<close>

theorem switch_fork_not_wedged:
  assumes "\<not> bootstrapOpsPending ctx" and "ParseInt64 s = Some n" and "CHR '' '' \<notin> set s"
  shows "\<exists>ctx1 ctx2. readLine env ''SWITCH_FORK'' ctx = Inr (None, ctx1)
    \<and> readLine env (''START_BLOCK'' @ CHR '' '' # s) ctx1 = Inr (None, ctx2)
    \<and> ctx_activeBlockNum ctx2 = n \<and> activeBlockNum (abiDecoder ctx2) = word_of_int n
    \<and> ctx_block ctx2 = empty_block"
proof -
  obtain ctx1 where ctx1: "switch_fork env ctx = Inr ctx1" "activeBlockNum (abiDecoder ctx1) = noActiveBlockNum"
    "\<not> bootstrapOpsPending ctx1"
    using assms(1)
    by (auto simp: switch_fork_def abortBlock_eq lift_decoder_def resetBlock_def resetTrx_def Let_def)
  obtain d where d: "startBlock (word_of_int n) (abiDecoder ctx1) = Inr d"
    using ctx1(2) by (simp add: startBlock_def Let_def)
  have disc: "discard_attempt env n ctx1 = Inr ctx1"
    using ctx1(2,3) by (simp add: discard_attempt_def abortBlock_def lift_decoder_def)
  have "Split (CHR '' '') (''START_BLOCK'' @ CHR '' '' # s) = [''START_BLOCK'', s]"
    using assms(3) by (intro Split_pair) simp_all
  then have start: "readStartBlock env (''START_BLOCK'' @ CHR '' '' # s) ctx1 =
      Inr ((resetBlock (note_bootstrap ctx1))\<lparr>ctx_activeBlockNum := n, abiDecoder := d\<rparr>)"
    using assms(2) d disc
    by (simp add: readStartBlock_def expect_fields_def guard_res_def parse_int_def lift_decoder_def
        resetBlock_def resetTrx_def note_bootstrap_def Let_def)
  have 1: "readLine env ''SWITCH_FORK'' ctx = Inr (None, ctx1)"
    using ctx1(1) by (simp add: readLine_def no_block_def)
  have 2: "readLine env (''START_BLOCK'' @ CHR '' '' # s) ctx1 =
      no_block (readStartBlock env (''START_BLOCK'' @ CHR '' '' # s) ctx1)"
    by (simp add: readLine_def)
  define ctx2 where "ctx2 = (resetBlock (note_bootstrap ctx1))\<lparr>ctx_activeBlockNum := n, abiDecoder := d\<rparr>"
  have "ctx_activeBlockNum ctx2 = n" by (simp add: ctx2_def)
  with readStartBlock_effect [OF start [folded ctx2_def]] 1 2 start [folded ctx2_def] show ?thesis
    by (auto simp: no_block_def)
qed

text \<open>C17: of the operations read before a block starts, the first block keeps those of transactions, account
  limits included, for its first transaction, and marks them as pending when they are of the kinds of
  the genesis phase. Those of the block, the resource limits of the chain and implicit transactions,
  are lost with the block that is always replaced, although the genesis phase prints such limits; a later
  block starts without any of the operations.\<close>

theorem start_block_bootstrap_ops:
  assumes "ctx_trx ctx = empty_trace_fields" and "creationOps ctx = []" and "none_failed ops"
    and "readStartBlock env line (fold record_op ops ctx) = Inr ctx'"
  shows "blk_RlimitOps (ctx_block ctx') = [] \<and> blk_UnfilteredImplicitTransactionOps (ctx_block ctx') = []
    \<and> (if ctx_activeBlockNum ctx = 0
       then ctx_trx ctx' = log_ops ops empty_trace_fields \<and> creationOps ctx' = [x. ReadCreation x \<leftarrow> ops]
         \<and> (bootstrapOpsPending ctx' \<longleftrightarrow>
             (\<exists>x. ReadPerm x \<in> set ops) \<or> (\<exists>x. ReadRAM x \<in> set ops) \<or>
             (\<exists>x. ReadRlimit x \<in> set ops \<and> IsLocalKind x))
       else ctx_trx ctx' = empty_trace_fields \<and> creationOps ctx' = [])"
proof -
  let ?ctx = "fold record_op ops ctx"
  note ops = record_ops_effect [OF assms(3), of ctx, unfolded assms(1,2)]
  have pending: "bootstrapOpsPending ctx' \<longleftrightarrow> tt_PermOps (ctx_trx ?ctx) \<noteq> [] \<or> tt_RamOps (ctx_trx ?ctx) \<noteq> []
      \<or> tt_RlimitOps (ctx_trx ?ctx) \<noteq> []" if "ctx_activeBlockNum ?ctx = 0"
    using assms(4)
  proof (rule readStartBlock_steps)
    fix n ctx1 d
    assume 1: "discard_attempt env n ?ctx = Inr ctx1"
      and c: "ctx' = (resetBlock (note_bootstrap ctx1))\<lparr>ctx_activeBlockNum := n, abiDecoder := d\<rparr>"
    have "ctx_trx ctx1 = ctx_trx ?ctx" "ctx_activeBlockNum ctx1 = ctx_activeBlockNum ?ctx"
      using 1 by (auto simp: discard_attempt_Inr split: if_splits)
    then show ?thesis using that by (simp add: c resetBlock_def note_bootstrap_def Let_def)
  qed
  have "ctx_block ctx' = empty_block" using readStartBlock_effect [OF assms(4)] by auto
  then show ?thesis
    using readStartBlock_effect [OF assms(4)] ops pending log_ops_nonempty [of ops] by (auto simp: empty_block_def)
qed

lemma accept_block_idle:
  "activeBlockNum (abiDecoder ctx) = noActiveBlockNum \<Longrightarrow>
     accept_block env block ctx = Inl (DecoderError NoActiveBlock)"
  by (simp add: accept_block_def endBlock_def lift_decoder_def)

text \<open>An accepted block needs a started one: once a block was accepted, a second
  \<open>ACCEPTED_BLOCK\<close> line before the next \<open>START_BLOCK\<close> never yields a block.\<close>

theorem second_accepted_block_rejected:
  assumes "readAcceptedBlock env line ctx = Inr (b, ctx')"
  shows "isl (readAcceptedBlock env line' ctx') \<and> isl (readAcceptedBlockV2 env line' ctx')"
proof -
  from assms obtain blk where "accept_block env blk ctx = Inr (b, ctx')"
    unfolding readAcceptedBlock_def Let_def bind_res_Inr_iff by blast
  then have idle: "activeBlockNum (abiDecoder ctx') = noActiveBlockNum"
    by (auto simp: accept_block_def bind_res_Inr_iff lift_decoder_Inr endBlock_def resetBlock_def resetTrx_def
        Let_def split: if_splits)
  have "readAcceptedBlock env line' ctx' \<noteq> Inr p" "readAcceptedBlockV2 env line' ctx' \<noteq> Inr p" for p
    unfolding readAcceptedBlock_def readAcceptedBlockV2_def Let_def bind_res_Inr_iff accept_block_idle [OF idle]
    by blast+
  then show ?thesis
    by (metis isl_def sum.exhaust)
qed

section \<open>The reader after an error\<close>

fun reads :: "nat \<Rightarrow> 'abi reader_env \<Rightarrow> 'abi ConsoleReader \<Rightarrow> read_result list" where
  "reads 0 env l = []"
| "reads (Suc n) env l = (case Read env l of (r, l') \<Rightarrow> r # reads n env l')"

lemma reads_stopped: "stopped l \<Longrightarrow> reads n env l = replicate n ReadEOF"
proof (induction n arbitrary: l)
  case (Suc n)
  then have "Read env l = (ReadEOF, Close l)" by (simp add: Read_def)
  moreover have "reads n env (Close l) = replicate n ReadEOF" by (rule Suc.IH) (simp add: Close_def)
  ultimately show ?case by simp
qed simp

text \<open>A reader that returned an error or the end of the log is closed for good: every later
  call reports the end of the stream.\<close>

theorem read_error_is_terminal:
  assumes "Read env l = (r, l')" and "\<forall>b. r \<noteq> ReadBlock b"
  shows "reads n env l' = replicate n ReadEOF"
proof (rule reads_stopped)
  show "stopped l'"
    using assms by (auto simp: Read_def Close_def split: if_splits prod.splits read_result.splits)
qed

section \<open>Round trip of a database operation\<close>

text \<open>A line as nodeos prints it, with the decimal action index \<open>idx\<close>.\<close>

definition print_DBOp :: "string \<Rightarrow> DBOp \<Rightarrow> string" where
  "print_DBOp idx op =
     Join (CHR '' '')
       [''DB_OP'', DBOp_LegacyOperation op, idx,
        (case db_Operation op of
           DBOp_OPERATION_INSERT \<Rightarrow> db_NewPayer op
         | DBOp_OPERATION_UPDATE \<Rightarrow> Join (CHR '':'') [db_OldPayer op, db_NewPayer op]
         | _ \<Rightarrow> db_OldPayer op),
        db_Code op, db_Scope op, db_TableName op, db_PrimaryKey op,
        (case db_Operation op of
           DBOp_OPERATION_INSERT \<Rightarrow> hex_EncodeToString (db_NewData op)
         | DBOp_OPERATION_UPDATE \<Rightarrow>
             Join (CHR '':'') [hex_EncodeToString (db_OldData op), hex_EncodeToString (db_NewData op)]
         | _ \<Rightarrow> hex_EncodeToString (db_OldData op))]"

definition DBOp_printable :: "DBOp \<Rightarrow> bool" where
  "DBOp_printable op \<longleftrightarrow>
     list_all (\<lambda>s. CHR '' '' \<notin> set s)
       [db_OldPayer op, db_NewPayer op, db_Code op, db_Scope op, db_TableName op, db_PrimaryKey op]
     \<and> (case db_Operation op of
          DBOp_OPERATION_UNKNOWN \<Rightarrow> False
        | DBOp_OPERATION_INSERT \<Rightarrow> db_OldPayer op = '''' \<and> db_OldData op = []
        | DBOp_OPERATION_UPDATE \<Rightarrow> CHR '':'' \<notin> set (db_OldPayer op)
        | DBOp_OPERATION_REMOVE \<Rightarrow> db_NewPayer op = '''' \<and> db_NewData op = [])"

lemma hex_digit_chars:
  assumes "n < 16"
  shows "hex_digit n \<noteq> CHR '' ''" and "hex_digit n \<noteq> CHR '':''"
proof -
  have "hex_val (CHR '' '') = None" "hex_val (CHR '':'') = None" by code_simp+
  with hex_val_digit [OF assms] show "hex_digit n \<noteq> CHR '' ''" "hex_digit n \<noteq> CHR '':''"
    by auto
qed

lemma hex_chars:
  "CHR '' '' \<notin> set (hex_EncodeToString bs)" "CHR '':'' \<notin> set (hex_EncodeToString bs)"
proof (induction bs)
  case (Cons b bs)
  have "unat b < 256" by (rule order_less_le_trans [OF unsigned_less]) simp
  then have l: "unat b div 16 < 16" "unat b mod 16 < 16" by simp_all
  note ne = hex_digit_chars [OF l(1)] hex_digit_chars [OF l(2)]
  {
    case 1 show ?case using Cons.IH(1) ne [symmetric] by simp
  next
    case 2 show ?case using Cons.IH(2) ne [symmetric] by simp
  }
qed simp_all

lemma hex_empty_iff: "hex_EncodeToString bs = [] \<longleftrightarrow> bs = []"
  by (cases bs) simp_all

lemma decode_hex_opt_encode: "decode_hex_opt (hex_EncodeToString bs) = Inr bs" "decode_hex_opt [] = Inr []"
  by (simp_all add: decode_hex_opt_def decode_hex_def hex_empty_iff)

lemma split_half_Join:
  assumes "CHR '':'' \<notin> set x"
  shows "split_half (Join (CHR '':'') [x, y]) = Inr (x, y)"
proof -
  have "SplitN 2 (CHR '':'') (Join (CHR '':'') [x, y]) = [x, y]"
    using assms by (intro SplitN_Join) simp_all
  then show ?thesis by (simp add: split_half_def Let_def)
qed

lemma notin_Join2: "c \<noteq> sep \<Longrightarrow> c \<notin> set x \<Longrightarrow> c \<notin> set y \<Longrightarrow> c \<notin> set (Join sep [x, y])"
  by simp

text \<open>C11: a database operation written in the format of the log is read back as it was: the reader
  loses nothing of an insertion, an update or a removal.\<close>

theorem readDBOp_print:
  assumes "DBOp_printable op" and "ParseInt64 idx = Some i" and "CHR '' '' \<notin> set idx"
    and "db_ActionIndex op = word_of_int i"
  shows "readDBOp (print_DBOp idx op) ctx = Inr (recordDBOp op ctx)"
proof -
  define payer where "payer = (case db_Operation op of
           DBOp_OPERATION_INSERT \<Rightarrow> db_NewPayer op
         | DBOp_OPERATION_UPDATE \<Rightarrow> Join (CHR '':'') [db_OldPayer op, db_NewPayer op]
         | _ \<Rightarrow> db_OldPayer op)"
  define dat where "dat = (case db_Operation op of
           DBOp_OPERATION_INSERT \<Rightarrow> hex_EncodeToString (db_NewData op)
         | DBOp_OPERATION_UPDATE \<Rightarrow>
             Join (CHR '':'') [hex_EncodeToString (db_OldData op), hex_EncodeToString (db_NewData op)]
         | _ \<Rightarrow> hex_EncodeToString (db_OldData op))"
  define fields where "fields = [''DB_OP'', DBOp_LegacyOperation op, idx, payer, db_Code op,
    db_Scope op, db_TableName op, db_PrimaryKey op, dat]"
  have ns: "CHR '' '' \<notin> set payer" "CHR '' '' \<notin> set (DBOp_LegacyOperation op)"
    using assms(1)
    by (auto simp: payer_def DBOp_LegacyOperation_def DBOp_printable_def split: DBOp_Operation.splits)
  have split: "SplitN 9 (CHR '' '') (print_DBOp idx op) = fields"
    unfolding print_DBOp_def payer_def [symmetric] dat_def [symmetric] fields_def
    using assms(1,3) ns by (intro SplitN_Join) (auto simp: DBOp_printable_def)
  show ?thesis
    unfolding readDBOp_def Let_def split
    using assms(1,2,4)
    by (cases op, cases "db_Operation op")
      (simp_all add: expect_fields_def guard_res_def parse_int_def fields_def
        DBOp_LegacyOperation_def DBOp_printable_def payer_def dat_def decode_hex_opt_encode
        split_half_Join hex_chars del: Join.simps)
qed

section \<open>Witnesses\<close>

definition sample_reader_env :: "nat reader_env" where
  "sample_reader_env =
     \<lparr>re_abi = sample_env, re_hyd = sample_hydrator_env,
      re_SignedTransaction = (\<lambda>bs. None), re_Transaction = (\<lambda>bs. None),
      re_json_Feature = (\<lambda>s. None), re_json_permissionObject = (\<lambda>s. None),
      re_json_rlimitConfig = (\<lambda>s. None), re_json_rlimitState = (\<lambda>s. None),
      re_json_rlimitAccountLimits = (\<lambda>s. None), re_json_rlimitAccountUsage = (\<lambda>s. None),
      re_gjson_Get = (\<lambda>s p. None), re_TimestampProto = (\<lambda>t. True)\<rparr>"

definition sample_dbop :: DBOp where
  "sample_dbop = \<lparr>db_Operation = DBOp_OPERATION_UPDATE, db_ActionIndex = 3, db_OldPayer = ''alice'',
     db_NewPayer = ''bob'', db_Code = ''eosio'', db_Scope = ''s'', db_TableName = ''t'',
     db_PrimaryKey = ''k'', db_OldData = [1], db_NewData = [255, 16]\<rparr>"

definition sample_permop :: PermOp where
  "sample_permop = \<lparr>po_Operation = PermOp_OPERATION_INSERT, po_ActionIndex = 0, po_OldPerm = None,
     po_NewPerm = None\<rparr>"

theorem readDBOp_print_witness:
  "readDBOp (print_DBOp ''3'' sample_dbop) (new_parseCtx :: nat parseCtx) = Inr (recordDBOp sample_dbop new_parseCtx)"
proof (rule readDBOp_print)
  show "DBOp_printable sample_dbop" by code_simp
  show "ParseInt64 ''3'' = Some 3" by code_simp
qed (simp_all add: sample_dbop_def)

definition sample_started :: "nat parseCtx" where
  "sample_started = snd (projr (readLine sample_reader_env ''START_BLOCK 5'' new_parseCtx))"

lemma sample_started_line: "readLine sample_reader_env ''START_BLOCK 5'' new_parseCtx = Inr (None, sample_started)"
proof -
  let ?r = "readLine sample_reader_env ''START_BLOCK 5'' new_parseCtx"
  have "?r = Inr (projr ?r)" by (rule Inr_projr) code_simp
  moreover have "fst (projr ?r) = None" by code_simp
  ultimately show ?thesis unfolding sample_started_def by (metis prod.collapse)
qed

lemma sample_started_reachable: "ctx_reachable sample_reader_env sample_started"
proof -
  have "ctx_reachable sample_reader_env (new_parseCtx\<lparr>conversionOptions := []\<rparr>)"
    by (rule ctx_reachable.init)
  moreover have "new_parseCtx\<lparr>conversionOptions := []\<rparr> = (new_parseCtx :: nat parseCtx)"
    by (simp add: new_parseCtx_def)
  ultimately show ?thesis using ctx_reachable.line sample_started_line by metis
qed

theorem readAppliedTransaction_no_nil_deref_witness:
  "(let r = readAppliedTransaction sample_reader_env ''APPLIED_TRANSACTION 6 00'' sample_started
    in isl r \<and> projl r \<noteq> DecoderError NilTransaction)"
proof -
  let ?r = "readAppliedTransaction sample_reader_env ''APPLIED_TRANSACTION 6 00'' sample_started"
  have i: "isl ?r" by code_simp
  then have "?r = Inl (projl ?r)" by (cases ?r) simp_all
  from readAppliedTransaction_no_nil_deref [OF sample_started_reachable this] i show ?thesis by simp
qed



theorem failed_dtrx_reverts_ops_witness:
  "\<exists>ctx'. readFailedDTrxOp ''DTRX_OP FAILED 0'' (recordDBOp sample_dbop sample_started) = Inr ctx'
    \<and> tt_DbOps (ctx_trx ctx') = []"
proof -
  let ?r = "readFailedDTrxOp ''DTRX_OP FAILED 0'' (recordDBOp sample_dbop sample_started)"
  have "\<not> isl ?r" by code_simp
  then obtain ctx' where r: "?r = Inr ctx'" by (cases ?r) simp_all
  from failed_dtrx_reverts_ops [OF r] r show ?thesis
    by (intro exI [of _ ctx']) (simp add: empty_trace_fields_def)
qed

theorem switch_fork_not_wedged_witness:
  "\<exists>ctx1 ctx2. readLine sample_reader_env ''SWITCH_FORK'' sample_started = Inr (None, ctx1)
    \<and> readLine sample_reader_env (''START_BLOCK'' @ CHR '' '' # ''7'') ctx1 = Inr (None, ctx2)
    \<and> ctx_activeBlockNum ctx2 = 7"
proof -
  have 1: "\<not> bootstrapOpsPending sample_started" "ParseInt64 ''7'' = Some 7" by code_simp+
  have "CHR '' '' \<notin> set ''7''" by simp
  from switch_fork_not_wedged [OF 1 this, of sample_reader_env] show ?thesis by blast
qed

definition sample_limits :: ElasticLimitParameters where
  "sample_limits = \<lparr>el_Target = 1, el_Max = 2, el_Periods = 60, el_MaxMultiplier = 1000,
     el_ContractRate = \<lparr>ra_Numerator = 99, ra_Denominator = 100\<rparr>, el_ExpandRate = \<lparr>ra_Numerator = 1000, ra_Denominator = 999\<rparr>\<rparr>"

definition sample_config_op :: RlimitOp where
  "sample_config_op = \<lparr>rl_Operation = RlimitOp_OPERATION_INSERT, rl_Kind = RlimitOp_Config
     \<lparr>rc_CpuLimitParameters = sample_limits, rc_NetLimitParameters = sample_limits,
      rc_AccountCpuUsageAverageWindow = 1, rc_AccountNetUsageAverageWindow = 1\<rparr>\<rparr>"

theorem start_block_bootstrap_ops_witness:
  "\<exists>ctx'. readStartBlock sample_reader_env ''START_BLOCK 5''
       (fold record_op [ReadRlimit sample_config_op, ReadPerm sample_permop] new_parseCtx) = Inr ctx'
    \<and> tt_PermOps (ctx_trx ctx') = [sample_permop] \<and> bootstrapOpsPending ctx'
    \<and> IsGlobalKind sample_config_op \<and> blk_RlimitOps (ctx_block ctx') = []"
proof -
  let ?ops = "[ReadRlimit sample_config_op, ReadPerm sample_permop]"
  let ?r = "readStartBlock sample_reader_env ''START_BLOCK 5'' (fold record_op ?ops new_parseCtx)"
  have "\<not> isl ?r" by code_simp
  then obtain ctx' where r: "?r = Inr ctx'" by (cases ?r) simp_all
  have new: "ctx_trx (new_parseCtx :: nat parseCtx) = empty_trace_fields" "creationOps (new_parseCtx :: nat parseCtx) = []"
    "ctx_activeBlockNum (new_parseCtx :: nat parseCtx) = 0" by (simp_all add: new_parseCtx_def)
  have "none_failed ?ops" by (simp add: none_failed_def)
  moreover have "IsGlobalKind sample_config_op" by code_simp
  ultimately show ?thesis using start_block_bootstrap_ops [OF new(1,2) _ r] r new(3)
    by (intro exI [of _ ctx']) (auto simp: log_ops_def empty_trace_fields_def)
qed

theorem second_accepted_block_rejected_witness:
  "(let r = readAcceptedBlock sample_reader_env ''ACCEPTED_BLOCK 5 00'' sample_started
    in \<not> isl r \<and> isl (readAcceptedBlock sample_reader_env ''ACCEPTED_BLOCK 5 00'' (snd (projr r))))"
proof -
  let ?r = "readAcceptedBlock sample_reader_env ''ACCEPTED_BLOCK 5 00'' sample_started"
  have i: "\<not> isl ?r" by code_simp
  have r: "?r = Inr (fst (projr ?r), snd (projr ?r))" using Inr_projr [OF i] by simp
  from second_accepted_block_rejected [OF r] i show ?thesis unfolding Let_def by blast
qed

theorem read_error_is_terminal_witness:
  "(let l = NewConsoleReader [''DMLOG START_BLOCK x'', ''DMLOG START_BLOCK 5''] [];
        p = Read sample_reader_env l
    in fst p = ReadError (NotANumber ''x'') \<and> reads 2 sample_reader_env (snd p) = [ReadEOF, ReadEOF])"
proof -
  let ?l = "NewConsoleReader [''DMLOG START_BLOCK x'', ''DMLOG START_BLOCK 5''] []"
  let ?p = "Read sample_reader_env ?l"
  have f: "fst ?p = ReadError (NotANumber ''x'')" by code_simp
  then have p: "?p = (ReadError (NotANumber ''x''), snd ?p)" by (metis prod.collapse)
  have "reads 2 sample_reader_env (snd ?p) = replicate 2 ReadEOF"
    by (rule read_error_is_terminal [OF p]) simp
  with f show ?thesis by (simp add: Let_def numeral_2_eq_2)
qed

end
