(* ===== verification/KvStore.thy ===== *)
theory KvStore
  imports GoStd "HOL-Library.List_Lexorder"
begin

text \<open>
  The key-value store that the services write to is \<open>store.KVStore\<close> of another repository
  (\<open>kvdb\<close>), so its operations are a record that the definitions take as an argument. What it
  promises is the locale \<open>kv_store\<close>: a store has the content that reads see, \<open>view\<close>, and the
  content that reads will see after a flush, \<open>eff\<close>; a put may be buffered until \<open>FlushPuts\<close>, or be
  flushed earlier; a scan returns the rows of a half-open range in key order. An operation that
  fails may have been applied in part.

  The theory also has the order of keys: big-endian numbers compare as numbers.
\<close>

section \<open>Operations\<close>

datatype kv_error = KvNotFound | KvError string

record 's kv_ops =
  kv_Put :: "bytes \<Rightarrow> bytes \<Rightarrow> 's \<Rightarrow> kv_error option \<times> 's"
  kv_FlushPuts :: "'s \<Rightarrow> kv_error option \<times> 's"
  kv_Get :: "bytes \<Rightarrow> 's \<Rightarrow> kv_error + bytes"
  kv_Scan :: "bytes \<Rightarrow> bytes \<Rightarrow> nat \<Rightarrow> 's \<Rightarrow> (bytes \<times> bytes) list \<times> kv_error option"
  kv_BatchDelete :: "bytes list \<Rightarrow> 's \<Rightarrow> kv_error option \<times> 's"

text \<open>The limit 0 of a scan means no limit.\<close>

definition limited :: "nat \<Rightarrow> 'a list \<Rightarrow> 'a list" where
  "limited n xs = (if n = 0 then xs else take n xs)"

definition scan_keys :: "(bytes \<rightharpoonup> bytes) \<Rightarrow> bytes \<Rightarrow> bytes \<Rightarrow> bytes list" where
  "scan_keys m a b = sorted_list_of_set {k \<in> dom m. a \<le> k \<and> k < b}"

definition scan_items :: "(bytes \<rightharpoonup> bytes) \<Rightarrow> bytes \<Rightarrow> bytes \<Rightarrow> (bytes \<times> bytes) list" where
  "scan_items m a b = map (\<lambda>k. (k, the (m k))) (scan_keys m a b)"

locale kv_store =
  fixes kv :: "'s kv_ops"
    and sinv :: "'s \<Rightarrow> bool"
    and view :: "'s \<Rightarrow> bytes \<rightharpoonup> bytes"
    and eff :: "'s \<Rightarrow> bytes \<rightharpoonup> bytes"
    and pend :: "'s \<Rightarrow> bytes set"
  assumes finite_view: "sinv s \<Longrightarrow> finite (dom (view s))"
    and put: "sinv s \<Longrightarrow> kv_Put kv k v s = (e, s') \<Longrightarrow>
      (\<forall>x. view s' x = view s x \<or> x \<in> insert k (pend s) \<and> view s' x = ((eff s)(k \<mapsto> v)) x)
      \<and> (e = None \<longrightarrow> sinv s' \<and> pend s' \<subseteq> insert k (pend s) \<and> eff s' = (eff s)(k \<mapsto> v))"
    and flush: "sinv s \<Longrightarrow> kv_FlushPuts kv s = (e, s') \<Longrightarrow>
      (\<forall>x. view s' x = view s x \<or> view s' x = eff s x)
      \<and> (e = None \<longrightarrow> sinv s' \<and> pend s' = {} \<and> view s' = eff s \<and> eff s' = eff s)"
    and delete: "sinv s \<Longrightarrow> set ks \<inter> pend s = {} \<Longrightarrow> kv_BatchDelete kv ks s = (e, s') \<Longrightarrow>
      (\<forall>x. view s' x = view s x \<or> x \<in> set ks \<and> view s' x = None)
      \<and> (e = None \<longrightarrow> sinv s' \<and> pend s' \<subseteq> pend s \<and> eff s' = eff s |` (- set ks))"
    and get: "sinv s \<Longrightarrow> kv_Get kv k s = r \<Longrightarrow>
      (\<forall>v. r = Inr v \<longrightarrow> view s k = Some v) \<and> (r = Inl KvNotFound \<longrightarrow> view s k = None)"
    and scan: "sinv s \<Longrightarrow> kv_Scan kv a b n s = (items, e) \<Longrightarrow>
      (if e = None then items = limited n (scan_items (view s) a b)
       else \<exists>j. items = take j (scan_items (view s) a b))"

text \<open>A database buffers puts only: the other keys are as reads see them.\<close>

locale kv_backend = kv_store +
  assumes clean: "sinv s \<Longrightarrow> k \<notin> pend s \<Longrightarrow> eff s k = view s k"

text \<open>A store that buffers its writes in memory also forgets a pending put of a key that it
  deletes, as long as the key has no older row.\<close>

locale kv_cache = kv_store +
  assumes put_cached: "sinv s \<Longrightarrow> kv_Put kv k v s = (e, s') \<Longrightarrow> view s' = view s"
    and delete_cached: "sinv s \<Longrightarrow> \<forall>k\<in>set ks. k \<in> pend s \<longrightarrow> view s k = None \<Longrightarrow>
      kv_BatchDelete kv ks s = (e, s') \<Longrightarrow>
      view s' = view s \<and> (e = None \<longrightarrow> sinv s' \<and> pend s' \<subseteq> pend s \<and> eff s' = eff s |` (- set ks))"

section \<open>Key order\<close>

lemma list_less_append:
  fixes xs ys us vs :: "'a :: linorder list"
  assumes "length xs = length ys"
  shows "xs @ us < ys @ vs \<longleftrightarrow> xs < ys \<or> xs = ys \<and> us < vs"
  using assms by (induction xs ys rule: list_induct2) auto

text \<open>The number a big-endian byte string stands for.\<close>

fun be_val :: "bytes \<Rightarrow> nat" where
  "be_val [] = 0"
| "be_val (b # bs) = unat b * 256 ^ length bs + be_val bs"

lemma be_val_less: "be_val bs < 256 ^ length bs"
proof (induction bs)
  case (Cons b bs)
  have "unat b < 256" by (rule order_less_le_trans [OF unsigned_less]) simp
  then have "(unat b + 1) * 256 ^ length bs \<le> 256 * 256 ^ length bs" by (intro mult_le_mono1) simp
  then have "unat b * 256 ^ length bs + 256 ^ length bs \<le> 256 ^ length (b # bs)" by simp
  with Cons show ?case unfolding be_val.simps by linarith
qed simp

lemma mult_add_less_iff:
  fixes a b c d n :: nat
  assumes "c < n" "d < n"
  shows "a * n + c < b * n + d \<longleftrightarrow> a < b \<or> a = b \<and> c < d"
proof (cases a b rule: linorder_cases)
  case less
  then have "(a + 1) * n \<le> b * n" by (intro mult_le_mono1) simp
  then show ?thesis using less assms by simp
next
  case greater
  then have "(b + 1) * n \<le> a * n" by (intro mult_le_mono1) simp
  then show ?thesis using greater assms by simp
qed simp

lemma be_val_order: "length xs = length ys \<Longrightarrow> xs < ys \<longleftrightarrow> be_val xs < be_val ys"
proof (induction xs ys rule: list_induct2)
  case (Cons x xs y ys)
  then show ?case
    using mult_add_less_iff [of "be_val xs" "256 ^ length ys" "be_val ys"] be_val_less [of xs] be_val_less [of ys]
    by (simp add: word_less_nat_alt word_unat_eq_iff)
qed simp

lemma be_val_digits:
  "be_val (map (\<lambda>i. of_nat (n div 256 ^ i mod 256)) (rev [0..<k])) = n mod 256 ^ k"
proof (induction k)
  case (Suc k)
  have "unat (of_nat (n div 256 ^ k mod 256) :: u8) = n div 256 ^ k mod 256"
    by (simp add: unat_of_nat)
  then show ?case using Suc mod_mult2_eq [of n "256 ^ k" 256] by (simp add: mult.commute)
qed simp

text \<open>The bytes of a word, most significant first.\<close>

lemma be_val_word_bytes:
  fixes v :: "'a::len word"
  shows "be_val (map (\<lambda>i. ucast (drop_bit (8 * i) v)) (rev [0..<k])) = unat v mod 256 ^ k"
proof -
  have "(ucast (drop_bit (8 * i) v) :: u8) = of_nat (unat v div 256 ^ i mod 256)" for i
  proof (rule word_unat_eq_iff [THEN iffD2])
    have "unat (ucast (drop_bit (8 * i) v) :: u8) = unat (drop_bit (8 * i) v) mod 256"
      by (simp add: unsigned_ucast_eq take_bit_eq_mod)
    also have "unat (drop_bit (8 * i) v) = unat v div 256 ^ i"
      using drop_bit_eq_div [of "8 * i" "unat v"] unsigned_less [of v, where ?'a = nat]
      by (simp add: unsigned_drop_bit_eq power_mult take_bit_nat_eq_self)
    finally show "unat (ucast (drop_bit (8 * i) v) :: u8) = unat (of_nat (unat v div 256 ^ i mod 256) :: u8)"
      by (simp add: unat_of_nat)
  qed
  then show ?thesis using be_val_digits [of "unat v" k] by simp
qed

lemma be_val_PutUint64 [simp]: "be_val (PutUint64 v) = unat v"
  using be_val_word_bytes [of v 8] unsigned_less [of v, where ?'a = nat] by (simp add: PutUint64_def)

lemma PutUint64_not_Nil [simp]: "PutUint64 v \<noteq> []"
  using length_PutUint64 [of v] by (metis list.size(3) zero_neq_numeral)

lemma PutUint64_less [simp]: "PutUint64 a < PutUint64 b \<longleftrightarrow> a < b"
  by (simp add: be_val_order word_less_nat_alt)

lemma PutUint64_inject [simp]: "PutUint64 a = PutUint64 b \<longleftrightarrow> a = b"
  by (metis be_val_PutUint64 word_unat_eq_iff)

lemma Uint64_be_val: "length bs = 8 \<Longrightarrow> Uint64 (bs @ r) = of_nat (be_val bs)"
proof -
  have "foldl (\<lambda>acc b. acc * 256 + ucast b) (of_nat n) bs = (of_nat (n * 256 ^ length bs + be_val bs) :: u64)" for n bs
  proof (induction bs arbitrary: n)
    case (Cons b bs)
    have "of_nat n * 256 + ucast b = (of_nat (n * 256 + unat b) :: u64)" by simp
    then show ?case using Cons [of "n * 256 + unat b"] by (simp add: algebra_simps)
  qed simp
  from this [of 0 bs] show "length bs = 8 \<Longrightarrow> Uint64 (bs @ r) = of_nat (be_val bs)"
    by (simp add: Uint64_def)
qed

lemma Uint64_PutUint64 [simp]: "Uint64 (PutUint64 v @ r) = v" "Uint64 (PutUint64 v) = v"
  using Uint64_be_val [of "PutUint64 v"] Uint64_be_val [of "PutUint64 v" "[]"] by simp_all

unbundle bit_operations_syntax

lemma not_less_not [simp]: "NOT a < NOT b \<longleftrightarrow> b < (a :: 'a::len word)"
proof -
  have eq: "unat (NOT w) = unat (- 1 :: 'a word) - unat w" for w :: "'a word"
    using unat_sub [of w "- 1"] by (simp add: not_eq_complement minus_diff_commute)
  have "unat a \<le> unat (- 1 :: 'a word)" "unat b \<le> unat (- 1 :: 'a word)"
    using max_word_ge word_le_nat_alt by blast+
  then show ?thesis unfolding word_less_nat_alt eq by linarith
qed

section \<open>Scans\<close>

lemma scan_items_Nil: "finite (dom m) \<Longrightarrow> scan_items m a b = [] \<longleftrightarrow> (\<forall>k\<in>dom m. \<not> (a \<le> k \<and> k < b))"
  by (auto simp: scan_items_def scan_keys_def)

lemma scan_items_Cons:
  assumes fin: "finite (dom m)" and sc: "scan_items m a b = (k, v) # rest"
  shows "k \<in> dom m \<and> a \<le> k \<and> k < b" and "x \<in> dom m \<Longrightarrow> a \<le> x \<Longrightarrow> x < b \<Longrightarrow> k \<le> x"
proof -
  let ?S = "{x \<in> dom m. a \<le> x \<and> x < b}"
  have keys: "sorted_list_of_set ?S = k # map fst rest"
    using arg_cong [OF sc, of "map fst"] by (simp add: scan_items_def scan_keys_def comp_def)
  have finS: "finite ?S" using fin by simp
  have "k \<in> ?S" using set_sorted_list_of_set [OF finS] unfolding keys by (metis list.set_intros(1))
  then show "k \<in> dom m \<and> a \<le> k \<and> k < b" by simp
  show "k \<le> x" if "x \<in> dom m" "a \<le> x" "x < b"
    using sorted_sorted_list_of_set [of ?S] set_sorted_list_of_set [OF finS] that unfolding keys by auto
qed

section \<open>A store in memory\<close>

text \<open>Two association lists, the rows and the buffered puts, keep the contract: it can be met.
\<close>

record mem_store =
  mem_rows :: "(bytes \<times> bytes) list"
  mem_buffer :: "(bytes \<times> bytes) list"

definition mem_scan :: "bytes \<Rightarrow> bytes \<Rightarrow> (bytes \<times> bytes) list \<Rightarrow> (bytes \<times> bytes) list" where
  "mem_scan a b rows =
     map (\<lambda>k. (k, the (map_of rows k))) (sort (remdups (filter (\<lambda>k. a \<le> k \<and> k < b) (map fst rows))))"

definition mem_ops :: "mem_store kv_ops" where
  "mem_ops =
     \<lparr>kv_Put = (\<lambda>k v s. (None, s\<lparr>mem_buffer := (k, v) # mem_buffer s\<rparr>)),
      kv_FlushPuts = (\<lambda>s. (None, s\<lparr>mem_rows := mem_buffer s @ mem_rows s, mem_buffer := []\<rparr>)),
      kv_Get = (\<lambda>k s. case map_of (mem_rows s) k of None \<Rightarrow> Inl KvNotFound | Some v \<Rightarrow> Inr v),
      kv_Scan = (\<lambda>a b n s. (limited n (mem_scan a b (mem_rows s)), None)),
      kv_BatchDelete = (\<lambda>ks s. (None, s\<lparr>mem_rows := filter (\<lambda>(k, v). k \<notin> set ks) (mem_rows s)\<rparr>))\<rparr>"

abbreviation mem_view :: "mem_store \<Rightarrow> bytes \<rightharpoonup> bytes" where
  "mem_view s \<equiv> map_of (mem_rows s)"

definition mem_eff :: "mem_store \<Rightarrow> bytes \<rightharpoonup> bytes" where
  "mem_eff s = map_of (mem_buffer s @ mem_rows s)"

definition mem_pend :: "mem_store \<Rightarrow> bytes set" where
  "mem_pend s = fst ` set (mem_buffer s)"

lemma mem_scan_items: "mem_scan a b rows = scan_items (map_of rows) a b"
proof -
  have "{k \<in> dom (map_of rows). a \<le> k \<and> k < b} = set (remdups (filter (\<lambda>k. a \<le> k \<and> k < b) (map fst rows)))"
    by (auto simp: dom_map_of_conv_image_fst)
  then show ?thesis
    unfolding mem_scan_def scan_items_def scan_keys_def
    by (simp only: sorted_list_of_set_sort_remdups remdups_remdups)
qed

lemma map_of_filter_key: "map_of (filter (\<lambda>(k, v). k \<notin> K) xs) = map_of xs |` (- K)"
  by (induction xs) (auto simp: restrict_map_def fun_eq_iff)

interpretation mem: kv_backend mem_ops "\<lambda>s. True" mem_view mem_eff mem_pend
proof
  fix s k v e s'
  assume "kv_Put mem_ops k v s = (e, s')"
  then show "(\<forall>x. mem_view s' x = mem_view s x \<or> x \<in> insert k (mem_pend s) \<and> mem_view s' x = ((mem_eff s)(k \<mapsto> v)) x)
      \<and> (e = None \<longrightarrow> True \<and> mem_pend s' \<subseteq> insert k (mem_pend s) \<and> mem_eff s' = (mem_eff s)(k \<mapsto> v))"
    by (auto simp: mem_ops_def mem_eff_def mem_pend_def)
next
  fix s ks e s'
  assume "set ks \<inter> mem_pend s = {}" and d: "kv_BatchDelete mem_ops ks s = (e, s')"
  then have "map_of (mem_buffer s) k = None" if "k \<in> set ks" for k
    using that by (auto simp: mem_pend_def map_of_eq_None_iff)
  then have "mem_eff s' = mem_eff s |` (- set ks)"
    using d by (auto simp: mem_ops_def mem_eff_def map_of_filter_key fun_eq_iff restrict_map_def map_add_def split: option.splits)
  then show "(\<forall>x. mem_view s' x = mem_view s x \<or> x \<in> set ks \<and> mem_view s' x = None)
      \<and> (e = None \<longrightarrow> True \<and> mem_pend s' \<subseteq> mem_pend s \<and> mem_eff s' = mem_eff s |` (- set ks))"
    using d by (auto simp: mem_ops_def mem_pend_def map_of_filter_key restrict_map_def split: if_splits)
next
  fix s k
  assume "k \<notin> mem_pend s"
  then have "map_of (mem_buffer s) k = None" by (simp add: mem_pend_def map_of_eq_None_iff)
  then show "mem_eff s k = mem_view s k" by (simp add: mem_eff_def map_add_def)
qed (auto simp: mem_ops_def mem_eff_def mem_pend_def mem_scan_items finite_dom_map_of split: option.splits)

end
