(* ===== verification/AccountHistKeys.thy ===== *)
theory AccountHistKeys
  imports KvStore PbHelpers
begin

unbundle bit_operations_syntax

text \<open>
  The keys of the account history, \<open>accounthist/keyer/keyer.go\<close>, its facets
  (\<open>account.go\<close>, \<open>account_contract.go\<close>), the two facet factories (\<open>factory.go\<close>) and the ranges of
  \<open>types.go\<close>. A facet is an account, or an account with a contract; a row of a facet is stored under
  its shard and its ordinal, the ordinal complemented so that the newest row comes first.

  Names, protobuf and \<open>PrefixNext\<close> belong to other repositories and are fields of \<open>hist_env\<close>, with
  the documented laws in \<open>hist_env_ok\<close> and \<open>rows_env_ok\<close>. A panic (a key that is too short, a text that is not a name)
  is \<open>None\<close>.
\<close>

section \<open>Environment\<close>

record ActionRow =
  row_Version :: u32
  row_ActionTrace :: ActionTrace
  row_LastDeletedSeq :: u64

record ShardCheckpoint =
  cp_InitialStartBlock :: u64
  cp_TargetStopBlock :: u64
  cp_LastWrittenBlockNum :: u64
  cp_LastWrittenBlockId :: string

record hist_env =
  eos_NameToString :: "u64 \<Rightarrow> string"
  eos_StringToName :: "string \<Rightarrow> u64 option"
  key_PrefixNext :: "bytes \<Rightarrow> bytes"
  marshal_ActionRow :: "ActionRow \<Rightarrow> bytes"
  marshal_ActionRowAppend :: "u64 \<Rightarrow> bytes"
  unmarshal_ActionRow :: "bytes \<Rightarrow> ActionRow option"
  marshal_ShardCheckpoint :: "ShardCheckpoint \<Rightarrow> bytes"
  unmarshal_ShardCheckpoint :: "bytes \<Rightarrow> ShardCheckpoint option"

text \<open>Two names are different texts without parentheses; the next prefix bounds the keys that
  start with a prefix; a message reads back as it was written. In the rows of a set of actions a
  field written again at the end replaces the earlier value.\<close>

definition hist_env_ok :: "hist_env \<Rightarrow> bool" where
  "hist_env_ok env \<longleftrightarrow>
     inj (eos_NameToString env) \<and> (\<forall>n. CHR '')'' \<notin> set (eos_NameToString env n))
     \<and> (\<forall>p x. (\<exists>b\<in>set p. b \<noteq> 255) \<longrightarrow>
          (x < key_PrefixNext env p \<longleftrightarrow> x < p \<or> take (length p) x = p))
     \<and> (\<forall>c. unmarshal_ShardCheckpoint env (marshal_ShardCheckpoint env c) = Some c)"

definition new_ActionRow :: "ActionTrace \<Rightarrow> ActionRow" where
  "new_ActionRow act = \<lparr>row_Version = 0, row_ActionTrace = act, row_LastDeletedSeq = 0\<rparr>"

definition rows_env_ok :: "hist_env \<Rightarrow> ActionTrace set \<Rightarrow> bool" where
  "rows_env_ok env acts \<longleftrightarrow>
     (\<forall>act\<in>acts.
        unmarshal_ActionRow env (marshal_ActionRow env (new_ActionRow act)) = Some (new_ActionRow act)
        \<and> (\<forall>d. unmarshal_ActionRow env (marshal_ActionRow env (new_ActionRow act) @ marshal_ActionRowAppend env d) =
             Some ((new_ActionRow act)\<lparr>row_LastDeletedSeq := d\<rparr>)))"

section \<open>keyer\<close>

definition PrefixAccount :: u8 where "PrefixAccount = 2"
definition PrefixAccountCheckpoint :: u8 where "PrefixAccountCheckpoint = 3"
definition PrefixAccountContract :: u8 where "PrefixAccountContract = 4"
definition PrefixAccountContractCheckpoint :: u8 where "PrefixAccountContractCheckpoint = 5"

lemmas prefix_defs = PrefixAccount_def PrefixAccountCheckpoint_def PrefixAccountContract_def
  PrefixAccountContractCheckpoint_def

definition EncodeAccountWithPrefixKey :: "u8 \<Rightarrow> u64 \<Rightarrow> bytes" where
  "EncodeAccountWithPrefixKey prefix account = prefix # PutUint64 account"

definition EncodeAccountContractPrefixKey :: "u64 \<Rightarrow> u64 \<Rightarrow> bytes" where
  "EncodeAccountContractPrefixKey account contract =
     PrefixAccountContract # PutUint64 account @ PutUint64 contract"

definition EncodeAccountContractKey :: "u64 \<Rightarrow> u64 \<Rightarrow> u8 \<Rightarrow> u64 \<Rightarrow> bytes" where
  "EncodeAccountContractKey account contract shardNum ordinalNumber =
     PrefixAccountContract # PutUint64 account @ PutUint64 contract
       @ shardNum # PutUint64 (NOT ordinalNumber)"

definition DecodeAccountContractKeySeqNum :: "bytes \<Rightarrow> (u64 \<times> u64 \<times> u8 \<times> u64) option" where
  "DecodeAccountContractKeySeqNum key =
     (if length key < 26 then None
      else Some (Uint64 (drop 1 key), Uint64 (drop 9 key), key ! 17, NOT (Uint64 (drop 18 key))))"

definition EncodeAccountPrefixKey :: "u64 \<Rightarrow> bytes" where
  "EncodeAccountPrefixKey account = PrefixAccount # PutUint64 account"

definition EncodeAccountKey :: "u64 \<Rightarrow> u8 \<Rightarrow> u64 \<Rightarrow> bytes" where
  "EncodeAccountKey account shardNum ordinalNumber =
     PrefixAccount # PutUint64 account @ shardNum # PutUint64 (NOT ordinalNumber)"

definition DecodeAccountKeySeqNum :: "bytes \<Rightarrow> (u64 \<times> u8 \<times> u64) option" where
  "DecodeAccountKeySeqNum key =
     (if length key < 18 then None
      else Some (Uint64 (drop 1 key), key ! 9, NOT (Uint64 (drop 10 key))))"

definition EncodeAccountCheckpointKey :: "u8 \<Rightarrow> bytes" where
  "EncodeAccountCheckpointKey shardNum = [PrefixAccountCheckpoint, shardNum]"

definition EncodeAccountContractCheckpointKey :: "u8 \<Rightarrow> bytes" where
  "EncodeAccountContractCheckpointKey shardNum = [PrefixAccountContractCheckpoint, shardNum]"

definition DecodeCheckpointKey :: "bytes \<Rightarrow> u8 option" where
  "DecodeCheckpointKey key = (if length key < 2 then None else Some (key ! 1))"

section \<open>Facets\<close>

datatype Facet = AccountFacet u64 | AccountContractKey u64 u64

fun facet_Account :: "Facet \<Rightarrow> u64" where
  "facet_Account (AccountFacet a) = a"
| "facet_Account (AccountContractKey account contract) = account"

fun facet_String :: "hist_env \<Rightarrow> Facet \<Rightarrow> string" where
  "facet_String env (AccountFacet a) = ''account ('' @ eos_NameToString env a @ '')''"
| "facet_String env (AccountContractKey account contract) =
     ''account ('' @ eos_NameToString env account @ '') contract (''
       @ eos_NameToString env contract @ '')''"

fun facet_Row :: "Facet \<Rightarrow> u8 \<Rightarrow> u64 \<Rightarrow> bytes" where
  "facet_Row (AccountFacet a) shard seqData = EncodeAccountKey a shard seqData"
| "facet_Row (AccountContractKey account contract) shard seqData =
     EncodeAccountContractKey account contract shard seqData"

fun facet_Bytes :: "Facet \<Rightarrow> bytes" where
  "facet_Bytes (AccountFacet a) = EncodeAccountPrefixKey a"
| "facet_Bytes (AccountContractKey account contract) = EncodeAccountContractPrefixKey account contract"

section \<open>Facet factories\<close>

datatype FacetFactory = AccountFactory | AccountContractFactory

fun Collection :: "FacetFactory \<Rightarrow> u8" where
  "Collection AccountFactory = PrefixAccount"
| "Collection AccountContractFactory = PrefixAccountContract"

fun NewFacet :: "hist_env \<Rightarrow> FacetFactory \<Rightarrow> ActionTrace \<Rightarrow> u64 \<Rightarrow> Facet option" where
  "NewFacet env AccountFactory act account = Some (AccountFacet account)"
| "NewFacet env AccountContractFactory act account =
     map_option (AccountContractKey account) (eos_StringToName env (act_Account (at_Action act)))"

fun NewCheckpointKey :: "FacetFactory \<Rightarrow> u8 \<Rightarrow> bytes" where
  "NewCheckpointKey AccountFactory shardNum = EncodeAccountCheckpointKey shardNum"
| "NewCheckpointKey AccountContractFactory shardNum = EncodeAccountContractCheckpointKey shardNum"

fun DecodeRow :: "FacetFactory \<Rightarrow> bytes \<Rightarrow> (Facet \<times> u8 \<times> u64) option" where
  "DecodeRow AccountFactory key =
     map_option (\<lambda>(account, shard, seqNum). (AccountFacet account, shard, seqNum))
       (DecodeAccountKeySeqNum key)"
| "DecodeRow AccountContractFactory key =
     map_option (\<lambda>(account, contract, shard, seqNum). (AccountContractKey account contract, shard, seqNum))
       (DecodeAccountContractKeySeqNum key)"

fun ActionFilter :: "FacetFactory \<Rightarrow> ActionTrace \<Rightarrow> bool" where
  "ActionFilter AccountFactory act = True"
| "ActionFilter AccountContractFactory act = (act_Name (at_Action act) = ''transfer'')"

section \<open>Ranges\<close>

definition FacetShardRange :: "hist_env \<Rightarrow> Facet \<Rightarrow> u8 \<Rightarrow> bytes \<times> bytes" where
  "FacetShardRange env facet shard =
     (facet_Row facet shard (-1), key_PrefixNext env (facet_Row facet shard 0))"

definition FacetRangeLowerBound :: "hist_env \<Rightarrow> Facet \<Rightarrow> u8 \<Rightarrow> bytes \<times> bytes" where
  "FacetRangeLowerBound env facet lowShardNum =
     (facet_Row facet lowShardNum (-1), key_PrefixNext env (facet_Row facet 255 0))"

section \<open>Lemmas\<close>

text \<open>The facets a factory makes.\<close>

fun facet_of :: "FacetFactory \<Rightarrow> Facet \<Rightarrow> bool" where
  "facet_of AccountFactory (AccountFacet _) = True"
| "facet_of AccountContractFactory (AccountContractKey _ _) = True"
| "facet_of _ _ = False"

lemma NewFacet_of: "NewFacet env F act a = Some f \<Longrightarrow> facet_of F f"
  by (cases F) auto

lemmas key_defs = EncodeAccountKey_def EncodeAccountContractKey_def EncodeAccountPrefixKey_def
  EncodeAccountContractPrefixKey_def

lemma facet_Row_eq: "facet_Row f s n = facet_Bytes f @ s # PutUint64 (NOT n)"
  by (cases f) (simp_all add: key_defs)

lemma length_facet_Bytes: "facet_of F f \<Longrightarrow> facet_of F g \<Longrightarrow> length (facet_Bytes f) = length (facet_Bytes g)"
  by (cases F; cases f; cases g) (simp_all add: key_defs)

lemma facet_Bytes_inject [simp]: "facet_Bytes f = facet_Bytes g \<longleftrightarrow> f = g"
  by (cases f; cases g) (auto simp: key_defs prefix_defs)

lemma hd_facet_Row: "facet_of F f \<Longrightarrow> hd (facet_Row f s n) = Collection F" "facet_Row f s n \<noteq> []"
  by (cases F; cases f; simp add: key_defs) (cases f; simp add: key_defs)

lemma facet_Row_less:
  assumes "facet_of F f" "facet_of F g"
  shows "facet_Row f s n < facet_Row g t m \<longleftrightarrow>
    facet_Bytes f < facet_Bytes g \<or> f = g \<and> (s < t \<or> s = t \<and> m < n)"
  using list_less_append [OF length_facet_Bytes [OF assms], of "s # PutUint64 (NOT n)" "t # PutUint64 (NOT m)"]
  by (simp add: facet_Row_eq)

lemma facet_Row_inject [simp]: "facet_Row f s n = facet_Row g t m \<longleftrightarrow> f = g \<and> s = t \<and> n = m"
  by (cases f; cases g) (auto simp: key_defs prefix_defs)

lemma facet_Row_le:
  assumes "facet_of F f" "facet_of F g"
  shows "facet_Row f s n \<le> facet_Row g t m \<longleftrightarrow>
    facet_Bytes f < facet_Bytes g \<or> f = g \<and> (s < t \<or> s = t \<and> m \<le> n)"
  using facet_Row_less [OF assms] by (auto simp: le_less)

text \<open>The end key of the two ranges, against the rows of the same collection.\<close>

lemma less_PrefixNext_Row:
  assumes "hist_env_ok env" "facet_of F f" "facet_of F g"
  shows "facet_Row g t m < key_PrefixNext env (facet_Row f s 0) \<longleftrightarrow>
    facet_Bytes g < facet_Bytes f \<or> g = f \<and> t \<le> s"
proof -
  have "\<exists>b\<in>set (facet_Row f s 0). b \<noteq> 255" by (cases f) (simp_all add: key_defs prefix_defs)
  then have "facet_Row g t m < key_PrefixNext env (facet_Row f s 0) \<longleftrightarrow>
      facet_Row g t m < facet_Row f s 0 \<or> take (length (facet_Row f s 0)) (facet_Row g t m) = facet_Row f s 0"
    using assms(1) unfolding hist_env_ok_def by blast
  moreover have "length (facet_Row f s 0) = length (facet_Row g t m)"
    using length_facet_Bytes [OF assms(2,3)] by (simp add: facet_Row_eq)
  ultimately show ?thesis
    by (auto simp: facet_Row_less [OF assms(3,2)] word_neq_0_conv)
qed

lemma in_FacetShardRange:
  assumes "hist_env_ok env" "facet_of F f" "facet_of F g" "FacetShardRange env f s = (a, b)"
  shows "a \<le> facet_Row g t m \<and> facet_Row g t m < b \<longleftrightarrow> g = f \<and> t = s"
  using assms(4) facet_Row_le [OF assms(2,3), of s "- 1" t m] less_PrefixNext_Row [OF assms(1-3), of t m s]
  by (auto simp: FacetShardRange_def)

lemma u8_le_255: "(t :: u8) \<le> 255"
proof -
  have "unat t < 256" by (rule order_less_le_trans [OF unsigned_less]) simp
  then show ?thesis by (simp add: word_le_nat_alt)
qed

lemma in_FacetRangeLowerBound:
  assumes "hist_env_ok env" "facet_of F f" "facet_of F g" "FacetRangeLowerBound env f s = (a, b)"
  shows "a \<le> facet_Row g t m \<and> facet_Row g t m < b \<longleftrightarrow> g = f \<and> s \<le> t"
  using assms(4) facet_Row_le [OF assms(2,3), of s "- 1" t m] less_PrefixNext_Row [OF assms(1-3), of t m 255]
    u8_le_255 [of t]
  by (auto simp: FacetRangeLowerBound_def)

lemma DecodeRow_facet_Row: "facet_of F f \<Longrightarrow> DecodeRow F (facet_Row f s n) = Some (f, s, n)"
  by (cases F; cases f)
    (simp_all add: key_defs DecodeAccountKeySeqNum_def DecodeAccountContractKeySeqNum_def nth_append)

text \<open>Decoding the key of a row gives back its facet, its shard and its ordinal, for both
  factories; a key too short to be a row makes the decoder panic.\<close>

theorem DecodeRow_Row:
  assumes "facet_of F f"
  shows "DecodeRow F (facet_Row f s n) = Some (f, s, n) \<and> DecodeRow F (take 17 (facet_Row f s n)) = None"
  using assms DecodeRow_facet_Row [OF assms] by (cases F; cases f)
    (simp_all add: key_defs DecodeAccountKeySeqNum_def DecodeAccountContractKeySeqNum_def)

theorem DecodeRow_Row_witness:
  "DecodeRow AccountContractFactory (facet_Row (AccountContractKey 7 9) 1 5) = Some (AccountContractKey 7 9, 1, 5)"
  using DecodeRow_Row [of AccountContractFactory "AccountContractKey 7 9" 1 5] by simp

section \<open>An environment that keeps the laws\<close>

fun next_prefix :: "bytes \<Rightarrow> bytes" where
  "next_prefix [] = []"
| "next_prefix (b # bs) = (if list_all (\<lambda>x. x = 255) bs then [b + 1] else b # next_prefix bs)"

definition sample_act :: "u64 \<Rightarrow> ActionTrace" where
  "sample_act g =
     \<lparr>at_Receiver = ''a'', at_Receipt = Some \<lparr>rcpt_Receiver = ''a'', rcpt_GlobalSequence = g, rcpt_RecvSequence = 0\<rparr>,
      at_Action = \<lparr>act_ref = 0, act_Account = ''b'', act_Name = ''transfer'', act_Authorization = [],
        act_JsonData = '''', act_RawData = []\<rparr>,
      at_Console = '''', at_ActionOrdinal = 0, at_CreatorActionOrdinal = 0, at_ClosestUnnotifiedAncestorActionOrdinal = 0, at_ExecutionIndex = 0, at_FilteringMatched = False,
      at_FilteringMatchedSystemActionFilter = False\<rparr>"

definition sample_hist_env :: hist_env where
  "sample_hist_env =
     \<lparr>eos_NameToString = (\<lambda>n. hex_EncodeToString (PutUint64 n)),
      eos_StringToName = (\<lambda>s. case s of [c] \<Rightarrow> Some (of_nat (of_char c)) | _ \<Rightarrow> None),
      key_PrefixNext = next_prefix,
      marshal_ActionRow = (\<lambda>r. case at_Receipt (row_ActionTrace r) of
         None \<Rightarrow> [] | Some rc \<Rightarrow> PutUint64 (rcpt_GlobalSequence rc)),
      marshal_ActionRowAppend = PutUint64,
      unmarshal_ActionRow = (\<lambda>bs. if length bs = 8 then Some (new_ActionRow (sample_act (Uint64 bs)))
         else if length bs = 16
         then Some ((new_ActionRow (sample_act (Uint64 bs)))\<lparr>row_LastDeletedSeq := Uint64 (drop 8 bs)\<rparr>)
         else None),
      marshal_ShardCheckpoint = (\<lambda>c. PutUint64 (cp_InitialStartBlock c) @ PutUint64 (cp_TargetStopBlock c)
         @ PutUint64 (cp_LastWrittenBlockNum c) @ map of_char (cp_LastWrittenBlockId c)),
      unmarshal_ShardCheckpoint = (\<lambda>bs. if length bs < 24 then None
         else Some \<lparr>cp_InitialStartBlock = Uint64 bs, cp_TargetStopBlock = Uint64 (drop 8 bs),
                 cp_LastWrittenBlockNum = Uint64 (drop 16 bs),
                 cp_LastWrittenBlockId = map (\<lambda>b. char_of (unat b)) (drop 24 bs)\<rparr>)\<rparr>"

lemma le_max_bytes:
  assumes "list_all (\<lambda>x. x = 255) bs"
  shows "cs < bs \<or> take (length bs) cs = (bs :: bytes)"
  using assms
proof (induction bs arbitrary: cs)
  case (Cons b bs)
  then show ?case using u8_le_255 by (cases cs) (auto simp: le_less)
qed simp

lemma next_prefix_less:
  assumes "\<exists>b\<in>set p. b \<noteq> 255"
  shows "x < next_prefix p \<longleftrightarrow> x < p \<or> take (length p) x = p"
  using assms
proof (induction p arbitrary: x)
  case (Cons b bs)
  show ?case
  proof (cases "list_all (\<lambda>x. x = 255) bs")
    case True
    then have b: "b \<noteq> 255" using Cons.prems by (auto simp: list_all_iff)
    have "b + 1 \<noteq> 0"
    proof
      assume "b + 1 = 0"
      then have "b = - 1" by (simp add: add_eq_0_iff2)
      with b show False by simp
    qed
    then have lt: "c < b + 1 \<longleftrightarrow> c \<le> b" for c using word_less_pred_iff [of "b + 1" c] by simp
    show ?thesis
    proof (cases x)
      case (Cons c cs)
      then show ?thesis using True le_max_bytes [OF True, of cs] by (auto simp: lt le_less)
    qed (use True in simp)
  next
    case False
    then have "\<exists>b\<in>set bs. b \<noteq> 255" by (auto simp: list_all_iff)
    from Cons.IH [OF this] False show ?thesis by (cases x) auto
  qed
qed simp

lemma char_of_unat_of_char: "char_of (unat (of_char c :: u8)) = c"
proof -
  have "(of_char c :: u8) = of_nat (of_char c)" by (simp add: of_nat_of_char)
  then have "unat (of_char c :: u8) = of_char c mod 256" by (simp only: unat_of_nat) simp
  then show ?thesis by simp
qed

lemma hex_no_paren: "CHR '')'' \<notin> set (hex_EncodeToString bs)"
proof -
  have "hex_val (CHR '')'') = None" by code_simp
  moreover have "hex_DecodeString s = Some bs' \<Longrightarrow> c \<in> set s \<Longrightarrow> hex_val c \<noteq> None" for s bs' c
    by (induction s arbitrary: bs' rule: hex_DecodeString.induct) (auto split: option.splits)
  ultimately show ?thesis using hex_decode_encode by metis
qed

lemma sample_hist_env_ok: "hist_env_ok sample_hist_env"
proof -
  have "inj (\<lambda>n. hex_EncodeToString (PutUint64 n))"
    by (rule injI) (metis PutUint64_inject hex_decode_encode option.inject)
  then show ?thesis
    using next_prefix_less
    by (auto simp: hist_env_ok_def sample_hist_env_def comp_def hex_no_paren char_of_unat_of_char)
qed

lemma sample_rows_env_ok: "rows_env_ok sample_hist_env (range sample_act)"
  by (auto simp: rows_env_ok_def sample_hist_env_def new_ActionRow_def sample_act_def)

end
