(* ===== verification/RWCache.thy ===== *)
theory RWCache
  imports AccountHistKeys "HOL-Library.AList"
begin

text \<open>
  The write cache of the account history, \<open>accounthist/injector/rwcache.go\<close>: puts and deletions
  wait in memory until \<open>FlushPuts\<close> writes them to the backing store, the checkpoints last, so that
  a checkpoint is never durable before the rows it stands for. The operations are again the
  operations of a store (\<open>rwcache_ops\<close>), and the cache over a store that keeps the contract
  \<open>kv_store\<close> keeps the contract \<open>kv_cache\<close>.

  The order in which Go ranges over a map is open: it is the argument \<open>rng\<close>, which only keeps the
  elements. The code ignores an error of a put of the first group, \<open>dropped_error\<close>: the properties
  of a flush say what happens with and without such an error, and the contract of the cache
  is proved over a backing store that accepts all puts (\<open>rw_reliable\<close>).
\<close>

section \<open>Model\<close>

record 's RWCache =
  backing :: 's
  orderedPuts :: "bytes list"
  puts :: "bytes \<rightharpoonup> bytes"
  deletes :: "bytes list"

definition NewRWCache :: "'s \<Rightarrow> 's RWCache" where
  "NewRWCache backingStore = \<lparr>backing = backingStore, orderedPuts = [], puts = Map.empty, deletes = []\<rparr>"

text \<open>\<open>isLastRow\<close> reads the first byte of a key; the keys of the service are not empty.\<close>

definition isLastRow :: "bytes \<Rightarrow> bool" where
  "isLastRow key \<longleftrightarrow>
     (case key of [] \<Rightarrow> False
      | b # _ \<Rightarrow> b = PrefixAccountCheckpoint \<or> b = PrefixAccountContractCheckpoint)"

definition rw_Put :: "bytes \<Rightarrow> bytes \<Rightarrow> 's RWCache \<Rightarrow> kv_error option \<times> 's RWCache" where
  "rw_Put key value c =
     (None, c\<lparr>orderedPuts := (if puts c key = None then orderedPuts c @ [key] else orderedPuts c),
              puts := (puts c)(key \<mapsto> value),
              deletes := removeAll key (deletes c)\<rparr>)"

definition delete_key :: "bytes \<Rightarrow> 's RWCache \<Rightarrow> 's RWCache" where
  "delete_key key c =
     (if puts c key \<noteq> None then c\<lparr>puts := (puts c)(key := None)\<rparr>
      else c\<lparr>deletes := List.insert key (deletes c)\<rparr>)"

definition rw_BatchDelete :: "bytes list \<Rightarrow> 's RWCache \<Rightarrow> kv_error option \<times> 's RWCache" where
  "rw_BatchDelete keys c = (None, fold delete_key keys c)"

fun OrderedPuts ::
  "(bytes \<Rightarrow> bytes \<Rightarrow> 'a \<Rightarrow> kv_error option \<times> 'a) \<Rightarrow> (bytes \<rightharpoonup> bytes) \<Rightarrow> bytes list \<Rightarrow> 'a \<Rightarrow> kv_error option \<times> 'a" where
  "OrderedPuts f m [] a = (None, a)"
| "OrderedPuts f m (key # keys) a =
     (case m key of
        None \<Rightarrow> OrderedPuts f m keys a
      | Some v \<Rightarrow> (case f key v a of (Some e, a') \<Rightarrow> (Some e, a') | (None, a') \<Rightarrow> OrderedPuts f m keys a'))"

text \<open>The function that \<open>FlushPuts\<close> passes to \<open>OrderedPuts\<close>.\<close>

definition put_first ::
  "'s kv_ops \<Rightarrow> bytes \<Rightarrow> bytes \<Rightarrow> (bytes \<times> bytes) list \<times> 's \<Rightarrow> kv_error option \<times> (bytes \<times> bytes) list \<times> 's" where
  "put_first kv key value st =
     (case st of (lastKeys, s) \<Rightarrow>
        if isLastRow key then (None, AList.update key value lastKeys, s)
        else case kv_Put kv key value s of (e, s') \<Rightarrow> (e, lastKeys, s'))"

lemma put_first_simps [simp]:
  "put_first kv key value (lastKeys, s) =
     (if isLastRow key then (None, AList.update key value lastKeys, s)
      else case kv_Put kv key value s of (e, s') \<Rightarrow> (e, lastKeys, s'))"
  by (simp add: put_first_def)

fun put_all :: "'s kv_ops \<Rightarrow> (bytes \<rightharpoonup> bytes) \<Rightarrow> bytes list \<Rightarrow> 's \<Rightarrow> kv_error option \<times> 's" where
  "put_all kv m [] s = (None, s)"
| "put_all kv m (k # ks) s =
     (case kv_Put kv k (the (m k)) s of (Some e, s') \<Rightarrow> (Some e, s') | (None, s') \<Rightarrow> put_all kv m ks s')"

definition rw_FlushPuts ::
  "'s kv_ops \<Rightarrow> (bytes list \<Rightarrow> bytes list) \<Rightarrow> 's RWCache \<Rightarrow> kv_error option \<times> 's RWCache" where
  "rw_FlushPuts kv rng c =
     (case OrderedPuts (put_first kv) (puts c) (orderedPuts c) ([], backing c) of
        (_, lastKeys, s1) \<Rightarrow>
      case kv_FlushPuts kv s1 of
        (Some e, s2) \<Rightarrow> (Some e, c\<lparr>backing := s2\<rparr>)
      | (None, s2) \<Rightarrow>
      case kv_BatchDelete kv (rng (deletes c)) s2 of
        (Some e, s3) \<Rightarrow> (Some e, c\<lparr>backing := s3\<rparr>)
      | (None, s3) \<Rightarrow>
      case put_all kv (map_of lastKeys) (rng (map fst lastKeys)) s3 of
        (Some e, s4) \<Rightarrow> (Some e, c\<lparr>backing := s4\<rparr>)
      | (None, s4) \<Rightarrow>
      case kv_FlushPuts kv s4 of
        (Some e, s5) \<Rightarrow> (Some e, c\<lparr>backing := s5\<rparr>)
      | (None, s5) \<Rightarrow> (None, NewRWCache s5))"

text \<open>The error that \<open>OrderedPuts\<close> returns to \<open>FlushPuts\<close>, which does not read it.\<close>

definition dropped_error :: "'s kv_ops \<Rightarrow> 's RWCache \<Rightarrow> kv_error option" where
  "dropped_error kv c = fst (OrderedPuts (put_first kv) (puts c) (orderedPuts c) ([], backing c))"

definition rwcache_ops :: "'s kv_ops \<Rightarrow> (bytes list \<Rightarrow> bytes list) \<Rightarrow> 's RWCache kv_ops" where
  "rwcache_ops kv rng =
     \<lparr>kv_Put = rw_Put, kv_FlushPuts = rw_FlushPuts kv rng,
      kv_Get = (\<lambda>k c. kv_Get kv k (backing c)),
      kv_Scan = (\<lambda>a b n c. kv_Scan kv a b n (backing c)),
      kv_BatchDelete = rw_BatchDelete\<rparr>"

section \<open>Content of the cache\<close>

definition rw_inv ::
  "('s \<Rightarrow> bool) \<Rightarrow> ('s \<Rightarrow> bytes \<rightharpoonup> bytes) \<Rightarrow> ('s \<Rightarrow> bytes \<rightharpoonup> bytes) \<Rightarrow> ('s \<Rightarrow> bytes set) \<Rightarrow> 's RWCache \<Rightarrow> bool" where
  "rw_inv sinv view eff pend c \<longleftrightarrow>
     sinv (backing c) \<and> eff (backing c) = view (backing c) \<and> pend (backing c) = {}
     \<and> dom (puts c) \<subseteq> set (orderedPuts c) \<and> dom (puts c) \<inter> set (deletes c) = {}"

definition rw_view :: "('s \<Rightarrow> bytes \<rightharpoonup> bytes) \<Rightarrow> 's RWCache \<Rightarrow> bytes \<rightharpoonup> bytes" where
  "rw_view view c = view (backing c)"

definition rw_eff :: "('s \<Rightarrow> bytes \<rightharpoonup> bytes) \<Rightarrow> 's RWCache \<Rightarrow> bytes \<rightharpoonup> bytes" where
  "rw_eff view c = (view (backing c) |` (- set (deletes c))) ++ puts c"

definition rw_pend :: "'s RWCache \<Rightarrow> bytes set" where
  "rw_pend c = dom (puts c)"

lemma rw_eff_apply:
  "rw_eff view c k =
     (case puts c k of Some v \<Rightarrow> Some v | None \<Rightarrow> if k \<in> set (deletes c) then None else view (backing c) k)"
  by (simp add: rw_eff_def map_add_def restrict_map_def split: option.splits)

lemma delete_key_fields [simp]:
  "backing (delete_key k c) = backing c" "orderedPuts (delete_key k c) = orderedPuts c"
  by (simp_all add: delete_key_def)

lemma fold_delete_key_fields [simp]:
  "backing (fold delete_key ks c) = backing c" "orderedPuts (fold delete_key ks c) = orderedPuts c"
  by (induction ks arbitrary: c) simp_all

lemma delete_key_inv: "rw_inv sinv view eff pend c \<Longrightarrow> rw_inv sinv view eff pend (delete_key k c)"
  by (auto simp: rw_inv_def delete_key_def)

lemma fold_delete_key:
  assumes "rw_inv sinv view eff pend c" and "\<forall>k\<in>set ks. k \<in> rw_pend c \<longrightarrow> view (backing c) k = None"
  shows "rw_inv sinv view eff pend (fold delete_key ks c)
    \<and> rw_pend (fold delete_key ks c) \<subseteq> rw_pend c
    \<and> rw_eff view (fold delete_key ks c) = rw_eff view c |` (- set ks)"
  using assms
proof (induction ks arbitrary: c)
  case Nil
  then show ?case by simp
next
  case (Cons k ks)
  have sub: "rw_pend (delete_key k c) \<subseteq> rw_pend c" by (auto simp: rw_pend_def delete_key_def)
  have "rw_eff view (delete_key k c) = rw_eff view c |` (- {k})"
    using Cons.prems by (auto simp: fun_eq_iff rw_eff_apply delete_key_def restrict_map_def rw_pend_def split: option.splits)
  moreover have "\<forall>x\<in>set ks. x \<in> rw_pend (delete_key k c) \<longrightarrow> view (backing (delete_key k c)) x = None"
    using Cons.prems(2) sub by auto
  moreover have "rw_eff view c |` (- {k}) |` (- set ks) = rw_eff view c |` (- set (k # ks))"
    by (auto simp: restrict_map_def fun_eq_iff)
  ultimately show ?case
    using Cons.IH [OF delete_key_inv [OF Cons.prems(1), of k]] sub by (simp add: subset_iff)
qed

section \<open>The cache over a database\<close>

locale rw_store = kv_backend +
  fixes rng :: "bytes list \<Rightarrow> bytes list"
  assumes rng_set: "set (rng ks) = set ks"
begin

lemma put_step:
  assumes "sinv s" and "\<forall>x\<in>pend s. m x = eff s x \<and> Q x" and "m k = Some v" and "Q k"
    and p: "kv_Put kv k v s = (e, s1)"
  shows "\<forall>x. view s1 x = view s x \<or> Q x \<and> view s1 x = m x"
    and "e = None \<Longrightarrow> sinv s1 \<and> eff s1 = (eff s)(k \<mapsto> v) \<and> (\<forall>x\<in>pend s1. m x = eff s1 x \<and> Q x)"
proof -
  note law = put [OF assms(1) p]
  show "\<forall>x. view s1 x = view s x \<or> Q x \<and> view s1 x = m x" using law assms(2-4) by (metis fun_upd_apply insertE)
  show "sinv s1 \<and> eff s1 = (eff s)(k \<mapsto> v) \<and> (\<forall>x\<in>pend s1. m x = eff s1 x \<and> Q x)" if "e = None"
    using law that assms(2-4) by auto
qed

lemma ordered_puts_effect:
  assumes "sinv s" and "\<forall>x\<in>pend s. m x = eff s x \<and> \<not> isLastRow x \<and> x \<in> dom m"
    and "OrderedPuts (put_first kv) m ks (lk, s) = (None, lk', s')"
  shows "sinv s' \<and> eff s' = eff s ++ (m |` {k \<in> set ks. \<not> isLastRow k})
    \<and> map_of lk' = map_of lk ++ (m |` {k \<in> set ks. isLastRow k})
    \<and> (\<forall>x. view s' x = view s x \<or> (\<not> isLastRow x \<and> x \<in> dom m) \<and> view s' x = m x)"
  using assms
proof (induction ks arbitrary: s lk)
  case Nil
  then show ?case by simp
next
  case (Cons k ks)
  show ?case
  proof (cases "m k")
    case None
    then have "m |` {x \<in> set (k # ks). P x} = m |` {x \<in> set ks. P x}" for P
      by (auto simp: restrict_map_def fun_eq_iff)
    then show ?thesis using Cons None by auto
  next
    case (Some v)
    show ?thesis
    proof (cases "isLastRow k")
      case True
      then have "OrderedPuts (put_first kv) m ks (AList.update k v lk, s) = (None, lk', s')"
        using Cons.prems(3) Some by simp
      note IH = Cons.IH [OF Cons.prems(1,2) this, unfolded update_conv']
      have "m |` {x \<in> set (k # ks). \<not> isLastRow x} = m |` {x \<in> set ks. \<not> isLastRow x}"
        "(map_of lk)(k \<mapsto> v) ++ m |` {x \<in> set ks. isLastRow x} = map_of lk ++ m |` {x \<in> set (k # ks). isLastRow x}"
        using True Some by (auto simp: restrict_map_def map_add_def fun_eq_iff split: option.splits)
      with IH show ?thesis by (simp add: fun_upd_def)
    next
      case False
      obtain e1 s1 where p: "kv_Put kv k v s = (e1, s1)" by (metis prod.collapse)
      with Cons.prems(3) Some False have e1: "e1 = None" by (auto split: option.splits)
      have k: "\<not> isLastRow k \<and> k \<in> dom m" using False Some by auto
      note s1 = put_step(2) [OF Cons.prems(1,2) Some k p e1, THEN conjunct1]
        put_step(2) [OF Cons.prems(1,2) Some k p e1, THEN conjunct2, THEN conjunct1]
        put_step(2) [OF Cons.prems(1,2) Some k p e1, THEN conjunct2, THEN conjunct2]
        put_step(1) [OF Cons.prems(1,2) Some k p]
      have "OrderedPuts (put_first kv) m ks (lk, s1) = (None, lk', s')"
        using Cons.prems(3) Some False p e1 by simp
      note IH = Cons.IH [OF s1(1,3) this]
      have "m |` {x \<in> set (k # ks). isLastRow x} = m |` {x \<in> set ks. isLastRow x}"
        "eff s1 ++ m |` {x \<in> set ks. \<not> isLastRow x} = eff s ++ m |` {x \<in> set (k # ks). \<not> isLastRow x}"
        using False Some s1(2) by (auto simp: restrict_map_def map_add_def fun_eq_iff split: option.splits)
      with IH s1(4) show ?thesis by metis
    qed
  qed
qed

lemma put_all_effect:
  assumes "sinv s" and "\<forall>x\<in>pend s. m x = eff s x \<and> x \<in> dom m" and "set ks \<subseteq> dom m"
    and "put_all kv m ks s = (e, s')"
  shows "(e = None \<longrightarrow> sinv s' \<and> eff s' = eff s ++ (m |` set ks))
    \<and> (\<forall>x. view s' x = view s x \<or> x \<in> dom m \<and> view s' x = m x)"
  using assms
proof (induction ks arbitrary: s)
  case Nil
  then show ?case by simp
next
  case (Cons k ks)
  then obtain v where v: "m k = Some v" by auto
  then have "k \<in> dom m" by auto
  obtain e1 s1 where p: "kv_Put kv k v s = (e1, s1)" by (metis prod.collapse)
  note step = put_step [OF Cons.prems(1,2) v \<open>k \<in> dom m\<close> p]
  show ?case
  proof (cases e1)
    case (Some err)
    then show ?thesis using Cons.prems(4) p v step(1) by auto
  next
    case None
    have rest: "put_all kv m ks s1 = (e, s')" using Cons.prems(4) p v None by simp
    note s1 = step(2) [OF None]
    note IH = Cons.IH [OF conjunct1 [OF s1] conjunct2 [OF conjunct2 [OF s1]] _ rest]
    have "eff s1 ++ m |` set ks = eff s ++ m |` set (k # ks)"
      using v s1 by (auto simp: restrict_map_def map_add_def fun_eq_iff split: option.splits)
    with IH Cons.prems(3) step(1) show ?thesis by (metis insert_subset list.simps(15))
  qed
qed

text \<open>The five steps of a flush: before the deletions are done no new checkpoint is visible, and
  once they are done every other row has its final value.\<close>

definition flush_early :: "(bytes \<rightharpoonup> bytes) \<Rightarrow> (bytes \<rightharpoonup> bytes) \<Rightarrow> 'a \<Rightarrow> bool" where
  "flush_early V E s \<longleftrightarrow> (\<forall>k. isLastRow k \<longrightarrow> view s k = V k \<or> view s k = None)
     \<and> (\<forall>k. view s k = V k \<or> view s k = E k)"

definition flush_late :: "(bytes \<rightharpoonup> bytes) \<Rightarrow> (bytes \<rightharpoonup> bytes) \<Rightarrow> 'a \<Rightarrow> bool" where
  "flush_late V E s \<longleftrightarrow> (\<forall>k. \<not> isLastRow k \<longrightarrow> view s k = E k) \<and> (\<forall>k. view s k = V k \<or> view s k = E k)"

lemma rw_flush_stages:
  assumes inv: "rw_inv sinv view eff pend c" and accepted: "dropped_error kv c = None"
    and fl: "rw_FlushPuts kv rng c = (e, c')"
    and V: "V = view (backing c)" and E: "E = rw_eff view c"
  shows "if e = None then c' = NewRWCache (backing c') \<and> sinv (backing c') \<and> pend (backing c') = {}
           \<and> view (backing c') = E \<and> eff (backing c') = E
         else flush_early V E (backing c') \<or> flush_late V E (backing c')"
proof -
  have b: "sinv (backing c)" "eff (backing c) = V" "pend (backing c) = {}"
    and disj: "k \<in> set (deletes c) \<Longrightarrow> puts c k = None" and ord: "dom (puts c) \<subseteq> set (orderedPuts c)" for k
    using inv by (auto simp: rw_inv_def V)
  have E': "E k = (case puts c k of Some v \<Rightarrow> Some v | None \<Rightarrow> if k \<in> set (deletes c) then None else V k)" for k
    by (simp add: E V rw_eff_apply split: option.splits)
  have ED: "k \<in> set (deletes c) \<Longrightarrow> E k = None" for k by (simp add: E' disj)
  obtain lk s1 where o: "OrderedPuts (put_first kv) (puts c) (orderedPuts c) ([], backing c) = (None, lk, s1)"
    using accepted unfolding dropped_error_def by (metis prod.collapse)
  have restr: "puts c |` {k \<in> set (orderedPuts c). P k} = puts c |` {k. P k}" for P
    using ord by (force simp: restrict_map_def fun_eq_iff dom_def subset_iff)
  have s1: "sinv s1" "eff s1 = V ++ puts c |` {k. \<not> isLastRow k}" "map_of lk = puts c |` {k. isLastRow k}"
    "\<forall>x. view s1 x = V x \<or> (\<not> isLastRow x \<and> x \<in> dom (puts c)) \<and> view s1 x = puts c x"
    using ordered_puts_effect [OF b(1) _ o] b by (simp_all add: restr V)
  have eff1: "eff s1 k = (if isLastRow k then V k else case puts c k of Some v \<Rightarrow> Some v | None \<Rightarrow> V k)" for k
    using s1(2) by (simp add: map_add_def restrict_map_def split: option.splits)
  obtain e2 s2 where f1: "kv_FlushPuts kv s1 = (e2, s2)" by (metis prod.collapse)
  note law2 = flush [OF s1(1) f1]
  have early2: "flush_early V E s2"
    using law2 s1(4) unfolding flush_early_def
    by (auto simp: eff1 E' split: option.splits) (metis disj domIff option.distinct(1))+
  note step = fl [unfolded rw_FlushPuts_def o prod.case f1]
  show ?thesis
  proof (cases e2)
    case (Some err)
    then show ?thesis using step early2 by auto
  next
    case None
    with law2 have s2: "sinv s2" "pend s2 = {}" "view s2 = eff s1" "eff s2 = eff s1" by auto
    obtain e3 s3 where d: "kv_BatchDelete kv (rng (deletes c)) s2 = (e3, s3)" by (metis prod.collapse)
    have law3: "\<forall>x. view s3 x = view s2 x \<or> x \<in> set (deletes c) \<and> view s3 x = None"
      "e3 = None \<Longrightarrow> sinv s3 \<and> pend s3 = {} \<and> eff s3 = eff s1 |` (- set (deletes c))"
      using delete [OF s2(1) _ d] s2 by (auto simp: rng_set)
    show ?thesis
    proof (cases e3)
      case (Some err)
      have "flush_early V E s3"
        using early2 law3(1) ED unfolding flush_early_def by metis
      then show ?thesis using step None Some d by auto
    next
      case N3: None
      note s3 = law3(2) [OF N3]
      have view3: "view s3 k = (eff s1 |` (- set (deletes c))) k" for k
        using clean [of s3 k] s3 by simp
      have dom_lk: "set (rng (map fst lk)) = dom (map_of lk)" by (simp add: rng_set dom_map_of_conv_image_fst)
      obtain e4 s4 where p: "put_all kv (map_of lk) (rng (map fst lk)) s3 = (e4, s4)" by (metis prod.collapse)
      have s4: "e4 = None \<Longrightarrow> sinv s4 \<and> eff s4 = eff s3 ++ map_of lk"
        "\<forall>x. view s4 x = view s3 x \<or> x \<in> dom (map_of lk) \<and> view s4 x = map_of lk x"
        using put_all_effect [OF _ _ _ p] s3 dom_lk by (auto simp: restrict_map_def dom_def fun_eq_iff map_add_def split: option.splits)
      have eff4: "eff s4 = E" if "e4 = None"
        using s4(1) [OF that] s3 s1(3) disj
        by (auto simp: fun_eq_iff E' eff1 restrict_map_def map_add_def split: option.splits)
      have "view s3 k = (if isLastRow k then if k \<in> set (deletes c) then None else V k else E k)" for k
        using disj by (auto simp: view3 restrict_map_def eff1 E' split: option.splits)
      moreover have "map_of lk k = (if isLastRow k then puts c k else None)" for k
        using s1(3) by (simp add: restrict_map_def)
      moreover have "puts c k \<noteq> None \<Longrightarrow> E k = puts c k" for k by (auto simp: E')
      ultimately have late4: "flush_late V E s4"
        using s4(2) ED unfolding flush_late_def domIff by metis
      show ?thesis
      proof (cases e4)
        case (Some err)
        then show ?thesis using step None N3 d p late4 by auto
      next
        case N4: None
        obtain e5 s5 where f2: "kv_FlushPuts kv s4 = (e5, s5)" by (metis prod.collapse)
        note law5 = flush [OF conjunct1 [OF s4(1) [OF N4]] f2]
        have "flush_late V E s5" using late4 law5 eff4 [OF N4] unfolding flush_late_def by metis
        then show ?thesis using step None N3 N4 d p f2 law5 eff4
          by (auto simp: NewRWCache_def split: option.splits)
      qed
    qed
  qed
qed

lemma rw_flush_effect:
  assumes inv: "rw_inv sinv view eff pend c" and accepted: "dropped_error kv c = None"
    and fl: "rw_FlushPuts kv rng c = (e, c')"
  shows "(\<forall>k. isLastRow k \<longrightarrow> rw_view view c' k = rw_view view c k \<or> rw_view view c' k = None)
      \<or> (\<forall>k. \<not> isLastRow k \<longrightarrow> rw_view view c' k = rw_eff view c k)" (is ?safe)
    and "\<forall>k. rw_view view c' k = rw_view view c k \<or> rw_view view c' k = rw_eff view c k" (is ?partial)
    and "e = None \<longrightarrow> rw_inv sinv view eff pend c' \<and> rw_pend c' = {}
      \<and> rw_view view c' = rw_eff view c \<and> rw_eff view c' = rw_eff view c" (is ?done)
proof -
  note stages = rw_flush_stages [OF inv accepted fl refl refl]
  show ?done
  proof
    assume "e = None"
    with stages have c: "c' = NewRWCache (backing c')" "sinv (backing c')" "pend (backing c') = {}"
      "view (backing c') = rw_eff view c" "eff (backing c') = rw_eff view c" by auto
    have "puts c' = Map.empty" "deletes c' = []" by (subst c(1), simp add: NewRWCache_def)+
    with c show "rw_inv sinv view eff pend c' \<and> rw_pend c' = {}
      \<and> rw_view view c' = rw_eff view c \<and> rw_eff view c' = rw_eff view c"
      by (simp add: rw_inv_def rw_pend_def rw_view_def rw_eff_def restrict_map_def)
  qed
  with stages show ?safe ?partial
    unfolding flush_early_def flush_late_def rw_view_def by (auto split: if_splits)
qed

end

text \<open>Over a store that accepts all puts the cache is again a store.\<close>

locale rw_reliable = rw_store +
  assumes put_ok: "sinv s \<Longrightarrow> fst (kv_Put kv k v s) = None"
begin

lemma ordered_puts_accepted: "sinv s \<Longrightarrow> fst (OrderedPuts (put_first kv) m ks (lk, s)) = None"
proof (induction ks arbitrary: s lk)
  case (Cons k ks)
  show ?case
  proof (cases "m k = None \<or> isLastRow k")
    case True
    then show ?thesis using Cons by (auto split: option.splits)
  next
    case False
    then obtain v where v: "m k = Some v" "\<not> isLastRow k" by auto
    obtain s1 where p: "kv_Put kv k v s = (None, s1)" using put_ok [OF Cons.prems, of k v] by (metis prod.collapse)
    with put [OF Cons.prems p] v Cons.IH [of s1 lk] show ?thesis by simp
  qed
qed simp

lemma nothing_dropped: "rw_inv sinv view eff pend c \<Longrightarrow> dropped_error kv c = None"
  by (simp add: dropped_error_def ordered_puts_accepted rw_inv_def)

end

sublocale rw_reliable \<subseteq> rw: kv_cache "rwcache_ops kv rng" "rw_inv sinv view eff pend" "rw_view view" "rw_eff view" rw_pend
proof
  fix s k v e s'
  assume inv: "rw_inv sinv view eff pend s"
  show "finite (dom (rw_view view s))"
    using inv finite_view by (simp add: rw_inv_def rw_view_def)
  assume "kv_Put (rwcache_ops kv rng) k v s = (e, s')"
  then have e: "e = None" and s': "s' = snd (rw_Put k v s)" by (simp_all add: rwcache_ops_def rw_Put_def)
  have "rw_inv sinv view eff pend s'" using inv by (auto simp: s' rw_Put_def rw_inv_def)
  moreover have "rw_pend s' = insert k (rw_pend s)" by (simp add: s' rw_Put_def rw_pend_def)
  moreover have "rw_eff view s' = (rw_eff view s)(k \<mapsto> v)"
    by (auto simp: fun_eq_iff s' rw_eff_apply rw_Put_def split: option.splits)
  moreover have "rw_view view s' = rw_view view s" by (simp add: s' rw_Put_def rw_view_def)
  ultimately show "(\<forall>x. rw_view view s' x = rw_view view s x
        \<or> x \<in> insert k (rw_pend s) \<and> rw_view view s' x = ((rw_eff view s)(k \<mapsto> v)) x)
      \<and> (e = None \<longrightarrow> rw_inv sinv view eff pend s' \<and> rw_pend s' \<subseteq> insert k (rw_pend s)
        \<and> rw_eff view s' = (rw_eff view s)(k \<mapsto> v))" by simp
next
  fix s e s'
  assume inv: "rw_inv sinv view eff pend s" and "kv_FlushPuts (rwcache_ops kv rng) s = (e, s')"
  then have fl: "rw_FlushPuts kv rng s = (e, s')" by (simp add: rwcache_ops_def)
  from rw_flush_effect(2,3) [OF inv nothing_dropped [OF inv] fl]
  show "(\<forall>x. rw_view view s' x = rw_view view s x \<or> rw_view view s' x = rw_eff view s x)
    \<and> (e = None \<longrightarrow> rw_inv sinv view eff pend s' \<and> rw_pend s' = {} \<and> rw_view view s' = rw_eff view s
      \<and> rw_eff view s' = rw_eff view s)" by simp
next
  fix s ks e s'
  assume inv: "rw_inv sinv view eff pend s" and p: "\<forall>k\<in>set ks. k \<in> rw_pend s \<longrightarrow> rw_view view s k = None"
    and "kv_BatchDelete (rwcache_ops kv rng) ks s = (e, s')"
  then have s': "s' = fold delete_key ks s" by (simp add: rwcache_ops_def rw_BatchDelete_def)
  from fold_delete_key [OF inv] p
  show "rw_view view s' = rw_view view s
    \<and> (e = None \<longrightarrow> rw_inv sinv view eff pend s' \<and> rw_pend s' \<subseteq> rw_pend s
      \<and> rw_eff view s' = rw_eff view s |` (- set ks))"
    by (simp add: rw_view_def s')
next
  fix s ks e s'
  assume inv: "rw_inv sinv view eff pend s" and p: "set ks \<inter> rw_pend s = {}"
    and "kv_BatchDelete (rwcache_ops kv rng) ks s = (e, s')"
  then have s': "s' = fold delete_key ks s" by (simp add: rwcache_ops_def rw_BatchDelete_def)
  from fold_delete_key [OF inv, of ks] p
  show "(\<forall>x. rw_view view s' x = rw_view view s x \<or> x \<in> set ks \<and> rw_view view s' x = None)
    \<and> (e = None \<longrightarrow> rw_inv sinv view eff pend s' \<and> rw_pend s' \<subseteq> rw_pend s
      \<and> rw_eff view s' = rw_eff view s |` (- set ks))"
    by (auto simp: rw_view_def s')
next
  fix s k v e s'
  assume "kv_Put (rwcache_ops kv rng) k v s = (e, s')"
  then show "rw_view view s' = rw_view view s" by (auto simp: rwcache_ops_def rw_Put_def rw_view_def)
next
  fix s k r
  assume "rw_inv sinv view eff pend s" and "kv_Get (rwcache_ops kv rng) k s = r"
  then show "(\<forall>v. r = Inr v \<longrightarrow> rw_view view s k = Some v) \<and> (r = Inl KvNotFound \<longrightarrow> rw_view view s k = None)"
    using get [of "backing s" k] by (simp add: rwcache_ops_def rw_view_def rw_inv_def)
next
  fix s a b n items e
  assume "rw_inv sinv view eff pend s" and "kv_Scan (rwcache_ops kv rng) a b n s = (items, e)"
  then show "if e = None then items = limited n (scan_items (rw_view view s) a b)
      else \<exists>j. items = take j (scan_items (rw_view view s) a b)"
    using scan [of "backing s" a b n] by (simp add: rwcache_ops_def rw_view_def rw_inv_def)
qed

interpretation memrw: rw_reliable mem_ops "\<lambda>s. True" mem_view mem_eff mem_pend rev
  by unfold_locales (simp_all add: mem_ops_def)

section \<open>Properties\<close>

datatype kv_write = WPut bytes bytes | WDelete "bytes list"

fun apply_write :: "kv_write \<Rightarrow> (bytes \<rightharpoonup> bytes) \<Rightarrow> (bytes \<rightharpoonup> bytes)" where
  "apply_write (WPut k v) m = m(k \<mapsto> v)"
| "apply_write (WDelete ks) m = m |` (- set ks)"

fun rw_write :: "kv_write \<Rightarrow> 's RWCache \<Rightarrow> 's RWCache" where
  "rw_write (WPut k v) c = snd (rw_Put k v c)"
| "rw_write (WDelete ks) c = snd (rw_BatchDelete ks c)"

fun deleted_keys :: "kv_write \<Rightarrow> bytes set" where
  "deleted_keys (WPut k v) = {}"
| "deleted_keys (WDelete ks) = set ks"

fun put_keys :: "kv_write \<Rightarrow> bytes set" where
  "put_keys (WPut k v) = {k}"
| "put_keys (WDelete ks) = {}"

text \<open>What the writes mean to the cache, over the rows \<open>V\<close> of the last flush: the rows and the keys of
  the pending puts. To delete a key with a pending put is to take the put back, which uncovers the row
  of the last flush.\<close>

definition delete_over :: "(bytes \<rightharpoonup> bytes) \<Rightarrow> bytes \<Rightarrow> (bytes \<rightharpoonup> bytes) \<times> bytes set \<Rightarrow> (bytes \<rightharpoonup> bytes) \<times> bytes set" where
  "delete_over V k = (\<lambda>(m, P). if k \<in> P then (m(k := V k), P - {k}) else (m(k := None), P))"

fun write_over :: "(bytes \<rightharpoonup> bytes) \<Rightarrow> kv_write \<Rightarrow> (bytes \<rightharpoonup> bytes) \<times> bytes set \<Rightarrow> (bytes \<rightharpoonup> bytes) \<times> bytes set" where
  "write_over V (WPut k v) mP = ((fst mP)(k \<mapsto> v), insert k (snd mP))"
| "write_over V (WDelete ks) mP = fold (delete_over V) ks mP"

definition cache_state :: "('s \<Rightarrow> bytes \<rightharpoonup> bytes) \<Rightarrow> 's RWCache \<Rightarrow> (bytes \<rightharpoonup> bytes) \<times> bytes set" where
  "cache_state view c = (rw_eff view c, rw_pend c)"

lemma delete_key_state:
  assumes "rw_inv sinv view eff pend c"
  shows "cache_state view (delete_key k c) = delete_over (view (backing c)) k (cache_state view c)"
  using assms
  by (auto simp: cache_state_def delete_over_def delete_key_def rw_inv_def rw_pend_def rw_eff_apply fun_eq_iff split: option.splits)

lemma delete_keys_state:
  assumes "rw_inv sinv view eff pend c"
  shows "rw_inv sinv view eff pend (fold delete_key ks c)
    \<and> cache_state view (fold delete_key ks c) = fold (delete_over (view (backing c))) ks (cache_state view c)"
  using assms by (induction ks arbitrary: c) (auto simp: delete_key_inv delete_key_state)

lemma write_state:
  assumes "rw_inv sinv view eff pend c"
  shows "rw_inv sinv view eff pend (rw_write w c) \<and> backing (rw_write w c) = backing c
    \<and> cache_state view (rw_write w c) = write_over (view (backing c)) w (cache_state view c)"
proof (cases w)
  case (WPut k v)
  then show ?thesis using assms
    by (auto simp: rw_Put_def rw_inv_def cache_state_def rw_pend_def rw_eff_apply fun_eq_iff split: option.splits)
next
  case (WDelete ks)
  then show ?thesis using delete_keys_state [OF assms] by (simp add: rw_BatchDelete_def)
qed

lemma writes_state:
  assumes "rw_inv sinv view eff pend c"
  shows "rw_inv sinv view eff pend (fold rw_write ws c) \<and> backing (fold rw_write ws c) = backing c
    \<and> cache_state view (fold rw_write ws c) = fold (write_over (view (backing c))) ws (cache_state view c)"
  using assms
proof (induction ws arbitrary: c)
  case (Cons w ws)
  show ?case using write_state [OF Cons.prems, of w] Cons.IH [of "rw_write w c"] by auto
qed simp

text \<open>Where no put that is taken back covers an older row, this is the plain meaning of the writes.\<close>

lemma delete_over_plain:
  assumes "\<forall>k \<in> P \<inter> set ks. V k = None"
  shows "fst (fold (delete_over V) ks (m, P)) = m |` (- set ks) \<and> snd (fold (delete_over V) ks (m, P)) \<subseteq> P"
  using assms
proof (induction ks arbitrary: m P)
  case (Cons k ks)
  have *: "delete_over V k (m, P) = (m(k := None), P - {k})"
    using Cons.prems by (auto simp: delete_over_def)
  have m: "m(k := None) |` (- set ks) = m |` (- set (k # ks))" by (auto simp: restrict_map_def fun_eq_iff)
  have "fst (fold (delete_over V) ks (m(k := None), P - {k})) = m(k := None) |` (- set ks)
      \<and> snd (fold (delete_over V) ks (m(k := None), P - {k})) \<subseteq> P - {k}"
    using Cons.prems by (intro Cons.IH) auto
  then show ?case unfolding fold_simps * m by blast
qed (simp add: restrict_map_def)

lemma write_over_plain:
  assumes "\<forall>k \<in> (P \<union> \<Union> (put_keys ` set ws)) \<inter> \<Union> (deleted_keys ` set ws). V k = None"
  shows "fst (fold (write_over V) ws (m, P)) = fold apply_write ws m"
  using assms
proof (induction ws arbitrary: m P)
  case (Cons w ws)
  have "fst (write_over V w (m, P)) = apply_write w m \<and> snd (write_over V w (m, P)) \<subseteq> P \<union> put_keys w"
  proof (cases w)
    case (WDelete ks)
    then show ?thesis using delete_over_plain [of P ks V m] Cons.prems by auto
  qed auto
  then obtain P' where "write_over V w (m, P) = (apply_write w m, P')" "P' \<subseteq> P \<union> put_keys w" by (metis prod.collapse)
  then show ?case using Cons.IH [of P'] Cons.prems by fastforce
qed simp

lemma new_cache_state: "cache_state view (NewRWCache s) = (view s, {})"
  by (simp add: cache_state_def NewRWCache_def rw_eff_def rw_pend_def restrict_map_def)

context rw_store
begin

lemma new_cache_inv: "sinv s \<Longrightarrow> pend s = {} \<Longrightarrow> rw_inv sinv view eff pend (NewRWCache s)"
  using clean by (auto simp: rw_inv_def NewRWCache_def)

lemma flush_after_writes:
  assumes "sinv s" and "pend s = {}" and "dropped_error kv (fold rw_write ws (NewRWCache s)) = None"
    and "rw_FlushPuts kv rng (fold rw_write ws (NewRWCache s)) = (None, c')"
  shows "view (backing c') = fst (fold (write_over (view s)) ws (view s, {}))"
proof -
  note w = writes_state [OF new_cache_inv [OF assms(1,2)], of ws]
  have b: "backing (NewRWCache s) = s" by (simp add: NewRWCache_def)
  have "fst (cache_state view (fold rw_write ws (NewRWCache s))) = fst (fold (write_over (view s)) ws (view s, {}))"
    using w unfolding new_cache_state b by simp
  then have "rw_eff view (fold rw_write ws (NewRWCache s)) = fst (fold (write_over (view s)) ws (view s, {}))"
    by (simp add: cache_state_def)
  then show ?thesis using rw_flush_effect(3) [OF conjunct1 [OF w] assms(3,4)] by (simp add: rw_view_def)
qed

end

text \<open>C20: a flush that succeeds, and whose puts the backing store all accepted, makes the store hold what
  the writes since the last flush mean to the cache when they are applied one by one, whatever the
  order in which the flush replays them: a put sets the row, a deletion removes it, and a deletion of
  a key with a pending put takes the put back. When none of the puts that are taken back covers an
  older row, that is what the writes do to a plain map.\<close>

theorem rwcache_flush_applies_writes:
  assumes "rw_store kv sinv view eff pend rng" and "sinv s" and "pend s = {}"
    and "dropped_error kv (fold rw_write ws (NewRWCache s)) = None"
    and "rw_FlushPuts kv rng (fold rw_write ws (NewRWCache s)) = (None, c')"
  shows "view (backing c') = fst (fold (write_over (view s)) ws (view s, {}))
    \<and> ((\<forall>k \<in> \<Union> (put_keys ` set ws) \<inter> \<Union> (deleted_keys ` set ws). view s k = None)
       \<longrightarrow> view (backing c') = fold apply_write ws (view s))"
  using rw_store.flush_after_writes [OF assms] write_over_plain [of "{}" ws "view s" "view s"] by auto

definition sample_writes :: "kv_write list" where
  "sample_writes = [WPut [3, 0] [9], WPut [2, 1] [5], WPut [2, 2] [6], WDelete [[2, 1], [2, 0]]]"

definition sample_mem :: mem_store where
  "sample_mem = \<lparr>mem_rows = [([2, 0], [4])], mem_buffer = []\<rparr>"

theorem rwcache_flush_applies_writes_witness:
  "\<exists>c'. rw_FlushPuts mem_ops rev (fold rw_write sample_writes (NewRWCache sample_mem)) = (None, c')
    \<and> mem_view (backing c') [2, 2] = Some [6] \<and> mem_view (backing c') [2, 0] = None
    \<and> mem_view (backing c') [2, 1] = None"
proof -
  let ?r = "rw_FlushPuts mem_ops rev (fold rw_write sample_writes (NewRWCache sample_mem))"
  have "fst ?r = None" by code_simp
  then have r: "?r = (None, snd ?r)" by (metis prod.collapse)
  have 1: "mem_pend sample_mem = {}" by (simp add: mem_pend_def sample_mem_def)
  have 2: "\<forall>k \<in> \<Union> (put_keys ` set sample_writes) \<inter> \<Union> (deleted_keys ` set sample_writes). mem_view sample_mem k = None"
    by (auto simp: sample_writes_def sample_mem_def)
  have 3: "dropped_error mem_ops (fold rw_write sample_writes (NewRWCache sample_mem)) = None" by code_simp
  note rwcache_flush_applies_writes [OF memrw.rw_store_axioms TrueI 1 3 r]
  from this [THEN conjunct2, rule_format, OF 2 [rule_format]]
  have "mem_view (backing (snd ?r)) = fold apply_write sample_writes (mem_view sample_mem)" .
  with r show ?thesis by (intro exI [of _ "snd ?r"]) (simp add: sample_writes_def sample_mem_def restrict_map_def)
qed

text \<open>C21: as long as the backing store accepts the puts of the rows, a checkpoint never outruns the rows it
  stands for, whatever a flush of the write cache returns and wherever it stops: when a flush of the
  backing store, the deletions or the put of a checkpoint fail, either no new checkpoint is visible in
  the backing store, or every other row has the value of the flushed writes.\<close>

theorem rwcache_checkpoint_last:
  assumes "rw_store kv sinv view eff pend rng" and "rw_inv sinv view eff pend c"
    and "dropped_error kv c = None" and "rw_FlushPuts kv rng c = (e, c')"
  shows "(\<forall>k. isLastRow k \<longrightarrow> view (backing c') k = view (backing c) k \<or> view (backing c') k = None)
    \<or> (\<forall>k. \<not> isLastRow k \<longrightarrow> view (backing c') k = rw_eff view c k)"
  using rw_store.rw_flush_effect(1) [OF assms] unfolding rw_view_def .

theorem rwcache_checkpoint_last_witness:
  "(let c = fold rw_write sample_writes (NewRWCache sample_mem);
        c' = snd (rw_FlushPuts mem_ops rev c)
    in (mem_view (backing c') [3, 0] = mem_view (backing c) [3, 0] \<or> mem_view (backing c') [3, 0] = None)
       \<or> mem_view (backing c') [2, 2] = rw_eff mem_view c [2, 2])"
proof -
  define c where "c = fold rw_write sample_writes (NewRWCache sample_mem)"
  have "mem_pend sample_mem = {}" by (simp add: mem_pend_def sample_mem_def)
  from memrw.new_cache_inv [OF TrueI this] have inv: "rw_inv (\<lambda>s. True) mem_view mem_eff mem_pend c"
    unfolding c_def by (rule writes_state [THEN conjunct1])
  have l: "isLastRow [3, 0]" "\<not> isLastRow [2, 2]" by code_simp+
  define d where "d = snd (rw_FlushPuts mem_ops rev c)"
  have "rw_FlushPuts mem_ops rev c = (fst (rw_FlushPuts mem_ops rev c), d)" by (simp add: d_def)
  from rwcache_checkpoint_last [OF memrw.rw_store_axioms inv memrw.nothing_dropped [OF inv] this]
  have "(mem_view (backing d) [3, 0] = mem_view (backing c) [3, 0] \<or> mem_view (backing d) [3, 0] = None)
      \<or> mem_view (backing d) [2, 2] = rw_eff mem_view c [2, 2]"
  proof
    assume "\<forall>k. isLastRow k \<longrightarrow> mem_view (backing d) k = mem_view (backing c) k \<or> mem_view (backing d) k = None"
    from this [rule_format, OF l(1)] show ?thesis by (rule disjI1)
  next
    assume "\<forall>k. \<not> isLastRow k \<longrightarrow> mem_view (backing d) k = rw_eff mem_view c k"
    from this [rule_format, OF l(2)] show ?thesis by (rule disjI2)
  qed
  then show ?thesis unfolding Let_def c_def d_def .
qed

text \<open>A store may reject a put: it stays usable, and at most the row of the rejected put is affected.\<close>

locale rw_fallible = rw_store +
  assumes put_rejected: "sinv s \<Longrightarrow> kv_Put kv k v s = (Some e, s') \<Longrightarrow>
      sinv s' \<and> pend s' \<subseteq> insert k (pend s) \<and> (\<forall>x. x \<noteq> k \<longrightarrow> eff s' x = eff s x)"
begin

lemma restrict_map_dom: "m |` dom m = m"
  by (auto simp: restrict_map_def fun_eq_iff domIff)

lemma ordered_puts_rejected:
  assumes "sinv s" and "OrderedPuts (put_first kv) m ks (lk, s) = (Some e, lk', s')"
  shows "\<exists>n<length ks. m (ks ! n) \<noteq> None \<and> \<not> isLastRow (ks ! n) \<and> sinv s'
    \<and> (\<forall>x. x \<noteq> ks ! n \<longrightarrow> eff s' x = (if x \<in> set (take n ks) \<and> m x \<noteq> None \<and> \<not> isLastRow x then m x else eff s x))
    \<and> (\<forall>x. map_of lk' x = (if x \<in> set (take n ks) \<and> m x \<noteq> None \<and> isLastRow x then m x else map_of lk x))"
  using assms
proof (induction ks arbitrary: s lk)
  case (Cons k ks)
  consider (skip) "m k = None" | (last) v where "m k = Some v" "isLastRow k" | (row) v where "m k = Some v" "\<not> isLastRow k" by blast
  then show ?case
  proof cases
    case skip
    then obtain n where "n < length ks" "m (ks ! n) \<noteq> None \<and> \<not> isLastRow (ks ! n) \<and> sinv s'
        \<and> (\<forall>x. x \<noteq> ks ! n \<longrightarrow> eff s' x = (if x \<in> set (take n ks) \<and> m x \<noteq> None \<and> \<not> isLastRow x then m x else eff s x))
        \<and> (\<forall>x. map_of lk' x = (if x \<in> set (take n ks) \<and> m x \<noteq> None \<and> isLastRow x then m x else map_of lk x))"
      using Cons.IH [OF Cons.prems(1), of lk] Cons.prems(2) by auto
    then show ?thesis using skip by (intro exI [of _ "Suc n"]) auto
  next
    case last
    then have "OrderedPuts (put_first kv) m ks (AList.update k v lk, s) = (Some e, lk', s')" using Cons.prems(2) by simp
    from Cons.IH [OF Cons.prems(1) this] obtain n where "n < length ks" "m (ks ! n) \<noteq> None \<and> \<not> isLastRow (ks ! n) \<and> sinv s'
        \<and> (\<forall>x. x \<noteq> ks ! n \<longrightarrow> eff s' x = (if x \<in> set (take n ks) \<and> m x \<noteq> None \<and> \<not> isLastRow x then m x else eff s x))
        \<and> (\<forall>x. map_of lk' x = (if x \<in> set (take n ks) \<and> m x \<noteq> None \<and> isLastRow x then m x else map_of (AList.update k v lk) x))"
      by blast
    then show ?thesis using last by (intro exI [of _ "Suc n"]) (auto simp: update_conv')
  next
    case row
    obtain e1 s1 where p: "kv_Put kv k v s = (e1, s1)" by (metis prod.collapse)
    show ?thesis
    proof (cases e1)
      case (Some err)
      then have "s' = s1" "lk' = lk" using Cons.prems(2) p row by auto
      then show ?thesis using put_rejected [OF Cons.prems(1) p [unfolded Some]] row by (intro exI [of _ 0]) auto
    next
      case None
      have s1: "sinv s1" "eff s1 = (eff s)(k \<mapsto> v)" using put [OF Cons.prems(1) p] None by auto
      have "OrderedPuts (put_first kv) m ks (lk, s1) = (Some e, lk', s')" using Cons.prems(2) p row None by simp
      from Cons.IH [OF s1(1) this] obtain n where "n < length ks" "m (ks ! n) \<noteq> None \<and> \<not> isLastRow (ks ! n) \<and> sinv s'
          \<and> (\<forall>x. x \<noteq> ks ! n \<longrightarrow> eff s' x = (if x \<in> set (take n ks) \<and> m x \<noteq> None \<and> \<not> isLastRow x then m x else eff s1 x))
          \<and> (\<forall>x. map_of lk' x = (if x \<in> set (take n ks) \<and> m x \<noteq> None \<and> isLastRow x then m x else map_of lk x))"
        by blast
      then show ?thesis using row s1(2) by (intro exI [of _ "Suc n"]) auto
    qed
  qed
qed simp

lemma put_all_accepted:
  assumes "sinv s" and "set ks \<subseteq> dom m" and "\<forall>k\<in>set ks. isLastRow k"
    and "\<And>s k v. sinv s \<Longrightarrow> isLastRow k \<Longrightarrow> fst (kv_Put kv k v s) = None"
  shows "\<exists>s'. put_all kv m ks s = (None, s') \<and> sinv s' \<and> eff s' = eff s ++ (m |` set ks)"
  using assms(1-3)
proof (induction ks arbitrary: s)
  case (Cons k ks)
  obtain s1 where p: "kv_Put kv k (the (m k)) s = (None, s1)"
    using assms(4) [OF Cons.prems(1), of k] Cons.prems(3) by (metis list.set_intros(1) prod.collapse)
  have s1: "sinv s1" "eff s1 = (eff s)(k \<mapsto> the (m k))" using put [OF Cons.prems(1) p] by auto
  have "eff s1 ++ m |` set ks = eff s ++ m |` set (k # ks)"
    using Cons.prems(2) s1(2) by (auto simp: restrict_map_def map_add_def fun_eq_iff split: option.splits)
  then show ?case using Cons.IH [OF s1(1)] Cons.prems(2,3) p by simp
qed simp

lemma flush_after_rejection:
  assumes inv: "rw_inv sinv view eff pend c" and dropped: "dropped_error kv c = Some err"
    and flush_ok: "\<And>s. sinv s \<Longrightarrow> fst (kv_FlushPuts kv s) = None"
    and delete_ok: "\<And>s ks. sinv s \<Longrightarrow> fst (kv_BatchDelete kv ks s) = None"
    and last_ok: "\<And>s k v. sinv s \<Longrightarrow> isLastRow k \<Longrightarrow> fst (kv_Put kv k v s) = None"
  shows "\<exists>c' n. rw_FlushPuts kv rng c = (None, c') \<and> c' = NewRWCache (backing c')
    \<and> n < length (orderedPuts c) \<and> puts c (orderedPuts c ! n) \<noteq> None \<and> \<not> isLastRow (orderedPuts c ! n)
    \<and> (\<forall>x. x \<noteq> orderedPuts c ! n \<longrightarrow> view (backing c') x =
        (if puts c x \<noteq> None \<and> x \<notin> set (take n (orderedPuts c)) then view (backing c) x else rw_eff view c x))"
proof -
  have b: "sinv (backing c)" "eff (backing c) = view (backing c)"
    and disj: "puts c k \<noteq> None \<Longrightarrow> k \<notin> set (deletes c)" for k
    using inv by (auto simp: rw_inv_def)
  obtain lk s1 where o: "OrderedPuts (put_first kv) (puts c) (orderedPuts c) ([], backing c) = (Some err, lk, s1)"
    using dropped unfolding dropped_error_def by (metis prod.collapse)
  from ordered_puts_rejected [OF b(1) o, unfolded b(2) map_of.simps(1)] obtain n where n: "n < length (orderedPuts c)"
    "puts c (orderedPuts c ! n) \<noteq> None" "\<not> isLastRow (orderedPuts c ! n)" "sinv s1"
    and eff1: "\<And>x. x \<noteq> orderedPuts c ! n \<Longrightarrow> eff s1 x =
      (if x \<in> set (take n (orderedPuts c)) \<and> puts c x \<noteq> None \<and> \<not> isLastRow x then puts c x else view (backing c) x)"
    and lk: "\<And>x. map_of lk x = (if x \<in> set (take n (orderedPuts c)) \<and> puts c x \<noteq> None \<and> isLastRow x then puts c x else None)"
    by blast
  obtain s2 where f1: "kv_FlushPuts kv s1 = (None, s2)" using flush_ok [OF n(4)] by (metis prod.collapse)
  note s2 = flush [OF n(4) f1, THEN conjunct2, rule_format, OF refl]
  obtain s3 where d: "kv_BatchDelete kv (rng (deletes c)) s2 = (None, s3)"
    using delete_ok [OF conjunct1 [OF s2]] by (metis prod.collapse)
  have s3: "sinv s3" "eff s3 = eff s1 |` (- set (deletes c))"
    using delete [OF conjunct1 [OF s2] _ d] s2 by (auto simp: rng_set)
  have dom_lk: "set (rng (map fst lk)) = dom (map_of lk)" by (simp add: rng_set dom_map_of_conv_image_fst)
  have "\<exists>s4. put_all kv (map_of lk) (rng (map fst lk)) s3 = (None, s4) \<and> sinv s4
      \<and> eff s4 = eff s3 ++ (map_of lk |` set (rng (map fst lk)))"
    unfolding dom_lk by (rule put_all_accepted [OF s3(1), of "rng (map fst lk)", unfolded dom_lk])
      (use lk last_ok in \<open>auto split: if_splits\<close>)
  then obtain s4 where p: "put_all kv (map_of lk) (rng (map fst lk)) s3 = (None, s4)" "sinv s4"
    and eff4: "eff s4 = eff s3 ++ map_of lk"
    unfolding dom_lk by (auto simp: restrict_map_dom)
  obtain s5 where f2: "kv_FlushPuts kv s4 = (None, s5)" using flush_ok [OF p(2)] by (metis prod.collapse)
  have "view s5 = eff s3 ++ map_of lk" using flush [OF p(2) f2] eff4 by simp
  then have "view s5 x = (if puts c x \<noteq> None \<and> x \<notin> set (take n (orderedPuts c)) then view (backing c) x else rw_eff view c x)"
    if "x \<noteq> orderedPuts c ! n" for x
    using eff1 [OF that] lk [of x] disj [of x]
    by (auto simp: s3(2) map_add_def restrict_map_def rw_eff_apply split: option.splits)
  moreover have "rw_FlushPuts kv rng c = (None, NewRWCache s5)"
    by (simp add: rw_FlushPuts_def o f1 d p(1) f2)
  moreover have "backing (NewRWCache s5) = s5" by (simp add: NewRWCache_def)
  ultimately show ?thesis using n(1-3) by (intro exI [of _ "NewRWCache s5"] exI [of _ n]) simp
qed

end

definition failing_ops :: "mem_store kv_ops" where
  "failing_ops = mem_ops\<lparr>kv_Put := \<lambda>k v s. if hd k = PrefixAccount then (Some (KvError ''full''), s)
     else (None, s\<lparr>mem_buffer := (k, v) # mem_buffer s\<rparr>)\<rparr>"

lemma failing_fields:
  "kv_FlushPuts failing_ops = kv_FlushPuts mem_ops" "kv_Get failing_ops = kv_Get mem_ops"
  "kv_Scan failing_ops = kv_Scan mem_ops" "kv_BatchDelete failing_ops = kv_BatchDelete mem_ops"
  by (simp_all add: failing_ops_def)

lemma failing_put:
  assumes "kv_Put failing_ops k v s = (e, s')"
  shows "(\<forall>x. mem_view s' x = mem_view s x \<or> x \<in> insert k (mem_pend s) \<and> mem_view s' x = ((mem_eff s)(k \<mapsto> v)) x)
      \<and> (e = None \<longrightarrow> True \<and> mem_pend s' \<subseteq> insert k (mem_pend s) \<and> mem_eff s' = (mem_eff s)(k \<mapsto> v))"
  using assms by (auto simp: failing_ops_def mem_eff_def mem_pend_def split: if_splits)

lemma failing_backend: "kv_backend failing_ops (\<lambda>s. True) mem_view mem_eff mem_pend"
  using mem.kv_backend_axioms failing_put
  unfolding kv_backend_def kv_store_def failing_fields by (elim conjE) (intro conjI allI impI; simp)

interpretation memfail: rw_fallible failing_ops "\<lambda>s. True" mem_view mem_eff mem_pend rev
proof (intro rw_fallible.intro rw_store.intro failing_backend rw_store_axioms.intro rw_fallible_axioms.intro)
  fix s k v e s'
  assume "kv_Put failing_ops k v s = (Some e, s')"
  then show "True \<and> mem_pend s' \<subseteq> insert k (mem_pend s) \<and> (\<forall>x. x \<noteq> k \<longrightarrow> mem_eff s' x = mem_eff s x)"
    by (auto simp: failing_ops_def split: if_splits)
qed simp

text \<open>C28: a flush does not notice that the backing store rejects a row. Over any store that stays usable
  after it rejects a put, and that performs its flushes, the deletions and the puts of checkpoints, the
  flush of a cache of which a row is rejected returns success and forgets all the pending writes. The puts
  before the rejected row are written, its checkpoints included; every row and checkpoint put after it
  keeps its old value, so the writes are lost.\<close>

theorem flush_loses_rows:
  assumes "rw_fallible kv sinv view eff pend rng"
    and "rw_inv sinv view eff pend c" and "dropped_error kv c = Some err"
    and "\<And>s. sinv s \<Longrightarrow> fst (kv_FlushPuts kv s) = None"
    and "\<And>s ks. sinv s \<Longrightarrow> fst (kv_BatchDelete kv ks s) = None"
    and "\<And>s k v. sinv s \<Longrightarrow> isLastRow k \<Longrightarrow> fst (kv_Put kv k v s) = None"
  shows "\<exists>c' n. rw_FlushPuts kv rng c = (None, c') \<and> c' = NewRWCache (backing c')
    \<and> n < length (orderedPuts c) \<and> puts c (orderedPuts c ! n) \<noteq> None \<and> \<not> isLastRow (orderedPuts c ! n)
    \<and> (\<forall>x. x \<noteq> orderedPuts c ! n \<longrightarrow> view (backing c') x =
        (if puts c x \<noteq> None \<and> x \<notin> set (take n (orderedPuts c)) then view (backing c) x else rw_eff view c x))"
  by (rule rw_fallible.flush_after_rejection [OF assms])

definition sample_lost :: "mem_store RWCache" where
  "sample_lost = fold rw_write [WPut [3, 0] [9], WPut [2, 1] [5], WPut [3, 1] [7]] (NewRWCache \<lparr>mem_rows = [], mem_buffer = []\<rparr>)"

theorem flush_loses_rows_witness:
  "\<exists>c'. rw_FlushPuts failing_ops rev sample_lost = (None, c') \<and> puts c' = Map.empty
     \<and> mem_view (backing c') [3, 0] = Some [9] \<and> mem_view (backing c') [3, 1] = None"
proof -
  have o: "orderedPuts sample_lost = [[3, 0], [2, 1], [3, 1]]" by code_simp
  have inv: "rw_inv (\<lambda>s. True) mem_view mem_eff mem_pend sample_lost"
    unfolding sample_lost_def by (rule memfail.new_cache_inv [THEN writes_state, THEN conjunct1]) (simp_all add: mem_pend_def)
  have d: "dropped_error failing_ops sample_lost = Some (KvError ''full'')" by code_simp
  have last: "fst (kv_Put failing_ops k v s) = None" if "isLastRow k" for s k v
    using that by (cases k) (auto simp: failing_ops_def isLastRow_def PrefixAccount_def PrefixAccountCheckpoint_def
      PrefixAccountContractCheckpoint_def)
  have ok: "fst (kv_FlushPuts failing_ops s) = None" "fst (kv_BatchDelete failing_ops ks s) = None" for s ks
    by (simp_all add: failing_fields) (simp_all add: mem_ops_def)
  obtain c' n where r: "rw_FlushPuts failing_ops rev sample_lost = (None, c')" "c' = NewRWCache (backing c')"
    and n: "n < length [[3, 0 :: u8], [2, 1], [3, 1]]" "\<not> isLastRow ([[3, 0], [2, 1], [3, 1]] ! n)"
    and view: "\<And>x. x \<noteq> [[3, 0], [2, 1], [3, 1]] ! n \<Longrightarrow> mem_view (backing c') x =
      (if puts sample_lost x \<noteq> None \<and> x \<notin> set (take n [[3, 0], [2, 1], [3, 1]]) then mem_view (backing sample_lost) x
       else rw_eff mem_view sample_lost x)"
    using flush_loses_rows [OF memfail.rw_fallible_axioms inv d ok last, unfolded o] by blast
  have l: "isLastRow [3, 0]" "isLastRow [3, 1]" by code_simp+
  from n(1) have "n = 0 \<or> n = 1 \<or> n = 2" by auto
  then have "n = 1" using n(2) l by auto
  moreover have "rw_eff mem_view sample_lost [3, 0] = Some [9]" "puts sample_lost [3, 1] \<noteq> None"
    "mem_view (backing sample_lost) [3, 1] = None" by code_simp+
  ultimately have "mem_view (backing c') [3, 0] = Some [9]" "mem_view (backing c') [3, 1] = None"
    using view [of "[3, 0]"] view [of "[3, 1]"] by auto
  moreover have "puts c' = Map.empty" by (subst r(2)) (simp add: NewRWCache_def)
  ultimately show ?thesis using r(1) by blast
qed

end
