(* ===== verification/AccountHist.thy ===== *)
theory AccountHist
  imports RWCache
begin

text \<open>
  The account history: reading the newest row of a facet (\<open>accounthist/sequence.go\<close>), walking over
  the facets (\<open>tools.go\<close>), the injector (\<open>accounthist/injector\<close>) that writes the actions of
  irreversible blocks as rows of the facets of their accounts, and the purger
  (\<open>accounthist/purger/purge.go\<close>).

  The store is an argument, the operations \<open>kv\<close> on a state that the injector record carries. The
  order in which Go ranges over the map of accounts is the argument \<open>ord\<close>. Timeouts, metrics and
  logs are left out; the clock of \<open>flush\<close> is the argument \<open>recent\<close>. Loops that need not end are
  partial functions into \<open>option\<close>, and \<open>None\<close> is a loop that runs forever.
\<close>

section \<open>Sequence data\<close>

record SequenceData =
  CurrentOrdinal :: u64
  LastGlobalSeq :: u64
  LastDeletedOrdinal :: u64
  MaxEntries :: u64

definition empty_SequenceData :: SequenceData where
  "empty_SequenceData = \<lparr>CurrentOrdinal = 0, LastGlobalSeq = 0, LastDeletedOrdinal = 0, MaxEntries = 0\<rparr>"

datatype hist_error = StoreError kv_error | NotFound | BadRow | BadCheckpoint | HistPanic | TrackerError

definition store_step :: "kv_error option \<times> 's \<Rightarrow> hist_error + 's" where
  "store_step r = (case r of (Some e, s) \<Rightarrow> Inl (StoreError e) | (None, s) \<Rightarrow> Inr s)"

text \<open>The sequence data of a row; the receipt of a stored action is read without a check.\<close>

definition row_seq_data ::
  "hist_env \<Rightarrow> FacetFactory \<Rightarrow> bool \<Rightarrow> bytes \<Rightarrow> bytes \<Rightarrow> hist_error + SequenceData \<times> u8" where
  "row_seq_data env F unmarshalAction key value =
     (case DecodeRow F key of
        None \<Rightarrow> Inl HistPanic
      | Some (_, shardNum, currentOrdinal) \<Rightarrow>
          if \<not> unmarshalAction then Inr (empty_SequenceData\<lparr>CurrentOrdinal := currentOrdinal\<rparr>, shardNum)
          else case unmarshal_ActionRow env value of
                 None \<Rightarrow> Inl BadRow
               | Some newact \<Rightarrow>
                   (case at_Receipt (row_ActionTrace newact) of
                      None \<Rightarrow> Inl HistPanic
                    | Some receipt \<Rightarrow>
                        Inr (\<lparr>CurrentOrdinal = currentOrdinal, LastGlobalSeq = rcpt_GlobalSequence receipt,
                              LastDeletedOrdinal = row_LastDeletedSeq newact, MaxEntries = 0\<rparr>, shardNum)))"

definition scanShardSeqDataPerFacet ::
  "hist_env \<Rightarrow> 's kv_ops \<Rightarrow> FacetFactory \<Rightarrow> bytes \<times> bytes \<Rightarrow> bool \<Rightarrow> 's \<Rightarrow> hist_error + SequenceData \<times> u8" where
  "scanShardSeqDataPerFacet env kv F rg unmarshalAction s =
     (case kv_Scan kv (fst rg) (snd rg) 1 s of
        ([], Some e) \<Rightarrow> Inl (StoreError e)
      | ([], None) \<Rightarrow> Inl NotFound
      | ((key, value) # _, _) \<Rightarrow> row_seq_data env F unmarshalAction key value)"

definition LatestShardSeqDataPerFacet ::
  "hist_env \<Rightarrow> 's kv_ops \<Rightarrow> FacetFactory \<Rightarrow> Facet \<Rightarrow> u8 \<Rightarrow> bool \<Rightarrow> 's \<Rightarrow> hist_error + SequenceData \<times> u8" where
  "LatestShardSeqDataPerFacet env kv F key shardNum unmarshalAction s =
     scanShardSeqDataPerFacet env kv F (FacetRangeLowerBound env key shardNum) unmarshalAction s"

definition ShardSeqDataPerFacet ::
  "hist_env \<Rightarrow> 's kv_ops \<Rightarrow> FacetFactory \<Rightarrow> Facet \<Rightarrow> u8 \<Rightarrow> bool \<Rightarrow> 's \<Rightarrow> hist_error + SequenceData" where
  "ShardSeqDataPerFacet env kv F key shardNum unmarshalAction s =
     bind_res (scanShardSeqDataPerFacet env kv F (FacetShardRange env key shardNum) unmarshalAction s)
       (\<lambda>(seqData, _). Inr seqData)"

section \<open>Facets of the store\<close>

text \<open>The walk of \<open>ScanFacets\<close>, with the state that the handler threads; \<open>get\<close> is the store in it.\<close>

partial_function (option) scan_facets ::
  "hist_env \<Rightarrow> 's kv_ops \<Rightarrow> FacetFactory \<Rightarrow> ('t \<Rightarrow> 's) \<Rightarrow> (Facet \<Rightarrow> u8 \<Rightarrow> u64 \<Rightarrow> 't \<Rightarrow> (hist_error + 't) option) \<Rightarrow>
   bytes \<Rightarrow> bytes \<Rightarrow> 't \<Rightarrow> (hist_error + 't) option" where
  "scan_facets env kv F get facetFunc currentKey endKey st =
     (case kv_Scan kv currentKey endKey 1 (get st) of
        ([], Some e) \<Rightarrow> Some (Inl (StoreError e))
      | ([], None) \<Rightarrow> Some (Inr st)
      | ((key, value) # _, _) \<Rightarrow>
          (case DecodeRow F key of
             None \<Rightarrow> Some (Inl HistPanic)
           | Some (facet, shardNum, ordinalNum) \<Rightarrow>
               Option.bind (facetFunc facet shardNum ordinalNum st) (\<lambda>r.
                 case r of
                   Inl e \<Rightarrow> Some (Inl e)
                 | Inr st' \<Rightarrow> scan_facets env kv F get facetFunc
                     (key_PrefixNext env (facet_Bytes facet)) endKey st')))"

definition ScanFacets ::
  "hist_env \<Rightarrow> 's kv_ops \<Rightarrow> FacetFactory \<Rightarrow> ('t \<Rightarrow> 's) \<Rightarrow> (Facet \<Rightarrow> u8 \<Rightarrow> u64 \<Rightarrow> 't \<Rightarrow> (hist_error + 't) option) \<Rightarrow>
   't \<Rightarrow> (hist_error + 't) option" where
  "ScanFacets env kv F get facetFunc st =
     scan_facets env kv F get facetFunc [Collection F] (key_PrefixNext env [Collection F]) st"

section \<open>Injector\<close>

record 's Injector =
  ShardNum :: u8
  flushBlocksInterval :: u64
  inj_MaxEntries :: u64
  cacheSeqData :: "string \<rightharpoonup> SequenceData"
  inj_KvStore :: 's
  startBlockNum :: u64
  stopBlockNum :: u64
  startedFromCheckpoint :: bool
  lastCheckpoint :: ShardCheckpoint
  facetFactory :: FacetFactory
  inj_shutdown :: bool

definition NewInjector :: "'s \<Rightarrow> FacetFactory \<Rightarrow> u8 \<Rightarrow> u64 \<Rightarrow> u64 \<Rightarrow> u64 \<Rightarrow> u64 \<Rightarrow> 's Injector" where
  "NewInjector kvdb F shardNum maxEntries interval startNum stopNum =
     \<lparr>ShardNum = shardNum, flushBlocksInterval = interval, inj_MaxEntries = maxEntries,
      cacheSeqData = Map.empty, inj_KvStore = kvdb, startBlockNum = startNum, stopBlockNum = stopNum,
      startedFromCheckpoint = False,
      lastCheckpoint = \<lparr>cp_InitialStartBlock = 0, cp_TargetStopBlock = 0, cp_LastWrittenBlockNum = 0,
        cp_LastWrittenBlockId = ''''\<rparr>,
      facetFactory = F, inj_shutdown = False\<rparr>"

definition UpdateSeqData :: "hist_env \<Rightarrow> Facet \<Rightarrow> SequenceData \<Rightarrow> 's Injector \<Rightarrow> 's Injector" where
  "UpdateSeqData env key seqData i = i\<lparr>cacheSeqData := (cacheSeqData i)(facet_String env key \<mapsto> seqData)\<rparr>"

definition getSequenceData ::
  "hist_env \<Rightarrow> 's kv_ops \<Rightarrow> Facet \<Rightarrow> 's Injector \<Rightarrow> hist_error + SequenceData \<times> 's Injector" where
  "getSequenceData env kv key i =
     (case cacheSeqData i (facet_String env key) of
        Some out \<Rightarrow> Inr (out, i)
      | None \<Rightarrow>
          if \<not> startedFromCheckpoint i
          then let out = empty_SequenceData\<lparr>MaxEntries := inj_MaxEntries i\<rparr>
               in Inr (out, UpdateSeqData env key out i)
          else bind_res
                 (case ShardSeqDataPerFacet env kv (facetFactory i) key (ShardNum i) True (inj_KvStore i) of
                    Inl NotFound \<Rightarrow> Inr empty_SequenceData
                  | r \<Rightarrow> r)
                 (\<lambda>sd. let out = sd\<lparr>MaxEntries := inj_MaxEntries i\<rparr>
                       in Inr (out, UpdateSeqData env key out i)))"

definition deleteAction ::
  "'s kv_ops \<Rightarrow> Facet \<Rightarrow> u64 \<Rightarrow> 's Injector \<Rightarrow> hist_error + 's Injector" where
  "deleteAction kv key sequenceNumber i =
     bind_res (store_step (kv_BatchDelete kv [facet_Row key (ShardNum i) sequenceNumber] (inj_KvStore i)))
       (\<lambda>s. Inr (i\<lparr>inj_KvStore := s\<rparr>))"

text \<open>The ordinals \<open>LastDeletedOrdinal + 1 \<le> j \<le> leastRecentOrdinal\<close> of the deletion loop.\<close>

definition stale_ordinals :: "u64 \<Rightarrow> u64 \<Rightarrow> u64 list" where
  "stale_ordinals lastDeleted leastRecent = map of_nat [Suc (unat lastDeleted)..<Suc (unat leastRecent)]"

definition deleteStaleRows ::
  "'s kv_ops \<Rightarrow> Facet \<Rightarrow> SequenceData \<Rightarrow> 's Injector \<Rightarrow> hist_error + u64 \<times> 's Injector" where
  "deleteStaleRows kv key acctSeqData i =
     (if CurrentOrdinal acctSeqData > MaxEntries acctSeqData
      then let leastRecentOrdinal = CurrentOrdinal acctSeqData - MaxEntries acctSeqData
           in if LastDeletedOrdinal acctSeqData \<ge> leastRecentOrdinal
              then Inr (LastDeletedOrdinal acctSeqData, i)
              else bind_res (fold_res (deleteAction kv key)
                     (stale_ordinals (LastDeletedOrdinal acctSeqData) leastRecentOrdinal) i)
                     (\<lambda>i'. Inr (leastRecentOrdinal, i'))
      else Inr (LastDeletedOrdinal acctSeqData, i))"

text \<open>The encoded row fills its array, so appending to it copies it and the rows of two accounts
  share no memory.\<close>

definition WriteAction ::
  "hist_env \<Rightarrow> 's kv_ops \<Rightarrow> Facet \<Rightarrow> SequenceData \<Rightarrow> bytes \<Rightarrow> 's Injector \<Rightarrow> hist_error + 's Injector" where
  "WriteAction env kv key acctSeqData rawTrace i =
     (let rowKey = facet_Row key (ShardNum i) (CurrentOrdinal acctSeqData);
          rawTrace' = (if LastDeletedOrdinal acctSeqData \<noteq> 0
                       then rawTrace @ marshal_ActionRowAppend env (LastDeletedOrdinal acctSeqData) else rawTrace)
      in bind_res (store_step (kv_Put kv rowKey rawTrace' (inj_KvStore i))) (\<lambda>s. Inr (i\<lparr>inj_KvStore := s\<rparr>)))"

text \<open>The body of the loop over the accounts of an action: the flag says that the loop goes on, and
  is false after the two early returns.\<close>

definition process_account ::
  "hist_env \<Rightarrow> 's kv_ops \<Rightarrow> ActionTrace \<Rightarrow> (u64 \<rightharpoonup> bytes) \<Rightarrow> string \<Rightarrow> 's Injector \<Rightarrow> hist_error + bool \<times> 's Injector" where
  "process_account env kv act rawTraceMap acct i =
     bind_res (from_opt HistPanic (eos_StringToName env acct)) (\<lambda>acctUint.
     bind_res (from_opt HistPanic (NewFacet env (facetFactory i) act acctUint)) (\<lambda>facet.
     bind_res (getSequenceData env kv facet i) (\<lambda>(acctSeqData, i1).
       if MaxEntries acctSeqData = 0 then Inr (False, i1)
       else
         bind_res (from_opt HistPanic (at_Receipt act)) (\<lambda>receipt.
         let seq = rcpt_GlobalSequence receipt in
         if seq \<le> LastGlobalSeq acctSeqData then Inr (False, i1)
         else
           bind_res (deleteStaleRows kv facet acctSeqData i1) (\<lambda>(lastDeletedSeq, i2).
           let sd = acctSeqData\<lparr>LastDeletedOrdinal := lastDeletedSeq,
                 CurrentOrdinal := CurrentOrdinal acctSeqData + 1\<rparr>;
               rawTrace = (case rawTraceMap seq of None \<Rightarrow> [] | Some raw \<Rightarrow> raw)
           in bind_res (WriteAction env kv facet sd rawTrace i2) (\<lambda>i3.
                Inr (True, UpdateSeqData env facet (sd\<lparr>LastGlobalSeq := seq\<rparr>) i3)))))))"

fun process_accounts ::
  "hist_env \<Rightarrow> 's kv_ops \<Rightarrow> ActionTrace \<Rightarrow> (u64 \<rightharpoonup> bytes) \<Rightarrow> string list \<Rightarrow> 's Injector \<Rightarrow> hist_error + 's Injector" where
  "process_accounts env kv act rawTraceMap [] i = Inr i"
| "process_accounts env kv act rawTraceMap (acct # accts) i =
     bind_res (process_account env kv act rawTraceMap acct i) (\<lambda>(continue, i').
       if continue then process_accounts env kv act rawTraceMap accts i' else Inr i')"

definition action_accounts :: "ActionTrace \<Rightarrow> string list" where
  "action_accounts act = remdups (at_Receiver act # map pl_Actor (act_Authorization (at_Action act)))"

definition processAction ::
  "hist_env \<Rightarrow> 's kv_ops \<Rightarrow> (string list \<Rightarrow> string list) \<Rightarrow> ActionTrace \<Rightarrow> (u64 \<rightharpoonup> bytes) \<Rightarrow> 's Injector \<Rightarrow>
   hist_error + 's Injector" where
  "processAction env kv ord act rawTraceMap i =
     (if \<not> ActionFilter (facetFactory i) act then Inr i
      else process_accounts env kv act rawTraceMap (ord (action_accounts act)) i)"

section \<open>Checkpoints and flushes\<close>

definition GetShardCheckpoint ::
  "hist_env \<Rightarrow> 's kv_ops \<Rightarrow> 's Injector \<Rightarrow> hist_error + ShardCheckpoint option" where
  "GetShardCheckpoint env kv i =
     (case kv_Get kv (NewCheckpointKey (facetFactory i) (ShardNum i)) (inj_KvStore i) of
        Inl KvNotFound \<Rightarrow> Inr None
      | Inl e \<Rightarrow> Inl (StoreError e)
      | Inr val \<Rightarrow> bind_res (from_opt BadCheckpoint (unmarshal_ShardCheckpoint env val)) (\<lambda>out. Inr (Some out)))"

text \<open>The error of the deletion is dropped, the error of the flush is returned.\<close>

definition DeleteCheckpoint :: "'s kv_ops \<Rightarrow> u8 \<Rightarrow> 's Injector \<Rightarrow> hist_error + 's Injector" where
  "DeleteCheckpoint kv shard i =
     bind_res (store_step (kv_FlushPuts kv (snd (kv_BatchDelete kv [NewCheckpointKey (facetFactory i) shard] (inj_KvStore i)))))
       (\<lambda>s. Inr (i\<lparr>inj_KvStore := s\<rparr>))"

definition writeCheckpoint :: "hist_env \<Rightarrow> 's kv_ops \<Rightarrow> Block \<Rightarrow> 's Injector \<Rightarrow> hist_error + 's Injector" where
  "writeCheckpoint env kv blk i =
     (let cp = (lastCheckpoint i)\<lparr>cp_LastWrittenBlockNum := Block_Num blk, cp_LastWrittenBlockId := blk_Id blk\<rparr>
      in bind_res (store_step (kv_Put kv (NewCheckpointKey (facetFactory i) (ShardNum i))
           (marshal_ShardCheckpoint env cp) (inj_KvStore i)))
           (\<lambda>s. Inr (i\<lparr>lastCheckpoint := cp, inj_KvStore := s\<rparr>)))"

definition ForceFlush :: "'s kv_ops \<Rightarrow> 's Injector \<Rightarrow> hist_error + 's Injector" where
  "ForceFlush kv i = bind_res (store_step (kv_FlushPuts kv (inj_KvStore i))) (\<lambda>s. Inr (i\<lparr>inj_KvStore := s\<rparr>))"

text \<open>A flush interval of zero divides by zero.\<close>

definition flush_block ::
  "'s kv_ops \<Rightarrow> bool \<Rightarrow> Block \<Rightarrow> bool \<Rightarrow> 's Injector \<Rightarrow> hist_error + 's Injector" where
  "flush_block kv recent blk lastInStreak i =
     (if flushBlocksInterval i = 0 then Inl HistPanic
      else if (recent \<and> lastInStreak) \<or> Block_Num blk mod flushBlocksInterval i = 0
      then ForceFlush kv i else Inr i)"

section \<open>Blocks\<close>

definition indexed_actions :: "Block \<Rightarrow> ActionTrace list" where
  "indexed_actions block =
     concat (map (\<lambda>t. if HasBeenReverted (trace_of t) then []
         else filter (\<lambda>act. FilteringActionMatcher block t [] (at_ExecutionIndex act) \<and> at_Receipt act \<noteq> None)
                (tt_ActionTraces (trace_of t)))
       (TransactionTraces block))"

text \<open>The rows of the actions of a block, encoded ahead of their use; encoding these messages
  does not fail. The block filter changes the block, and is code of the filtering component that
  the injector takes as an argument.\<close>

definition marshalled_actions :: "hist_env \<Rightarrow> Block \<Rightarrow> (u64 \<rightharpoonup> bytes)" where
  "marshalled_actions env block =
     fold (\<lambda>act out. out(rcpt_GlobalSequence (the (at_Receipt act)) \<mapsto> marshal_ActionRow env (new_ActionRow act)))
       (indexed_actions block) Map.empty"

definition PreprocessingFunc ::
  "hist_env \<Rightarrow> (Block \<Rightarrow> hist_error + Block) option \<Rightarrow> Block \<Rightarrow> hist_error + Block \<times> (u64 \<rightharpoonup> bytes)" where
  "PreprocessingFunc env blockFilter blk =
     bind_res (case blockFilter of None \<Rightarrow> Inr blk | Some f \<Rightarrow> f blk)
       (\<lambda>block. Inr (block, marshalled_actions env block))"

datatype step_type = StepNew | StepIrreversible

definition ProcessBlock ::
  "hist_env \<Rightarrow> 's kv_ops \<Rightarrow> (string list \<Rightarrow> string list) \<Rightarrow> bool \<Rightarrow> step_type \<Rightarrow> bool \<Rightarrow> Block \<Rightarrow> (u64 \<rightharpoonup> bytes) \<Rightarrow>
   's Injector \<Rightarrow> hist_error + 's Injector" where
  "ProcessBlock env kv ord recent step isLastInStreak block rawTraceMap i =
     (case step of
        StepNew \<Rightarrow> Inr i
      | StepIrreversible \<Rightarrow>
          if stopBlockNum i \<noteq> 0 \<and> Block_Num block \<ge> stopBlockNum i
          then bind_res (ForceFlush kv i) (\<lambda>i1. Inr (i1\<lparr>inj_shutdown := True\<rparr>))
          else
            bind_res (fold_res (\<lambda>act. processAction env kv ord act rawTraceMap) (indexed_actions block) i) (\<lambda>i1.
            bind_res (writeCheckpoint env kv block i1) (\<lambda>i2.
              flush_block kv recent block isLastInStreak i2)))"

section \<open>Start-up\<close>

definition newShardCheckpoint :: "u64 \<Rightarrow> u64 \<Rightarrow> ShardCheckpoint" where
  "newShardCheckpoint firstStreamable startBlock =
     \<lparr>cp_InitialStartBlock = (if startBlock \<le> firstStreamable then firstStreamable else startBlock),
      cp_TargetStopBlock = 0, cp_LastWrittenBlockNum = 0, cp_LastWrittenBlockId = ''''\<rparr>"

definition resolveCheckpoint ::
  "hist_env \<Rightarrow> 's kv_ops \<Rightarrow> u64 \<Rightarrow> bool \<Rightarrow> 's Injector \<Rightarrow> hist_error + ShardCheckpoint \<times> 's Injector" where
  "resolveCheckpoint env kv firstStreamable ignoreCheckpointOnLaunch i =
     (if ignoreCheckpointOnLaunch then Inr (newShardCheckpoint firstStreamable (startBlockNum i), i)
      else bind_res (GetShardCheckpoint env kv i) (\<lambda>found.
        case found of
          Some checkpoint \<Rightarrow> Inr (checkpoint, i\<lparr>startedFromCheckpoint := True\<rparr>)
        | None \<Rightarrow> Inr (newShardCheckpoint firstStreamable (startBlockNum i), i)))"

text \<open>The block to start processing after, the block and id to start the file source at; the
  tracker is code of another repository.\<close>

definition resolveStartBlock ::
  "(u64 \<Rightarrow> (u64 \<times> string) option) \<Rightarrow> ShardCheckpoint \<Rightarrow> hist_error + u64 \<times> u64 \<times> string" where
  "resolveStartBlock tracker checkpoint =
     (if cp_LastWrittenBlockId checkpoint \<noteq> ''''
      then Inr (cp_LastWrittenBlockNum checkpoint, cp_LastWrittenBlockNum checkpoint, cp_LastWrittenBlockId checkpoint)
      else case tracker (cp_InitialStartBlock checkpoint) of
             None \<Rightarrow> Inl TrackerError
           | Some (fsStartNum, previousIrreversibleID) \<Rightarrow>
               Inr (cp_InitialStartBlock checkpoint, fsStartNum, previousIrreversibleID))"

definition SetupSource ::
  "hist_env \<Rightarrow> 's kv_ops \<Rightarrow> u64 \<Rightarrow> (u64 \<Rightarrow> (u64 \<times> string) option) \<Rightarrow> bool \<Rightarrow> 's Injector \<Rightarrow>
   hist_error + (u64 \<times> u64 \<times> string) \<times> 's Injector" where
  "SetupSource env kv firstStreamable tracker ignoreCheckpointOnLaunch i =
     bind_res (resolveCheckpoint env kv firstStreamable ignoreCheckpointOnLaunch i) (\<lambda>(checkpoint, i1).
     bind_res (resolveStartBlock tracker checkpoint) (\<lambda>start.
       Inr (start, i1\<lparr>lastCheckpoint := checkpoint\<rparr>)))"

section \<open>Summaries\<close>

fun checkpoint_details :: "hist_env \<Rightarrow> (bytes \<times> bytes) list \<Rightarrow> hist_error + (u8 \<times> ShardCheckpoint) list" where
  "checkpoint_details env [] = Inr []"
| "checkpoint_details env ((key, value) # items) =
     bind_res (from_opt HistPanic (DecodeCheckpointKey key)) (\<lambda>shardByte.
     bind_res (from_opt BadCheckpoint (unmarshal_ShardCheckpoint env value)) (\<lambda>checkpoint.
     bind_res (checkpoint_details env items) (\<lambda>out. Inr ((shardByte, checkpoint) # out))))"

definition ShardCheckpointAnalysis ::
  "hist_env \<Rightarrow> 's kv_ops \<Rightarrow> u8 \<Rightarrow> 's Injector \<Rightarrow> hist_error + (u8 \<times> ShardCheckpoint) list" where
  "ShardCheckpointAnalysis env kv checkpointPrefix i =
     (case kv_Scan kv [checkpointPrefix] (key_PrefixNext env [checkpointPrefix]) 0 (inj_KvStore i) of
        (items, e) \<Rightarrow>
          bind_res (checkpoint_details env items) (\<lambda>out.
            case e of None \<Rightarrow> Inr out | Some er \<Rightarrow> Inl (StoreError er)))"

text \<open>The shard counter is a byte: after shard 255 the loop starts again at 0.\<close>

partial_function (option) facet_shards ::
  "hist_env \<Rightarrow> 's kv_ops \<Rightarrow> FacetFactory \<Rightarrow> Facet \<Rightarrow> 's \<Rightarrow> u8 \<Rightarrow> (u8 \<times> SequenceData) list \<Rightarrow>
   (hist_error + (u8 \<times> SequenceData) list) option" where
  "facet_shards env kv F key s currentShardNum out =
     (case LatestShardSeqDataPerFacet env kv F key currentShardNum True s of
        Inl e \<Rightarrow> Some (if e = NotFound then Inr out else Inl e)
      | Inr (seqData, shardNum) \<Rightarrow> facet_shards env kv F key s (shardNum + 1) (out @ [(shardNum, seqData)]))"

definition FacetShardsSummary ::
  "hist_env \<Rightarrow> 's kv_ops \<Rightarrow> Facet \<Rightarrow> 's Injector \<Rightarrow> (hist_error + (u8 \<times> SequenceData) list) option" where
  "FacetShardsSummary env kv key i = facet_shards env kv (facetFactory i) key (inj_KvStore i) 0 []"

text \<open>The newest sequence data of a shard and its number of rows.\<close>

definition FacetShardSummary ::
  "hist_env \<Rightarrow> 's kv_ops \<Rightarrow> Facet \<Rightarrow> u8 \<Rightarrow> 's Injector \<Rightarrow> hist_error + SequenceData \<times> u64" where
  "FacetShardSummary env kv facet shardNum i =
     (case kv_Scan kv (fst (FacetShardRange env facet shardNum)) (snd (FacetShardRange env facet shardNum)) 0 (inj_KvStore i) of
        (items, e) \<Rightarrow>
          bind_res (case items of
                      [] \<Rightarrow> Inr empty_SequenceData
                    | (key, value) # _ \<Rightarrow>
                        bind_res (row_seq_data env (facetFactory i) True key value) (\<lambda>(sd, _). Inr sd))
            (\<lambda>sd. case e of None \<Rightarrow> Inr (sd, of_nat (length items)) | Some er \<Rightarrow> Inl (StoreError er)))"

section \<open>Purger\<close>

fun delete_items :: "'s kv_ops \<Rightarrow> (bytes \<times> bytes) list \<Rightarrow> 's \<Rightarrow> kv_error option \<times> 's" where
  "delete_items kv [] s = (None, s)"
| "delete_items kv ((key, value) # items) s =
     (case kv_BatchDelete kv [key] s of (Some e, s') \<Rightarrow> (Some e, s') | (None, s') \<Rightarrow> delete_items kv items s')"

text \<open>The flush at the end is not checked.\<close>

definition purgeAccountAboveShard ::
  "hist_env \<Rightarrow> 's kv_ops \<Rightarrow> bool \<Rightarrow> Facet \<Rightarrow> u8 \<Rightarrow> 's \<Rightarrow> kv_error option \<times> 's" where
  "purgeAccountAboveShard env kv enableDryRun facet shardNum s =
     (case FacetRangeLowerBound env facet (shardNum + 1) of (startKey, endKey) \<Rightarrow>
      case kv_Scan kv startKey endKey 0 s of (items, err) \<Rightarrow>
      case (if enableDryRun then (None, s) else delete_items kv items s) of
        (Some e, s') \<Rightarrow> (Some e, s')
      | (None, s') \<Rightarrow>
          (case err of Some e \<Rightarrow> (Some e, s') | None \<Rightarrow> (None, snd (kv_FlushPuts kv s'))))"

text \<open>The handler that \<open>PurgeAccounts\<close> passes to \<open>ScanFacets\<close>; the error of the purge is dropped.\<close>

partial_function (option) purge_facet ::
  "hist_env \<Rightarrow> 's kv_ops \<Rightarrow> FacetFactory \<Rightarrow> bool \<Rightarrow> u64 \<Rightarrow> Facet \<Rightarrow> u8 \<Rightarrow> u64 \<Rightarrow> 's \<Rightarrow> (hist_error + 's) option" where
  "purge_facet env kv F dry maxEntries facet currentShardNum seenActions s =
     (if seenActions \<ge> maxEntries
      then Some (Inr (snd (purgeAccountAboveShard env kv dry facet currentShardNum s)))
      else case LatestShardSeqDataPerFacet env kv F facet (currentShardNum + 1) False s of
             Inl e \<Rightarrow> Some (if e = NotFound then Inr s else Inl e)
           | Inr (seqData, latestShardNum) \<Rightarrow>
               purge_facet env kv F dry maxEntries facet latestShardNum (seenActions + CurrentOrdinal seqData) s)"

definition PurgeAccounts ::
  "hist_env \<Rightarrow> 's kv_ops \<Rightarrow> FacetFactory \<Rightarrow> bool \<Rightarrow> u64 \<Rightarrow> 's \<Rightarrow> (hist_error + 's) option" where
  "PurgeAccounts env kv F dry maxEntriesPerAccount s =
     ScanFacets env kv F id (purge_facet env kv F dry maxEntriesPerAccount) s"

end
