(* ===== verification/AccountHistProps.thy ===== *)
theory AccountHistProps
  imports AccountHist
begin

text \<open>
  Properties of the account history: the rows of a facet in a shard are a window of consecutive
  ordinals whose newest row carries the data of the window, the injector keeps this invariant, and a
  restart after a flush reads back exactly the data that was cached in memory.
\<close>

section \<open>Scans\<close>

lemma scan_keys_first:
  assumes "finite (dom m)" and "k \<in> dom m" and "a \<le> k" "k < b"
    and "\<And>k'. k' \<in> dom m \<Longrightarrow> a \<le> k' \<Longrightarrow> k' < b \<Longrightarrow> k \<le> k'"
  shows "\<exists>rest. scan_items m a b = (k, the (m k)) # rest"
proof -
  let ?S = "{k \<in> dom m. a \<le> k \<and> k < b}"
  have fin: "finite ?S" using assms(1) by simp
  have "Min ?S = k" using assms fin by (intro Min_eqI) auto
  moreover have "?S \<noteq> {}" using assms(2-4) by auto
  ultimately have "scan_keys m a b = k # sorted_list_of_set (?S - {k})"
    using fin by (simp add: scan_keys_def sorted_list_of_set_nonempty)
  then show ?thesis by (simp add: scan_items_def)
qed

text \<open>Every key of the collection of a factory is the key of a row.\<close>

definition rows_wf :: "FacetFactory \<Rightarrow> (bytes \<rightharpoonup> bytes) \<Rightarrow> bool" where
  "rows_wf F m \<longleftrightarrow> (\<forall>k\<in>dom m. k \<noteq> [] \<and> hd k = Collection F \<longrightarrow> (\<exists>f s n. facet_of F f \<and> k = facet_Row f s n))"

lemma facet_Row_Cons: "facet_of F f \<Longrightarrow> \<exists>r. facet_Row f s n = Collection F # r"
  by (cases F; cases f) (simp_all add: key_defs)

lemma range_key_hd:
  assumes "hist_env_ok env" and "facet_of F f" and "facet_Row f s n \<le> k" and "k < key_PrefixNext env (facet_Row f t 0)"
  shows "k \<noteq> [] \<and> hd k = Collection F"
proof -
  obtain r r' where r: "facet_Row f s n = Collection F # r" "facet_Row f t 0 = Collection F # r'"
    using facet_Row_Cons [OF assms(2)] by metis
  have "\<exists>b\<in>set (facet_Row f t 0). b \<noteq> 255" by (cases f) (simp_all add: key_defs prefix_defs)
  then have "k < facet_Row f t 0 \<or> take (length (facet_Row f t 0)) k = facet_Row f t 0"
    using assms(1,4) unfolding hist_env_ok_def by blast
  then show ?thesis using assms(3) by (cases k) (auto simp: r)
qed

lemma in_range_row:
  assumes "hist_env_ok env" and "facet_of F f" and "rows_wf F m" and "k \<in> dom m"
  shows "FacetShardRange env f s = (a, b) \<Longrightarrow> a \<le> k \<and> k < b \<longleftrightarrow> (\<exists>n. k = facet_Row f s n)"
    and "FacetRangeLowerBound env f s = (a, b) \<Longrightarrow> a \<le> k \<and> k < b \<longleftrightarrow> (\<exists>t n. s \<le> t \<and> k = facet_Row f t n)"
proof -
  have row: "a \<le> k \<Longrightarrow> k < b \<Longrightarrow> \<exists>g t n. facet_of F g \<and> k = facet_Row g t n"
    if "a = facet_Row f s n" "b = key_PrefixNext env (facet_Row f t 0)" for n t
    using range_key_hd [OF assms(1,2)] that assms(3,4) unfolding rows_wf_def by blast
  show "a \<le> k \<and> k < b \<longleftrightarrow> (\<exists>n. k = facet_Row f s n)" if r: "FacetShardRange env f s = (a, b)"
    using row [of "-1" s] r in_FacetShardRange [OF assms(1,2) _ r] assms(2)
    unfolding FacetShardRange_def by (metis prod.inject)
  show "a \<le> k \<and> k < b \<longleftrightarrow> (\<exists>t n. s \<le> t \<and> k = facet_Row f t n)" if r: "FacetRangeLowerBound env f s = (a, b)"
    using row [of "-1" 255] r in_FacetRangeLowerBound [OF assms(1,2) _ r] assms(2)
    unfolding FacetRangeLowerBound_def by (metis prod.inject)
qed

section \<open>Windows\<close>

definition row_data :: "hist_env \<Rightarrow> bytes \<Rightarrow> (u64 \<times> u64) option" where
  "row_data env v =
     (case unmarshal_ActionRow env v of
        None \<Rightarrow> None
      | Some row \<Rightarrow> map_option (\<lambda>rc. (rcpt_GlobalSequence rc, row_LastDeletedSeq row)) (at_Receipt (row_ActionTrace row)))"

text \<open>The rows of a facet are those with ordinals above the last deleted one, up to the current
  one, and the newest row carries the global sequence and the last deleted ordinal.\<close>

definition window_ok :: "hist_env \<Rightarrow> (bytes \<rightharpoonup> bytes) \<Rightarrow> u8 \<Rightarrow> Facet \<Rightarrow> SequenceData \<Rightarrow> bool" where
  "window_ok env m sh f sd \<longleftrightarrow>
     (\<forall>n. m (facet_Row f sh n) \<noteq> None \<longleftrightarrow> LastDeletedOrdinal sd < n \<and> n \<le> CurrentOrdinal sd)
     \<and> (if CurrentOrdinal sd = 0 then LastGlobalSeq sd = 0 \<and> LastDeletedOrdinal sd = 0
        else LastDeletedOrdinal sd < CurrentOrdinal sd
          \<and> (\<exists>v. m (facet_Row f sh (CurrentOrdinal sd)) = Some v
               \<and> row_data env v = Some (LastGlobalSeq sd, LastDeletedOrdinal sd)))"

lemma facet_String_inject:
  assumes "hist_env_ok env" and "facet_of F f" "facet_of F g"
  shows "facet_String env f = facet_String env g \<longleftrightarrow> f = g"
proof -
  have inj: "eos_NameToString env a = eos_NameToString env b \<longleftrightarrow> a = b" for a b
    using assms(1) by (auto simp: hist_env_ok_def inj_eq)
  have tw: "takeWhile (\<lambda>c. c \<noteq> CHR '')'') (eos_NameToString env a @ CHR '')'' # r) = eos_NameToString env a" for a r
    using assms(1) by (auto simp: hist_env_ok_def)
  have "eos_NameToString env a @ CHR '')'' # r = eos_NameToString env b @ CHR '')'' # r' \<longleftrightarrow> a = b \<and> r = r'" for a b r r'
    using tw inj by (metis append_same_eq list.inject same_append_eq)
  then show ?thesis using assms(2,3) by (cases F; cases f; cases g) (simp_all add: inj)
qed

text \<open>Reading the sequence data of a facet from a window gives the data of the window.\<close>

lemma scanned_window:
  assumes "hist_env_ok env" and f: "facet_of F f" and wf: "rows_wf F m" and fin: "finite (dom m)"
    and win: "window_ok env m sh f sd" and r: "FacetShardRange env f sh = (a, b)"
  shows "if CurrentOrdinal sd = 0 then scan_items m a b = []
    else \<exists>v rest. scan_items m a b = (facet_Row f sh (CurrentOrdinal sd), v) # rest
      \<and> row_seq_data env F True (facet_Row f sh (CurrentOrdinal sd)) v = Inr (sd\<lparr>MaxEntries := 0\<rparr>, sh)"
proof (cases "CurrentOrdinal sd = 0")
  case True
  then have "m (facet_Row f sh n) = None" for n using win by (auto simp: window_ok_def)
  then show ?thesis
    using True in_range_row(1) [OF assms(1) f wf _ r] by (auto simp: scan_items_Nil [OF fin] dom_def)
next
  case False
  then obtain v where v: "m (facet_Row f sh (CurrentOrdinal sd)) = Some v"
    and d: "row_data env v = Some (LastGlobalSeq sd, LastDeletedOrdinal sd)"
    using win by (auto simp: window_ok_def)
  let ?k = "facet_Row f sh (CurrentOrdinal sd)"
  have "\<exists>rest. scan_items m a b = (?k, the (m ?k)) # rest"
  proof (rule scan_keys_first [OF fin])
    show k: "?k \<in> dom m" using v by auto
    have "a \<le> ?k \<and> ?k < b" using in_range_row(1) [OF assms(1) f wf k r] by blast
    then show "a \<le> ?k" "?k < b" by auto
  next
    fix k' assume k': "k' \<in> dom m" "a \<le> k'" "k' < b"
    then obtain n where n: "k' = facet_Row f sh n" using in_range_row(1) [OF assms(1) f wf _ r] by blast
    have "n \<le> CurrentOrdinal sd" using win k'(1) n by (auto simp: window_ok_def dom_def)
    then show "?k \<le> k'" by (simp add: n facet_Row_le [OF f f])
  qed
  moreover have "row_seq_data env F True ?k v = Inr (sd\<lparr>MaxEntries := 0\<rparr>, sh)"
    using d by (auto simp: row_seq_data_def row_data_def DecodeRow_facet_Row [OF f] split: option.splits)
  ultimately show ?thesis using False v by auto
qed

lemma le_word_succ: "c \<noteq> - 1 \<Longrightarrow> n \<le> c + 1 \<longleftrightarrow> n \<le> c \<or> n = c + (1 :: 'a::len word)"
proof -
  assume "c \<noteq> - 1"
  then have "c + 1 \<noteq> 0" by (simp add: add_eq_0_iff2)
  then have "n < c + 1 \<longleftrightarrow> n \<le> c" using word_less_pred_iff [of "c + 1" n] by simp
  then show ?thesis by (auto simp: le_less)
qed

text \<open>Deleting the stale rows of a window and writing the next one gives the next window.\<close>

lemma next_window:
  assumes win: "window_ok env E sh f sd" and c: "CurrentOrdinal sd \<noteq> - 1" and M: "MaxEntries sd \<noteq> 0"
    and ld: "ld = max (LastDeletedOrdinal sd) (if CurrentOrdinal sd > MaxEntries sd then CurrentOrdinal sd - MaxEntries sd else 0)"
    and E': "E' = (E |` (- facet_Row f sh ` {n. LastDeletedOrdinal sd < n \<and> n \<le> ld}))(facet_Row f sh (CurrentOrdinal sd + 1) \<mapsto> v)"
    and v: "row_data env v = Some (seq, ld)"
  shows "window_ok env E' sh f (sd\<lparr>LastDeletedOrdinal := ld, CurrentOrdinal := CurrentOrdinal sd + 1, LastGlobalSeq := seq\<rparr>)"
    and "card {n. E' (facet_Row f sh n) \<noteq> None} \<le> unat (MaxEntries sd) + 1"
proof -
  let ?c = "CurrentOrdinal sd" and ?M = "MaxEntries sd"
  have sub: "?c > ?M \<Longrightarrow> unat (?c - ?M) = unat ?c - unat ?M" by (simp add: unat_sub less_imp_le)
  have Mn: "0 < unat ?M" using M by (simp add: unat_gt_0)
  have ld0: "LastDeletedOrdinal sd \<le> ?c" using win by (auto simp: window_ok_def split: if_splits)
  have ldc: "ld \<le> ?c" using ld0 sub Mn by (auto simp: ld max_def word_le_nat_alt)
  have nz: "?c + 1 \<noteq> 0" using c by (simp add: add_eq_0_iff2)
  then have s: "?c < ?c + 1" using word_less_pred_iff [of "?c + 1" ?c] by simp
  have rows: "E' (facet_Row f sh n) \<noteq> None \<longleftrightarrow> ld < n \<and> n \<le> ?c + 1" for n
  proof -
    have "E (facet_Row f sh n) \<noteq> None \<longleftrightarrow> LastDeletedOrdinal sd < n \<and> n \<le> ?c"
      using win by (simp add: window_ok_def)
    moreover have "LastDeletedOrdinal sd \<le> ld" by (simp add: ld)
    ultimately show ?thesis using ldc s by (auto simp: E' restrict_map_def le_word_succ [OF c] image_iff not_le)
  qed
  then show "window_ok env E' sh f (sd\<lparr>LastDeletedOrdinal := ld, CurrentOrdinal := ?c + 1, LastGlobalSeq := seq\<rparr>)"
    using ldc s nz v by (auto simp: window_ok_def E')
  have "{n. E' (facet_Row f sh n) \<noteq> None} = {ld<..?c + 1}" using rows by auto
  moreover have "unat (?c + 1) = unat ?c + 1" using unatSuc [of ?c] nz by (simp only: add.commute) simp
  moreover have "card {ld<..?c + 1} \<le> card {unat ld<..unat (?c + 1)}"
    by (rule card_inj_on_le [of unat]) (auto simp: inj_on_def word_less_nat_alt word_le_nat_alt word_unat_eq_iff)
  ultimately show "card {n. E' (facet_Row f sh n) \<noteq> None} \<le> unat ?M + 1"
    using sub ld Mn by (auto simp: max_def word_le_nat_alt word_less_nat_alt split: if_splits)
qed

lemma written_row_data:
  assumes "rows_env_ok env acts" "act \<in> acts" "at_Receipt act = Some rc"
  shows "row_data env (if ld \<noteq> 0 then marshal_ActionRow env (new_ActionRow act) @ marshal_ActionRowAppend env ld
      else marshal_ActionRow env (new_ActionRow act)) = Some (rcpt_GlobalSequence rc, ld)"
  using assms by (auto simp: row_data_def rows_env_ok_def new_ActionRow_def)

section \<open>The injector over a cached store\<close>

text \<open>The invariant of the injector, with a bound on the ordinals in use. A facet that was not read
  yet has no buffered write, and its rows are a window (or absent, when the injector did not start
  from a checkpoint); a facet in the cache has the window of its cached data, and no older row lies
  above it. No buffered row replaces an older one.\<close>

definition facet_inv ::
  "hist_env \<Rightarrow> ('s \<Rightarrow> bytes \<rightharpoonup> bytes) \<Rightarrow> ('s \<Rightarrow> bytes \<rightharpoonup> bytes) \<Rightarrow> 's Injector \<Rightarrow> Facet \<Rightarrow> bool" where
  "facet_inv env view eff i f \<longleftrightarrow>
     (case cacheSeqData i (facet_String env f) of
        Some sd \<Rightarrow> window_ok env (eff (inj_KvStore i)) (ShardNum i) f sd \<and> MaxEntries sd = inj_MaxEntries i
          \<and> (\<forall>n. CurrentOrdinal sd < n \<longrightarrow> view (inj_KvStore i) (facet_Row f (ShardNum i) n) = None)
      | None \<Rightarrow>
          (\<forall>n. eff (inj_KvStore i) (facet_Row f (ShardNum i) n) = view (inj_KvStore i) (facet_Row f (ShardNum i) n))
          \<and> (if startedFromCheckpoint i then \<exists>sd. window_ok env (view (inj_KvStore i)) (ShardNum i) f sd
             else \<forall>n. view (inj_KvStore i) (facet_Row f (ShardNum i) n) = None))"

definition inj_inv ::
  "hist_env \<Rightarrow> ('s \<Rightarrow> bool) \<Rightarrow> ('s \<Rightarrow> bytes \<rightharpoonup> bytes) \<Rightarrow> ('s \<Rightarrow> bytes \<rightharpoonup> bytes) \<Rightarrow> ('s \<Rightarrow> bytes set) \<Rightarrow> nat \<Rightarrow> 's Injector \<Rightarrow> bool" where
  "inj_inv env sinv view eff pend B i \<longleftrightarrow>
     sinv (inj_KvStore i) \<and> rows_wf (facetFactory i) (view (inj_KvStore i))
     \<and> rows_wf (facetFactory i) (eff (inj_KvStore i))
     \<and> (\<forall>f n. facet_Row f (ShardNum i) n \<in> pend (inj_KvStore i) \<longrightarrow> view (inj_KvStore i) (facet_Row f (ShardNum i) n) = None)
     \<and> (\<forall>f n. facet_of (facetFactory i) f \<longrightarrow> eff (inj_KvStore i) (facet_Row f (ShardNum i) n) \<noteq> None \<longrightarrow> unat n \<le> B)
     \<and> (\<forall>f. facet_of (facetFactory i) f \<longrightarrow> facet_inv env view eff i f)"

locale hist_store = kv_cache +
  fixes env :: hist_env
  assumes env_ok: "hist_env_ok env"
begin

abbreviation facet_ok :: "'a Injector \<Rightarrow> Facet \<Rightarrow> bool" where
  "facet_ok \<equiv> facet_inv env view eff"

abbreviation inj_ok :: "nat \<Rightarrow> 'a Injector \<Rightarrow> bool" where
  "inj_ok \<equiv> inj_inv env sinv view eff pend"

lemmas facet_ok_def = facet_inv_def [of env view eff]
lemmas inj_ok_def = inj_inv_def [of env sinv view eff pend]

lemma getSequenceData_read:
  assumes ok: "inj_ok B i" and f: "facet_of (facetFactory i) f"
    and none: "cacheSeqData i (facet_String env f) = None" and st: "startedFromCheckpoint i"
    and win: "window_ok env (view (inj_KvStore i)) (ShardNum i) f sd"
    and get: "getSequenceData env kv f i = Inr (out, i')"
  shows "out = sd\<lparr>MaxEntries := inj_MaxEntries i\<rparr>"
proof -
  obtain a b where r: "FacetShardRange env f (ShardNum i) = (a, b)" by (metis prod.collapse)
  obtain items e where sc: "kv_Scan kv a b 1 (inj_KvStore i) = (items, e)" by (metis prod.collapse)
  let ?m = "view (inj_KvStore i)"
  have inv: "sinv (inj_KvStore i)" "rows_wf (facetFactory i) ?m" using ok by (simp_all add: inj_ok_def)
  note first = scanned_window [OF env_ok f inv(2) finite_view [OF inv(1)] win r]
  have items: "if e = None then items = limited 1 (scan_items ?m a b) else \<exists>j. items = take j (scan_items ?m a b)"
    using scan [OF inv(1) sc] by simp
  show ?thesis
  proof (cases items)
    case Nil
    then have e: "e = None"
      using get none st r sc
      by (auto simp: getSequenceData_def ShardSeqDataPerFacet_def scanShardSeqDataPerFacet_def split: option.splits)
    with items Nil have "scan_items ?m a b = []" by (cases "scan_items ?m a b") (auto simp: limited_def)
    with first have "CurrentOrdinal sd = 0" by (auto split: if_splits)
    with win have sd: "sd\<lparr>MaxEntries := inj_MaxEntries i\<rparr> = empty_SequenceData\<lparr>MaxEntries := inj_MaxEntries i\<rparr>"
      by (simp add: window_ok_def empty_SequenceData_def)
    show ?thesis
      using get none st r sc Nil e
      by (simp add: sd getSequenceData_def ShardSeqDataPerFacet_def scanShardSeqDataPerFacet_def Let_def)
  next
    case (Cons it rest)
    then have hd: "hd (scan_items ?m a b) = it" "scan_items ?m a b \<noteq> []"
      using items by (auto simp: limited_def split: if_splits) (metis hd_take list.sel(1) list.simps(3) take_eq_Nil gr0I)+
    with first obtain v where "it = (facet_Row f (ShardNum i) (CurrentOrdinal sd), v)"
      and "row_seq_data env (facetFactory i) True (facet_Row f (ShardNum i) (CurrentOrdinal sd)) v = Inr (sd\<lparr>MaxEntries := 0\<rparr>, ShardNum i)"
      by (auto split: if_splits)
    then show ?thesis
      using get none st r sc Cons
      by (auto simp: getSequenceData_def ShardSeqDataPerFacet_def scanShardSeqDataPerFacet_def Let_def)
  qed
qed

lemma getSequenceData_succeeds:
  assumes ok: "inj_ok B i" and f: "facet_of (facetFactory i) f"
    and none: "cacheSeqData i (facet_String env f) = None" and st: "startedFromCheckpoint i"
    and win: "window_ok env (view (inj_KvStore i)) (ShardNum i) f sd"
    and r: "FacetShardRange env f (ShardNum i) = (a, b)" and sc: "kv_Scan kv a b 1 (inj_KvStore i) = (items, None)"
  shows "\<exists>i'. getSequenceData env kv f i = Inr (sd\<lparr>MaxEntries := inj_MaxEntries i\<rparr>, i')"
proof -
  let ?m = "view (inj_KvStore i)"
  have inv: "sinv (inj_KvStore i)" "rows_wf (facetFactory i) ?m" using ok by (simp_all add: inj_ok_def)
  note first = scanned_window [OF env_ok f inv(2) finite_view [OF inv(1)] win r]
  have items: "items = limited 1 (scan_items ?m a b)" using scan [OF inv(1) sc] by simp
  have "\<exists>out i'. getSequenceData env kv f i = Inr (out, i')"
  proof (cases "CurrentOrdinal sd = 0")
    case True
    with first have "items = []" by (simp add: items limited_def)
    then show ?thesis using none st r sc
      by (simp add: getSequenceData_def ShardSeqDataPerFacet_def scanShardSeqDataPerFacet_def Let_def)
  next
    case False
    with first obtain v where "items = [(facet_Row f (ShardNum i) (CurrentOrdinal sd), v)]"
      and "row_seq_data env (facetFactory i) True (facet_Row f (ShardNum i) (CurrentOrdinal sd)) v = Inr (sd\<lparr>MaxEntries := 0\<rparr>, ShardNum i)"
      by (auto simp: items limited_def)
    then show ?thesis using none st r sc
      by (simp add: getSequenceData_def ShardSeqDataPerFacet_def scanShardSeqDataPerFacet_def Let_def)
  qed
  then show ?thesis using getSequenceData_read [OF ok f none st win] by blast
qed

lemma UpdateSeqData_fields [simp]:
  "ShardNum (UpdateSeqData env f sd i) = ShardNum i" "inj_KvStore (UpdateSeqData env f sd i) = inj_KvStore i"
  "facetFactory (UpdateSeqData env f sd i) = facetFactory i" "inj_MaxEntries (UpdateSeqData env f sd i) = inj_MaxEntries i"
  "startedFromCheckpoint (UpdateSeqData env f sd i) = startedFromCheckpoint i"
  by (simp_all add: UpdateSeqData_def)

lemma facet_ok_Update:
  assumes "facet_of (facetFactory i) f" "facet_of (facetFactory i) g"
  shows "facet_ok (UpdateSeqData env f sd i) g \<longleftrightarrow>
    (if g = f then window_ok env (eff (inj_KvStore i)) (ShardNum i) f sd \<and> MaxEntries sd = inj_MaxEntries i
        \<and> (\<forall>n. CurrentOrdinal sd < n \<longrightarrow> view (inj_KvStore i) (facet_Row f (ShardNum i) n) = None)
     else facet_ok i g)"
  using facet_String_inject [OF env_ok assms(2,1)]
  by (auto simp: facet_ok_def UpdateSeqData_def split: option.splits)

lemma window_above: "window_ok env m sh f sd \<Longrightarrow> CurrentOrdinal sd < n \<Longrightarrow> m (facet_Row f sh n) = None"
  unfolding window_ok_def by (metis leD)

text \<open>After \<open>getSequenceData\<close> the facet is cached with the data of its window.\<close>

lemma getSequenceData_ok:
  assumes ok: "inj_ok B i" and f: "facet_of (facetFactory i) f"
    and get: "getSequenceData env kv f i = Inr (sd, i')"
  shows "inj_ok B i'" and "cacheSeqData i' (facet_String env f) = Some sd"
    and "inj_KvStore i' = inj_KvStore i" "ShardNum i' = ShardNum i" "facetFactory i' = facetFactory i"
    and "inj_MaxEntries i' = inj_MaxEntries i"
proof -
  have fok: "facet_ok i f" using ok f by (simp add: inj_ok_def)
  have eq: "i' = i \<and> cacheSeqData i (facet_String env f) = Some sd
    \<or> i' = UpdateSeqData env f sd i \<and> window_ok env (eff (inj_KvStore i)) (ShardNum i) f sd \<and> MaxEntries sd = inj_MaxEntries i
        \<and> (\<forall>n. CurrentOrdinal sd < n \<longrightarrow> view (inj_KvStore i) (facet_Row f (ShardNum i) n) = None)"
  proof (cases "cacheSeqData i (facet_String env f)")
    case (Some sd')
    then show ?thesis using get by (auto simp: getSequenceData_def)
  next
    case None
    have same: "window_ok env (eff (inj_KvStore i)) (ShardNum i) f x = window_ok env (view (inj_KvStore i)) (ShardNum i) f x" for x
      using fok None by (simp add: facet_ok_def window_ok_def)
    show ?thesis
    proof (cases "startedFromCheckpoint i")
      case False
      have sd: "sd = empty_SequenceData\<lparr>MaxEntries := inj_MaxEntries i\<rparr>" "i' = UpdateSeqData env f sd i"
        using get None False by (auto simp: getSequenceData_def Let_def)
      have "window_ok env (view (inj_KvStore i)) (ShardNum i) f sd"
        using fok None False sd(1) by (auto simp: facet_ok_def window_ok_def empty_SequenceData_def)
      then show ?thesis using same sd fok None False by (simp add: facet_ok_def)
    next
      case True
      then obtain sd0 where win: "window_ok env (view (inj_KvStore i)) (ShardNum i) f sd0"
        using fok None by (auto simp: facet_ok_def)
      have sd: "sd = sd0\<lparr>MaxEntries := inj_MaxEntries i\<rparr>" by (rule getSequenceData_read [OF ok f None True win get])
      then have w: "window_ok env (view (inj_KvStore i)) (ShardNum i) f sd" using win by (simp add: window_ok_def)
      have "i' = UpdateSeqData env f sd i"
        using get None True by (auto simp: getSequenceData_def Let_def bind_res_Inr_iff)
      then show ?thesis using same w sd window_above [OF w] by auto
    qed
  qed
  then show "cacheSeqData i' (facet_String env f) = Some sd" "inj_KvStore i' = inj_KvStore i"
    "ShardNum i' = ShardNum i" "facetFactory i' = facetFactory i" "inj_MaxEntries i' = inj_MaxEntries i"
    by (auto simp: UpdateSeqData_def)
  show "inj_ok B i'"
    using eq ok f facet_ok_Update [OF f] by (auto simp: inj_ok_def)
qed

lemma deleteActions_effect:
  assumes "sinv (inj_KvStore i)"
    and "\<forall>n. facet_Row f (ShardNum i) n \<in> pend (inj_KvStore i) \<longrightarrow> view (inj_KvStore i) (facet_Row f (ShardNum i) n) = None"
    and "fold_res (deleteAction kv f) js i = Inr i'"
  shows "\<exists>s. i' = i\<lparr>inj_KvStore := s\<rparr> \<and> sinv s \<and> view s = view (inj_KvStore i) \<and> pend s \<subseteq> pend (inj_KvStore i)
    \<and> eff s = eff (inj_KvStore i) |` (- facet_Row f (ShardNum i) ` set js)"
  using assms
proof (induction js arbitrary: i)
  case Nil
  then show ?case by (intro exI [of _ "inj_KvStore i"]) (simp add: restrict_map_def)
next
  case (Cons j js)
  obtain e s1 where d: "kv_BatchDelete kv [facet_Row f (ShardNum i) j] (inj_KvStore i) = (e, s1)" by (metis prod.collapse)
  then have e: "e = None" and rest: "fold_res (deleteAction kv f) js (i\<lparr>inj_KvStore := s1\<rparr>) = Inr i'"
    using Cons.prems(3) by (auto simp: deleteAction_def [of kv f j i] store_step_def split: option.splits)
  have s1: "view s1 = view (inj_KvStore i)" "sinv s1" "pend s1 \<subseteq> pend (inj_KvStore i)"
    "eff s1 = eff (inj_KvStore i) |` (- {facet_Row f (ShardNum i) j})"
    using delete_cached [OF Cons.prems(1) _ d] Cons.prems(2) e by auto
  obtain s where s: "i' = i\<lparr>inj_KvStore := s1, inj_KvStore := s\<rparr>" "sinv s" "view s = view s1" "pend s \<subseteq> pend s1"
    "eff s = eff s1 |` (- facet_Row f (ShardNum i) ` set js)"
    using Cons.IH [of "i\<lparr>inj_KvStore := s1\<rparr>"] s1 Cons.prems(2) rest by auto
  have "eff s = eff (inj_KvStore i) |` (- facet_Row f (ShardNum i) ` set (j # js))"
    using s(5) s1(4) by (auto simp: restrict_map_def fun_eq_iff)
  then show ?case using s s1 by auto
qed

lemma stale_ordinals_set: "n \<in> set (stale_ordinals ld lr) \<longleftrightarrow> ld < n \<and> n \<le> lr"
proof -
  have "n = of_nat (unat n)" by simp
  moreover have "of_nat k = n \<Longrightarrow> k \<le> unat lr \<Longrightarrow> k = unat n" for k
    using unsigned_less [of lr, where ?'a = nat] by (auto simp: unat_of_nat)
  ultimately show ?thesis
    by (auto simp: stale_ordinals_def word_less_nat_alt word_le_nat_alt image_iff intro!: exI [of _ "unat n"])
qed

lemma deleteStaleRows_effect:
  assumes "sinv (inj_KvStore i)"
    and "\<forall>n. facet_Row f (ShardNum i) n \<in> pend (inj_KvStore i) \<longrightarrow> view (inj_KvStore i) (facet_Row f (ShardNum i) n) = None"
    and "deleteStaleRows kv f sd i = Inr (ld, i')"
  shows "\<exists>s. i' = i\<lparr>inj_KvStore := s\<rparr> \<and> sinv s \<and> view s = view (inj_KvStore i) \<and> pend s \<subseteq> pend (inj_KvStore i)
    \<and> eff s = eff (inj_KvStore i) |` (- facet_Row f (ShardNum i) ` {n. LastDeletedOrdinal sd < n \<and> n \<le> ld})"
    and "ld = max (LastDeletedOrdinal sd) (if CurrentOrdinal sd > MaxEntries sd then CurrentOrdinal sd - MaxEntries sd else 0)"
proof -
  let ?lr = "CurrentOrdinal sd - MaxEntries sd"
  have "ld = LastDeletedOrdinal sd \<and> i' = i \<and> (CurrentOrdinal sd > MaxEntries sd \<longrightarrow> ?lr \<le> ld)
    \<or> ld = ?lr \<and> CurrentOrdinal sd > MaxEntries sd \<and> LastDeletedOrdinal sd < ?lr
      \<and> fold_res (deleteAction kv f) (stale_ordinals (LastDeletedOrdinal sd) ?lr) i = Inr i'"
    using assms(3) by (auto simp: deleteStaleRows_def Let_def bind_res_Inr_iff not_le split: if_splits)
  then consider (keep) "ld = LastDeletedOrdinal sd" "i' = i" "CurrentOrdinal sd > MaxEntries sd \<longrightarrow> ?lr \<le> ld"
    | (del) "ld = ?lr" "CurrentOrdinal sd > MaxEntries sd" "LastDeletedOrdinal sd < ?lr"
      "fold_res (deleteAction kv f) (stale_ordinals (LastDeletedOrdinal sd) ?lr) i = Inr i'" by blast
  then show "\<exists>s. i' = i\<lparr>inj_KvStore := s\<rparr> \<and> sinv s \<and> view s = view (inj_KvStore i) \<and> pend s \<subseteq> pend (inj_KvStore i)
    \<and> eff s = eff (inj_KvStore i) |` (- facet_Row f (ShardNum i) ` {n. LastDeletedOrdinal sd < n \<and> n \<le> ld})"
  proof cases
    case keep
    then have none: "{n. LastDeletedOrdinal sd < n \<and> n \<le> ld} = {}" by auto
    show ?thesis unfolding none
      by (rule exI [of _ "inj_KvStore i"]) (simp add: keep assms(1) restrict_map_def)
  next
    case del
    have "set (stale_ordinals (LastDeletedOrdinal sd) ?lr) = {n. LastDeletedOrdinal sd < n \<and> n \<le> ld}"
      by (auto simp: stale_ordinals_set del(1))
    with deleteActions_effect [OF assms(1,2) del(4)] show ?thesis by simp
  qed
  show "ld = max (LastDeletedOrdinal sd) (if CurrentOrdinal sd > MaxEntries sd then ?lr else 0)"
    using \<open>ld = LastDeletedOrdinal sd \<and> _ \<or> _\<close> by (auto simp: max_def)
qed

lemma WriteAction_effect:
  assumes "sinv (inj_KvStore i)" and "WriteAction env kv f sd raw i = Inr i'"
  shows "\<exists>s. i' = i\<lparr>inj_KvStore := s\<rparr> \<and> sinv s \<and> view s = view (inj_KvStore i)
    \<and> pend s \<subseteq> insert (facet_Row f (ShardNum i) (CurrentOrdinal sd)) (pend (inj_KvStore i))
    \<and> eff s = (eff (inj_KvStore i))(facet_Row f (ShardNum i) (CurrentOrdinal sd) \<mapsto>
        (if LastDeletedOrdinal sd \<noteq> 0 then raw @ marshal_ActionRowAppend env (LastDeletedOrdinal sd) else raw))"
proof -
  let ?v = "if LastDeletedOrdinal sd \<noteq> 0 then raw @ marshal_ActionRowAppend env (LastDeletedOrdinal sd) else raw"
  obtain e s where p: "kv_Put kv (facet_Row f (ShardNum i) (CurrentOrdinal sd)) ?v (inj_KvStore i) = (e, s)"
    by (metis prod.collapse)
  then have "e = None" "i' = i\<lparr>inj_KvStore := s\<rparr>"
    using assms(2) by (auto simp: WriteAction_def Let_def store_step_def bind_res_Inr_iff split: option.splits)
  with put [OF assms(1) p] put_cached [OF assms(1) p] show ?thesis by auto
qed

lemma facet_ok_store:
  assumes "\<forall>n. eff s (facet_Row g (ShardNum i) n) = eff (inj_KvStore i) (facet_Row g (ShardNum i) n)"
    and "view s = view (inj_KvStore i)"
  shows "facet_ok (i\<lparr>inj_KvStore := s\<rparr>) g \<longleftrightarrow> facet_ok i g"
  using assms by (simp add: facet_ok_def window_ok_def split: option.splits)

lemma inj_ok_mono: "inj_ok B i \<Longrightarrow> B \<le> B' \<Longrightarrow> inj_ok B' i"
  unfolding inj_ok_def by (meson order_trans)

lemma rows_wf_restrict_upd:
  "rows_wf F m \<Longrightarrow> facet_of F f \<Longrightarrow> rows_wf F ((m |` A)(facet_Row f s n \<mapsto> v))"
  unfolding rows_wf_def by (auto simp: restrict_map_def split: if_splits)

text \<open>The state after an action was written for the facet of an account.\<close>

lemma written_ok:
  assumes ok: "inj_ok B i" and B: "B + 1 < 2 ^ 64" and f: "facet_of (facetFactory i) f"
    and cached: "cacheSeqData i (facet_String env f) = Some sd" and M: "MaxEntries sd \<noteq> 0"
    and del: "deleteStaleRows kv f sd i = Inr (ld, i2)"
    and wr: "WriteAction env kv f (sd\<lparr>LastDeletedOrdinal := ld, CurrentOrdinal := CurrentOrdinal sd + 1\<rparr>) raw i2 = Inr i3"
    and v: "row_data env (if ld \<noteq> 0 then raw @ marshal_ActionRowAppend env ld else raw) = Some (seq, ld)"
  defines "sd' \<equiv> sd\<lparr>LastDeletedOrdinal := ld, CurrentOrdinal := CurrentOrdinal sd + 1, LastGlobalSeq := seq\<rparr>"
  shows "inj_ok (B + 1) (UpdateSeqData env f sd' i3)"
    and "card {n. eff (inj_KvStore i3) (facet_Row f (ShardNum i) n) \<noteq> None} \<le> unat (MaxEntries sd) + 1"
    and "ShardNum i3 = ShardNum i" "facetFactory i3 = facetFactory i" "inj_MaxEntries i3 = inj_MaxEntries i"
proof -
  let ?sh = "ShardNum i" and ?s = "inj_KvStore i" and ?c = "CurrentOrdinal sd"
  have inv: "sinv ?s" and pd: "facet_Row g ?sh n \<in> pend ?s \<Longrightarrow> view ?s (facet_Row g ?sh n) = None" for g n
    using ok by (simp_all add: inj_ok_def)
  have win: "window_ok env (eff ?s) ?sh f sd" and max: "MaxEntries sd = inj_MaxEntries i"
    and above: "?c < n \<Longrightarrow> view ?s (facet_Row f ?sh n) = None" for n
    using ok f cached by (auto simp: inj_ok_def facet_ok_def)
  have cB: "unat ?c \<le> B"
  proof (cases "?c = 0")
    case False
    then have "eff ?s (facet_Row f ?sh ?c) \<noteq> None" using win by (auto simp: window_ok_def)
    then show ?thesis using ok f unfolding inj_ok_def by blast
  qed simp
  have c: "?c \<noteq> - 1"
  proof
    assume "?c = - 1"
    then have "unat ?c = 2 ^ 64 - 1" by (simp add: unsigned_minus_1_eq_mask mask_eq_exp_minus_1)
    with cB B show False by simp
  qed
  obtain s2 where s2: "i2 = i\<lparr>inj_KvStore := s2\<rparr>" "sinv s2" "view s2 = view ?s" "pend s2 \<subseteq> pend ?s"
    "eff s2 = eff ?s |` (- facet_Row f ?sh ` {n. LastDeletedOrdinal sd < n \<and> n \<le> ld})"
    and ld: "ld = max (LastDeletedOrdinal sd) (if ?c > MaxEntries sd then ?c - MaxEntries sd else 0)"
    using deleteStaleRows_effect [OF inv _ del] pd by blast
  define v' where "v' = (if ld \<noteq> 0 then raw @ marshal_ActionRowAppend env ld else raw)"
  obtain s3 where s3: "i3 = i\<lparr>inj_KvStore := s3\<rparr>" "sinv s3" "view s3 = view ?s"
    "pend s3 \<subseteq> insert (facet_Row f ?sh (?c + 1)) (pend ?s)"
    "eff s3 = (eff ?s |` (- facet_Row f ?sh ` {n. LastDeletedOrdinal sd < n \<and> n \<le> ld}))(facet_Row f ?sh (?c + 1) \<mapsto> v')"
  proof -
    from WriteAction_effect [OF _ wr] s2(1,2)
    obtain s where s: "i3 = i\<lparr>inj_KvStore := s\<rparr>" "sinv s" "view s = view s2"
      "pend s \<subseteq> insert (facet_Row f ?sh (?c + 1)) (pend s2)" "eff s = (eff s2)(facet_Row f ?sh (?c + 1) \<mapsto> v')"
      by (auto simp: v'_def cong: if_cong)
    show thesis
    proof (rule that [OF s(1,2)])
      show "pend s \<subseteq> insert (facet_Row f ?sh (?c + 1)) (pend ?s)" using s(4) s2(4) by blast
    qed (simp_all add: s s2)
  qed
  have s: "?c < ?c + 1" using word_less_pred_iff [of "?c + 1" ?c] c by (simp add: add_eq_0_iff2)
  note nw = next_window [OF win c M ld s3(5) v [folded v'_def]]
  show "card {n. eff (inj_KvStore i3) (facet_Row f ?sh n) \<noteq> None} \<le> unat (MaxEntries sd) + 1"
    using nw(2) by (simp add: s3(1))
  show fields: "ShardNum i3 = ShardNum i" "facetFactory i3 = facetFactory i" "inj_MaxEntries i3 = inj_MaxEntries i"
    by (simp_all add: s3(1))
  have "facet_ok (UpdateSeqData env f sd' i3) g" if g: "facet_of (facetFactory i) g" for g
  proof (cases "g = f")
    case True
    then show ?thesis
      using facet_ok_Update [of i3 f f sd'] nw(1) f above s s3(3) max
      by (auto simp: s3(1) sd'_def intro: less_trans)
  next
    case False
    have "facet_ok i3 g \<longleftrightarrow> facet_ok i g"
      unfolding s3(1) using False by (intro facet_ok_store) (auto simp: s3 restrict_map_def)
    then show ?thesis using facet_ok_Update [of i3 f g sd'] f g False ok by (simp add: fields inj_ok_def)
  qed
  moreover have "unat n \<le> B + 1" if "facet_of (facetFactory i) g" "eff s3 (facet_Row g ?sh n) \<noteq> None" for g n
  proof (cases "g = f \<and> n = ?c + 1")
    case True
    then have "unat n \<le> unat ?c + 1" by (simp add: unat_word_ariths(1))
    then show ?thesis using cB by simp
  next
    case False
    then have "eff ?s (facet_Row g ?sh n) \<noteq> None" using that(2) by (auto simp: s3(5) restrict_map_def split: if_splits)
    then show ?thesis using ok that(1) unfolding inj_ok_def by (metis add.commute trans_le_add2)
  qed
  moreover have "view s3 (facet_Row g ?sh n) = None" if "facet_Row g ?sh n \<in> pend s3" for g n
    using that s3(3,4) pd above [OF s] by auto
  moreover have "rows_wf (facetFactory i) (eff s3)"
    unfolding s3(5) using rows_wf_restrict_upd f ok by (simp add: inj_ok_def)
  ultimately show "inj_ok (B + 1) (UpdateSeqData env f sd' i3)"
    using ok s3(2,3) by (simp add: inj_ok_def s3(1))
qed

lemma process_account_ok:
  assumes ok: "inj_ok B i" and B: "B + 1 < 2 ^ 64"
    and rows: "rows_env_ok env acts" "act \<in> acts"
    and raw: "\<forall>rc. at_Receipt act = Some rc \<longrightarrow>
      rawTraceMap (rcpt_GlobalSequence rc) = Some (marshal_ActionRow env (new_ActionRow act))"
    and p: "process_account env kv act rawTraceMap acct i = Inr (continue, i')"
  shows "inj_ok (B + 1) i'" and "ShardNum i' = ShardNum i" "facetFactory i' = facetFactory i"
    and "continue \<Longrightarrow> \<exists>a f. eos_StringToName env acct = Some a \<and> NewFacet env (facetFactory i) act a = Some f
      \<and> card {n. eff (inj_KvStore i') (facet_Row f (ShardNum i) n) \<noteq> None} \<le> unat (inj_MaxEntries i) + 1"
proof -
  from p obtain a f sd i1 where a: "eos_StringToName env acct = Some a"
    and f: "NewFacet env (facetFactory i) act a = Some f" and get: "getSequenceData env kv f i = Inr (sd, i1)"
    unfolding process_account_def bind_res_Inr_iff by auto
  note facet = NewFacet_of [OF f]
  note g = getSequenceData_ok [OF ok facet get]
  have "facet_ok i1 f" using g(1) facet unfolding inj_ok_def g(5) by blast
  then have max: "MaxEntries sd = inj_MaxEntries i" by (simp add: facet_ok_def g)
  have step: "(if MaxEntries sd = 0 then Inr (False, i1)
      else bind_res (from_opt HistPanic (at_Receipt act)) (\<lambda>rc.
        if rcpt_GlobalSequence rc \<le> LastGlobalSeq sd then Inr (False, i1)
        else bind_res (deleteStaleRows kv f sd i1) (\<lambda>(ld, i2).
          bind_res (WriteAction env kv f (sd\<lparr>LastDeletedOrdinal := ld, CurrentOrdinal := CurrentOrdinal sd + 1\<rparr>)
            (case rawTraceMap (rcpt_GlobalSequence rc) of None \<Rightarrow> [] | Some raw \<Rightarrow> raw) i2) (\<lambda>i3.
            Inr (True, UpdateSeqData env f (sd\<lparr>LastDeletedOrdinal := ld, CurrentOrdinal := CurrentOrdinal sd + 1,
              LastGlobalSeq := rcpt_GlobalSequence rc\<rparr>) i3))))) = Inr (continue, i')"
    using p [unfolded process_account_def Let_def] a f get by simp
  have "inj_ok (B + 1) i' \<and> ShardNum i' = ShardNum i \<and> facetFactory i' = facetFactory i
    \<and> (continue \<longrightarrow> card {n. eff (inj_KvStore i') (facet_Row f (ShardNum i) n) \<noteq> None} \<le> unat (inj_MaxEntries i) + 1)"
  proof (cases continue)
    case False
    then have "i' = i1" using step by (auto simp: bind_res_Inr_iff split: if_splits)
    then show ?thesis using False g inj_ok_mono by auto
  next
    case True
    then obtain rc ld i2 i3 where rc: "at_Receipt act = Some rc" and M: "MaxEntries sd \<noteq> 0"
      and del: "deleteStaleRows kv f sd i1 = Inr (ld, i2)"
      and wr: "WriteAction env kv f (sd\<lparr>LastDeletedOrdinal := ld, CurrentOrdinal := CurrentOrdinal sd + 1\<rparr>)
            (case rawTraceMap (rcpt_GlobalSequence rc) of None \<Rightarrow> [] | Some raw \<Rightarrow> raw) i2 = Inr i3"
      and i': "i' = UpdateSeqData env f (sd\<lparr>LastDeletedOrdinal := ld, CurrentOrdinal := CurrentOrdinal sd + 1,
              LastGlobalSeq := rcpt_GlobalSequence rc\<rparr>) i3"
      using step by (auto simp: bind_res_Inr_iff split: if_splits)
    have "(case rawTraceMap (rcpt_GlobalSequence rc) of None \<Rightarrow> [] | Some raw \<Rightarrow> raw) = marshal_ActionRow env (new_ActionRow act)"
      using raw rc by simp
    note wr' = wr [unfolded this]
    have f1: "facet_of (facetFactory i1) f" using facet g by simp
    note w = written_ok [OF g(1) B f1 g(2) M del wr' written_row_data [OF rows rc]]
    show ?thesis using w True by (simp add: i' g max)
  qed
  with a f show "inj_ok (B + 1) i'" "ShardNum i' = ShardNum i" "facetFactory i' = facetFactory i"
    "continue \<Longrightarrow> \<exists>a f. eos_StringToName env acct = Some a \<and> NewFacet env (facetFactory i) act a = Some f
      \<and> card {n. eff (inj_KvStore i') (facet_Row f (ShardNum i) n) \<noteq> None} \<le> unat (inj_MaxEntries i) + 1"
    by auto
qed

lemma process_accounts_ok:
  assumes "inj_ok B i" and "B + length accts < 2 ^ 64" and "rows_env_ok env acts" "act \<in> acts"
    and "\<forall>rc. at_Receipt act = Some rc \<longrightarrow>
      rawTraceMap (rcpt_GlobalSequence rc) = Some (marshal_ActionRow env (new_ActionRow act))"
    and "process_accounts env kv act rawTraceMap accts i = Inr i'"
  shows "inj_ok (B + length accts) i' \<and> ShardNum i' = ShardNum i \<and> facetFactory i' = facetFactory i"
  using assms(1,2,6)
proof (induction accts arbitrary: B i)
  case Nil
  then show ?case by simp
next
  case (Cons acct accts)
  from Cons.prems(3) obtain continue i1 where p: "process_account env kv act rawTraceMap acct i = Inr (continue, i1)"
    and r: "(if continue then process_accounts env kv act rawTraceMap accts i1 else Inr i1) = Inr i'"
    by (auto simp: bind_res_Inr_iff)
  have B: "B + 1 < 2 ^ 64" "B + 1 + length accts < 2 ^ 64" using Cons.prems(2) by simp_all
  note 1 = process_account_ok(1-3) [OF Cons.prems(1) B(1) assms(3-5) p]
  show ?case
  proof (cases continue)
    case True
    with r Cons.IH [OF 1(1) B(2)] 1 show ?thesis by simp
  next
    case False
    with r 1 inj_ok_mono [OF 1(1), of "B + length (acct # accts)"] show ?thesis by simp
  qed
qed

lemma processAction_ok:
  assumes "inj_ok B i" and "B + length (ord (action_accounts act)) < 2 ^ 64" and "rows_env_ok env acts" "act \<in> acts"
    and "\<forall>rc. at_Receipt act = Some rc \<longrightarrow>
      rawTraceMap (rcpt_GlobalSequence rc) = Some (marshal_ActionRow env (new_ActionRow act))"
    and "processAction env kv ord act rawTraceMap i = Inr i'"
  shows "inj_ok (B + length (ord (action_accounts act))) i' \<and> ShardNum i' = ShardNum i \<and> facetFactory i' = facetFactory i"
proof (cases "ActionFilter (facetFactory i) act")
  case True
  then have "process_accounts env kv act rawTraceMap (ord (action_accounts act)) i = Inr i'"
    using assms(6) by (simp add: processAction_def)
  then show ?thesis by (rule process_accounts_ok [OF assms(1-5)])
next
  case False
  then have "i' = i" using assms(6) by (simp add: processAction_def)
  then show ?thesis using inj_ok_mono [OF assms(1), of "B + length (ord (action_accounts act))"] by simp
qed

lemma checkpoint_key_not_row: "NewCheckpointKey F sh \<noteq> facet_Row f s n" "hd (NewCheckpointKey F sh) \<noteq> Collection F"
proof -
  have "length (NewCheckpointKey F sh) = 2"
    by (cases F) (simp_all add: EncodeAccountCheckpointKey_def EncodeAccountContractCheckpointKey_def)
  moreover have "length (facet_Row f s n) > 2" by (simp add: facet_Row_eq)
  ultimately show "NewCheckpointKey F sh \<noteq> facet_Row f s n" by auto
  show "hd (NewCheckpointKey F sh) \<noteq> Collection F"
    by (cases F) (simp_all add: prefix_defs EncodeAccountCheckpointKey_def EncodeAccountContractCheckpointKey_def)
qed

lemma writeCheckpoint_ok:
  assumes ok: "inj_ok B i" and w: "writeCheckpoint env kv blk i = Inr i'"
  shows "inj_ok B i' \<and> ShardNum i' = ShardNum i \<and> facetFactory i' = facetFactory i"
proof -
  let ?k = "NewCheckpointKey (facetFactory i) (ShardNum i)"
  from w obtain cp s where i': "i' = i\<lparr>lastCheckpoint := cp, inj_KvStore := s\<rparr>"
    and p: "kv_Put kv ?k (marshal_ShardCheckpoint env cp) (inj_KvStore i) = (None, s)"
    by (auto simp: writeCheckpoint_def Let_def bind_res_Inr_iff store_step_def split: option.splits prod.splits)
  have inv: "sinv (inj_KvStore i)" using ok by (simp add: inj_ok_def)
  note law = put [OF inv p] put_cached [OF inv p]
  have rows: "eff s (facet_Row f sh n) = eff (inj_KvStore i) (facet_Row f sh n)" for f sh n
    using law checkpoint_key_not_row(1) [of "facetFactory i" "ShardNum i" f sh n] by auto
  have "facet_ok (i\<lparr>inj_KvStore := s\<rparr>) f = facet_ok i f" for f
    by (rule facet_ok_store) (use rows law(2) in blast)+
  moreover have "facet_ok i' f = facet_ok (i\<lparr>inj_KvStore := s\<rparr>) f" for f
    by (simp add: i' facet_ok_def split: option.splits)
  moreover have "rows_wf (facetFactory i) (eff s)"
    using ok law checkpoint_key_not_row(2) [of "facetFactory i" "ShardNum i"] by (auto simp: inj_ok_def rows_wf_def)
  moreover have "facet_Row f sh n \<in> pend s \<Longrightarrow> facet_Row f sh n \<in> pend (inj_KvStore i)" for f sh n
    using law checkpoint_key_not_row(1) [of "facetFactory i" "ShardNum i" f sh n] by auto
  ultimately show ?thesis using ok law rows by (auto simp: inj_ok_def i')
qed

lemma ForceFlush_ok:
  assumes ok: "inj_ok B i" and fl: "ForceFlush kv i = Inr i'"
  shows "inj_ok B i' \<and> ShardNum i' = ShardNum i \<and> facetFactory i' = facetFactory i"
    and "view (inj_KvStore i') = eff (inj_KvStore i)" "eff (inj_KvStore i') = eff (inj_KvStore i)"
    and "\<exists>s. i' = i\<lparr>inj_KvStore := s\<rparr>"
proof -
  from fl obtain s where i': "i' = i\<lparr>inj_KvStore := s\<rparr>" and p: "kv_FlushPuts kv (inj_KvStore i) = (None, s)"
    by (auto simp: ForceFlush_def bind_res_Inr_iff store_step_def split: option.splits prod.splits)
  have inv: "sinv (inj_KvStore i)" using ok by (simp add: inj_ok_def)
  have law: "sinv s" "pend s = {}" "view s = eff (inj_KvStore i)" "eff s = eff (inj_KvStore i)"
    using flush [OF inv p] by auto
  have "facet_ok i' f" if fok: "facet_ok i f" for f
  proof (cases "cacheSeqData i (facet_String env f)")
    case None
    then have same: "\<forall>n. eff (inj_KvStore i) (facet_Row f (ShardNum i) n) = view (inj_KvStore i) (facet_Row f (ShardNum i) n)"
      using fok by (simp add: facet_ok_def)
    then have "window_ok env (eff (inj_KvStore i)) (ShardNum i) f sd = window_ok env (view (inj_KvStore i)) (ShardNum i) f sd" for sd
      by (simp add: window_ok_def)
    then show ?thesis using fok None same by (auto simp: facet_ok_def i' law split: if_splits)
  next
    case (Some sd)
    then have "window_ok env (eff (inj_KvStore i)) (ShardNum i) f sd" "MaxEntries sd = inj_MaxEntries i"
      using fok by (simp_all add: facet_ok_def)
    then show ?thesis using Some window_above by (simp add: facet_ok_def i' law)
  qed
  then show "inj_ok B i' \<and> ShardNum i' = ShardNum i \<and> facetFactory i' = facetFactory i"
    using ok law by (auto simp: inj_ok_def i')
  show "view (inj_KvStore i') = eff (inj_KvStore i)" "eff (inj_KvStore i') = eff (inj_KvStore i)"
    "\<exists>s. i' = i\<lparr>inj_KvStore := s\<rparr>"
    using law i' by auto
qed

text \<open>The rows that a list of actions can add.\<close>

lemma processActions_ok:
  assumes "inj_ok B i" and "B + (\<Sum>act\<leftarrow>as. length (ord (action_accounts act))) < 2 ^ 64"
    and "rows_env_ok env acts" "set as \<subseteq> acts"
    and "\<forall>act\<in>set as. \<forall>rc. at_Receipt act = Some rc \<longrightarrow>
      rawTraceMap (rcpt_GlobalSequence rc) = Some (marshal_ActionRow env (new_ActionRow act))"
    and "fold_res (\<lambda>act. processAction env kv ord act rawTraceMap) as i = Inr i'"
  shows "inj_ok (B + (\<Sum>act\<leftarrow>as. length (ord (action_accounts act)))) i'"
  using assms(1,2,4-6)
proof (induction as arbitrary: B i)
  case Nil
  then show ?case by simp
next
  case (Cons act as)
  from Cons.prems(5) obtain i1 where p: "processAction env kv ord act rawTraceMap i = Inr i1"
    and r: "fold_res (\<lambda>act. processAction env kv ord act rawTraceMap) as i1 = Inr i'"
    by (auto simp: bind_res_Inr_iff)
  have B: "B + length (ord (action_accounts act)) < 2 ^ 64" and a: "act \<in> acts"
    and raw: "\<forall>rc. at_Receipt act = Some rc \<longrightarrow>
      rawTraceMap (rcpt_GlobalSequence rc) = Some (marshal_ActionRow env (new_ActionRow act))"
    using Cons.prems(2-4) by auto
  have "inj_ok (B + length (ord (action_accounts act))) i1"
    using processAction_ok [OF Cons.prems(1) B assms(3) a raw p] by blast
  from Cons.IH [OF this _ _ _ r] Cons.prems(2-4) show ?case by (simp add: add.assoc)
qed

lemma flush_block_ok:
  assumes ok: "inj_ok B i" and "flush_block kv recent blk lastInStreak i = Inr i'"
  shows "inj_ok B i'"
proof -
  from assms(2) have "i' = i \<or> ForceFlush kv i = Inr i'" by (auto simp: flush_block_def split: if_splits)
  then show ?thesis using ok ForceFlush_ok(1) [OF ok] by auto
qed

lemma inj_ok_shutdown: "inj_ok B (i\<lparr>inj_shutdown := b\<rparr>) = inj_ok B i"
proof -
  have "facet_ok (i\<lparr>inj_shutdown := b\<rparr>) f = facet_ok i f" for f by (simp add: facet_ok_def split: option.split)
  then show ?thesis by (simp add: inj_ok_def)
qed

lemma ProcessBlock_ok:
  assumes "inj_ok B i" and "B + (\<Sum>act\<leftarrow>indexed_actions block. length (ord (action_accounts act))) < 2 ^ 64"
    and "rows_env_ok env acts" "set (indexed_actions block) \<subseteq> acts"
    and raw: "\<forall>act\<in>set (indexed_actions block). \<forall>rc. at_Receipt act = Some rc \<longrightarrow>
      rawTraceMap (rcpt_GlobalSequence rc) = Some (marshal_ActionRow env (new_ActionRow act))"
    and "ProcessBlock env kv ord recent step lastInStreak block rawTraceMap i = Inr i'"
  shows "inj_ok (B + (\<Sum>act\<leftarrow>indexed_actions block. length (ord (action_accounts act)))) i'"
proof (cases step)
  case StepNew
  then have "i' = i" using assms(6) by (simp add: ProcessBlock_def)
  then show ?thesis using inj_ok_mono [OF assms(1)] by simp
next
  case StepIrreversible
  show ?thesis
  proof (cases "stopBlockNum i \<noteq> 0 \<and> Block_Num block \<ge> stopBlockNum i")
    case True
    then obtain i1 where f: "ForceFlush kv i = Inr i1" and i': "i' = i1\<lparr>inj_shutdown := True\<rparr>"
      using assms(6) StepIrreversible by (auto simp: ProcessBlock_def bind_res_Inr_iff)
    have "inj_ok B i1" using ForceFlush_ok(1) [OF assms(1) f] by blast
    then have "inj_ok B i'" by (simp add: i' inj_ok_shutdown)
    then show ?thesis using inj_ok_mono by simp
  next
    case False
    then obtain i1 i2 where 1: "fold_res (\<lambda>act. processAction env kv ord act rawTraceMap) (indexed_actions block) i = Inr i1"
      and 2: "writeCheckpoint env kv block i1 = Inr i2" and 3: "flush_block kv recent block lastInStreak i2 = Inr i'"
      using assms(6) StepIrreversible by (auto simp: ProcessBlock_def bind_res_Inr_iff)
    note ok1 = processActions_ok [OF assms(1-5) 1]
    have "inj_ok (B + (\<Sum>act\<leftarrow>indexed_actions block. length (ord (action_accounts act)))) i2"
      using writeCheckpoint_ok [OF ok1 2] by blast
    then show ?thesis by (rule flush_block_ok [OF _ 3])
  qed
qed

text \<open>Cached or not, the rows of a facet that will be durable are a window.\<close>

lemma facet_ok_window:
  assumes "facet_ok i f"
  shows "\<exists>sd. window_ok env (eff (inj_KvStore i)) (ShardNum i) f sd"
proof (cases "cacheSeqData i (facet_String env f)")
  case None
  then have same: "eff (inj_KvStore i) (facet_Row f (ShardNum i) n) = view (inj_KvStore i) (facet_Row f (ShardNum i) n)" for n
    using assms by (simp add: facet_ok_def)
  show ?thesis
  proof (cases "startedFromCheckpoint i")
    case True
    then obtain sd where "window_ok env (view (inj_KvStore i)) (ShardNum i) f sd"
      using assms None by (auto simp: facet_ok_def)
    then have "window_ok env (eff (inj_KvStore i)) (ShardNum i) f sd" by (simp add: window_ok_def same)
    then show ?thesis by blast
  next
    case False
    then have "window_ok env (eff (inj_KvStore i)) (ShardNum i) f empty_SequenceData"
      using assms None same by (auto simp: facet_ok_def window_ok_def empty_SequenceData_def)
    then show ?thesis by blast
  qed
qed (use assms in \<open>auto simp: facet_ok_def\<close>)

text \<open>A new process over the same store, which starts from the checkpoint.\<close>

lemma restart_ok:
  assumes ok: "inj_ok B i" and fl: "ForceFlush kv i = Inr i'" and c: "cacheSeqData i (facet_String env f) = Some sd"
    and f: "facet_of (facetFactory i) f" and r: "FacetShardRange env f (ShardNum i) = (a, b)"
    and sc: "kv_Scan kv a b 1 (inj_KvStore i') = (items, None)"
  shows "\<exists>i''. getSequenceData env kv f (i'\<lparr>cacheSeqData := Map.empty, startedFromCheckpoint := True\<rparr>) = Inr (sd, i'')"
proof -
  let ?i = "i'\<lparr>cacheSeqData := Map.empty, startedFromCheckpoint := True\<rparr>"
  obtain s where i': "i' = i\<lparr>inj_KvStore := s\<rparr>" using ForceFlush_ok(4) [OF ok fl] by blast
  have v: "view s = eff (inj_KvStore i)" "eff s = eff (inj_KvStore i)" using ForceFlush_ok(2,3) [OF ok fl] by (simp_all add: i')
  have fok: "facet_ok i f" using ok f by (simp add: inj_ok_def)
  then have win: "window_ok env (eff (inj_KvStore i)) (ShardNum i) f sd" and max: "MaxEntries sd = inj_MaxEntries i"
    using c by (simp_all add: facet_ok_def)
  have "inj_ok B i'" using ForceFlush_ok(1) [OF ok fl] by blast
  moreover have "facet_ok ?i g" if "facet_of (facetFactory i) g" for g
    using facet_ok_window [of i g] ok that by (simp add: facet_ok_def i' v inj_ok_def)
  ultimately have "inj_ok B ?i" by (simp add: inj_ok_def i')
  then have "\<exists>i''. getSequenceData env kv f ?i = Inr (sd\<lparr>MaxEntries := inj_MaxEntries ?i\<rparr>, i'')"
    by (rule getSequenceData_succeeds) (use f win v r sc in \<open>simp_all add: i'\<close>)
  moreover have "sd\<lparr>MaxEntries := inj_MaxEntries ?i\<rparr> = sd" using max by (simp add: i')
  ultimately show ?thesis by simp
qed

end

interpretation memhist: hist_store "rwcache_ops mem_ops rev" "rw_inv (\<lambda>s. True) mem_view mem_eff mem_pend"
  "rw_view mem_view" "rw_eff mem_view" rw_pend sample_hist_env
  by (intro hist_store.intro memrw.rw.kv_cache_axioms hist_store_axioms.intro sample_hist_env_ok)

lemma marshalled_actions_lookup:
  assumes "distinct (map (\<lambda>a. rcpt_GlobalSequence (the (at_Receipt a))) (indexed_actions block))"
    and "act \<in> set (indexed_actions block)" and "at_Receipt act = Some rc"
  shows "marshalled_actions env block (rcpt_GlobalSequence rc) = Some (marshal_ActionRow env (new_ActionRow act))"
proof -
  let ?g = "\<lambda>a. rcpt_GlobalSequence (the (at_Receipt a))"
  let ?step = "\<lambda>act out. out(?g act \<mapsto> marshal_ActionRow env (new_ActionRow act))"
  have keep: "x \<notin> ?g ` set as \<Longrightarrow> fold ?step as m x = m x" for as m x
    by (induction as arbitrary: m) auto
  have "distinct (map ?g as) \<Longrightarrow> a \<in> set as \<Longrightarrow> fold ?step as m (?g a) = Some (marshal_ActionRow env (new_ActionRow a))" for as m a
    by (induction as arbitrary: m) (auto simp: keep)
  from this [OF assms(1,2)] show ?thesis by (simp add: marshalled_actions_def assms(3))
qed

section \<open>Properties of the injector\<close>

text \<open>C18: processing a block keeps the invariant of the injector, for every order in which the
  accounts of an action are visited: in every facet the rows that will be durable are a window of
  consecutive ordinals, the newest row carries the data of the window, and the cache agrees with
  it. The number of rows ever written to the shard is assumed to fit 64 bits.\<close>

theorem injector_keeps_windows:
  assumes "hist_store kv sinv view eff pend env" and "inj_inv env sinv view eff pend B i"
    and "B + (\<Sum>act\<leftarrow>indexed_actions block. length (ord (action_accounts act))) < 2 ^ 64"
    and "rows_env_ok env (set (indexed_actions block))"
    and "distinct (map (\<lambda>a. rcpt_GlobalSequence (the (at_Receipt a))) (indexed_actions block))"
    and "PreprocessingFunc env blockFilter blk = Inr (block, rawTraceMap)"
    and "ProcessBlock env kv ord recent step lastInStreak block rawTraceMap i = Inr i'"
  shows "inj_inv env sinv view eff pend (B + (\<Sum>act\<leftarrow>indexed_actions block. length (ord (action_accounts act)))) i'"
proof -
  have "rawTraceMap = marshalled_actions env block"
    using assms(6) by (auto simp: PreprocessingFunc_def bind_res_def split: sum.splits option.splits)
  then show ?thesis
    using hist_store.ProcessBlock_ok [OF assms(1,2,3,4) subset_refl _ assms(7)] marshalled_actions_lookup [OF assms(5)]
    by blast
qed

text \<open>C19: after a flush, a new process that starts from the checkpoint reads from the store, for
  every facet the old process knew, exactly the sequence data the old process had cached, unless
  the scan itself fails.\<close>

theorem restart_reads_cached_sequence:
  assumes "hist_store kv sinv view eff pend env" and "inj_inv env sinv view eff pend B i"
    and "ForceFlush kv i = Inr i'" and "cacheSeqData i (facet_String env f) = Some sd"
    and "facet_of (facetFactory i) f" and "FacetShardRange env f (ShardNum i) = (a, b)"
    and "kv_Scan kv a b 1 (inj_KvStore i') = (items, None)"
  shows "\<exists>i''. getSequenceData env kv f (i'\<lparr>cacheSeqData := Map.empty, startedFromCheckpoint := True\<rparr>) = Inr (sd, i'')"
  using assms by (rule hist_store.restart_ok)

text \<open>C22: whenever the injector writes an action for an account, at most \<open>MaxEntries + 1\<close> rows of
  the facet remain; the window is one row larger than the setting, since the stale rows are
  counted before the new one is added.\<close>

theorem written_window_bounded:
  assumes "hist_store kv sinv view eff pend env" and "inj_inv env sinv view eff pend B i" and "B + 1 < 2 ^ 64"
    and "rows_env_ok env acts" and "act \<in> acts"
    and "\<forall>rc. at_Receipt act = Some rc \<longrightarrow>
      rawTraceMap (rcpt_GlobalSequence rc) = Some (marshal_ActionRow env (new_ActionRow act))"
    and "process_account env kv act rawTraceMap acct i = Inr (True, i')"
  shows "\<exists>a f. eos_StringToName env acct = Some a \<and> NewFacet env (facetFactory i) act a = Some f
    \<and> card {n. eff (inj_KvStore i') (facet_Row f (ShardNum i) n) \<noteq> None} \<le> unat (inj_MaxEntries i) + 1"
  using hist_store.process_account_ok(4) [OF assms] by blast

section \<open>Witnesses\<close>

definition sample_hist_ops :: "mem_store RWCache kv_ops" where
  "sample_hist_ops = rwcache_ops mem_ops rev"

definition sample_injector :: "mem_store RWCache Injector" where
  "sample_injector = NewInjector (NewRWCache \<lparr>mem_rows = [], mem_buffer = []\<rparr>) AccountFactory 0 1 1 0 0"

lemma sample_injector_inv:
  "inj_inv sample_hist_env (rw_inv (\<lambda>s. True) mem_view mem_eff mem_pend) (rw_view mem_view) (rw_eff mem_view) rw_pend 0 sample_injector"
  by (simp add: inj_inv_def facet_inv_def sample_injector_def NewInjector_def NewRWCache_def rw_inv_def rw_view_def
      rw_eff_def rw_pend_def rows_wf_def mem_eff_def mem_pend_def)

definition sample_hist_block :: Block where
  "sample_hist_block = empty_block\<lparr>blk_Number := 5, blk_UnfilteredTransactionTraces :=
     [TransactionTrace (empty_trace_fields\<lparr>tt_Receipt := Some \<lparr>trh_Status = TRANSACTIONSTATUS_EXECUTED,
        trh_CpuUsageMicroSeconds = 0, trh_NetUsageWords = 0\<rparr>, tt_ActionTraces := [sample_act 7, sample_act 8]\<rparr>) None]\<rparr>"

lemma sample_indexed: "indexed_actions sample_hist_block = [sample_act 7, sample_act 8]"
  by code_simp

text \<open>The witnesses are evaluated symbolically, with the keys of the rows left as they are.\<close>

lemma mem_rw_simps [simp]:
  "kv_Put sample_hist_ops = rw_Put" "kv_BatchDelete sample_hist_ops = rw_BatchDelete"
  "kv_FlushPuts sample_hist_ops = rw_FlushPuts mem_ops rev"
  by (simp_all add: sample_hist_ops_def rwcache_ops_def)

lemma mem_ops_simps [simp]:
  "kv_Put mem_ops k v s = (None, s\<lparr>mem_buffer := (k, v) # mem_buffer s\<rparr>)"
  "kv_FlushPuts mem_ops s = (None, s\<lparr>mem_rows := mem_buffer s @ mem_rows s, mem_buffer := []\<rparr>)"
  "kv_BatchDelete mem_ops ks s = (None, s\<lparr>mem_rows := filter (\<lambda>(k, v). k \<notin> set ks) (mem_rows s)\<rparr>)"
  by (simp_all add: mem_ops_def)

lemma mem_flush_succeeds: "fst (rw_FlushPuts mem_ops rev c) = None"
proof -
  have "fst (put_all mem_ops m ks s) = None" for m ks s by (induction ks arbitrary: s) simp_all
  then show ?thesis by (auto simp: rw_FlushPuts_def split: prod.splits option.splits) (metis fst_conv option.distinct(1))
qed

lemma mem_ForceFlush: "\<exists>i'. ForceFlush sample_hist_ops i = Inr i'"
  using mem_flush_succeeds [of "inj_KvStore i"]
  by (cases "rw_FlushPuts mem_ops rev (inj_KvStore i)") (simp add: ForceFlush_def store_step_def)

lemma sample_block_processed:
  "\<exists>i'. ProcessBlock sample_hist_env sample_hist_ops id True StepIrreversible True sample_hist_block
     (marshalled_actions sample_hist_env sample_hist_block) sample_injector = Inr i'"
proof -
  have "\<exists>i1. fold_res (\<lambda>act. processAction sample_hist_env sample_hist_ops id act
      (marshalled_actions sample_hist_env sample_hist_block)) [sample_act 7, sample_act 8] sample_injector = Inr i1
      \<and> flushBlocksInterval i1 = 1 \<and> stopBlockNum i1 = 0"
    by (simp add: processAction_def process_account_def action_accounts_def sample_act_def sample_injector_def
        NewInjector_def sample_hist_env_def getSequenceData_def UpdateSeqData_def deleteStaleRows_def
        WriteAction_def store_step_def rw_Put_def empty_SequenceData_def Let_def)
  then obtain i1 where i1: "fold_res (\<lambda>act. processAction sample_hist_env sample_hist_ops id act
      (marshalled_actions sample_hist_env sample_hist_block)) [sample_act 7, sample_act 8] sample_injector = Inr i1"
    and f: "flushBlocksInterval i1 = 1" by blast
  obtain i2 where "writeCheckpoint sample_hist_env sample_hist_ops sample_hist_block i1 = Inr i2" "flushBlocksInterval i2 = 1"
    using f by (simp add: writeCheckpoint_def store_step_def rw_Put_def Let_def)
  moreover obtain i3 where "flush_block sample_hist_ops True sample_hist_block True i2 = Inr i3"
    using mem_ForceFlush [of i2] calculation(2) by (auto simp: flush_block_def)
  ultimately show ?thesis using i1
    by (simp add: ProcessBlock_def sample_indexed sample_injector_def NewInjector_def)
qed

lemma rows_env_ok_subset: "rows_env_ok env acts \<Longrightarrow> acts' \<subseteq> acts \<Longrightarrow> rows_env_ok env acts'"
  by (auto simp: rows_env_ok_def)

abbreviation sample_inv :: "nat \<Rightarrow> mem_store RWCache Injector \<Rightarrow> bool" where
  "sample_inv \<equiv> inj_inv sample_hist_env (rw_inv (\<lambda>s. True) mem_view mem_eff mem_pend) (rw_view mem_view) (rw_eff mem_view) rw_pend"

theorem injector_keeps_windows_witness:
  "\<exists>i'. ProcessBlock sample_hist_env sample_hist_ops id True StepIrreversible True sample_hist_block
     (marshalled_actions sample_hist_env sample_hist_block) sample_injector = Inr i' \<and> sample_inv 2 i'"
proof -
  obtain i' where i': "ProcessBlock sample_hist_env sample_hist_ops id True StepIrreversible True sample_hist_block
     (marshalled_actions sample_hist_env sample_hist_block) sample_injector = Inr i'"
    using sample_block_processed by blast
  have rows: "rows_env_ok sample_hist_env (set (indexed_actions sample_hist_block))"
    by (rule rows_env_ok_subset [OF sample_rows_env_ok]) (auto simp: sample_indexed)
  have n: "(\<Sum>act\<leftarrow>indexed_actions sample_hist_block. length (id (action_accounts act))) = 2"
    by (simp add: sample_indexed action_accounts_def sample_act_def)
  have d: "distinct (map (\<lambda>a. rcpt_GlobalSequence (the (at_Receipt a))) (indexed_actions sample_hist_block))"
    by (simp add: sample_indexed sample_act_def)
  have "0 + (\<Sum>act\<leftarrow>indexed_actions sample_hist_block. length (id (action_accounts act))) < 2 ^ 64"
    unfolding n by simp
  moreover have "PreprocessingFunc sample_hist_env None sample_hist_block =
      Inr (sample_hist_block, marshalled_actions sample_hist_env sample_hist_block)"
    by (simp add: PreprocessingFunc_def)
  ultimately show ?thesis
    using injector_keeps_windows [OF memhist.hist_store_axioms sample_injector_inv _ rows d _ i' [unfolded sample_hist_ops_def]] i' n
    by auto
qed

definition sample_account_step :: "hist_error + bool \<times> mem_store RWCache Injector" where
  "sample_account_step = process_account sample_hist_env sample_hist_ops (sample_act 7)
     (\<lambda>g. Some (marshal_ActionRow sample_hist_env (new_ActionRow (sample_act 7)))) ''a'' sample_injector"

lemma sample_account_step:
  "\<exists>i'. sample_account_step = Inr (True, i')
    \<and> cacheSeqData i' (facet_String sample_hist_env (AccountFacet 97)) \<noteq> None \<and> facetFactory i' = AccountFactory \<and> ShardNum i' = 0"
  by (simp add: sample_account_step_def process_account_def sample_act_def sample_injector_def
        NewInjector_def sample_hist_env_def getSequenceData_def UpdateSeqData_def deleteStaleRows_def
        WriteAction_def store_step_def rw_Put_def empty_SequenceData_def Let_def)

theorem written_window_bounded_witness:
  "\<exists>i'. sample_account_step = Inr (True, i')
    \<and> card {n. rw_eff mem_view (inj_KvStore i') (facet_Row (AccountFacet 97) 0 n) \<noteq> None} \<le> 2"
proof -
  obtain i' where i': "sample_account_step = Inr (True, i')" using sample_account_step by blast
  have s: "eos_StringToName sample_hist_env ''a'' = Some 97" "facetFactory sample_injector = AccountFactory"
    "ShardNum sample_injector = 0" "inj_MaxEntries sample_injector = 1"
    by (simp_all add: sample_hist_env_def sample_injector_def NewInjector_def)
  have "0 + 1 < (2 :: nat) ^ 64" by simp
  note b = written_window_bounded [OF memhist.hist_store_axioms sample_injector_inv this sample_rows_env_ok rangeI _
      i' [unfolded sample_account_step_def sample_hist_ops_def]]
  have "\<exists>a f. eos_StringToName sample_hist_env ''a'' = Some a \<and> NewFacet sample_hist_env (facetFactory sample_injector) (sample_act 7) a = Some f
    \<and> card {n. rw_eff mem_view (inj_KvStore i') (facet_Row f (ShardNum sample_injector) n) \<noteq> None} \<le> unat (inj_MaxEntries sample_injector) + 1"
    by (rule b) simp
  with i' s show ?thesis by auto
qed

theorem restart_reads_cached_sequence_witness:
  "\<exists>i i' i'' sd. sample_account_step = Inr (True, i) \<and> ForceFlush sample_hist_ops i = Inr i'
    \<and> cacheSeqData i (facet_String sample_hist_env (AccountFacet 97)) = Some sd
    \<and> getSequenceData sample_hist_env sample_hist_ops (AccountFacet 97)
        (i'\<lparr>cacheSeqData := Map.empty, startedFromCheckpoint := True\<rparr>) = Inr (sd, i'')"
proof -
  obtain i sd where i: "sample_account_step = Inr (True, i)"
    and sd: "cacheSeqData i (facet_String sample_hist_env (AccountFacet 97)) = Some sd"
    and F: "facet_of (facetFactory i) (AccountFacet 97)"
    using sample_account_step by fastforce
  have "0 + 1 < (2 :: nat) ^ 64" by simp
  note okn = memhist.process_account_ok(1) [OF sample_injector_inv this sample_rows_env_ok rangeI _
      i [unfolded sample_account_step_def sample_hist_ops_def]]
  have ok: "sample_inv (0 + 1) i" by (rule okn) simp
  obtain i' where fl: "ForceFlush sample_hist_ops i = Inr i'" using mem_ForceFlush by blast
  obtain a b where r: "FacetShardRange sample_hist_env (AccountFacet 97) (ShardNum i) = (a, b)" by (metis prod.collapse)
  obtain items where sc: "kv_Scan sample_hist_ops a b 1 (inj_KvStore i') = (items, None)"
    by (simp add: sample_hist_ops_def rwcache_ops_def mem_ops_def)
  from restart_reads_cached_sequence [OF memhist.hist_store_axioms ok fl [unfolded sample_hist_ops_def] sd F r
      sc [unfolded sample_hist_ops_def]] i fl sd
  show ?thesis unfolding sample_hist_ops_def by blast
qed

end
