(* ===== verification/AccountHistServer.thy ===== *)
theory AccountHistServer
  imports AccountHistProps
begin

text \<open>
  The queries of \<open>accounthist/grpc\<close>: an account, or an account and a contract, is answered with
  rows in key order from the position after a cursor. The property is that the pages a client
  reads by passing the cursor of the last row it got are the history of the account, without gaps
  and without repetitions.
\<close>

section \<open>Messages\<close>

record Cursor =
  cur_Version :: u32
  cur_Magic :: u32
  cur_Key :: bytes
  cur_ShardNum :: u32
  cur_SequenceNumber :: u64

record GetActionsRequest =
  req_Account :: u64
  req_Limit :: u32
  req_Cursor :: "Cursor option"

record GetTokenActionsRequest =
  treq_Account :: u64
  treq_Contract :: u64
  treq_Limit :: u32
  treq_Cursor :: "Cursor option"

record 's hist_server =
  srv_MaxEntries :: u64
  srv_KVStore :: 's

definition CursorMagicValue :: u32 where "CursorMagicValue = 4374"

definition ActionKeyToCursor :: "bytes \<Rightarrow> u8 \<Rightarrow> u64 \<Rightarrow> Cursor" where
  "ActionKeyToCursor key shardNo seqNum =
     \<lparr>cur_Version = 0, cur_Magic = CursorMagicValue, cur_Key = key, cur_ShardNum = ucast shardNo,
      cur_SequenceNumber = seqNum\<rparr>"

section \<open>Streams\<close>

text \<open>The handler of a row, and the state it changes: what was sent before an error stays sent.\<close>

fun stream_items ::
  "hist_env \<Rightarrow> (bytes \<Rightarrow> (u8 \<times> u64) option) \<Rightarrow> (Cursor \<Rightarrow> ActionTrace \<Rightarrow> 't \<Rightarrow> hist_error option \<times> 't) \<Rightarrow>
   (bytes \<times> bytes) list \<Rightarrow> 't \<Rightarrow> hist_error option \<times> 't" where
  "stream_items env decode onAction [] st = (None, st)"
| "stream_items env decode onAction ((key, value) # items) st =
     (case unmarshal_ActionRow env value of
        None \<Rightarrow> (Some BadRow, st)
      | Some newact \<Rightarrow>
          (case decode key of
             None \<Rightarrow> (Some HistPanic, st)
           | Some (shardNo, seqNum) \<Rightarrow>
               (case onAction (ActionKeyToCursor key shardNo seqNum) (row_ActionTrace newact) st of
                  (Some e, st') \<Rightarrow> (Some e, st')
                | (None, st') \<Rightarrow> stream_items env decode onAction items st')))"

definition stream_range ::
  "hist_env \<Rightarrow> 's kv_ops \<Rightarrow> (bytes \<Rightarrow> (u8 \<times> u64) option) \<Rightarrow> (Cursor \<Rightarrow> ActionTrace \<Rightarrow> 't \<Rightarrow> hist_error option \<times> 't) \<Rightarrow>
   bytes \<Rightarrow> bytes \<Rightarrow> nat \<Rightarrow> 's \<Rightarrow> 't \<Rightarrow> hist_error option \<times> 't" where
  "stream_range env kv decode onAction startKey endKey limit s st =
     (case kv_Scan kv startKey endKey limit s of (items, err) \<Rightarrow>
      case stream_items env decode onAction items st of
        (Some e, st') \<Rightarrow> (Some e, st')
      | (None, st') \<Rightarrow> (map_option StoreError err, st'))"

definition query_shard :: "Cursor option \<Rightarrow> u8" where
  "query_shard cursor = (case cursor of None \<Rightarrow> 0 | Some c \<Rightarrow> ucast (cur_ShardNum c))"

definition query_seq :: "Cursor option \<Rightarrow> u64" where
  "query_seq cursor = (case cursor of None \<Rightarrow> - 1 | Some c \<Rightarrow> cur_SequenceNumber c - 1)"

definition query_limit :: "'s hist_server \<Rightarrow> u64 \<Rightarrow> nat" where
  "query_limit srv limit = unat (if limit = 0 \<or> limit > srv_MaxEntries srv then srv_MaxEntries srv else limit)"

definition StreamAccountActions ::
  "hist_env \<Rightarrow> 's kv_ops \<Rightarrow> u64 \<Rightarrow> u64 \<Rightarrow> Cursor option \<Rightarrow> (Cursor \<Rightarrow> ActionTrace \<Rightarrow> 't \<Rightarrow> hist_error option \<times> 't) \<Rightarrow>
   's hist_server \<Rightarrow> 't \<Rightarrow> hist_error option \<times> 't" where
  "StreamAccountActions env kv account limit cursor onAction srv st =
     (let startKey = EncodeAccountKey account (query_shard cursor) (query_seq cursor);
          endKey = key_PrefixNext env (EncodeAccountPrefixKey account)
      in stream_range env kv (\<lambda>key. map_option snd (DecodeAccountKeySeqNum key)) onAction startKey endKey
           (query_limit srv limit) (srv_KVStore srv) st)"

definition StreamAccountContractActions ::
  "hist_env \<Rightarrow> 's kv_ops \<Rightarrow> u64 \<Rightarrow> u64 \<Rightarrow> u64 \<Rightarrow> Cursor option \<Rightarrow>
   (Cursor \<Rightarrow> ActionTrace \<Rightarrow> 't \<Rightarrow> hist_error option \<times> 't) \<Rightarrow> 's hist_server \<Rightarrow> 't \<Rightarrow> hist_error option \<times> 't" where
  "StreamAccountContractActions env kv account contract limit cursor onAction srv st =
     (let startKey = EncodeAccountContractKey account contract (query_shard cursor) (query_seq cursor);
          endKey = key_PrefixNext env (EncodeAccountContractPrefixKey account contract)
      in stream_range env kv (\<lambda>key. map_option (snd \<circ> snd) (DecodeAccountContractKeySeqNum key)) onAction startKey endKey
           (query_limit srv limit) (srv_KVStore srv) st)"

text \<open>The limit of a request is unsigned, so the check for a negative limit never fires. The
  argument \<open>send\<close> is the stream of the client; every failure becomes one unknown error.\<close>

datatype status_error = UnknownStatus hist_error

definition GetActions ::
  "hist_env \<Rightarrow> 's kv_ops \<Rightarrow> GetActionsRequest \<Rightarrow> (Cursor \<times> ActionTrace \<Rightarrow> 't \<Rightarrow> hist_error option \<times> 't) \<Rightarrow>
   's hist_server \<Rightarrow> 't \<Rightarrow> status_error option \<times> 't" where
  "GetActions env kv req send srv st =
     apfst (map_option UnknownStatus)
       (StreamAccountActions env kv (req_Account req) (ucast (req_Limit req)) (req_Cursor req)
          (\<lambda>cursor actionTrace. send (cursor, actionTrace)) srv st)"

definition GetAccountContractActions ::
  "hist_env \<Rightarrow> 's kv_ops \<Rightarrow> GetTokenActionsRequest \<Rightarrow> (Cursor \<times> ActionTrace \<Rightarrow> 't \<Rightarrow> hist_error option \<times> 't) \<Rightarrow>
   's hist_server \<Rightarrow> 't \<Rightarrow> status_error option \<times> 't" where
  "GetAccountContractActions env kv req send srv st =
     apfst (map_option UnknownStatus)
       (StreamAccountContractActions env kv (treq_Account req) (treq_Contract req) (ucast (treq_Limit req)) (treq_Cursor req)
          (\<lambda>cursor actionTrace. send (cursor, actionTrace)) srv st)"

section \<open>Pages\<close>

text \<open>The rows of a facet in the order of their keys: shard by shard, the newest row first.\<close>

definition facet_row_keys :: "(bytes \<rightharpoonup> bytes) \<Rightarrow> Facet \<Rightarrow> bytes list" where
  "facet_row_keys m f = sorted_list_of_set {k \<in> dom m. \<exists>s n. k = facet_Row f s n}"

definition row_response :: "hist_env \<Rightarrow> FacetFactory \<Rightarrow> (bytes \<rightharpoonup> bytes) \<Rightarrow> bytes \<Rightarrow> Cursor \<times> ActionTrace" where
  "row_response env F m k =
     (case the (DecodeRow F k) of (_, s, n) \<Rightarrow>
        (ActionKeyToCursor k s n, row_ActionTrace (the (unmarshal_ActionRow env (the (m k))))))"

definition facet_history :: "hist_env \<Rightarrow> FacetFactory \<Rightarrow> (bytes \<rightharpoonup> bytes) \<Rightarrow> Facet \<Rightarrow> (Cursor \<times> ActionTrace) list" where
  "facet_history env F m f = map (row_response env F m) (facet_row_keys m f)"

text \<open>Both queries are the query of a facet.\<close>

definition stream_facet ::
  "hist_env \<Rightarrow> 's kv_ops \<Rightarrow> FacetFactory \<Rightarrow> Facet \<Rightarrow> u64 \<Rightarrow> Cursor option \<Rightarrow>
   (Cursor \<Rightarrow> ActionTrace \<Rightarrow> 't \<Rightarrow> hist_error option \<times> 't) \<Rightarrow> 's hist_server \<Rightarrow> 't \<Rightarrow> hist_error option \<times> 't" where
  "stream_facet env kv F f limit cursor onAction srv st =
     stream_range env kv (\<lambda>key. map_option snd (DecodeRow F key)) onAction
       (facet_Row f (query_shard cursor) (query_seq cursor)) (key_PrefixNext env (facet_Bytes f))
       (query_limit srv limit) (srv_KVStore srv) st"

lemma stream_queries:
  "StreamAccountActions env kv account limit cursor onAction srv st =
     stream_facet env kv AccountFactory (AccountFacet account) limit cursor onAction srv st"
  "StreamAccountContractActions env kv account contract limit cursor onAction srv st =
     stream_facet env kv AccountContractFactory (AccountContractKey account contract) limit cursor onAction srv st"
proof -
  have "map_option snd (DecodeAccountKeySeqNum key) = map_option snd (DecodeRow AccountFactory key)" for key
    by (cases "DecodeAccountKeySeqNum key") auto
  then show "StreamAccountActions env kv account limit cursor onAction srv st =
     stream_facet env kv AccountFactory (AccountFacet account) limit cursor onAction srv st"
    by (simp add: StreamAccountActions_def stream_facet_def)
  have "map_option (snd \<circ> snd) (DecodeAccountContractKeySeqNum key) = map_option snd (DecodeRow AccountContractFactory key)" for key
    by (cases "DecodeAccountContractKeySeqNum key") auto
  then show "StreamAccountContractActions env kv account contract limit cursor onAction srv st =
     stream_facet env kv AccountContractFactory (AccountContractKey account contract) limit cursor onAction srv st"
    by (simp add: StreamAccountContractActions_def stream_facet_def)
qed

abbreviation collect :: "Cursor \<Rightarrow> ActionTrace \<Rightarrow> (Cursor \<times> ActionTrace) list \<Rightarrow> hist_error option \<times> (Cursor \<times> ActionTrace) list" where
  "collect c a st \<equiv> (None, st @ [(c, a)])"

lemma stream_items_collect:
  assumes "\<forall>k\<in>set ks. (\<exists>v row. m k = Some v \<and> unmarshal_ActionRow env v = Some row) \<and> DecodeRow F k \<noteq> None"
  shows "stream_items env (\<lambda>key. map_option snd (DecodeRow F key)) collect (map (\<lambda>k. (k, the (m k))) ks) st =
    (None, st @ map (row_response env F m) ks)"
  using assms by (induction ks arbitrary: st) (fastforce simp: row_response_def split: prod.splits)+

lemma filter_above_nth:
  fixes xs :: "'a :: linorder list"
  shows "sorted_wrt (<) xs \<Longrightarrow> j < length xs \<Longrightarrow> filter (\<lambda>x. xs ! j < x) xs = drop (Suc j) xs"
proof (induction xs arbitrary: j)
  case (Cons x xs)
  then show ?case
  proof (cases j)
    case 0
    have "filter (\<lambda>y. x < y) xs = xs" using Cons.prems by (simp add: filter_id_conv)
    with 0 show ?thesis by simp
  next
    case (Suc i)
    with Cons.prems have "x < xs ! i" by simp
    then have "\<not> xs ! i < x" by (rule order_less_not_sym)
    with Suc Cons show ?thesis by simp
  qed
qed simp

lemma sorted_list_of_set_filter:
  fixes S :: "'a :: linorder set"
  assumes "finite S"
  shows "sorted_list_of_set {x \<in> S. P x} = filter P (sorted_list_of_set S)"
  using assms by (intro sorted_distinct_set_unique) (auto intro: sorted_wrt_filter)

lemma sorted_list_above:
  fixes S :: "'a :: linorder set"
  assumes "finite S" and "j < length (sorted_list_of_set S)"
  shows "sorted_list_of_set {x \<in> S. sorted_list_of_set S ! j < x} = drop (Suc j) (sorted_list_of_set S)"
  using sorted_list_of_set_filter [OF assms(1)] filter_above_nth [OF _ assms(2)] by simp

text \<open>The range of a query, on the keys of a well-formed collection.\<close>

lemma query_range:
  assumes env: "hist_env_ok env" and f: "facet_of F f" and wf: "rows_wf F m" and k: "k \<in> dom m"
  shows "facet_Row f s n \<le> k \<and> k < key_PrefixNext env (facet_Bytes f) \<longleftrightarrow>
    (\<exists>t l. k = facet_Row f t l \<and> (s < t \<or> s = t \<and> l \<le> n))"
proof -
  let ?p = "facet_Bytes f"
  have "\<exists>b\<in>set ?p. b \<noteq> 255" by (cases f) (simp_all add: key_defs prefix_defs)
  then have nxt: "k < key_PrefixNext env ?p \<longleftrightarrow> k < ?p \<or> take (length ?p) k = ?p"
    using env unfolding hist_env_ok_def by blast
  have lt: "\<not> k < ?p" if "facet_Row f s n \<le> k"
  proof
    assume "k < ?p"
    moreover have "?p < facet_Row f s n" by (simp add: facet_Row_eq list_less_append [of ?p ?p "[]", simplified])
    ultimately show False using that by (meson leD order_less_trans)
  qed
  have row: "\<exists>t l. k = facet_Row f t l" if "take (length ?p) k = ?p"
  proof -
    have "?p \<noteq> []" "hd ?p = Collection F" using f by (cases F; cases f; simp add: key_defs)+
    with that have "k \<noteq> [] \<and> hd k = Collection F" by (cases k; cases ?p) auto
    then obtain g t l where g: "facet_of F g" "k = facet_Row g t l" using wf k unfolding rows_wf_def by blast
    then have "facet_Bytes g = ?p" using that length_facet_Bytes [OF f g(1)] by (simp add: facet_Row_eq)
    with g show ?thesis by auto
  qed
  have "take (length ?p) (facet_Row f t l) = ?p" for t l by (simp add: facet_Row_eq)
  then show ?thesis using nxt lt row facet_Row_le [OF f f] by (metis order_less_irrefl)
qed

lemma ucast_shard [simp]: "ucast (ucast (t :: u8) :: u32) = t"
  by (rule bit_word_eqI) (simp add: bit_simps)

text \<open>The keys from the position after a cursor on: all the keys without a cursor, those after the
  row of the cursor otherwise. A row with ordinal 0 would make the position wrap around.\<close>

lemma scan_keys_after:
  assumes env: "hist_env_ok env" and f: "facet_of F f" and wf: "rows_wf F m" and fin: "finite (dom m)"
    and pos: "\<forall>s n. m (facet_Row f s n) \<noteq> None \<longrightarrow> n \<noteq> 0" and j: "j \<le> length (facet_row_keys m f)"
    and c: "c = (if j = 0 then None else Some (fst (row_response env F m (facet_row_keys m f ! (j - 1)))))"
  shows "scan_keys m (facet_Row f (query_shard c) (query_seq c)) (key_PrefixNext env (facet_Bytes f)) =
    drop j (facet_row_keys m f)"
proof -
  let ?S = "{k \<in> dom m. \<exists>s n. k = facet_Row f s n}" and ?ks = "facet_row_keys m f"
  let ?a = "facet_Row f (query_shard c) (query_seq c)" and ?b = "key_PrefixNext env (facet_Bytes f)"
  have finS: "finite ?S" using fin by simp
  have range: "{k \<in> dom m. ?a \<le> k \<and> k < ?b} =
      {k \<in> dom m. \<exists>t l. k = facet_Row f t l \<and> (query_shard c < t \<or> query_shard c = t \<and> l \<le> query_seq c)}"
    using query_range [OF env f wf] by blast
  show ?thesis
  proof (cases j)
    case 0
    then have "query_shard c = 0" "query_seq c = - 1" using c by (simp_all add: query_shard_def query_seq_def)
    then have "{k \<in> dom m. ?a \<le> k \<and> k < ?b} = ?S"
      unfolding range by (auto simp: word_neq_0_conv [symmetric] dest: not_sym)
    then show ?thesis using 0 by (simp add: scan_keys_def facet_row_keys_def)
  next
    case (Suc i)
    then have i: "i < length ?ks" using j by simp
    then have "?ks ! i \<in> ?S" using nth_mem [OF i] finS unfolding facet_row_keys_def by simp
    then obtain t n where k: "?ks ! i = facet_Row f t n" "m (facet_Row f t n) \<noteq> None" by auto
    then have n: "n \<noteq> 0" using pos by blast
    have "query_shard c = t" "query_seq c = n - 1"
      using c Suc k(1) DecodeRow_facet_Row [OF f, of t n]
      by (simp_all add: row_response_def ActionKeyToCursor_def query_shard_def query_seq_def)
    then have "{k \<in> dom m. ?a \<le> k \<and> k < ?b} = {k \<in> ?S. ?ks ! i < k}"
      unfolding range k(1) using facet_Row_less [OF f f] by (auto simp: word_less_pred_iff [OF n, symmetric])
    then show ?thesis
      using sorted_list_above [OF finS, of i] i Suc by (simp add: scan_keys_def facet_row_keys_def)
  qed
qed

context kv_store
begin

lemma stream_facet_page:
  assumes env: "hist_env_ok env" and f: "facet_of F f" and inv: "sinv s" and wf: "rows_wf F (view s)"
    and rows: "\<forall>sh n v. view s (facet_Row f sh n) = Some v \<longrightarrow> n \<noteq> 0 \<and> unmarshal_ActionRow env v \<noteq> None"
    and j: "j \<le> length (facet_history env F (view s) f)"
    and c: "c = (if j = 0 then None else Some (fst (facet_history env F (view s) f ! (j - 1))))"
    and r: "stream_facet env kv F f limit c collect \<lparr>srv_MaxEntries = M, srv_KVStore = s\<rparr> [] = (e, page)"
  shows "if e = None then page = limited (query_limit \<lparr>srv_MaxEntries = M, srv_KVStore = s\<rparr> limit)
        (drop j (facet_history env F (view s) f))
    else (\<exists>i er. page = take i (drop j (facet_history env F (view s) f)) \<and> e = Some (StoreError er))"
proof -
  let ?m = "view s" and ?L = "query_limit \<lparr>srv_MaxEntries = M, srv_KVStore = s\<rparr> limit"
  let ?a = "facet_Row f (query_shard c) (query_seq c)" and ?b = "key_PrefixNext env (facet_Bytes f)"
  let ?ks = "drop j (facet_row_keys ?m f)" and ?it = "\<lambda>k. (k, the (?m k))"
  obtain items err where sc: "kv_Scan kv ?a ?b ?L s = (items, err)" by fastforce
  have fin: "finite (dom ?m)" using finite_view [OF inv] .
  have "scan_keys ?m ?a ?b = ?ks"
  proof (rule scan_keys_after [OF env f wf fin])
    show "j \<le> length (facet_row_keys ?m f)" using j by (simp add: facet_history_def)
    show "c = (if j = 0 then None else Some (fst (row_response env F ?m (facet_row_keys ?m f ! (j - 1)))))"
      using c j by (auto simp: facet_history_def)
  qed (use rows in blast)
  then have si: "scan_items ?m ?a ?b = map ?it ?ks" by (simp add: scan_items_def)
  have mem: "\<forall>k\<in>set ks. (\<exists>v row. ?m k = Some v \<and> unmarshal_ActionRow env v = Some row) \<and> DecodeRow F k \<noteq> None"
    if "set ks \<subseteq> set ?ks" for ks
  proof
    fix k assume "k \<in> set ks"
    then have "k \<in> set (facet_row_keys ?m f)" using that by (meson in_mono in_set_dropD)
    then obtain sh n v where "k = facet_Row f sh n" "?m k = Some v"
      using fin unfolding facet_row_keys_def by auto
    then show "(\<exists>v row. ?m k = Some v \<and> unmarshal_ActionRow env v = Some row) \<and> DecodeRow F k \<noteq> None"
      using rows DecodeRow_facet_Row [OF f, of sh n] by fastforce
  qed
  note str = stream_items_collect [OF mem, where st = "[]" , simplified]
  show ?thesis
  proof (cases err)
    case None
    then have "items = map ?it (limited ?L ?ks)" using scan [OF inv sc] si by (simp add: limited_def take_map)
    then have "(e, page) = (None, map (row_response env F ?m) (limited ?L ?ks))"
      using r str [of "limited ?L ?ks"] sc None
      by (simp add: stream_facet_def stream_range_def limited_def set_take_subset split: if_splits)
    then show ?thesis by (auto simp: facet_history_def limited_def drop_map take_map)
  next
    case (Some er)
    then obtain i where "items = map ?it (take i ?ks)" using scan [OF inv sc] si by (auto simp: take_map)
    then have "(e, page) = (Some (StoreError er), map (row_response env F ?m) (take i ?ks))"
      using r str [of "take i ?ks"] sc Some
      by (simp add: stream_facet_def stream_range_def set_take_subset)
    then show ?thesis by (auto simp: facet_history_def drop_map take_map)
  qed
qed

end

text \<open>C29: the pages of an account history. A client that passes the cursor of the last action it got
  (or none at first) gets the next actions of the history of the account, at most the limit, in the
  order of the rows, with no gap and no repetition; when the store fails it gets a part of them and
  an error. The ordinals of rows start at 1, as the injector writes them.\<close>

theorem history_pages:
  assumes "kv_store kv sinv view eff pend" and "hist_env_ok env"
    and "sinv (srv_KVStore srv)" and "rows_wf AccountFactory (view (srv_KVStore srv))"
    and "\<forall>sh n v. view (srv_KVStore srv) (facet_Row (AccountFacet (req_Account req)) sh n) = Some v \<longrightarrow>
      n \<noteq> 0 \<and> unmarshal_ActionRow env v \<noteq> None"
    and "h = facet_history env AccountFactory (view (srv_KVStore srv)) (AccountFacet (req_Account req))"
    and "j \<le> length h" and "req_Cursor req = (if j = 0 then None else Some (fst (h ! (j - 1))))"
    and "GetActions env kv req (\<lambda>a sent. (None, sent @ [a])) srv [] = (e, page)"
  shows "if e = None then page = limited (query_limit srv (ucast (req_Limit req))) (drop j h)
    else (\<exists>i er. page = take i (drop j h) \<and> e = Some (UnknownStatus (StoreError er)))"
proof -
  obtain M s where srv: "srv = \<lparr>srv_MaxEntries = M, srv_KVStore = s\<rparr>" by (cases srv)
  obtain e' where r: "stream_facet env kv AccountFactory (AccountFacet (req_Account req)) (ucast (req_Limit req))
      (req_Cursor req) collect srv [] = (e', page)" and e: "e = map_option UnknownStatus e'"
    using assms(9) unfolding GetActions_def stream_queries by (auto simp: apfst_def map_prod_def split: prod.splits)
  show ?thesis
    using kv_store.stream_facet_page [OF assms(1,2) _ _ _ _ _ _ r [unfolded srv]] assms(3-8) e
    by (fastforce simp: srv split: if_splits)
qed

definition sample_pages :: mem_store where
  "sample_pages = \<lparr>mem_rows = [(facet_Row (AccountFacet 97) 0 1, PutUint64 7), (facet_Row (AccountFacet 97) 0 2, PutUint64 8)],
     mem_buffer = []\<rparr>"

definition sample_history :: "(Cursor \<times> ActionTrace) list" where
  "sample_history = facet_history sample_hist_env AccountFactory (mem_view sample_pages) (AccountFacet 97)"

definition sample_request :: GetActionsRequest where
  "sample_request = \<lparr>req_Account = 97, req_Limit = 5, req_Cursor = Some (fst (sample_history ! 0))\<rparr>"

lemma sample_pages_lookup:
  "mem_view sample_pages k = (if k = facet_Row (AccountFacet 97) 0 1 then Some (PutUint64 7)
     else if k = facet_Row (AccountFacet 97) 0 2 then Some (PutUint64 8) else None)"
  by (simp add: sample_pages_def del: facet_Row.simps)

lemma length_sample_history: "length sample_history = 2"
proof -
  have "{k \<in> dom (mem_view sample_pages). \<exists>s n. k = facet_Row (AccountFacet 97) s n} =
      {facet_Row (AccountFacet 97) 0 1, facet_Row (AccountFacet 97) 0 2}"
    by (auto simp: sample_pages_lookup dom_def simp del: facet_Row.simps split: if_splits)
  then show ?thesis by (simp add: sample_history_def facet_history_def facet_row_keys_def del: facet_Row.simps)
qed

lemma stream_items_no_store_error:
  assumes "\<And>c a st. fst (send c a st) = None"
  shows "stream_items env decode send items st \<noteq> (Some (StoreError er), st')"
proof (induction items arbitrary: st)
  case (Cons item items)
  obtain k v where "item = (k, v)" by fastforce
  then show ?case using Cons assms by (auto split: option.splits prod.splits) (metis fst_conv option.distinct(1))
qed simp

theorem history_pages_witness:
  "\<exists>page. GetActions sample_hist_env mem_ops sample_request (\<lambda>a sent. (None, sent @ [a]))
     \<lparr>srv_MaxEntries = 3, srv_KVStore = sample_pages\<rparr> [] = (None, page) \<and> page = take 3 (drop 1 sample_history)"
proof -
  let ?srv = "\<lparr>srv_MaxEntries = 3, srv_KVStore = sample_pages\<rparr>"
  obtain e page where r: "GetActions sample_hist_env mem_ops sample_request (\<lambda>a sent. (None, sent @ [a])) ?srv [] = (e, page)"
    by fastforce
  have rows: "\<forall>sh n v. mem_view sample_pages (facet_Row (AccountFacet 97) sh n) = Some v \<longrightarrow>
      n \<noteq> 0 \<and> unmarshal_ActionRow sample_hist_env v \<noteq> None"
    by (simp add: sample_pages_lookup sample_hist_env_def del: facet_Row.simps)
  have wf: "rows_wf AccountFactory (mem_view sample_pages)"
    unfolding rows_wf_def by (auto simp: sample_pages_lookup dom_def simp del: facet_Row.simps split: if_splits)
  have ok: "if e = None then page = limited (query_limit ?srv (ucast (req_Limit sample_request))) (drop 1 sample_history)
    else (\<exists>i er. page = take i (drop 1 sample_history) \<and> e = Some (UnknownStatus (StoreError er)))"
    by (rule history_pages [OF mem.kv_store_axioms sample_hist_env_ok _ _ _ _ _ _ r])
      (use rows wf length_sample_history in \<open>simp_all add: sample_request_def sample_history_def del: facet_Row.simps\<close>)
  have "e = None"
  proof (rule ccontr)
    assume "e \<noteq> None"
    with ok obtain er where "e = Some (UnknownStatus (StoreError er))" by auto
    with r show False
      using stream_items_no_store_error [of "\<lambda>c a sent. (None, sent @ [(c, a)])"]
      by (auto simp: GetActions_def StreamAccountActions_def stream_range_def mem_ops_def Let_def apfst_def map_prod_def
          split: prod.splits option.splits)
  qed
  with r ok show ?thesis by (simp add: query_limit_def limited_def sample_request_def)
qed

end
