(* ===== verification/AccountHistPurge.thy ===== *)
theory AccountHistPurge
  imports AccountHistProps
begin

text \<open>
  The purger of the account history against its specification: an account keeps the rows of its
  first shards until their newest ordinals add up to the maximum, and loses those of the shards
  above. The walk over the accounts and the loop over the shards of an account end when no account
  has a row in shard 255, where the shard counter would wrap around.
\<close>

section \<open>Specification\<close>

definition present :: "(bytes \<rightharpoonup> bytes) \<Rightarrow> Facet \<Rightarrow> u8 \<Rightarrow> bool" where
  "present m f s \<longleftrightarrow> (\<exists>n. m (facet_Row f s n) \<noteq> None)"

definition newest :: "(bytes \<rightharpoonup> bytes) \<Rightarrow> Facet \<Rightarrow> u8 \<Rightarrow> u64" where
  "newest m f s = Max {n. m (facet_Row f s n) \<noteq> None}"

definition seen_below :: "(bytes \<rightharpoonup> bytes) \<Rightarrow> Facet \<Rightarrow> u8 set \<Rightarrow> nat" where
  "seen_below m f S = (\<Sum>s | s \<in> S \<and> present m f s. unat (newest m f s))"

definition surplus :: "nat \<Rightarrow> (bytes \<rightharpoonup> bytes) \<Rightarrow> Facet \<Rightarrow> u8 \<Rightarrow> bool" where
  "surplus mx m f t \<longleftrightarrow> (\<exists>s<t. present m f s) \<and> mx \<le> seen_below m f {..<t}"

definition purged :: "FacetFactory \<Rightarrow> nat \<Rightarrow> (bytes \<rightharpoonup> bytes) \<Rightarrow> (bytes \<rightharpoonup> bytes)" where
  "purged F mx m = m |` (- {facet_Row f t n |f t n. facet_of F f \<and> surplus mx m f t})"

lemma newest_row: "present m f s \<Longrightarrow> m (facet_Row f s (newest m f s)) \<noteq> None"
  and newest_greatest: "m (facet_Row f s n) \<noteq> None \<Longrightarrow> n \<le> newest m f s"
proof -
  have fin: "finite {n. m (facet_Row f s n) \<noteq> None}" by simp
  show "m (facet_Row f s (newest m f s)) \<noteq> None" if "present m f s"
    using Max_in [OF fin] that unfolding newest_def present_def by blast
  show "n \<le> newest m f s" if "m (facet_Row f s n) \<noteq> None"
    using Max_ge [OF fin] that unfolding newest_def by blast
qed

lemma purged_row: "facet_of F f \<Longrightarrow>
    purged F mx m (facet_Row f t n) = (if surplus mx m f t then None else m (facet_Row f t n))"
  by (auto simp: purged_def restrict_map_def)

lemma purged_other: "(\<And>f t n. facet_of F f \<Longrightarrow> x \<noteq> facet_Row f t n) \<Longrightarrow> purged F mx m x = m x"
  by (auto simp: purged_def restrict_map_def)

text \<open>The bounds that keep the counters of the loop of a facet from wrapping around.\<close>

definition shards_ok :: "(bytes \<rightharpoonup> bytes) \<Rightarrow> Facet \<Rightarrow> bool" where
  "shards_ok m f \<longleftrightarrow> \<not> present m f 255 \<and> seen_below m f UNIV < 2 ^ 64"

lemma rows_agree:
  assumes "\<And>s n. m (facet_Row f s n) = m' (facet_Row f s n)"
  shows "shards_ok m f = shards_ok m' f" and "surplus mx m f t = surplus mx m' f t"
  using assms by (simp_all add: shards_ok_def surplus_def seen_below_def present_def newest_def)

text \<open>The sum up to a shard, and the next shard of the loop.\<close>

lemma seen_below_insert:
  assumes "present m f c'" and "c < c'" and "\<And>s. c < s \<Longrightarrow> s < c' \<Longrightarrow> \<not> present m f s"
  shows "seen_below m f {..c'} = seen_below m f {..c} + unat (newest m f c')"
    and "seen_below m f {..<c'} = seen_below m f {..c}"
proof -
  have S: "{s. s \<in> {..<c'} \<and> present m f s} = {s. s \<in> {..c} \<and> present m f s}"
    using assms by (auto simp: not_less [symmetric] dest: order_le_less_trans)
  have "{s. s \<in> {..c'} \<and> present m f s} = insert c' {s. s \<in> {..<c'} \<and> present m f s}"
    using assms(1) by auto
  then show "seen_below m f {..c'} = seen_below m f {..c} + unat (newest m f c')"
    using assms(2) sum.insert [of "{s. s \<in> {..c} \<and> present m f s}" c' "\<lambda>s. unat (newest m f s)"]
    unfolding seen_below_def S by (simp add: not_le)
  show "seen_below m f {..<c'} = seen_below m f {..c}" unfolding seen_below_def S ..
qed

lemma seen_below_mono: "A \<subseteq> B \<Longrightarrow> seen_below m f A \<le> seen_below m f B"
  unfolding seen_below_def by (intro sum_mono2) auto

lemma succ_le_iff: "c \<noteq> 255 \<Longrightarrow> c + 1 \<le> t \<longleftrightarrow> c < (t :: u8)"
proof -
  assume "c \<noteq> 255"
  moreover have "(255 :: u8) = - 1" by simp
  ultimately have "c + 1 \<noteq> 0" by (metis add_eq_0_iff2)
  then show ?thesis using word_less_pred_iff [of "c + 1" t] by (simp add: not_less [symmetric])
qed

text \<open>The walk over the facets, from a key that separates facets.\<close>

definition boundary :: "FacetFactory \<Rightarrow> bytes \<Rightarrow> bool" where
  "boundary F a \<longleftrightarrow> (\<forall>f s n t l. facet_of F f \<longrightarrow> (a \<le> facet_Row f s n \<longleftrightarrow> a \<le> facet_Row f t l))"

section \<open>The purger over a database\<close>

locale purge_store = kv_backend +
  fixes env :: hist_env
  assumes env_ok: "hist_env_ok env"
    and scan_succeeds: "sinv s \<Longrightarrow> snd (kv_Scan kv a b n s) = None"
    and delete_succeeds: "sinv s \<Longrightarrow> fst (kv_BatchDelete kv ks s) = None"
    and flush_succeeds: "sinv s \<Longrightarrow> fst (kv_FlushPuts kv s) = None"
begin

abbreviation settled :: "'a \<Rightarrow> bool" where
  "settled s \<equiv> sinv s \<and> pend s = {}"

lemma settled_eff: "settled s \<Longrightarrow> eff s = view s"
  using clean by (simp add: fun_eq_iff)

lemma scan_settled: "settled s \<Longrightarrow> kv_Scan kv a b n s = (limited n (scan_items (view s) a b), None)"
  using scan [of s a b n "fst (kv_Scan kv a b n s)" None] scan_succeeds [of s a b n]
  by (metis prod.collapse)

lemma delete_settled:
  assumes "settled s" and "kv_BatchDelete kv ks s = (e, s')"
  shows "e = None \<and> settled s' \<and> view s' = view s |` (- set ks)"
proof -
  have "e = None" using delete_succeeds [of s ks] assms by simp
  then show ?thesis using delete [of s ks e s'] assms settled_eff [of s] settled_eff [of s'] by auto
qed

lemma flush_settled: "settled s \<Longrightarrow> settled (snd (kv_FlushPuts kv s)) \<and> view (snd (kv_FlushPuts kv s)) = view s"
  using flush [of s None "snd (kv_FlushPuts kv s)"] flush_succeeds [of s] settled_eff [of s]
  by (metis prod.collapse)

lemma delete_items_settled:
  "settled s \<Longrightarrow> \<exists>s'. delete_items kv items s = (None, s') \<and> settled s' \<and> view s' = view s |` (- fst ` set items)"
proof (induction items arbitrary: s)
  case (Cons item items)
  obtain k v where item: "item = (k, v)" by fastforce
  obtain e s1 where d: "kv_BatchDelete kv [k] s = (e, s1)" by fastforce
  with delete_settled [OF Cons.prems d] have s1: "e = None" "settled s1" "view s1 = view s |` (- {k})" by auto
  from Cons.IH [OF s1(2)] obtain s' where "delete_items kv items s1 = (None, s')" "settled s'"
    "view s' = view s1 |` (- fst ` set items)" by blast
  then show ?case using d s1 item by (auto simp: Int_commute Compl_Un [symmetric])
qed (auto simp: restrict_map_def)

lemma purgeAccountAboveShard_settled:
  assumes "settled s" and "facet_of F f" and "rows_wf F (view s)" and "c \<noteq> 255"
  shows "\<exists>s'. purgeAccountAboveShard env kv dry f c s = (None, s') \<and> settled s'
    \<and> view s' = (if dry then view s else view s |` (- {facet_Row f t n |t n. c < t}))"
proof -
  obtain a b where r: "FacetRangeLowerBound env f (c + 1) = (a, b)" by fastforce
  let ?items = "scan_items (view s) a b"
  have fin: "finite (dom (view s))" using assms(1) finite_view by blast
  have "fst ` set ?items = {k \<in> dom (view s). \<exists>t n. c + 1 \<le> t \<and> k = facet_Row f t n}"
    using in_range_row(2) [OF env_ok assms(2,3) _ r] fin
    by (simp add: scan_items_def scan_keys_def image_image cong: conj_cong)
  then have items: "fst ` set ?items = {k \<in> dom (view s). \<exists>t n. c < t \<and> k = facet_Row f t n}"
    by (simp add: succ_le_iff [OF assms(4)])
  have *: "view s |` (- fst ` set ?items) = view s |` (- {facet_Row f t n |t n. c < t})"
    unfolding items by (auto simp: restrict_map_def fun_eq_iff)
  obtain s1 where d: "delete_items kv ?items s = (None, s1)" "settled s1" "view s1 = view s |` (- fst ` set ?items)"
    using delete_items_settled [OF assms(1)] by blast
  show ?thesis
    using d(1,3) flush_settled [OF d(2)] flush_settled [OF assms(1)]
    by (simp add: purgeAccountAboveShard_def r scan_settled [OF assms(1)] limited_def *)
qed

lemma latest_shard:
  assumes s: "settled s" and f: "facet_of F f" and wf: "rows_wf F (view s)"
  shows "\<forall>t\<ge>c. \<not> present (view s) f t \<Longrightarrow> LatestShardSeqDataPerFacet env kv F f c False s = Inl NotFound"
    and "present (view s) f t \<Longrightarrow> c \<le> t \<Longrightarrow> \<forall>t'. c \<le> t' \<and> present (view s) f t' \<longrightarrow> t \<le> t' \<Longrightarrow>
      LatestShardSeqDataPerFacet env kv F f c False s =
        Inr (empty_SequenceData\<lparr>CurrentOrdinal := newest (view s) f t\<rparr>, t)"
proof -
  let ?m = "view s"
  obtain a b where r: "FacetRangeLowerBound env f c = (a, b)" by fastforce
  have fin: "finite (dom ?m)" using s finite_view by blast
  note row = in_range_row(2) [OF env_ok f wf _ r]
  show "LatestShardSeqDataPerFacet env kv F f c False s = Inl NotFound" if "\<forall>t\<ge>c. \<not> present ?m f t"
  proof -
    have "scan_items ?m a b = []" using row that unfolding scan_items_Nil [OF fin] present_def by blast
    then show ?thesis
      by (simp add: LatestShardSeqDataPerFacet_def scanShardSeqDataPerFacet_def r scan_settled [OF s] limited_def)
  qed
  show "LatestShardSeqDataPerFacet env kv F f c False s =
        Inr (empty_SequenceData\<lparr>CurrentOrdinal := newest ?m f t\<rparr>, t)"
    if t: "present ?m f t" "c \<le> t" "\<forall>t'. c \<le> t' \<and> present ?m f t' \<longrightarrow> t \<le> t'"
  proof -
    let ?k = "facet_Row f t (newest ?m f t)"
    have k: "?k \<in> dom ?m" using newest_row [OF t(1)] by auto
    have first: "?k \<le> k'" if k': "k' \<in> dom ?m" "a \<le> k'" "k' < b" for k'
    proof -
      obtain t' n' where k'': "k' = facet_Row f t' n'" "c \<le> t'" using row [OF k'(1)] k'(2,3) by blast
      then have "?m (facet_Row f t' n') \<noteq> None" using k'(1) by auto
      then have "t \<le> t'" "n' \<le> newest ?m f t'" using t(3) k''(2) newest_greatest unfolding present_def by blast+
      then show ?thesis unfolding k''(1) facet_Row_le [OF f f] by (auto simp: le_less)
    qed
    obtain rest where "scan_items ?m a b = (?k, the (?m ?k)) # rest"
      using scan_keys_first [OF fin k, of a b] row [OF k] t(2) first by blast
    then show ?thesis
      using DecodeRow_facet_Row [OF f]
      by (simp add: LatestShardSeqDataPerFacet_def scanShardSeqDataPerFacet_def r scan_settled [OF s] limited_def row_seq_data_def)
  qed
qed

text \<open>The loop over the shards of a facet. At shard \<open>c\<close> the sum of the shards up to \<open>c\<close> has been
  seen, and no shard up to \<open>c\<close> is surplus.\<close>

lemma purge_facet_settled:
  assumes s: "settled s" and f: "facet_of F f" and wf: "rows_wf F (view s)"
    and last: "\<not> present (view s) f 255" and sum: "seen_below (view s) f UNIV < 2 ^ 64"
  shows "present (view s) f c \<Longrightarrow> seen = of_nat (seen_below (view s) f {..c}) \<Longrightarrow>
    \<forall>t\<le>c. \<not> surplus (unat mx) (view s) f t \<Longrightarrow>
    \<exists>s'. purge_facet env kv F dry mx f c seen s = Some (Inr s') \<and> settled s'
      \<and> view s' = (if dry then view s else view s |` (- {facet_Row f t n |t n. surplus (unat mx) (view s) f t}))"
proof (induction "unat (255 - c)" arbitrary: c seen rule: less_induct)
  case less
  let ?m = "view s"
  have c: "c \<noteq> 255" using less.prems(1) last by blast
  have "seen_below ?m f {..c} < 2 ^ 64" using seen_below_mono [of "{..c}" UNIV ?m f] sum by simp
  then have seen: "unat seen = seen_below ?m f {..c}" using less.prems(2) by (simp add: unat_of_nat)
  show ?case
  proof (cases "seen \<ge> mx")
    case True
    have "surplus (unat mx) ?m f t \<longleftrightarrow> c < t" for t
    proof
      assume "c < t"
      then have "{..c} \<subseteq> {..<t}" by auto
      then show "surplus (unat mx) ?m f t"
        using True seen seen_below_mono [of "{..c}" "{..<t}" ?m f] \<open>c < t\<close> less.prems(1)
        by (auto simp: surplus_def word_le_nat_alt)
    qed (use less.prems(3) not_less in blast)
    then show ?thesis
      using purgeAccountAboveShard_settled [OF s f wf c, of dry] True by (subst purge_facet.simps) auto
  next
    case False
    show ?thesis
    proof (cases "\<exists>t\<ge>c + 1. present ?m f t")
      case False
      then have "\<not> surplus (unat mx) ?m f t" if "present ?m f t" for t
        using less.prems(3) that succ_le_iff [OF c] by (meson leI)
      then have "?m |` (- {facet_Row f t n |t n. surplus (unat mx) ?m f t}) = ?m"
        by (auto simp: fun_eq_iff restrict_map_def present_def) (metis option.exhaust)
      then show ?thesis
        using latest_shard(1) [OF s f wf, of "c + 1"] False \<open>\<not> mx \<le> seen\<close> s by (subst purge_facet.simps) simp
    next
      case True
      define t where "t = Min {t. c + 1 \<le> t \<and> present ?m f t}"
      have "t \<in> {t. c + 1 \<le> t \<and> present ?m f t}" unfolding t_def by (rule Min_in) (use True in auto)
      moreover have least: "\<forall>t'. c + 1 \<le> t' \<and> present ?m f t' \<longrightarrow> t \<le> t'" unfolding t_def by (auto intro: Min_le)
      ultimately have t: "c + 1 \<le> t" "c < t" "present ?m f t" using succ_le_iff [OF c] by auto
      have gap: "\<not> present ?m f u" if "c < u" "u < t" for u using that least succ_le_iff [OF c] leD by blast
      note sums = seen_below_insert [OF t(3,2) gap]
      have "t \<le> 255" by (rule u8_le_255)
      with t(2) have "255 - t < 255 - c" by (simp add: word_less_nat_alt word_le_nat_alt unat_sub)
      then have less': "unat (255 - t) < unat (255 - c)" by (simp add: word_less_nat_alt)
      have "\<forall>u\<le>t. \<not> surplus (unat mx) ?m f u"
      proof (intro allI impI)
        fix u assume "u \<le> t"
        show "\<not> surplus (unat mx) ?m f u"
        proof (cases "u \<le> c")
          case False
          have "seen_below ?m f {..<u} \<le> seen_below ?m f {..c}"
            using seen_below_mono [of "{..<u}" "{..<t}" ?m f] \<open>u \<le> t\<close> sums(2) by force
          then show ?thesis using \<open>\<not> mx \<le> seen\<close> seen by (simp add: surplus_def word_le_nat_alt)
        qed (use less.prems(3) in blast)
      qed
      moreover have "seen + newest ?m f t = of_nat (seen_below ?m f {..t})"
        using less.prems(2) sums(1) by simp
      ultimately show ?thesis
        using less.hyps [OF less' t(3)] latest_shard(2) [OF s f wf t(3,1) least] \<open>\<not> mx \<le> seen\<close>
        by (subst purge_facet.simps) (simp add: empty_SequenceData_def)
    qed
  qed
qed

lemma facet_prefix: "k < key_PrefixNext env (facet_Bytes f) \<longleftrightarrow> k < facet_Bytes f \<or> take (length (facet_Bytes f)) k = facet_Bytes f"
proof -
  have "\<exists>b\<in>set (facet_Bytes f). b \<noteq> 255" by (cases f) (simp_all add: key_defs prefix_defs)
  then show ?thesis using env_ok unfolding hist_env_ok_def by blast
qed

lemma row_after_facet:
  assumes "facet_of F f" "facet_of F g"
  shows "key_PrefixNext env (facet_Bytes f) \<le> facet_Row g t l \<longleftrightarrow> facet_Bytes f < facet_Bytes g"
  using list_less_append [OF length_facet_Bytes [OF assms(2,1)], of "t # PutUint64 (NOT l)" "[]"]
    length_facet_Bytes [OF assms]
  by (auto simp: not_less [symmetric] facet_prefix facet_Row_eq) (metis facet_Bytes_inject linorder_neqE)

lemma boundary_after_facet: "facet_of F f \<Longrightarrow> boundary F (key_PrefixNext env (facet_Bytes f))"
  by (simp add: boundary_def row_after_facet)

lemma collection_range:
  assumes "rows_wf F m" and "k \<in> dom m" and "boundary F a" and "[Collection F] \<le> a"
  shows "a \<le> k \<and> k < key_PrefixNext env [Collection F] \<longleftrightarrow> (\<exists>f s n. facet_of F f \<and> k = facet_Row f s n \<and> a \<le> k)"
proof -
  have "Collection F \<noteq> 255" by (cases F) (simp_all add: prefix_defs)
  then have "\<exists>b\<in>set [Collection F]. b \<noteq> 255" by simp
  then have "k < key_PrefixNext env [Collection F] \<longleftrightarrow> k < [Collection F] \<or> take (length [Collection F]) k = [Collection F]"
    using env_ok unfolding hist_env_ok_def by blast
  then have "k < key_PrefixNext env [Collection F] \<longleftrightarrow> k < [Collection F] \<or> take 1 k = [Collection F]" by simp
  note nxt = this
  show ?thesis
  proof
    assume k: "a \<le> k \<and> k < key_PrefixNext env [Collection F]"
    with assms(4) have "\<not> k < [Collection F]" by (meson leD order_trans)
    with nxt k have "take 1 k = [Collection F]" by blast
    then have "k \<noteq> [] \<and> hd k = Collection F" by (cases k) auto
    with assms(1,2) k show "\<exists>f s n. facet_of F f \<and> k = facet_Row f s n \<and> a \<le> k" unfolding rows_wf_def by blast
  next
    assume "\<exists>f s n. facet_of F f \<and> k = facet_Row f s n \<and> a \<le> k"
    then obtain f s n where f: "facet_of F f" "k = facet_Row f s n" "a \<le> k" by blast
    then have "take 1 k = [Collection F]" using facet_Row_Cons [OF f(1), of s n] by auto
    with nxt f(3) show "a \<le> k \<and> k < key_PrefixNext env [Collection F]" by blast
  qed
qed

text \<open>The first row at or after a boundary is the newest row of the first shard of its facet.\<close>

lemma first_row:
  assumes wf: "rows_wf F m" and fin: "finite (dom m)" and a: "boundary F a" "[Collection F] \<le> a"
    and sc: "scan_items m a (key_PrefixNext env [Collection F]) = (k, v) # rest"
  obtains f s where "facet_of F f" "k = facet_Row f s (newest m f s)" "present m f s" "a \<le> k"
    "\<And>t. present m f t \<Longrightarrow> s \<le> t"
    "\<And>x. x \<in> dom m \<Longrightarrow> a \<le> x \<Longrightarrow> x < key_PrefixNext env (facet_Bytes f) \<Longrightarrow> \<exists>t n. x = facet_Row f t n"
proof -
  let ?e = "key_PrefixNext env [Collection F]"
  let ?S = "{x \<in> dom m. a \<le> x \<and> x < ?e}"
  note range = collection_range [OF wf _ a]
  have k: "k \<in> ?S" using scan_items_Cons(1) [OF fin sc] by simp
  have min: "k \<le> x" if "x \<in> ?S" for x using scan_items_Cons(2) [OF fin sc] that by simp
  then obtain f s n where f: "facet_of F f" "k = facet_Row f s n" using range [of k] k by blast
  have inS: "facet_Row f t l \<in> ?S" if "m (facet_Row f t l) \<noteq> None" for t l
  proof -
    have "a \<le> facet_Row f t l" using a(1) f k unfolding boundary_def by blast
    then show ?thesis using range [of "facet_Row f t l"] f(1) that by blast
  qed
  have s: "present m f s" using k f(2) unfolding present_def by auto
  have le: "s < t \<or> s = t \<and> l \<le> n" if "m (facet_Row f t l) \<noteq> None" for t l
    using min [OF inS [OF that]] facet_Row_le [OF f(1) f(1)] f(2) by simp
  have "n = newest m f s"
    using le [OF newest_row [OF s]] newest_greatest [of m f s n] k f(2) by (auto intro: antisym)
  moreover have "s \<le> t" if "present m f t" for t using le that unfolding present_def by force
  moreover have "\<exists>t n. x = facet_Row f t n" if x: "x \<in> dom m" "a \<le> x" "x < key_PrefixNext env (facet_Bytes f)" for x
  proof -
    have "k \<le> x"
    proof (cases "x < ?e")
      case False
      then show ?thesis using k by auto
    qed (use min x in auto)
    have "x \<noteq> [] \<and> hd x = Collection F"
    proof -
      obtain r where r: "facet_Bytes f = Collection F # r" using f(1) by (cases F; cases f) (simp_all add: key_defs)
      have "[Collection F] \<le> x" using a(2) x(2) by (rule order_trans)
      then show ?thesis using x(3) [unfolded facet_prefix, unfolded r] by (cases x) auto
    qed
    then obtain g t l where g: "facet_of F g" "x = facet_Row g t l" using wf x(1) unfolding rows_wf_def by blast
    have "\<not> facet_Bytes f < facet_Bytes g" using x(3) row_after_facet [OF f(1) g(1)] g(2) by (simp add: not_le [symmetric])
    moreover have "\<not> facet_Bytes g < facet_Bytes f"
      using \<open>k \<le> x\<close> f g facet_Row_le [OF f(1) g(1)] by (auto dest: order_less_asym)
    ultimately show ?thesis using g(2) by (metis facet_Bytes_inject linorder_neqE)
  qed
  ultimately show ?thesis using that f s k by auto
qed

text \<open>Purging one facet and then the facets after it is purging all of them.\<close>

lemma purged_compose:
  assumes f: "facet_of F f" and a: "boundary F a" "a \<le> facet_Row f s n"
    and m1: "m1 = m |` (- {facet_Row f t n |t n. surplus mx m f t})"
    and f_rows: "\<And>x. x \<in> dom m \<Longrightarrow> a \<le> x \<Longrightarrow> x < key_PrefixNext env (facet_Bytes f) \<Longrightarrow> \<exists>t n. x = facet_Row f t n"
  shows "(if key_PrefixNext env (facet_Bytes f) \<le> x then purged F mx m1 x else m1 x) =
    (if a \<le> x then purged F mx m x else m x)"
proof -
  let ?a = "key_PrefixNext env (facet_Bytes f)"
  have af: "a \<le> facet_Row f t l" "facet_Row f t l < ?a" for t l
    using a f row_after_facet [OF f f] unfolding boundary_def by (blast, simp add: not_le [symmetric])
  have m1_f: "m1 (facet_Row f t l) = purged F mx m (facet_Row f t l)" for t l
    unfolding m1 using f by (auto simp: purged_row restrict_map_def)
  have m1_other: "m1 x = m x" if "\<And>t l. x \<noteq> facet_Row f t l" for x
    unfolding m1 using that by (auto simp: restrict_map_def)
  consider (row) g t l where "facet_of F g" "x = facet_Row g t l" | (other) "\<And>g t l. facet_of F g \<Longrightarrow> x \<noteq> facet_Row g t l"
    by blast
  then show ?thesis
  proof cases
    case (row g t l)
    show ?thesis
    proof (cases "g = f")
      case True
      then show ?thesis using row af [of t l] m1_f [of t l] by (auto dest: leD)
    next
      case False
      then have g: "m1 (facet_Row g t l) = m (facet_Row g t l)" for t l using m1_other by simp
      have "purged F mx m1 x = purged F mx m x"
        using row g rows_agree(2) [of m1 g m] by (simp add: purged_row)
      moreover have "m x = None" if "a \<le> x" "x < ?a"
        using f_rows [of x] that row False by auto
      moreover have "purged F mx m x = None" if "m x = None" using that row by (simp add: purged_row)
      moreover have "a \<le> x" if "?a \<le> x" using that af order_trans less_imp_le by metis
      ultimately show ?thesis using row g by (metis not_le)
    qed
  next
    case other
    then have "purged F mx m1 x = m1 x" "purged F mx m x = m x" "m1 x = m x"
      using purged_other m1_other f by blast+
    then show ?thesis by simp
  qed
qed

lemma purge_first_facet:
  assumes s: "settled s" and wf: "rows_wf F (view s)" and a: "boundary F a" "[Collection F] \<le> a"
    and sc: "scan_items (view s) a (key_PrefixNext env [Collection F]) = (k, v) # rest"
    and ok: "\<forall>f s' n. facet_of F f \<and> a \<le> facet_Row f s' n \<longrightarrow> shards_ok (view s) f"
  obtains f sh n s1 where "facet_of F f" "k = facet_Row f sh n" "a \<le> k" "k \<in> dom (view s)"
    "purge_facet env kv F dry mx f sh n s = Some (Inr s1)" "settled s1"
    "view s1 = (if dry then view s else view s |` (- {facet_Row f t n |t n. surplus (unat mx) (view s) f t}))"
    "\<And>x. x \<in> dom (view s) \<Longrightarrow> a \<le> x \<Longrightarrow> x < key_PrefixNext env (facet_Bytes f) \<Longrightarrow> \<exists>t n. x = facet_Row f t n"
proof -
  let ?m = "view s"
  have fin: "finite (dom ?m)" using s finite_view by blast
  obtain f sh where f: "facet_of F f" "k = facet_Row f sh (newest ?m f sh)" "present ?m f sh" "a \<le> k"
    and first: "\<And>t. present ?m f t \<Longrightarrow> sh \<le> t"
    and rows: "\<And>x. x \<in> dom ?m \<Longrightarrow> a \<le> x \<Longrightarrow> x < key_PrefixNext env (facet_Bytes f) \<Longrightarrow> \<exists>t n. x = facet_Row f t n"
    using first_row [OF wf fin a sc] by metis
  have k: "k \<in> dom ?m" using newest_row [OF f(3)] f(2) by auto
  have "{t. t \<in> {..sh} \<and> present ?m f t} = {sh}" using f(3) first by (auto intro: antisym)
  then have seen: "newest ?m f sh = of_nat (seen_below ?m f {..sh})" by (simp add: seen_below_def)
  have "\<not> surplus (unat mx) ?m f t" if "t \<le> sh" for t
    using that first unfolding surplus_def by (meson leD order_less_le_trans)
  moreover have "shards_ok ?m f" using ok f by blast
  ultimately obtain s1 where "purge_facet env kv F dry mx f sh (newest ?m f sh) s = Some (Inr s1)" "settled s1"
    "view s1 = (if dry then ?m else ?m |` (- {facet_Row f t n |t n. surplus (unat mx) ?m f t}))"
    using purge_facet_settled [OF s f(1) wf _ _ f(3) seen, of mx dry] unfolding shards_ok_def by blast
  then show ?thesis using that [of f sh "newest ?m f sh" s1] f rows k by blast
qed

lemma scan_purge_settled:
  assumes "settled s" and "rows_wf F (view s)" and "boundary F a" "[Collection F] \<le> a"
    and "\<forall>f s' n. facet_of F f \<and> a \<le> facet_Row f s' n \<longrightarrow> shards_ok (view s) f"
  shows "\<exists>s'. scan_facets env kv F id (purge_facet env kv F dry mx) a (key_PrefixNext env [Collection F]) s = Some (Inr s')
    \<and> settled s' \<and> (\<forall>x. view s' x = (if a \<le> x \<and> \<not> dry then purged F (unat mx) (view s) x else view s x))"
  using assms
proof (induction "card {x \<in> dom (view s). a \<le> x \<and> x < key_PrefixNext env [Collection F]}" arbitrary: s a rule: less_induct)
  case less
  let ?m = "view s" and ?e = "key_PrefixNext env [Collection F]"
  have fin: "finite (dom ?m)" using less.prems(1) finite_view by blast
  note range = collection_range [OF less.prems(2) _ less.prems(3,4)]
  show ?case
  proof (cases "scan_items ?m a ?e")
    case Nil
    have "purged F (unat mx) ?m x = ?m x" if "a \<le> x" for x
      using Nil range that unfolding scan_items_Nil [OF fin]
      by (cases "x \<in> dom ?m") (blast intro: purged_other, simp add: purged_def restrict_map_def domIff)
    then show ?thesis
      using less.prems(1) Nil by (subst scan_facets.simps) (simp add: scan_settled limited_def)
  next
    case (Cons item rest)
    obtain k v where item: "item = (k, v)" by fastforce
    obtain f sh n s1 where f: "facet_of F f" "k = facet_Row f sh n" "a \<le> k" "k \<in> dom ?m"
      and p: "purge_facet env kv F dry mx f sh n s = Some (Inr s1)" "settled s1"
      and m1: "view s1 = (if dry then ?m else ?m |` (- {facet_Row f t n |t n. surplus (unat mx) ?m f t}))"
      and rows: "\<And>x. x \<in> dom ?m \<Longrightarrow> a \<le> x \<Longrightarrow> x < key_PrefixNext env (facet_Bytes f) \<Longrightarrow> \<exists>t n. x = facet_Row f t n"
      by (rule purge_first_facet [OF less.prems(1-4) Cons [unfolded item] less.prems(5), where dry = dry and mx = mx])
        (rule that)
    let ?a = "key_PrefixNext env (facet_Bytes f)"
    have sub: "dom (view s1) \<subseteq> dom ?m" and wf: "rows_wf F (view s1)"
      using less.prems(2) unfolding m1 rows_wf_def by (auto simp: restrict_map_def split: if_splits)
    have k: "k < ?a" using row_after_facet [OF f(1) f(1)] f(2) by (simp add: not_le [symmetric])
    have "a \<le> ?a" using f(3) k by simp
    have "{x \<in> dom (view s1). ?a \<le> x \<and> x < ?e} \<subset> {x \<in> dom ?m. a \<le> x \<and> x < ?e}"
    proof (rule psubsetI)
      show "{x \<in> dom (view s1). ?a \<le> x \<and> x < ?e} \<subseteq> {x \<in> dom ?m. a \<le> x \<and> x < ?e}"
        using sub \<open>a \<le> ?a\<close> by (blast intro: order_trans)
      have "k \<in> {x \<in> dom ?m. a \<le> x \<and> x < ?e}" using range [OF f(4)] f by blast
      moreover have "k \<notin> {x \<in> dom (view s1). ?a \<le> x \<and> x < ?e}" using k by (simp add: not_le)
      ultimately show "{x \<in> dom (view s1). ?a \<le> x \<and> x < ?e} \<noteq> {x \<in> dom ?m. a \<le> x \<and> x < ?e}" by blast
    qed
    then have c: "card {x \<in> dom (view s1). ?a \<le> x \<and> x < ?e} < card {x \<in> dom ?m. a \<le> x \<and> x < ?e}"
      using fin by (intro psubset_card_mono) auto
    have ok: "\<forall>g t l. facet_of F g \<and> ?a \<le> facet_Row g t l \<longrightarrow> shards_ok (view s1) g"
    proof (intro allI impI)
      fix g t l assume g: "facet_of F g \<and> ?a \<le> facet_Row g t l"
      then have "g \<noteq> f" using row_after_facet [OF f(1), of g] by auto
      then have "view s1 (facet_Row g t l) = ?m (facet_Row g t l)" for t l unfolding m1 by (simp add: restrict_map_def)
      moreover have "a \<le> facet_Row g t l" using g \<open>a \<le> ?a\<close> order_trans by blast
      ultimately show "shards_ok (view s1) g" using rows_agree(1) [of "view s1" g ?m] less.prems(5) g by blast
    qed
    have bd: "boundary F ?a" "[Collection F] \<le> ?a" using boundary_after_facet [OF f(1)] less.prems(4) \<open>a \<le> ?a\<close> by auto
    obtain s' where s': "scan_facets env kv F id (purge_facet env kv F dry mx) ?a ?e s1 = Some (Inr s')" "settled s'"
      "\<And>x. view s' x = (if ?a \<le> x \<and> \<not> dry then purged F (unat mx) (view s1) x else view s1 x)"
      using less.hyps [OF c p(2) wf bd ok] by blast
    have "view s' x = (if a \<le> x \<and> \<not> dry then purged F (unat mx) ?m x else ?m x)" for x
      using s'(3) [of x] m1 purged_compose [OF f(1) less.prems(3) f(3) [unfolded f(2)] _ rows, where mx = "unat mx" and x = x]
      by (cases dry) simp_all
    moreover have "scan_facets env kv F id (purge_facet env kv F dry mx) a ?e s = Some (Inr s')"
      using p(1) s'(1) DecodeRow_facet_Row [OF f(1), of sh n] f(2) Cons item less.prems(1)
      by (subst scan_facets.simps) (simp add: scan_settled limited_def)
    ultimately show ?thesis using s'(2) by blast
  qed
qed

lemma PurgeAccounts_settled:
  assumes "settled s" and "rows_wf F (view s)" and "\<And>f. facet_of F f \<Longrightarrow> shards_ok (view s) f"
  shows "\<exists>s'. PurgeAccounts env kv F dry mx s = Some (Inr s')
    \<and> settled s' \<and> view s' = (if dry then view s else purged F (unat mx) (view s))"
proof -
  have row: "[Collection F] \<le> facet_Row f t n" if "facet_of F f" for f t n
    using facet_Row_Cons [OF that, of t n] by auto
  then have "boundary F [Collection F]" by (simp add: boundary_def)
  then obtain s' where s': "scan_facets env kv F id (purge_facet env kv F dry mx) [Collection F] (key_PrefixNext env [Collection F]) s = Some (Inr s')"
    "settled s'" "\<And>x. view s' x = (if [Collection F] \<le> x \<and> \<not> dry then purged F (unat mx) (view s) x else view s x)"
    using scan_purge_settled [OF assms(1,2) _ order_refl] assms(3) by blast
  have "purged F (unat mx) (view s) x = view s x" if "\<not> [Collection F] \<le> x" for x
    using that row by (intro purged_other) blast
  then show ?thesis using s' by (auto simp: PurgeAccounts_def ScanFacets_def fun_eq_iff)
qed

end

text \<open>C30: the purger ends, without an error, and leaves every account exactly the rows of its first
  shards until the newest ordinals of these shards add up to the maximum; it removes nothing else,
  and nothing at all in a dry run. This holds on a database without failures, when no account has
  rows in shard 255 and the ordinals of an account do not add up to more than 64 bits.\<close>

theorem purge_correct:
  assumes "purge_store kv sinv view eff pend env" and "sinv s" and "pend s = {}" and "rows_wf F (view s)"
    and "\<And>f. facet_of F f \<Longrightarrow> \<not> present (view s) f 255 \<and> seen_below (view s) f UNIV < 2 ^ 64"
  shows "\<exists>s'. PurgeAccounts env kv F dry maxEntries s = Some (Inr s')
    \<and> view s' = (if dry then view s else purged F (unat maxEntries) (view s))"
  using purge_store.PurgeAccounts_settled [OF assms(1) _ assms(4), of dry maxEntries] assms(2,3,5)
  by (auto simp: shards_ok_def)

interpretation mempurge: purge_store mem_ops "\<lambda>s. True" mem_view mem_eff mem_pend sample_hist_env
  by unfold_locales (simp_all add: sample_hist_env_ok mem_ops_def)

definition sample_shards :: mem_store where
  "sample_shards = \<lparr>mem_rows = [(facet_Row (AccountFacet 97) 0 4, []), (facet_Row (AccountFacet 97) 1 9, [])], mem_buffer = []\<rparr>"

lemma sample_shards_lookup:
  "mem_view sample_shards k = (if k = facet_Row (AccountFacet 97) 0 4 \<or> k = facet_Row (AccountFacet 97) 1 9 then Some [] else None)"
  by (simp add: sample_shards_def del: facet_Row.simps)

theorem purge_correct_witness:
  "\<exists>s'. PurgeAccounts sample_hist_env mem_ops AccountFactory False 4 sample_shards = Some (Inr s')
    \<and> mem_view s' (facet_Row (AccountFacet 97) 0 4) = Some [] \<and> mem_view s' (facet_Row (AccountFacet 97) 1 9) = None"
proof -
  let ?m = "mem_view sample_shards"
  have pr: "present ?m f t \<longleftrightarrow> f = AccountFacet 97 \<and> (t = 0 \<or> t = 1)" for f t
    by (auto simp: present_def sample_shards_lookup simp del: facet_Row.simps)
  have nw: "newest ?m (AccountFacet 97) 0 = 4" "newest ?m (AccountFacet 97) 1 = 9"
    by (auto simp: newest_def sample_shards_lookup simp del: facet_Row.simps)
  have sets: "{s. s \<in> UNIV \<and> present ?m (AccountFacet 97) s} = {0, 1}" "{s. s \<in> {..<1} \<and> present ?m (AccountFacet 97) s} = {0}"
    by (auto simp: pr)
  have sums: "seen_below ?m (AccountFacet 97) UNIV = 13" "seen_below ?m (AccountFacet 97) {..<1} = 4"
    unfolding seen_below_def sets by (simp_all add: nw)
  have "seen_below ?m f UNIV < 2 ^ 64" for f
    using sums(1) by (cases "f = AccountFacet 97") (simp_all add: seen_below_def pr)
  moreover have "rows_wf AccountFactory ?m"
    unfolding rows_wf_def by (auto simp: sample_shards_lookup dom_def simp del: facet_Row.simps split: if_splits)
  ultimately obtain s' where s': "PurgeAccounts sample_hist_env mem_ops AccountFactory False 4 sample_shards = Some (Inr s')"
    "mem_view s' = purged AccountFactory 4 ?m"
    using purge_correct [OF mempurge.purge_store_axioms, of sample_shards AccountFactory False 4] pr
    by (auto simp: mem_pend_def sample_shards_def)
  have "\<not> surplus 4 ?m (AccountFacet 97) 0" "surplus 4 ?m (AccountFacet 97) 1"
    using sums(2) pr by (auto simp: surplus_def)
  then show ?thesis using s' by (simp add: purged_row sample_shards_lookup del: facet_Row.simps)
qed

end
