(* ===== verification/TrxDbKeys.thy ===== *)
theory TrxDbKeys
  imports KvStore
begin

text \<open>
  The keys of the transaction database, \<open>trxdb/kv/keys.go\<close>. Blocks are stored under their id with
  the block number complemented, so that a scan meets the newest block first. Two functions of
  \<open>kvdb\<close> and the names of \<open>eos-go\<close> are arguments, with their documented behaviour as \<open>keys_env_ok\<close>.
  A panic is the value \<open>None\<close>. A time is its number of nanoseconds.
\<close>

unbundle bit_operations_syntax

section \<open>Environment\<close>

record keys_env =
  kvdb_ReversedBlockID :: "string \<Rightarrow> string"
  kvdb_HexRevBlockNum :: "u32 \<Rightarrow> string"
  eosgo_BlockNum :: "string \<Rightarrow> u32"
  eosgo_StringToName :: "string \<Rightarrow> u64 option"
  eosgo_NameToString :: "u64 \<Rightarrow> string"

definition PutUint32 :: "u32 \<Rightarrow> bytes" where
  "PutUint32 v = map (\<lambda>i. ucast (drop_bit (8 * i) v)) (rev [0..<4])"

text \<open>A block id is the hexadecimal form of 32 bytes, of which the first four are the block number.\<close>

definition block_id :: "u32 \<Rightarrow> bytes \<Rightarrow> string" where
  "block_id n r = hex_EncodeToString (PutUint32 n @ r)"

definition keys_env_ok :: "keys_env \<Rightarrow> bool" where
  "keys_env_ok env \<longleftrightarrow>
     (\<forall>n. kvdb_HexRevBlockNum env n = hex_EncodeToString (PutUint32 (NOT n)))
     \<and> (\<forall>n r. length r = 28 \<longrightarrow> kvdb_ReversedBlockID env (block_id n r) = block_id (NOT n) r
          \<and> eosgo_BlockNum env (block_id n r) = n)
     \<and> (\<forall>s n. eosgo_StringToName env s = Some n \<longrightarrow> eosgo_NameToString env n = s)"

section \<open>Prefixes\<close>

definition TblPrefixTrxs :: u8 where "TblPrefixTrxs = 0"
definition TblPrefixBlocks :: u8 where "TblPrefixBlocks = 1"
definition TblPrefixIrrBlks :: u8 where "TblPrefixIrrBlks = 2"
definition TblPrefixImplTrxs :: u8 where "TblPrefixImplTrxs = 3"
definition TblPrefixDtrxs :: u8 where "TblPrefixDtrxs = 4"
definition TblPrefixTrxTraces :: u8 where "TblPrefixTrxTraces = 5"
definition TblPrefixAccts :: u8 where "TblPrefixAccts = 6"
definition idxPrefixTimelineFwd :: u8 where "idxPrefixTimelineFwd = 0x80"
definition idxPrefixTimelineBck :: u8 where "idxPrefixTimelineBck = 0x81"
definition dtrxSuffixCreated :: u8 where "dtrxSuffixCreated = 0x90"
definition dtrxSuffixCancelled :: u8 where "dtrxSuffixCancelled = 0x91"
definition dtrxSuffixFailed :: u8 where "dtrxSuffixFailed = 0x92"

lemmas tbl_defs = TblPrefixTrxs_def TblPrefixBlocks_def TblPrefixIrrBlks_def TblPrefixImplTrxs_def TblPrefixDtrxs_def
  TblPrefixTrxTraces_def TblPrefixAccts_def idxPrefixTimelineFwd_def idxPrefixTimelineBck_def
  dtrxSuffixCreated_def dtrxSuffixCancelled_def dtrxSuffixFailed_def

section \<open>Blocks\<close>

definition PackBlocksKey :: "keys_env \<Rightarrow> string \<Rightarrow> bytes option" where
  "PackBlocksKey env blockID =
     map_option (\<lambda>id. TblPrefixBlocks # id) (hex_DecodeString (kvdb_ReversedBlockID env blockID))"

definition UnpackBlocksKey :: "keys_env \<Rightarrow> bytes \<Rightarrow> string option" where
  "UnpackBlocksKey env key = (if key = [] then None else Some (kvdb_ReversedBlockID env (hex_EncodeToString (tl key))))"

definition PackBlockNumPrefix :: "keys_env \<Rightarrow> u32 \<Rightarrow> bytes option" where
  "PackBlockNumPrefix env blockNum =
     map_option (\<lambda>num. TblPrefixBlocks # num) (hex_DecodeString (kvdb_HexRevBlockNum env blockNum))"

definition StartOfBlocksTable :: bytes where "StartOfBlocksTable = [TblPrefixBlocks]"
definition EndOfBlocksTable :: bytes where "EndOfBlocksTable = [TblPrefixBlocks + 1]"

definition PackIrrBlocksKey :: "keys_env \<Rightarrow> string \<Rightarrow> bytes option" where
  "PackIrrBlocksKey env blockID =
     map_option (\<lambda>id. TblPrefixIrrBlks # id) (hex_DecodeString (kvdb_ReversedBlockID env blockID))"

definition UnpackIrrBlocksKey :: "keys_env \<Rightarrow> bytes \<Rightarrow> string option" where
  "UnpackIrrBlocksKey env key = (if key = [] then None else Some (kvdb_ReversedBlockID env (hex_EncodeToString (tl key))))"

definition PackIrrBlockNumPrefix :: "keys_env \<Rightarrow> u32 \<Rightarrow> bytes option" where
  "PackIrrBlockNumPrefix env blockNum =
     map_option (\<lambda>num. TblPrefixIrrBlks # num) (hex_DecodeString (kvdb_HexRevBlockNum env blockNum))"

definition EndOfIrrBlockTable :: bytes where "EndOfIrrBlockTable = [TblPrefixIrrBlks + 1]"

section \<open>Transactions\<close>

definition packTrxBlockIDKey :: "u8 \<Rightarrow> string \<Rightarrow> string \<Rightarrow> bytes option" where
  "packTrxBlockIDKey pre trxID blockID = map_option (\<lambda>id. pre # id) (hex_DecodeString (trxID @ blockID))"

definition unpackTrxBlockIDKey :: "bytes \<Rightarrow> (string \<times> string) option" where
  "unpackTrxBlockIDKey key =
     (if length key \<noteq> 65 then None
      else Some (hex_EncodeToString (take 32 (drop 1 key)), hex_EncodeToString (take 32 (drop 33 key))))"

definition packTrxPrefix :: "u8 \<Rightarrow> string \<Rightarrow> bytes option" where
  "packTrxPrefix pre trxIDPrefix = map_option (\<lambda>id. pre # id) (hex_DecodeString trxIDPrefix)"

definition PackTrxsKey :: "string \<Rightarrow> string \<Rightarrow> bytes option" where
  "PackTrxsKey = packTrxBlockIDKey TblPrefixTrxs"
definition UnpackTrxsKey :: "bytes \<Rightarrow> (string \<times> string) option" where
  "UnpackTrxsKey = unpackTrxBlockIDKey"
definition PackTrxsPrefix :: "string \<Rightarrow> bytes option" where
  "PackTrxsPrefix = packTrxPrefix TblPrefixTrxs"
definition StartOfTrxsTable :: bytes where "StartOfTrxsTable = [TblPrefixTrxs]"

definition PackTrxTracesKey :: "string \<Rightarrow> string \<Rightarrow> bytes option" where
  "PackTrxTracesKey = packTrxBlockIDKey TblPrefixTrxTraces"
definition UnpackTrxTracesKey :: "bytes \<Rightarrow> (string \<times> string) option" where
  "UnpackTrxTracesKey = unpackTrxBlockIDKey"
definition PackTrxTracesPrefix :: "string \<Rightarrow> bytes option" where
  "PackTrxTracesPrefix = packTrxPrefix TblPrefixTrxTraces"
definition StartOfTrxTracesTable :: bytes where "StartOfTrxTracesTable = [TblPrefixTrxTraces]"

definition PackImplicitTrxsKey :: "string \<Rightarrow> string \<Rightarrow> bytes option" where
  "PackImplicitTrxsKey = packTrxBlockIDKey TblPrefixImplTrxs"
definition UnpackImplicitTrxsKey :: "bytes \<Rightarrow> (string \<times> string) option" where
  "UnpackImplicitTrxsKey = unpackTrxBlockIDKey"
definition PackImplicitTrxsPrefix :: "string \<Rightarrow> bytes option" where
  "PackImplicitTrxsPrefix = packTrxPrefix TblPrefixImplTrxs"
definition StartOfImplicitTrxsTable :: bytes where "StartOfImplicitTrxsTable = [TblPrefixImplTrxs]"

definition packDtrxsKey :: "string \<Rightarrow> string \<Rightarrow> u8 \<Rightarrow> bytes option" where
  "packDtrxsKey trxID blockID dtrxSuffix =
     map_option (\<lambda>id. (TblPrefixDtrxs # id) @ [dtrxSuffix]) (hex_DecodeString (trxID @ blockID))"

definition PackDtrxsKeyCreated :: "string \<Rightarrow> string \<Rightarrow> bytes option" where
  "PackDtrxsKeyCreated trxID blockID = packDtrxsKey trxID blockID dtrxSuffixCreated"
definition PackDtrxsKeyFailed :: "string \<Rightarrow> string \<Rightarrow> bytes option" where
  "PackDtrxsKeyFailed trxID blockID = packDtrxsKey trxID blockID dtrxSuffixFailed"
definition PackDtrxsKeyCancelled :: "string \<Rightarrow> string \<Rightarrow> bytes option" where
  "PackDtrxsKeyCancelled trxID blockID = packDtrxsKey trxID blockID dtrxSuffixCancelled"

definition UnpackDtrxsKey :: "bytes \<Rightarrow> (string \<times> string) option" where
  "UnpackDtrxsKey key =
     (if length key \<noteq> 66 then None
      else Some (hex_EncodeToString (take 32 (drop 1 key)), hex_EncodeToString (take 32 (drop 33 key))))"

definition PackDtrxsPrefix :: "string \<Rightarrow> bytes option" where
  "PackDtrxsPrefix = packTrxPrefix TblPrefixDtrxs"
definition StartOfDtrxsTable :: bytes where "StartOfDtrxsTable = [TblPrefixDtrxs]"

section \<open>Accounts and timeline\<close>

text \<open>Account keys are little endian.\<close>

definition PackAccountKey :: "keys_env \<Rightarrow> string \<Rightarrow> bytes option" where
  "PackAccountKey env accountName =
     map_option (\<lambda>name. TblPrefixAccts # rev (PutUint64 name)) (eosgo_StringToName env accountName)"

definition UnpackAccountKey :: "keys_env \<Rightarrow> bytes \<Rightarrow> string option" where
  "UnpackAccountKey env key =
     (if length key < 9 then None else Some (eosgo_NameToString env (Uint64 (rev (take 8 (drop 1 key))))))"

definition StartOfAccountTable :: bytes where "StartOfAccountTable = [TblPrefixAccts]"
definition EndOfAccountTable :: bytes where "EndOfAccountTable = [TblPrefixAccts + 1]"

text \<open>Division of signed integers rounds to zero.\<close>

definition tdiv :: "int \<Rightarrow> int \<Rightarrow> int" where
  "tdiv a b = sgn a * (\<bar>a\<bar> div b)"

definition tmod :: "int \<Rightarrow> int \<Rightarrow> int" where
  "tmod a b = a - b * tdiv a b"

definition maxUnixTimestampDeciSeconds :: u64 where
  "maxUnixTimestampDeciSeconds = 99999999999"

definition PackTimelineKey :: "bool \<Rightarrow> int \<Rightarrow> string \<Rightarrow> bytes option" where
  "PackTimelineKey fwd blockTime blockID =
     map_option (\<lambda>bKey.
       let nano = (of_int (tdiv blockTime 100000000) :: u64);
           nano' = (if fwd then nano else maxUnixTimestampDeciSeconds - nano)
       in ((if fwd then idxPrefixTimelineFwd else idxPrefixTimelineBck) # PutUint64 nano') @ bKey) (hex_DecodeString blockID)"

definition UnpackTimelineKey :: "bool \<Rightarrow> bytes \<Rightarrow> (int \<times> string) option" where
  "UnpackTimelineKey fwd key =
     (if length key < 9 then None
      else let t = Uint64 (take 8 (drop 1 key));
               t' = sint (if fwd then t else maxUnixTimestampDeciSeconds - t)
           in Some (tdiv t' 10 * 1000000000 + tmod t' 10 * 100000000, hex_EncodeToString (drop 9 key)))"

definition PackTimelinePrefix :: "bool \<Rightarrow> int \<Rightarrow> bytes option" where
  "PackTimelinePrefix fwd blockTime = PackTimelineKey fwd blockTime ''''"

definition EndOfTimelineIndex :: "bool \<Rightarrow> bytes" where
  "EndOfTimelineIndex fwd = (if fwd then [idxPrefixTimelineFwd + 1] else [idxPrefixTimelineBck + 1])"

section \<open>Order and round trips\<close>

lemma length_PutUint32 [simp]: "length (PutUint32 v) = 4"
  by (simp add: PutUint32_def)

lemma be_val_PutUint32 [simp]: "be_val (PutUint32 v) = unat v"
  using be_val_word_bytes [of v 4] unsigned_less [of v, where ?'a = nat] by (simp add: PutUint32_def)

lemma PutUint32_less [simp]: "PutUint32 a < PutUint32 b \<longleftrightarrow> a < b"
  by (simp add: be_val_order word_less_nat_alt)

lemma PutUint32_inject [simp]: "PutUint32 a = PutUint32 b \<longleftrightarrow> a = b"
  by (metis be_val_PutUint32 word_unat_eq_iff)

lemma hex_EncodeToString_append: "hex_EncodeToString (a @ b) = hex_EncodeToString a @ hex_EncodeToString b"
  by (induction a) simp_all

lemma hex_EncodeToString_inject [simp]: "hex_EncodeToString a = hex_EncodeToString b \<longleftrightarrow> a = b"
  by (metis hex_decode_encode option.inject)

lemma block_id_inject: "block_id n r = block_id n' r' \<longleftrightarrow> n = n' \<and> r = r'"
  by (simp add: block_id_def append_eq_append_conv)

end
