(* ===== verification/MergeEvents.thy ===== *)
theory MergeEvents
  imports PbHelpers "HOL-Library.Multiset"
begin

text \<open>
  \<open>pb/dfuse/eosio/codec/v1/merge_events.go\<close>: the events of a transaction, which the transaction
  database stores by block, become one lifecycle. Irreversible events win over reversible ones of
  the same kind, and reversible events count only when their block is in the canonical chain. The
  code does this in one pass with a mutable mark for every kind of event; the reference definition
  selects the events that count first and has no marks.

  The order of events that \<open>sort.Slice\<close> leaves equal is open, so the sort is an argument. A panic
  is a value of \<open>merge_panic\<close>. A block header and the time of a deferred operation are copied only
  and left out.
\<close>

section \<open>Messages\<close>

record ExtDTrxOp =
  ext_BlockId :: string
  ext_BlockNum :: u64
  ext_SourceTransactionId :: string
  ext_DtrxOp :: DTrxOp

definition ToExtDTrxOp :: "Block \<Rightarrow> TransactionTrace \<Rightarrow> DTrxOp \<Rightarrow> ExtDTrxOp" where
  "ToExtDTrxOp block trxTrace op =
     \<lparr>ext_BlockId = blk_Id block, ext_BlockNum = ucast (blk_Number block),
      ext_SourceTransactionId = tt_Id (trace_of trxTrace), ext_DtrxOp = op\<rparr>"

datatype trx_event =
    EvAddition TransactionReceipt "SignedTransaction option" "string list option"
  | EvInternalAddition "SignedTransaction option"
  | EvExecution TransactionTrace
  | EvDtrxScheduling "ExtDTrxOp option" "SignedTransaction option"
  | EvDtrxCancellation "ExtDTrxOp option"

record TransactionEvent =
  ev_Id :: string
  ev_BlockId :: string
  ev_BlockNum :: u32
  ev_Irreversible :: bool
  ev_Event :: "trx_event option"

record TransactionLifecycle =
  lc_Id :: string
  lc_TransactionStatus :: TransactionStatus
  lc_TransactionReceipt :: "TransactionReceipt option"
  lc_PublicKeys :: "string list"
  lc_Transaction :: "SignedTransaction option"
  lc_ExecutionTrace :: "TransactionTrace option"
  lc_ExecutionIrreversible :: bool
  lc_CreatedBy :: "ExtDTrxOp option"
  lc_CreationIrreversible :: bool
  lc_CanceledBy :: "ExtDTrxOp option"
  lc_CancelationIrreversible :: bool

definition empty_lifecycle :: TransactionLifecycle where
  "empty_lifecycle =
     \<lparr>lc_Id = '''', lc_TransactionStatus = TRANSACTIONSTATUS_NONE, lc_TransactionReceipt = None, lc_PublicKeys = [],
      lc_Transaction = None, lc_ExecutionTrace = None, lc_ExecutionIrreversible = False, lc_CreatedBy = None,
      lc_CreationIrreversible = False, lc_CanceledBy = None, lc_CancelationIrreversible = False\<rparr>"

datatype merge_panic = DifferentIds | UnknownEvent | NilPointer

section \<open>The merge\<close>

definition event_less :: "TransactionEvent \<Rightarrow> TransactionEvent \<Rightarrow> bool" where
  "event_less x y = (if ev_Irreversible x \<and> ev_Irreversible y then ev_BlockNum x < ev_BlockNum y else ev_Irreversible x)"

definition sortEvents ::
  "((TransactionEvent \<Rightarrow> TransactionEvent \<Rightarrow> bool) \<Rightarrow> TransactionEvent list \<Rightarrow> TransactionEvent list) \<Rightarrow>
   TransactionEvent list \<Rightarrow> TransactionEvent list" where
  "sortEvents sortSlice events = sortSlice event_less events"

definition getTransactionLifeCycleStatus :: "TransactionLifecycle \<Rightarrow> TransactionStatus" where
  "getTransactionLifeCycleStatus lc =
     (if lc_CanceledBy lc \<noteq> None then TRANSACTIONSTATUS_CANCELED
      else case lc_ExecutionTrace lc of
             None \<Rightarrow> (if lc_CreatedBy lc \<noteq> None then TRANSACTIONSTATUS_DELAYED else TRANSACTIONSTATUS_NONE)
           | Some t \<Rightarrow>
               (case tt_Receipt (trace_of t) of
                  None \<Rightarrow> TRANSACTIONSTATUS_HARDFAIL
                | Some r \<Rightarrow> trh_Status r))"

definition mergeTransactionTrace :: "TransactionTrace \<Rightarrow> TransactionTrace \<Rightarrow> TransactionTrace" where
  "mergeTransactionTrace executionTrace otherTrace =
     (let out = trace_of executionTrace; other = trace_of otherTrace
      in TransactionTrace (out\<lparr>tt_RamOps := tt_RamOps other @ tt_RamOps out,
           tt_RlimitOps := tt_RlimitOps other @ tt_RlimitOps out\<rparr>) (FailedDtrxTrace executionTrace))"

text \<open>The condition \<open>receipt != nil && status == EXECUTED || status == HARDFAIL || ...\<close>: the test for
  nil guards the first comparison only.\<close>

definition executed_condition :: "TransactionTrace \<Rightarrow> merge_panic + bool" where
  "executed_condition t =
     (case tt_Receipt (trace_of t) of
        None \<Rightarrow> Inl NilPointer
      | Some r \<Rightarrow> Inr (trh_Status r \<in> {TRANSACTIONSTATUS_EXECUTED, TRANSACTIONSTATUS_HARDFAIL,
                         TRANSACTIONSTATUS_SOFTFAIL, TRANSACTIONSTATUS_EXPIRED}))"

definition merge_execution :: "bool \<Rightarrow> TransactionTrace \<Rightarrow> TransactionLifecycle \<Rightarrow> merge_panic + TransactionLifecycle" where
  "merge_execution irreversible trace out =
     (case lc_ExecutionTrace out of
        None \<Rightarrow> Inr (out\<lparr>lc_ExecutionTrace := Some trace, lc_ExecutionIrreversible := irreversible\<rparr>)
      | Some first \<Rightarrow>
          bind_res (executed_condition first) (\<lambda>firstExecuted.
            if firstExecuted
            then Inr (out\<lparr>lc_ExecutionTrace := Some (mergeTransactionTrace first trace)\<rparr>)
            else bind_res (executed_condition trace) (\<lambda>secondExecuted.
              if secondExecuted
              then Inr (out\<lparr>lc_ExecutionTrace := Some (mergeTransactionTrace trace first),
                     lc_ExecutionIrreversible := irreversible\<rparr>)
              else Inr out)))"

definition cancel_ignored :: "bool \<Rightarrow> TransactionLifecycle \<Rightarrow> bool" where
  "cancel_ignored execIrr out \<longleftrightarrow>
     execIrr \<and> (case lc_ExecutionTrace out of
                  None \<Rightarrow> False
                | Some t \<Rightarrow>
                    (case tt_Receipt (trace_of t) of
                       None \<Rightarrow> False
                     | Some r \<Rightarrow> trh_Status r \<in> {TRANSACTIONSTATUS_EXECUTED, TRANSACTIONSTATUS_HARDFAIL, TRANSACTIONSTATUS_SOFTFAIL}))"

text \<open>The five cases of the switch, for an event that is not skipped; \<open>execIrr\<close> is the mark of the
  executions.\<close>

definition apply_event :: "bool \<Rightarrow> bool \<Rightarrow> trx_event \<Rightarrow> TransactionLifecycle \<Rightarrow> merge_panic + TransactionLifecycle" where
  "apply_event execIrr irreversible event out =
     (case event of
        EvAddition receipt transaction publicKeys \<Rightarrow>
          bind_res (case publicKeys of None \<Rightarrow> Inl NilPointer | Some keys \<Rightarrow> Inr keys) (\<lambda>keys.
            Inr (out\<lparr>lc_TransactionReceipt := Some receipt, lc_PublicKeys := keys,
              lc_Transaction := (case lc_Transaction out of None \<Rightarrow> transaction | t \<Rightarrow> t)\<rparr>))
      | EvInternalAddition transaction \<Rightarrow> Inr (out\<lparr>lc_Transaction := transaction\<rparr>)
      | EvExecution trace \<Rightarrow> merge_execution irreversible trace out
      | EvDtrxScheduling createdBy transaction \<Rightarrow>
          Inr (out\<lparr>lc_CreatedBy := createdBy, lc_Transaction := transaction, lc_CreationIrreversible := irreversible\<rparr>)
      | EvDtrxCancellation canceledBy \<Rightarrow>
          if cancel_ignored execIrr out then Inr out
          else Inr (out\<lparr>lc_CanceledBy := canceledBy, lc_CancelationIrreversible := irreversible\<rparr>))"

datatype event_kind = KAddition | KInternalAddition | KExecution | KScheduling | KCancellation

fun kind_of :: "trx_event \<Rightarrow> event_kind" where
  "kind_of (EvAddition _ _ _) = KAddition"
| "kind_of (EvInternalAddition _) = KInternalAddition"
| "kind_of (EvExecution _) = KExecution"
| "kind_of (EvDtrxScheduling _ _) = KScheduling"
| "kind_of (EvDtrxCancellation _) = KCancellation"

text \<open>The five marks \<open>additionsIrr\<close>, \<open>intAdditionsIrr\<close>, \<open>execIrr\<close>, \<open>dtrxCreateIrr\<close>, \<open>dtrxCancelIrr\<close>
  are a function of the kind. The closure \<open>skip\<close> returns whether to skip, and the mark after it.\<close>

definition skip :: "(string \<Rightarrow> bool) \<Rightarrow> TransactionEvent \<Rightarrow> bool \<Rightarrow> bool \<times> bool" where
  "skip inCanonicalChain evi seenIrrMark =
     (if seenIrrMark \<and> \<not> ev_Irreversible evi then (True, seenIrrMark)
      else if \<not> ev_Irreversible evi \<and> \<not> inCanonicalChain (ev_BlockId evi) then (True, seenIrrMark)
      else (False, seenIrrMark \<or> ev_Irreversible evi))"

record merge_state =
  ms_out :: TransactionLifecycle
  ms_irr :: "event_kind \<Rightarrow> bool"
  ms_trxID :: string

definition merge_event :: "(string \<Rightarrow> bool) \<Rightarrow> TransactionEvent \<Rightarrow> merge_state \<Rightarrow> merge_panic + merge_state" where
  "merge_event inCanonicalChain evi st =
     (if ms_trxID st \<noteq> '''' \<and> ms_trxID st \<noteq> ev_Id evi then Inl DifferentIds
      else
        let st1 = (if ms_trxID st = '''' then st\<lparr>ms_trxID := ev_Id evi\<rparr> else st)
        in case ev_Event evi of
             None \<Rightarrow> Inl UnknownEvent
           | Some ev \<Rightarrow>
               (case skip inCanonicalChain evi (ms_irr st1 (kind_of ev)) of (skipped, mark) \<Rightarrow>
                  let st2 = st1\<lparr>ms_irr := (ms_irr st1)(kind_of ev := mark)\<rparr>
                  in if skipped then Inr st2
                     else bind_res (apply_event (ms_irr st2 KExecution) (ev_Irreversible evi) ev (ms_out st2))
                            (\<lambda>out. Inr (st2\<lparr>ms_out := out\<rparr>))))"

definition finish_lifecycle :: "string \<Rightarrow> TransactionLifecycle \<Rightarrow> TransactionLifecycle" where
  "finish_lifecycle trxID out =
     (let out1 = out\<lparr>lc_Id := trxID\<rparr> in out1\<lparr>lc_TransactionStatus := getTransactionLifeCycleStatus out1\<rparr>)"

definition MergeTransactionEvents ::
  "((TransactionEvent \<Rightarrow> TransactionEvent \<Rightarrow> bool) \<Rightarrow> TransactionEvent list \<Rightarrow> TransactionEvent list) \<Rightarrow>
   TransactionEvent list \<Rightarrow> (string \<Rightarrow> bool) \<Rightarrow> merge_panic + TransactionLifecycle option" where
  "MergeTransactionEvents sortSlice events inCanonicalChain =
     (if events = [] then Inr None
      else bind_res (fold_res (merge_event inCanonicalChain) (sortEvents sortSlice events)
               \<lparr>ms_out = empty_lifecycle, ms_irr = (\<lambda>k. False), ms_trxID = ''''\<rparr>)
             (\<lambda>st. Inr (Some (finish_lifecycle (ms_trxID st) (ms_out st)))))"

section \<open>Reference\<close>

text \<open>The events that count.\<close>

definition same_kind :: "TransactionEvent \<Rightarrow> TransactionEvent \<Rightarrow> bool" where
  "same_kind x y \<longleftrightarrow> map_option kind_of (ev_Event x) = map_option kind_of (ev_Event y)"

definition counts :: "(string \<Rightarrow> bool) \<Rightarrow> TransactionEvent list \<Rightarrow> TransactionEvent \<Rightarrow> bool" where
  "counts inCanonicalChain events e \<longleftrightarrow>
     ev_Irreversible e
     \<or> inCanonicalChain (ev_BlockId e) \<and> \<not> (\<exists>e'\<in>set events. ev_Irreversible e' \<and> same_kind e' e)"

definition merge_counted :: "TransactionEvent list \<Rightarrow> merge_panic + TransactionLifecycle" where
  "merge_counted es =
     fold_res (\<lambda>e out. apply_event (lc_ExecutionIrreversible out) (ev_Irreversible e) (the (ev_Event e)) out) es empty_lifecycle"

definition event_sort_ok ::
  "((TransactionEvent \<Rightarrow> TransactionEvent \<Rightarrow> bool) \<Rightarrow> TransactionEvent list \<Rightarrow> TransactionEvent list) \<Rightarrow> bool" where
  "event_sort_ok sortSlice \<longleftrightarrow>
     (\<forall>xs. mset (sortSlice event_less xs) = mset xs \<and> sorted_wrt (\<lambda>x y. \<not> event_less y x) (sortSlice event_less xs))"

lemma sorted_irreversible_first:
  assumes "sorted_wrt (\<lambda>x y. \<not> event_less y x) (xs @ e # ys)"
  shows "ev_Irreversible e \<Longrightarrow> \<forall>x\<in>set xs. ev_Irreversible x"
    and "\<not> ev_Irreversible e \<Longrightarrow> \<forall>y\<in>set ys. \<not> ev_Irreversible y"
  using assms by (auto simp: sorted_wrt_append event_less_def split: if_splits)

text \<open>Only an execution changes the trace of the execution and its flag.\<close>

lemma apply_event_exec:
  assumes "apply_event x irr ev out = Inr out'"
  shows "kind_of ev \<noteq> KExecution \<Longrightarrow> lc_ExecutionTrace out' = lc_ExecutionTrace out
      \<and> lc_ExecutionIrreversible out' = lc_ExecutionIrreversible out"
    and "kind_of ev = KExecution \<Longrightarrow> lc_ExecutionTrace out' \<noteq> None
      \<and> (lc_ExecutionIrreversible out' = irr
         \<or> lc_ExecutionTrace out \<noteq> None \<and> lc_ExecutionIrreversible out' = lc_ExecutionIrreversible out)"
  using assms by (cases ev; auto simp: apply_event_def merge_execution_def res_simps split: if_splits option.splits)+

lemma apply_event_mark: "kind_of ev \<noteq> KCancellation \<Longrightarrow> apply_event x irr ev out = apply_event y irr ev out"
  by (cases ev) (simp_all add: apply_event_def)

lemma apply_event_panic: "apply_event x irr ev out = Inl p \<Longrightarrow> p = NilPointer"
  by (cases ev) (auto simp: apply_event_def merge_execution_def executed_condition_def res_simps split: if_splits option.splits)

lemma merge_counted_panic: "merge_counted es = Inl p \<Longrightarrow> p = NilPointer"
proof -
  have "fold_res (\<lambda>e out. apply_event (lc_ExecutionIrreversible out) (ev_Irreversible e) (the (ev_Event e)) out) es out = Inl p
      \<Longrightarrow> p = NilPointer" for out
    by (induction es arbitrary: out) (auto simp: res_simps dest: apply_event_panic)
  then show "merge_counted es = Inl p \<Longrightarrow> p = NilPointer" by (simp add: merge_counted_def)
qed

text \<open>The state of the loop after the events \<open>done\<close>: a mark is set when an irreversible event of its
  kind was seen, and the mark of the executions is the flag of the merged execution.\<close>

definition merge_inv :: "string \<Rightarrow> TransactionEvent list \<Rightarrow> merge_state \<Rightarrow> bool" where
  "merge_inv tid done st \<longleftrightarrow>
     (\<forall>k. ms_irr st k \<longleftrightarrow> (\<exists>e\<in>set done. ev_Irreversible e \<and> map_option kind_of (ev_Event e) = Some k))
     \<and> lc_ExecutionIrreversible (ms_out st) = ms_irr st KExecution
     \<and> (lc_ExecutionTrace (ms_out st) \<noteq> None \<and> \<not> ms_irr st KExecution \<longrightarrow> (\<exists>e\<in>set done. \<not> ev_Irreversible e))
     \<and> ms_trxID st = (if done = [] then '''' else tid)"

lemma merge_event_counts:
  assumes st: "merge_inv tid done st" and id: "ev_Id e = tid" and ev: "ev_Event e = Some ev"
    and sorted: "sorted_wrt (\<lambda>x y. \<not> event_less y x) (done @ e # rest)"
    and events: "set events = set (done @ e # rest)"
    and r: "r = (if counts inC events e
      then apply_event (lc_ExecutionIrreversible (ms_out st)) (ev_Irreversible e) ev (ms_out st) else Inr (ms_out st))"
  shows "(case r of
      Inl p \<Rightarrow> merge_event inC e st = Inl p
    | Inr out \<Rightarrow> \<exists>st'. merge_event inC e st = Inr st' \<and> ms_out st' = out \<and> merge_inv tid (done @ [e]) st')"
proof -
  let ?k = "kind_of ev"
  define st1 where "st1 = st\<lparr>ms_trxID := tid\<rparr>"
  have seen: "ms_irr st ?k \<longleftrightarrow> (\<exists>x\<in>set done. ev_Irreversible x \<and> map_option kind_of (ev_Event x) = Some ?k)"
    using st unfolding merge_inv_def by blast
  have t: "ms_trxID st = [] \<or> ms_trxID st = tid" using st by (auto simp: merge_inv_def split: if_splits)
  then have s1: "(if ms_trxID st = [] then st\<lparr>ms_trxID := ev_Id e\<rparr> else st) = st1"
    using id by (cases st) (auto simp: st1_def)
  have neg: "\<not> (ms_trxID st \<noteq> [] \<and> ms_trxID st \<noteq> ev_Id e)" using t id by auto
  have f1: "ms_irr st1 = ms_irr st" "ms_out st1 = ms_out st" by (simp_all add: st1_def)
  have inv1: "merge_event inC e st =
      (case skip inC e (ms_irr st ?k) of (skipped, mark) \<Rightarrow>
         let st2 = st1\<lparr>ms_irr := (ms_irr st)(?k := mark)\<rparr>
         in if skipped then Inr st2
            else bind_res (apply_event (ms_irr st2 KExecution) (ev_Irreversible e) ev (ms_out st)) (\<lambda>out. Inr (st2\<lparr>ms_out := out\<rparr>)))"
    unfolding merge_event_def Let_def
    by (cases "skip inC e (ms_irr st ?k)") (simp only: neg if_False s1 ev option.case prod.case f1, simp add: f1)
  have other: "ms_irr st' k \<longleftrightarrow> (\<exists>x\<in>set (done @ [e]). ev_Irreversible x \<and> map_option kind_of (ev_Event x) = Some k)"
    if "ms_irr st' = (ms_irr st)(?k := ms_irr st ?k \<or> ev_Irreversible e)" for st' k
    using that st ev unfolding merge_inv_def by auto
  show ?thesis
  proof (cases "counts inC events e")
    case False
    then have "\<not> ev_Irreversible e" and "\<not> inC (ev_BlockId e) \<or> (\<exists>x\<in>set events. ev_Irreversible x \<and> same_kind x e)"
      by (auto simp: counts_def)
    then have "skip inC e (ms_irr st ?k) = (True, ms_irr st ?k)"
      using seen sorted_irreversible_first(2) [OF sorted] events ev by (auto simp: skip_def same_kind_def)
    then have m: "merge_event inC e st = Inr st1" unfolding inv1 by (simp add: st1_def)
    have "merge_inv tid (done @ [e]) st1"
      unfolding merge_inv_def using st other [of st1] \<open>\<not> ev_Irreversible e\<close>
      by (auto simp: st1_def merge_inv_def)
    then show ?thesis using m False r by (simp add: st1_def)
  next
    case True
    define mark where "mark = (ms_irr st ?k \<or> ev_Irreversible e)"
    have sk: "skip inC e (ms_irr st ?k) = (False, mark)"
      using True seen events ev by (force simp: counts_def skip_def mark_def same_kind_def)
    have pre: "ev_Irreversible e \<Longrightarrow> ms_irr st KExecution \<or> lc_ExecutionTrace (ms_out st) = None"
      using sorted_irreversible_first(1) [OF sorted] st unfolding merge_inv_def by blast
    let ?st2 = "st1\<lparr>ms_irr := (ms_irr st)(?k := mark)\<rparr>"
    have x: "lc_ExecutionIrreversible (ms_out st) = ms_irr st KExecution" using st unfolding merge_inv_def by blast
    have "apply_event (ms_irr ?st2 KExecution) (ev_Irreversible e) ev (ms_out st) = r"
      using True r x by (cases "?k = KCancellation") (simp_all add: apply_event_mark [of ev])
    then have m: "merge_event inC e st = bind_res r (\<lambda>out. Inr (?st2\<lparr>ms_out := out\<rparr>))"
      unfolding inv1 sk by (simp add: Let_def)
    have "merge_inv tid (done @ [e]) (?st2\<lparr>ms_out := out\<rparr>)" if out: "r = Inr out" for out
    proof -
      let ?st' = "?st2\<lparr>ms_out := out\<rparr>"
      have ap: "apply_event (lc_ExecutionIrreversible (ms_out st)) (ev_Irreversible e) ev (ms_out st) = Inr out"
        using True r out by simp
      have none: "\<not> ms_irr st ?k" if "\<not> ev_Irreversible e"
        using that True seen events ev by (force simp: counts_def same_kind_def)
      have flags: "ms_irr ?st' = (ms_irr st)(?k := ms_irr st ?k \<or> ev_Irreversible e)" by (simp add: mark_def)
      have "lc_ExecutionIrreversible out = ms_irr ?st' KExecution
          \<and> (lc_ExecutionTrace out \<noteq> None \<and> \<not> ms_irr ?st' KExecution \<longrightarrow> (\<exists>x\<in>set (done @ [e]). \<not> ev_Irreversible x))"
      proof (cases "?k = KExecution")
        case True
        then show ?thesis using apply_event_exec(2) [OF ap] pre none x unfolding flags by auto
      next
        case False
        then show ?thesis using apply_event_exec(1) [OF ap] st unfolding flags merge_inv_def by auto
      qed
      then show ?thesis unfolding merge_inv_def using other [OF flags] by (simp add: st1_def)
    qed
    then show ?thesis using m by (cases r) auto
  qed
qed

lemma merge_counts_only:
  assumes "event_sort_ok sortSlice" and "events \<noteq> []"
    and "\<forall>e\<in>set events. ev_Id e = tid \<and> ev_Event e \<noteq> None"
  shows "MergeTransactionEvents sortSlice events inC =
    bind_res (merge_counted (filter (counts inC events) (sortEvents sortSlice events)))
      (\<lambda>out. Inr (Some (finish_lifecycle tid out)))"
proof -
  let ?es = "sortEvents sortSlice events"
  have es: "set ?es = set events" "sorted_wrt (\<lambda>x y. \<not> event_less y x) ?es"
    using assms(1) unfolding event_sort_ok_def sortEvents_def by (metis mset_eq_setD, blast)
  let ?ap = "\<lambda>e out. apply_event (lc_ExecutionIrreversible out) (ev_Irreversible e) (the (ev_Event e)) out"
  have loop: "\<lbrakk>?es = done @ rest; merge_inv tid done st\<rbrakk> \<Longrightarrow>
      (case fold_res ?ap (filter (counts inC events) rest) (ms_out st) of
         Inl p \<Rightarrow> fold_res (merge_event inC) rest st = Inl p
       | Inr out \<Rightarrow> \<exists>st'. fold_res (merge_event inC) rest st = Inr st' \<and> ms_out st' = out \<and> merge_inv tid ?es st')"
    for "done" rest st
  proof (induction rest arbitrary: "done" st)
    case (Cons e rest)
    obtain ev where ev: "ev_Id e = tid" "ev_Event e = Some ev"
      using assms(3) es(1) Cons.prems(1) by fastforce
    have "set events = set (done @ e # rest)" using es(1) Cons.prems(1) by simp
    note step = merge_event_counts [OF Cons.prems(2) ev es(2) [unfolded Cons.prems(1)] this refl, of inC]
    show ?case
    proof (cases "if counts inC events e then ?ap e (ms_out st) else Inr (ms_out st)")
      case (Inl p)
      with step ev show ?thesis by (auto split: if_splits)
    next
      case (Inr out)
      then obtain st' where st': "merge_event inC e st = Inr st'" "ms_out st' = out" "merge_inv tid (done @ [e]) st'"
        using step ev by (auto split: if_splits)
      have "fold_res ?ap (filter (counts inC events) (e # rest)) (ms_out st) = fold_res ?ap (filter (counts inC events) rest) out"
        using Inr by (auto split: if_splits)
      moreover have "fold_res (merge_event inC) (e # rest) st = fold_res (merge_event inC) rest st'" using st'(1) by simp
      ultimately show ?thesis
        using Cons.IH [of "done @ [e]" st'] Cons.prems(1) st'(3) unfolding st'(2) by (simp only: append_assoc append_Cons append_Nil)
    qed
  qed simp
  have "merge_inv tid [] \<lparr>ms_out = empty_lifecycle, ms_irr = (\<lambda>k. False), ms_trxID = ''''\<rparr>"
    by (simp add: merge_inv_def empty_lifecycle_def)
  from loop [OF _ this, of ?es] have l: "case merge_counted (filter (counts inC events) ?es) of
      Inl p \<Rightarrow> fold_res (merge_event inC) ?es \<lparr>ms_out = empty_lifecycle, ms_irr = (\<lambda>k. False), ms_trxID = ''''\<rparr> = Inl p
    | Inr out \<Rightarrow> \<exists>st'. fold_res (merge_event inC) ?es \<lparr>ms_out = empty_lifecycle, ms_irr = (\<lambda>k. False), ms_trxID = ''''\<rparr> = Inr st'
        \<and> ms_out st' = out \<and> merge_inv tid ?es st'"
    by (simp add: merge_counted_def)
  have "?es \<noteq> []" using es(1) assms(2) by (metis set_empty)
  then show ?thesis
    using l assms(2) by (auto simp: MergeTransactionEvents_def merge_inv_def split: sum.splits)
qed

text \<open>C34: the lifecycle of a transaction. For events of one transaction the merge is the same as first
  selecting the events that count (the irreversible ones, and the reversible ones of the canonical
  chain of kinds that have no irreversible event) and then applying them in order: reversible and
  forked events never change what irreversible events say.\<close>

theorem merge_is_merge_of_counted:
  assumes "event_sort_ok sortSlice" and "events \<noteq> []"
    and "\<forall>e\<in>set events. ev_Id e = tid \<and> ev_Event e \<noteq> None"
  shows "MergeTransactionEvents sortSlice events inC =
    bind_res (merge_counted (filter (counts inC events) (sortEvents sortSlice events)))
      (\<lambda>out. Inr (Some (finish_lifecycle tid out)))"
  using assms by (rule merge_counts_only)

section \<open>Examples\<close>

fun insert_event :: "(TransactionEvent \<Rightarrow> TransactionEvent \<Rightarrow> bool) \<Rightarrow> TransactionEvent \<Rightarrow> TransactionEvent list \<Rightarrow> TransactionEvent list" where
  "insert_event lt x [] = [x]"
| "insert_event lt x (y # ys) = (if lt y x then y # insert_event lt x ys else x # y # ys)"

definition insertion_sort :: "(TransactionEvent \<Rightarrow> TransactionEvent \<Rightarrow> bool) \<Rightarrow> TransactionEvent list \<Rightarrow> TransactionEvent list" where
  "insertion_sort lt xs = foldr (insert_event lt) xs []"

lemma insertion_sort_ok: "event_sort_ok insertion_sort"
proof -
  have ins: "mset (insert_event event_less x ys) = add_mset x (mset ys)
      \<and> sorted_wrt (\<lambda>x y. \<not> event_less y x) (insert_event event_less x ys)"
    if "sorted_wrt (\<lambda>x y. \<not> event_less y x) ys" for x ys
    using that
  proof (induction ys)
    case (Cons y ys)
    then have set: "set (insert_event event_less x ys) = insert x (set ys)"
      by (metis set_mset_add_mset_insert set_mset_mset sorted_wrt.simps(2))
    have trans: "\<not> event_less z x" if "\<not> event_less y x" "\<not> event_less z y" for z
      using that by (auto simp: event_less_def not_less split: if_splits)
    have "\<not> event_less x y" if "event_less y x" using that by (auto simp: event_less_def split: if_splits)
    with Cons set trans show ?case by auto
  qed simp
  have "mset (insertion_sort event_less xs) = mset xs \<and> sorted_wrt (\<lambda>x y. \<not> event_less y x) (insertion_sort event_less xs)" for xs
    unfolding insertion_sort_def by (induction xs) (auto simp: ins)
  then show ?thesis unfolding event_sort_ok_def by blast
qed

definition sample_execution :: "bool \<Rightarrow> string \<Rightarrow> TransactionStatus option \<Rightarrow> TransactionEvent" where
  "sample_execution irr blockID status =
     \<lparr>ev_Id = ''t'', ev_BlockId = blockID, ev_BlockNum = 5, ev_Irreversible = irr,
      ev_Event = Some (EvExecution (TransactionTrace (empty_trace_fields\<lparr>tt_Id := ''t'', tt_Receipt :=
        map_option (\<lambda>s. \<lparr>trh_Status = s, trh_CpuUsageMicroSeconds = 0, trh_NetUsageWords = 0\<rparr>) status\<rparr>) None))\<rparr>"

definition sample_events :: "TransactionEvent list" where
  "sample_events = [sample_execution False ''fork'' (Some TRANSACTIONSTATUS_HARDFAIL), sample_execution True ''main'' (Some TRANSACTIONSTATUS_EXECUTED)]"

theorem merge_is_merge_of_counted_witness:
  "MergeTransactionEvents insertion_sort sample_events (\<lambda>b. True) =
    bind_res (merge_counted [sample_execution True ''main'' (Some TRANSACTIONSTATUS_EXECUTED)])
      (\<lambda>out. Inr (Some (finish_lifecycle ''t'' out)))"
proof -
  have "filter (counts (\<lambda>b. True) sample_events) (sortEvents insertion_sort sample_events) =
      [sample_execution True ''main'' (Some TRANSACTIONSTATUS_EXECUTED)]"
    by (simp add: sortEvents_def insertion_sort_def sample_events_def sample_execution_def event_less_def counts_def same_kind_def)
  then show ?thesis
    using merge_is_merge_of_counted [OF insertion_sort_ok, of sample_events "''t''" "\<lambda>b. True"]
    by (simp add: sample_events_def sample_execution_def)
qed

text \<open>Two executions of which the first has no receipt: the test for nil does not guard the other
  comparisons, and the merge dereferences nil.\<close>

lemma merge_without_receipt_panics:
  "MergeTransactionEvents insertion_sort
     [sample_execution True ''main'' None, sample_execution True ''main'' (Some TRANSACTIONSTATUS_EXECUTED)] (\<lambda>b. True) = Inl NilPointer"
  by (simp add: MergeTransactionEvents_def sortEvents_def insertion_sort_def sample_execution_def event_less_def merge_event_def
      skip_def apply_event_def merge_execution_def executed_condition_def empty_lifecycle_def empty_trace_fields_def Let_def)

end
