(* ===== verification/Dedupe.thy ===== *)
theory Dedupe
  imports PbCodec
begin

text \<open>
  \<open>codec/dedupe.go\<close>: before a transaction trace is stored, the actions that repeat an earlier one
  (the notifications of an action carry the same action) and the fields that repeat those of the
  transaction are dropped; they are filled in again when the trace is read. The records have the
  fields that the two functions read or write. A nil dereference and the panic of the code are the
  value \<open>None\<close>.
\<close>

section \<open>Messages\<close>

record dd_receipt =
  dr_Receiver :: string
  dr_Digest :: string

record dd_action_trace =
  dt_Receiver :: string
  dt_Receipt :: "dd_receipt option"
  dt_Action :: "Action option"
  dt_TransactionId :: string
  dt_ProducerBlockId :: string
  dt_BlockTime :: "int option"
  dt_BlockNum :: u64

record dd_trace =
  dd_Id :: string
  dd_ProducerBlockId :: string
  dd_BlockTime :: "int option"
  dd_BlockNum :: u64
  dd_ActionTraces :: "dd_action_trace list"

section \<open>Operations\<close>

definition isSetABI :: "Action \<Rightarrow> bool" where
  "isSetABI a \<longleftrightarrow> act_Account a = ''eosio'' \<and> act_Name a = ''setabi''"

definition dedup_clear :: "dd_action_trace \<Rightarrow> dd_action_trace" where
  "dedup_clear act = act\<lparr>dt_TransactionId := '''', dt_ProducerBlockId := '''', dt_BlockTime := None, dt_BlockNum := 0\<rparr>"

text \<open>One turn of the loop, with the digests seen since the last \<open>setabi\<close>.\<close>

definition dedup_action :: "dd_action_trace \<Rightarrow> (string \<rightharpoonup> Action) \<Rightarrow> (dd_action_trace \<times> (string \<rightharpoonup> Action)) option" where
  "dedup_action act digs =
     (case dt_Receipt act of
        None \<Rightarrow> Some (dedup_clear act, digs)
      | Some r \<Rightarrow>
          (case dt_Action act of
             None \<Rightarrow> None
           | Some a \<Rightarrow>
               let act1 = act\<lparr>dt_Receipt := Some (r\<lparr>dr_Receiver := ''''\<rparr>)\<rparr>;
                   digs1 = (if isSetABI a then Map.empty else digs);
                   d = dr_Digest r
               in if digs1 d \<noteq> None
                  then Some (dedup_clear (act1\<lparr>dt_Action := None\<rparr>), digs1)
                  else Some (dedup_clear act1, digs1(d \<mapsto> a))))"

fun dedup_actions :: "dd_action_trace list \<Rightarrow> (string \<rightharpoonup> Action) \<Rightarrow> dd_action_trace list option" where
  "dedup_actions [] digs = Some []"
| "dedup_actions (act # acts) digs =
     Option.bind (dedup_action act digs) (\<lambda>(act', digs').
       map_option ((#) act') (dedup_actions acts digs'))"

definition DeduplicateTransactionTrace :: "dd_trace \<Rightarrow> dd_trace option" where
  "DeduplicateTransactionTrace trx =
     map_option (\<lambda>acts. trx\<lparr>dd_ActionTraces := acts\<rparr>) (dedup_actions (dd_ActionTraces trx) Map.empty)"

definition redup_fill :: "dd_trace \<Rightarrow> dd_action_trace \<Rightarrow> dd_action_trace" where
  "redup_fill trx act = act\<lparr>dt_TransactionId := dd_Id trx, dt_ProducerBlockId := dd_ProducerBlockId trx,
     dt_BlockTime := dd_BlockTime trx, dt_BlockNum := dd_BlockNum trx\<rparr>"

definition redup_action ::
  "dd_trace \<Rightarrow> dd_action_trace \<Rightarrow> (string \<rightharpoonup> Action) \<Rightarrow> (dd_action_trace \<times> (string \<rightharpoonup> Action)) option" where
  "redup_action trx act digs =
     (case dt_Receipt act of
        None \<Rightarrow> Some (redup_fill trx act, digs)
      | Some r \<Rightarrow>
          (let act1 = act\<lparr>dt_Receipt := Some (r\<lparr>dr_Receiver := dt_Receiver act\<rparr>)\<rparr>
           in case dt_Action act of
                None \<Rightarrow>
                  (case digs (dr_Digest r) of
                     None \<Rightarrow> None
                   | Some a \<Rightarrow> Some (redup_fill trx (act1\<lparr>dt_Action := Some a\<rparr>), digs))
              | Some a \<Rightarrow> Some (redup_fill trx act1, digs(dr_Digest r \<mapsto> a))))"

fun redup_actions :: "dd_trace \<Rightarrow> dd_action_trace list \<Rightarrow> (string \<rightharpoonup> Action) \<Rightarrow> dd_action_trace list option" where
  "redup_actions trx [] digs = Some []"
| "redup_actions trx (act # acts) digs =
     Option.bind (redup_action trx act digs) (\<lambda>(act', digs').
       map_option ((#) act') (redup_actions trx acts digs'))"

definition ReduplicateTransactionTrace :: "dd_trace \<Rightarrow> dd_trace option" where
  "ReduplicateTransactionTrace trx =
     map_option (\<lambda>acts. trx\<lparr>dd_ActionTraces := acts\<rparr>) (redup_actions trx (dd_ActionTraces trx) Map.empty)"

section \<open>Round trip\<close>

text \<open>An action trace repeats the fields of its transaction, and the receiver of its receipt.\<close>

definition stamped :: "dd_trace \<Rightarrow> dd_action_trace \<Rightarrow> bool" where
  "stamped trx act \<longleftrightarrow>
     dt_TransactionId act = dd_Id trx \<and> dt_ProducerBlockId act = dd_ProducerBlockId trx
     \<and> dt_BlockTime act = dd_BlockTime trx \<and> dt_BlockNum act = dd_BlockNum trx
     \<and> (case dt_Receipt act of None \<Rightarrow> True | Some r \<Rightarrow> dr_Receiver r = dt_Receiver act \<and> dt_Action act \<noteq> None)"

text \<open>A digest stands for one action, until a \<open>setabi\<close> changes what the decoded data means.\<close>

fun digests_ok :: "(string \<rightharpoonup> Action) \<Rightarrow> dd_action_trace list \<Rightarrow> bool" where
  "digests_ok digs [] = True"
| "digests_ok digs (act # acts) =
     (case (dt_Receipt act, dt_Action act) of
        (Some r, Some a) \<Rightarrow>
          let digs1 = (if isSetABI a then Map.empty else digs)
          in (case digs1 (dr_Digest r) of None \<Rightarrow> True | Some b \<Rightarrow> b = a) \<and> digests_ok (digs1(dr_Digest r \<mapsto> a)) acts
      | _ \<Rightarrow> digests_ok digs acts)"

lemma redup_actions_header [simp]: "redup_actions (trx\<lparr>dd_ActionTraces := x\<rparr>) acts digs = redup_actions trx acts digs"
proof (induction acts arbitrary: digs)
  case (Cons act acts)
  have "redup_action (trx\<lparr>dd_ActionTraces := x\<rparr>) act digs = redup_action trx act digs"
    by (simp add: redup_action_def redup_fill_def cong: option.case_cong)
  then show ?case using Cons by simp
qed simp

lemma dedup_redup_actions:
  assumes "\<forall>act\<in>set acts. stamped trx act" and "digests_ok digs acts" and "digs \<subseteq>\<^sub>m seen"
  shows "\<exists>out. dedup_actions acts digs = Some out \<and> redup_actions trx out seen = Some acts"
  using assms
proof (induction acts arbitrary: digs seen)
  case (Cons act acts)
  have st: "stamped trx act" and sts: "\<forall>act\<in>set acts. stamped trx act" using Cons.prems(1) by simp_all
  show ?case
  proof (cases "dt_Receipt act")
    case None
    then obtain out where "dedup_actions acts digs = Some out" "redup_actions trx out seen = Some acts"
      using Cons.IH [of digs seen] Cons.prems None by auto
    then show ?thesis
      using None st
      by (auto simp: dedup_action_def redup_action_def dedup_clear_def redup_fill_def stamped_def)
  next
    case (Some r)
    obtain a where a: "dt_Action act = Some a" using st Some by (auto simp: stamped_def)
    define digs1 where "digs1 = (if isSetABI a then Map.empty else digs)"
    have sub: "digs1 \<subseteq>\<^sub>m seen" using Cons.prems(3) by (simp add: digs1_def)
    have ok: "digs1 (dr_Digest r) = None \<or> digs1 (dr_Digest r) = Some a" "digests_ok (digs1(dr_Digest r \<mapsto> a)) acts"
      using Cons.prems(2) Some a by (auto simp: digs1_def Let_def split: option.splits)
    show ?thesis
    proof (cases "digs1 (dr_Digest r)")
      case None
      have "digs1(dr_Digest r \<mapsto> a) \<subseteq>\<^sub>m seen(dr_Digest r \<mapsto> a)" using sub by (simp add: map_le_def)
      then obtain out where "dedup_actions acts (digs1(dr_Digest r \<mapsto> a)) = Some out"
        "redup_actions trx out (seen(dr_Digest r \<mapsto> a)) = Some acts"
        using Cons.IH [OF sts ok(2)] by blast
      then show ?thesis
        using Some a None st
        by (auto simp: dedup_action_def redup_action_def dedup_clear_def redup_fill_def stamped_def Let_def
            digs1_def [symmetric])
    next
      case dup: (Some b)
      then have b: "digs1 (dr_Digest r) = Some a" "digs1(dr_Digest r \<mapsto> a) = digs1" "seen (dr_Digest r) = Some a"
        using ok(1) sub by (auto simp: map_le_def dom_def)
      then obtain out where "dedup_actions acts digs1 = Some out" "redup_actions trx out seen = Some acts"
        using Cons.IH [of digs1 seen] ok(2) sub sts by auto
      then show ?thesis
        using Some a b st
        by (auto simp: dedup_action_def redup_action_def dedup_clear_def redup_fill_def stamped_def Let_def
            digs1_def [symmetric])
    qed
  qed
qed simp

text \<open>C35: a transaction trace that is deduplicated for storage and reduplicated when it is read is the
  same trace: neither function panics, no action and no field is lost. The traces are stamped with
  the fields of their transaction, and two receipts with the same digest have the same action unless
  a \<open>setabi\<close> lies between them.\<close>

theorem deduplicate_reduplicate:
  assumes "\<forall>act\<in>set (dd_ActionTraces trx). stamped trx act" and "digests_ok Map.empty (dd_ActionTraces trx)"
  shows "\<exists>stored. DeduplicateTransactionTrace trx = Some stored \<and> ReduplicateTransactionTrace stored = Some trx"
proof -
  obtain out where "dedup_actions (dd_ActionTraces trx) Map.empty = Some out"
    "redup_actions (trx\<lparr>dd_ActionTraces := out\<rparr>) out Map.empty = Some (dd_ActionTraces trx)"
    using dedup_redup_actions [OF assms map_le_refl] by auto
  then show ?thesis by (auto simp: DeduplicateTransactionTrace_def ReduplicateTransactionTrace_def)
qed

definition sample_dd_trace :: dd_trace where
  "sample_dd_trace =
     (let a = \<lparr>act_ref = 0, act_Account = ''token'', act_Name = ''transfer'', act_Authorization = [], act_JsonData = '''', act_RawData = []\<rparr>;
          t = (\<lambda>rcv. \<lparr>dt_Receiver = rcv, dt_Receipt = Some \<lparr>dr_Receiver = rcv, dr_Digest = ''d''\<rparr>, dt_Action = Some a,
            dt_TransactionId = ''t'', dt_ProducerBlockId = ''b'', dt_BlockTime = Some 5, dt_BlockNum = 9\<rparr>)
      in \<lparr>dd_Id = ''t'', dd_ProducerBlockId = ''b'', dd_BlockTime = Some 5, dd_BlockNum = 9,
          dd_ActionTraces = [t ''token'', t ''alice'', t ''bob'']\<rparr>)"

theorem deduplicate_reduplicate_witness:
  "\<exists>stored. DeduplicateTransactionTrace sample_dd_trace = Some stored
     \<and> ReduplicateTransactionTrace stored = Some sample_dd_trace
     \<and> map (\<lambda>act. dt_Action act = None) (dd_ActionTraces stored) = [False, True, True]"
proof -
  have "\<forall>act\<in>set (dd_ActionTraces sample_dd_trace). stamped sample_dd_trace act"
    "digests_ok Map.empty (dd_ActionTraces sample_dd_trace)"
    by (simp_all add: sample_dd_trace_def stamped_def isSetABI_def Let_def)
  from deduplicate_reduplicate [OF this] obtain stored where
    s: "DeduplicateTransactionTrace sample_dd_trace = Some stored" "ReduplicateTransactionTrace stored = Some sample_dd_trace"
    by blast
  then show ?thesis
    by (auto simp: DeduplicateTransactionTrace_def sample_dd_trace_def dedup_action_def dedup_clear_def isSetABI_def Let_def)
qed

end
