(* ===== verification/TrxDb.thy ===== *)
theory TrxDb
  imports TrxDbKeys MergeEvents EosToProto Dedupe
begin

text \<open>
  The transaction database \<open>trxdb/kv\<close>: the options of its data source names, writing a block with
  its transactions, marking it irreversible, and the queries for blocks, accounts, times and
  transactions.

  Several roles of the database (reading blocks, reading transactions, writing) may share one
  key-value store, so the stores are a list and the roles positions in it; a role without a store
  is nil and using it panics. The encoding of rows is an argument, and so is the time of a block,
  since the block record has no header. A trace is deduplicated before it is written and
  reduplicated after it is read (theory \<open>Dedupe\<close>): the fields that these functions touch are the
  view \<open>te_view\<close> of a trace, of which the record \<open>TransactionTrace\<close> has the actions and the receivers
  only; \<open>with_view\<close> writes them back.
\<close>

section \<open>Rows\<close>

record ImplicitTrxRow =
  impl_SignedTrx :: SignedTransaction
  impl_Name :: string

record TrxRow =
  trow_SignedTrx :: "SignedTransaction option"
  trow_Receipt :: "TransactionReceipt option"
  trow_PublicKeys :: "string list option"

record TrxTraceRow =
  ttrow_TrxTrace :: TransactionTrace
  ttrow_view :: dd_trace

record DtrxRow =
  drow_SignedTrx :: "SignedTransaction option"
  drow_CreatedBy :: "ExtDTrxOp option"
  drow_CanceledBy :: "ExtDTrxOp option"

record BlockRow =
  brow_Block :: Block
  brow_ImplicitTrxRefs :: "bytes list"
  brow_TrxRefs :: "bytes list"
  brow_TraceRefs :: "bytes list"

record AccountRow =
  arow_Name :: string
  arow_Creator :: string
  arow_BlockId :: string
  arow_TrxId :: string
  arow_BlockTime :: int

record BlockWithRefs =
  bwr_Id :: string
  bwr_Block :: Block
  bwr_ImplicitTransactionRefs :: "bytes list"
  bwr_TransactionRefs :: "bytes list"
  bwr_TransactionTraceRefs :: "bytes list"
  bwr_Irreversible :: bool

record AccountCreationRef =
  acr_Account :: string
  acr_Creator :: string
  acr_BlockNum :: u64
  acr_BlockId :: string
  acr_BlockTime :: int
  acr_TransactionId :: string

record trxdb_env =
  te_keys :: keys_env
  te_hydrator :: hydrator_env
  te_view :: "TransactionTrace \<Rightarrow> dd_trace"
  enc_ImplicitTrxRow :: "ImplicitTrxRow \<Rightarrow> bytes"
  dec_ImplicitTrxRow :: "bytes \<Rightarrow> ImplicitTrxRow option"
  enc_TrxRow :: "TrxRow \<Rightarrow> bytes"
  dec_TrxRow :: "bytes \<Rightarrow> TrxRow option"
  enc_TrxTraceRow :: "TrxTraceRow \<Rightarrow> bytes"
  dec_TrxTraceRow :: "bytes \<Rightarrow> TrxTraceRow option"
  enc_DtrxRow :: "DtrxRow \<Rightarrow> bytes"
  dec_DtrxRow :: "bytes \<Rightarrow> DtrxRow option"
  enc_BlockRow :: "BlockRow \<Rightarrow> bytes"
  dec_BlockRow :: "bytes \<Rightarrow> BlockRow option"
  enc_AccountRow :: "AccountRow \<Rightarrow> bytes"
  dec_AccountRow :: "bytes \<Rightarrow> AccountRow option"
  eosgo_UnpackBare :: "bytes \<Rightarrow> eosSignedTransaction option"
  eosgo_SignedByKeys :: "bytes \<Rightarrow> eosSignedTransaction \<Rightarrow> string list option"
  gjson_Get :: "string \<Rightarrow> string \<Rightarrow> string"
  bstream_RefNum :: "string \<Rightarrow> u64"
  url_Query :: "string \<Rightarrow> (string \<Rightarrow> string list) option"
  kvdb_RemoveDSNOptions :: "string \<Rightarrow> string \<times> string option"

datatype trxdb_error =
    DbNotFound | DbStore kv_error | DbPanic | DbUnknownDtrxOp | DbBadTransaction
  | DbManyTransactions | DbNoPrefix | DbInvalidDsn | DbTwoWriters | DbDriver

section \<open>Options and stores\<close>

record dsnOptions =
  dsn_reads :: "string list"
  dsn_writes :: "string list"

text \<open>The error of the removal of the options is overwritten by the last return.\<close>

definition parseAndCleanDSN :: "trxdb_env \<Rightarrow> string \<Rightarrow> trxdb_error + string \<times> dsnOptions" where
  "parseAndCleanDSN env dsn =
     (case url_Query env dsn of
        None \<Rightarrow> Inl DbInvalidDsn
      | Some query \<Rightarrow>
          let reads = concat (map (Split CHR '','') (query ''read''));
              writes = concat (map (Split CHR '','') (query ''write''))
          in Inr (fst (kvdb_RemoveDSNOptions env dsn),
               \<lparr>dsn_reads = (if reads = [] then [''all''] else reads), dsn_writes = (if writes = [] then [''all''] else writes)\<rparr>))"

record 's DB =
  db_stores :: "'s list"
  storeCachePool :: "string \<rightharpoonup> nat"
  blkReadStore :: "nat option"
  trxReadStore :: "nat option"
  irrReadStore :: "nat option"
  lastWrittenBlockStore :: "nat option"
  enableBlkWrite :: bool
  enableTrxWrite :: bool
  writeStore :: "nat option"
  writerChainID :: bytes
  purgeInterval :: u64

definition inSlice :: "string \<Rightarrow> string list \<Rightarrow> bool" where
  "inSlice val slc \<longleftrightarrow> val \<in> set slc"

definition isWriter :: "string list \<Rightarrow> bool" where
  "isWriter writes \<longleftrightarrow> (\<exists>s\<in>set writes. s \<noteq> ''none'')"

definition setupReadWriteOpts :: "nat \<Rightarrow> string list \<Rightarrow> string list \<Rightarrow> 's DB \<Rightarrow> 's DB" where
  "setupReadWriteOpts driver read write db =
     (let db1 = (if inSlice ''blk'' read
                 then db\<lparr>blkReadStore := Some driver,
                        irrReadStore := (case irrReadStore db of None \<Rightarrow> Some driver | s \<Rightarrow> s)\<rparr> else db);
          db2 = (if inSlice ''trx'' read then db1\<lparr>trxReadStore := Some driver, irrReadStore := Some driver\<rparr> else db1);
          db3 = (if inSlice ''all'' read
                 then db2\<lparr>trxReadStore := Some driver, blkReadStore := Some driver,
                        irrReadStore := (case irrReadStore db2 of None \<Rightarrow> Some driver | s \<Rightarrow> s)\<rparr> else db2);
          db4 = (if inSlice ''last_written_blk'' read then db3\<lparr>lastWrittenBlockStore := Some driver\<rparr> else db3);
          db5 = (if isWriter write then db4\<lparr>writeStore := Some driver\<rparr> else db4);
          db6 = (if inSlice ''blk'' write then db5\<lparr>enableBlkWrite := True\<rparr> else db5);
          db7 = (if inSlice ''trx'' write then db6\<lparr>enableTrxWrite := True\<rparr> else db6)
      in (if inSlice ''all'' write then db7\<lparr>enableTrxWrite := True, enableBlkWrite := True\<rparr> else db7))"

definition newCachedKVDB :: "(string \<Rightarrow> 's option) \<Rightarrow> string \<Rightarrow> 's DB \<Rightarrow> trxdb_error + nat \<times> 's DB" where
  "newCachedKVDB open_store dsn db =
     (case storeCachePool db dsn of
        Some i \<Rightarrow> Inr (i, db)
      | None \<Rightarrow>
          (case open_store dsn of
             None \<Rightarrow> Inl DbDriver
           | Some s \<Rightarrow>
               let i = length (db_stores db)
               in Inr (i, db\<lparr>db_stores := db_stores db @ [s], storeCachePool := (storeCachePool db)(dsn \<mapsto> i)\<rparr>)))"

text \<open>The flag \<open>hasSeenWriter\<close> is the flag of the previous name, not of all of them.\<close>

definition open_dsn :: "trxdb_env \<Rightarrow> (string \<Rightarrow> 's option) \<Rightarrow> string \<Rightarrow> bool \<times> 's DB \<Rightarrow> trxdb_error + bool \<times> 's DB" where
  "open_dsn env open_store dsn st =
     (case st of (hasSeenWriter, db) \<Rightarrow>
        bind_res (parseAndCleanDSN env dsn) (\<lambda>(cleanDsn, opts).
          let wr = isWriter (dsn_writes opts)
          in if wr \<and> hasSeenWriter then Inl DbTwoWriters
             else bind_res (newCachedKVDB open_store cleanDsn db) (\<lambda>(driver, db1).
                    Inr (wr, setupReadWriteOpts driver (dsn_reads opts) (dsn_writes opts) db1))))"

definition NewDB :: "trxdb_env \<Rightarrow> (string \<Rightarrow> 's option) \<Rightarrow> string list \<Rightarrow> trxdb_error + 's DB" where
  "NewDB env open_store dsns =
     bind_res (fold_res (open_dsn env open_store) dsns
       (False, \<lparr>db_stores = [], storeCachePool = Map.empty, blkReadStore = None, trxReadStore = None, irrReadStore = None,
          lastWrittenBlockStore = None, enableBlkWrite = False, enableTrxWrite = False, writeStore = None,
          writerChainID = [], purgeInterval = 0\<rparr>))
       (\<lambda>(_, db). Inr db)"

section \<open>Writing\<close>

record 's purge_ops =
  po_MarkCurrentHeight :: "u64 \<Rightarrow> 's \<Rightarrow> 's"
  po_PurgeKeys :: "'s \<Rightarrow> kv_error option \<times> 's"

definition write_op :: "('s \<Rightarrow> kv_error option \<times> 's) \<Rightarrow> 's DB \<Rightarrow> trxdb_error + 's DB" where
  "write_op f db =
     (case writeStore db of
        None \<Rightarrow> Inl DbPanic
      | Some i \<Rightarrow>
          (case f (db_stores db ! i) of
             (Some e, s) \<Rightarrow> Inl (DbStore e)
           | (None, s) \<Rightarrow> Inr (db\<lparr>db_stores := (db_stores db)[i := s]\<rparr>)))"

definition db_Flush :: "'s kv_ops \<Rightarrow> 's DB \<Rightarrow> trxdb_error + 's DB" where
  "db_Flush kv db = write_op (kv_FlushPuts kv) db"

definition SetWriterChainID :: "bytes \<Rightarrow> 's DB \<Rightarrow> 's DB" where
  "SetWriterChainID chainID db = db\<lparr>writerChainID := chainID\<rparr>"

text \<open>The argument \<open>purge\<close> says whether the write store is a purgeable store, and has its operations.\<close>

definition purgeSetupAndAttempt :: "'s purge_ops option \<Rightarrow> u64 \<Rightarrow> 's DB \<Rightarrow> trxdb_error + 's DB" where
  "purgeSetupAndAttempt purge blkNumber db =
     (case purge of
        None \<Rightarrow> Inr db
      | Some po \<Rightarrow>
          bind_res (write_op (\<lambda>s. (None, po_MarkCurrentHeight po blkNumber s)) db) (\<lambda>db1.
            if blkNumber > 0
            then if purgeInterval db1 = 0 then Inl DbPanic
                 else if blkNumber mod purgeInterval db1 = 0 then write_op (po_PurgeKeys po) db1 else Inr db1
            else Inr db1))"

definition db_Put :: "'s kv_ops \<Rightarrow> bytes option \<Rightarrow> bytes \<Rightarrow> 's DB \<Rightarrow> trxdb_error + 's DB" where
  "db_Put kv key val db = bind_res (from_opt DbPanic key) (\<lambda>k. write_op (kv_Put kv k val) db)"

definition ExtractEOSSignedTransactionFromReceipt :: "trxdb_env \<Rightarrow> bytes \<Rightarrow> trxdb_error + eosSignedTransaction" where
  "ExtractEOSSignedTransactionFromReceipt env packed = from_opt DbBadTransaction (eosgo_UnpackBare env packed)"

definition GetPublicKeysFromSignedTransaction :: "trxdb_env \<Rightarrow> bytes \<Rightarrow> eosSignedTransaction \<Rightarrow> string list" where
  "GetPublicKeysFromSignedTransaction env chainID trx =
     (case eosgo_SignedByKeys env chainID trx of None \<Rightarrow> [] | Some keys \<Rightarrow> keys)"

definition put_transaction :: "trxdb_env \<Rightarrow> 's kv_ops \<Rightarrow> Block \<Rightarrow> TransactionReceipt \<Rightarrow> 's DB \<Rightarrow> trxdb_error + 's DB" where
  "put_transaction env kv blk trxReceipt db =
     (case tr_PackedTransaction trxReceipt of
        None \<Rightarrow> Inr db
      | Some packed \<Rightarrow>
          bind_res (ExtractEOSSignedTransactionFromReceipt env packed) (\<lambda>signedTransaction.
          bind_res (case SignedTransactionToDEOS (te_hydrator env) signedTransaction of
                      Inl _ \<Rightarrow> Inl DbPanic | Inr t \<Rightarrow> Inr t) (\<lambda>signedTrx.
            db_Put kv (PackTrxsKey (tr_Id trxReceipt) (blk_Id blk))
              (enc_TrxRow env \<lparr>trow_SignedTrx = Some signedTrx, trow_Receipt = Some trxReceipt,
                 trow_PublicKeys = Some (GetPublicKeysFromSignedTransaction env (writerChainID db) signedTransaction)\<rparr>) db)))"

definition putTransactions :: "trxdb_env \<Rightarrow> 's kv_ops \<Rightarrow> Block \<Rightarrow> 's DB \<Rightarrow> trxdb_error + 's DB" where
  "putTransactions env kv blk db = fold_res (put_transaction env kv blk) (Transactions blk) db"

text \<open>The row of a failed deferred transaction has neither creator nor canceler.\<close>

definition put_dtrxOp :: "trxdb_env \<Rightarrow> 's kv_ops \<Rightarrow> Block \<Rightarrow> TransactionTrace \<Rightarrow> DTrxOp \<Rightarrow> 's DB \<Rightarrow> trxdb_error + 's DB" where
  "put_dtrxOp env kv blk trxTrace dtrxOp db =
     (let extDtrxOp = ToExtDTrxOp blk trxTrace dtrxOp;
          put = (\<lambda>key row. db_Put kv (key (dtrx_TransactionId dtrxOp) (blk_Id blk)) (enc_DtrxRow env row) db)
      in if IsCreateOperation dtrxOp
         then put PackDtrxsKeyCreated \<lparr>drow_SignedTrx = dtrx_Transaction dtrxOp, drow_CreatedBy = Some extDtrxOp, drow_CanceledBy = None\<rparr>
         else if IsCancelOperation dtrxOp
         then put PackDtrxsKeyCancelled \<lparr>drow_SignedTrx = None, drow_CreatedBy = None, drow_CanceledBy = Some extDtrxOp\<rparr>
         else if IsFailedOperation dtrxOp
         then put PackDtrxsKeyFailed \<lparr>drow_SignedTrx = None, drow_CreatedBy = None, drow_CanceledBy = None\<rparr>
         else Inl DbUnknownDtrxOp)"

definition action_with_view :: "dd_action_trace \<Rightarrow> ActionTrace \<Rightarrow> ActionTrace" where
  "action_with_view d act =
     act\<lparr>at_Receipt := (case dt_Receipt d of
           None \<Rightarrow> at_Receipt act
         | Some r \<Rightarrow> map_option (\<lambda>x. x\<lparr>rcpt_Receiver := dr_Receiver r\<rparr>) (at_Receipt act)),
         at_Action := (case dt_Action d of None \<Rightarrow> at_Action act | Some a \<Rightarrow> a)\<rparr>"

definition with_view :: "dd_trace \<Rightarrow> TransactionTrace \<Rightarrow> TransactionTrace" where
  "with_view d t =
     TransactionTrace ((trace_of t)\<lparr>tt_ActionTraces := map2 action_with_view (dd_ActionTraces d) (tt_ActionTraces (trace_of t))\<rparr>)
       (FailedDtrxTrace t)"

definition put_transactionTrace :: "trxdb_env \<Rightarrow> 's kv_ops \<Rightarrow> Block \<Rightarrow> TransactionTrace \<Rightarrow> 's DB \<Rightarrow> trxdb_error + 's DB" where
  "put_transactionTrace env kv blk trxTrace db =
     bind_res (fold_res (put_dtrxOp env kv blk trxTrace) (tt_DtrxOps (trace_of trxTrace)) db) (\<lambda>db1.
     bind_res (from_opt DbPanic (DeduplicateTransactionTrace (te_view env trxTrace))) (\<lambda>stored.
     bind_res (db_Put kv (PackTrxTracesKey (tt_Id (trace_of trxTrace)) (blk_Id blk))
                 (enc_TrxTraceRow env \<lparr>ttrow_TrxTrace = trxTrace, ttrow_view = stored\<rparr>) db1) (\<lambda>db2.
     bind_res (from_opt DbPanic (ReduplicateTransactionTrace stored)) (\<lambda>_. Inr db2))))"

definition putTransactionTraces :: "trxdb_env \<Rightarrow> 's kv_ops \<Rightarrow> Block \<Rightarrow> 's DB \<Rightarrow> trxdb_error + 's DB" where
  "putTransactionTraces env kv blk db = fold_res (put_transactionTrace env kv blk) (TransactionTraces blk) db"

definition put_implicit :: "trxdb_env \<Rightarrow> 's kv_ops \<Rightarrow> Block \<Rightarrow> TrxOp \<Rightarrow> 's DB \<Rightarrow> trxdb_error + 's DB" where
  "put_implicit env kv blk trxOp db =
     db_Put kv (PackImplicitTrxsKey (trx_TransactionId trxOp) (blk_Id blk))
       (enc_ImplicitTrxRow env \<lparr>impl_SignedTrx = trx_Transaction trxOp, impl_Name = trx_Name trxOp\<rparr>) db"

definition putImplicitTransactions :: "trxdb_env \<Rightarrow> 's kv_ops \<Rightarrow> Block \<Rightarrow> 's DB \<Rightarrow> trxdb_error + 's DB" where
  "putImplicitTransactions env kv blk db = fold_res (put_implicit env kv blk) (ImplicitTransactionOps blk) db"

definition MustHexDecodes :: "string list \<Rightarrow> trxdb_error + bytes list" where
  "MustHexDecodes ids = map_res (\<lambda>id. from_opt DbPanic (hex_DecodeString id)) ids"

definition getRefs :: "Block \<Rightarrow> trxdb_error + bytes list \<times> bytes list \<times> bytes list" where
  "getRefs blk =
     bind_res (MustHexDecodes (map trx_TransactionId (ImplicitTransactionOps blk))) (\<lambda>implicitTrxRefs.
     bind_res (MustHexDecodes (map tr_Id (Transactions blk))) (\<lambda>trxRefs.
     bind_res (MustHexDecodes (map (\<lambda>t. tt_Id (trace_of t)) (TransactionTraces blk))) (\<lambda>tracesRefs.
       Inr (implicitTrxRefs, trxRefs, tracesRefs))))"

text \<open>The block is stored without its transactions, which are put back after the write.\<close>

definition without_transactions :: "Block \<Rightarrow> Block" where
  "without_transactions blk =
     blk\<lparr>blk_UnfilteredTransactions := [], blk_UnfilteredTransactionTraces := [], blk_UnfilteredImplicitTransactionOps := [],
         blk_FilteredTransactions := [], blk_FilteredTransactionTraces := [], blk_FilteredImplicitTransactionOps := []\<rparr>"

definition putBlock :: "trxdb_env \<Rightarrow> 's kv_ops \<Rightarrow> Block \<Rightarrow> 's DB \<Rightarrow> trxdb_error + 's DB" where
  "putBlock env kv blk db =
     bind_res (getRefs blk) (\<lambda>(implicitTrxRefs, trxRefs, tracesRefs).
       db_Put kv (PackBlocksKey (te_keys env) (blk_Id blk))
         (enc_BlockRow env \<lparr>brow_Block = without_transactions blk, brow_ImplicitTrxRefs = implicitTrxRefs,
            brow_TrxRefs = trxRefs, brow_TraceRefs = tracesRefs\<rparr>) db)"

definition PutBlock :: "trxdb_env \<Rightarrow> 's kv_ops \<Rightarrow> 's purge_ops option \<Rightarrow> Block \<Rightarrow> 's DB \<Rightarrow> trxdb_error + 's DB" where
  "PutBlock env kv purge blk db =
     bind_res
       (if enableTrxWrite db
        then bind_res (purgeSetupAndAttempt purge (ucast (blk_Number blk)) db) (\<lambda>db1.
             bind_res (putTransactions env kv blk db1) (\<lambda>db2.
             bind_res (putTransactionTraces env kv blk db2) (\<lambda>db3.
               putImplicitTransactions env kv blk db3)))
        else Inr db)
       (\<lambda>db1.
          if enableBlkWrite db1
          then bind_res (purgeSetupAndAttempt purge (ucast (blk_Number blk)) db1) (putBlock env kv blk)
          else Inr db1)"

definition putNewAccount ::
  "trxdb_env \<Rightarrow> 's kv_ops \<Rightarrow> Block \<Rightarrow> int \<Rightarrow> TransactionTrace \<Rightarrow> ActionTrace \<Rightarrow> 's DB \<Rightarrow> trxdb_error + 's DB" where
  "putNewAccount env kv blk blockTime trace act db =
     (let name = gjson_Get env (act_JsonData (at_Action act)) ''name''
      in db_Put kv (PackAccountKey (te_keys env) name)
           (enc_AccountRow env \<lparr>arow_Name = name, arow_Creator = gjson_Get env (act_JsonData (at_Action act)) ''creator'',
              arow_BlockId = blk_Id blk, arow_TrxId = tt_Id (trace_of trace), arow_BlockTime = blockTime\<rparr>) db)"

definition put_newaccounts :: "trxdb_env \<Rightarrow> 's kv_ops \<Rightarrow> Block \<Rightarrow> int \<Rightarrow> 's DB \<Rightarrow> trxdb_error + 's DB" where
  "put_newaccounts env kv blk blockTime db =
     fold_res (\<lambda>trace. fold_res (\<lambda>act db1.
         if FullName act = ''eosio:eosio:newaccount'' then putNewAccount env kv blk blockTime trace act db1 else Inr db1)
       (tt_ActionTraces (trace_of trace))) (TransactionTraces blk) db"

definition UpdateNowIrreversibleBlock :: "trxdb_env \<Rightarrow> 's kv_ops \<Rightarrow> Block \<Rightarrow> int \<Rightarrow> 's DB \<Rightarrow> trxdb_error + 's DB" where
  "UpdateNowIrreversibleBlock env kv blk blockTime db =
     bind_res
       (if enableBlkWrite db
        then bind_res (db_Put kv (PackTimelineKey True blockTime (blk_Id blk)) [1] db) (\<lambda>db1.
             bind_res (db_Put kv (PackTimelineKey False blockTime (blk_Id blk)) [1] db1) (\<lambda>db2.
               put_newaccounts env kv blk blockTime db2))
        else Inr db)
       (\<lambda>db3. if writeStore db3 \<noteq> None then db_Put kv (PackIrrBlocksKey (te_keys env) (blk_Id blk)) [1] db3 else Inr db3)"

section \<open>Reading blocks\<close>

definition read_store :: "nat option \<Rightarrow> 's DB \<Rightarrow> trxdb_error + 's" where
  "read_store role db = (case role of None \<Rightarrow> Inl DbPanic | Some i \<Rightarrow> Inr (db_stores db ! i))"

text \<open>The first key of a range, when the iterator has no error.\<close>

definition first_key :: "'s kv_ops \<Rightarrow> bytes option \<Rightarrow> bytes option \<Rightarrow> 's \<Rightarrow> trxdb_error + bytes" where
  "first_key kv startKey endKey s =
     bind_res (from_opt DbPanic startKey) (\<lambda>a.
     bind_res (from_opt DbPanic endKey) (\<lambda>b.
       case kv_Scan kv a b 1 s of
         (_, Some e) \<Rightarrow> Inl (DbStore e)
       | ([], None) \<Rightarrow> Inl DbNotFound
       | ((key, _) # _, None) \<Rightarrow> Inr key))"

definition NewBlockRefFromID :: "trxdb_env \<Rightarrow> string \<Rightarrow> BlockRef" where
  "NewBlockRefFromID env blockID = \<lparr>ref_ID = blockID, ref_Num = bstream_RefNum env blockID\<rparr>"

definition irr_ref :: "trxdb_env \<Rightarrow> bytes \<Rightarrow> trxdb_error + BlockRef" where
  "irr_ref env key = bind_res (from_opt DbPanic (UnpackIrrBlocksKey (te_keys env) key)) (\<lambda>id. Inr (NewBlockRefFromID env id))"

definition GetLastWrittenIrreversibleBlockRef :: "trxdb_env \<Rightarrow> 's kv_ops \<Rightarrow> 's DB \<Rightarrow> trxdb_error + BlockRef" where
  "GetLastWrittenIrreversibleBlockRef env kv db =
     bind_res (read_store (irrReadStore db) db) (\<lambda>s.
     bind_res (first_key kv (PackIrrBlockNumPrefix (te_keys env) (- 1)) (Some EndOfIrrBlockTable) s) (irr_ref env))"

definition GetLastWrittenBlockID :: "trxdb_env \<Rightarrow> 's kv_ops \<Rightarrow> 's DB \<Rightarrow> trxdb_error + string" where
  "GetLastWrittenBlockID env kv db =
     bind_res (read_store (blkReadStore db) db) (\<lambda>s.
     bind_res (first_key kv (Some StartOfBlocksTable) (Some EndOfBlocksTable) s) (\<lambda>key.
       from_opt DbPanic (UnpackIrrBlocksKey (te_keys env) key)))"

text \<open>The references of the traces are taken from those of the transactions.\<close>

definition blockRowToBlockWithRef :: "trxdb_env \<Rightarrow> 's kv_ops \<Rightarrow> 's \<Rightarrow> BlockRow \<Rightarrow> trxdb_error + BlockWithRefs" where
  "blockRowToBlockWithRef env kv s blockRow =
     bind_res (from_opt DbPanic (PackIrrBlocksKey (te_keys env) (blk_Id (brow_Block blockRow)))) (\<lambda>key.
       let blk = (\<lambda>irr. \<lparr>bwr_Id = blk_Id (brow_Block blockRow), bwr_Block = brow_Block blockRow,
             bwr_ImplicitTransactionRefs = brow_ImplicitTrxRefs blockRow, bwr_TransactionRefs = brow_TrxRefs blockRow,
             bwr_TransactionTraceRefs = brow_TrxRefs blockRow, bwr_Irreversible = irr\<rparr>)
       in case kv_Get kv key s of
            Inl KvNotFound \<Rightarrow> Inr (blk False)
          | Inl e \<Rightarrow> Inl (DbStore e)
          | Inr _ \<Rightarrow> Inr (blk True))"

definition GetBlock :: "trxdb_env \<Rightarrow> 's kv_ops \<Rightarrow> string \<Rightarrow> 's DB \<Rightarrow> trxdb_error + BlockWithRefs" where
  "GetBlock env kv blockID db =
     bind_res (read_store (blkReadStore db) db) (\<lambda>s.
     bind_res (from_opt DbPanic (PackBlocksKey (te_keys env) blockID)) (\<lambda>key.
       case kv_Get kv key s of
         Inl KvNotFound \<Rightarrow> Inl DbNotFound
       | Inl e \<Rightarrow> Inl (DbStore e)
       | Inr val \<Rightarrow> bind_res (from_opt DbPanic (dec_BlockRow env val)) (blockRowToBlockWithRef env kv s)))"

definition block_rows :: "trxdb_env \<Rightarrow> 's kv_ops \<Rightarrow> bytes option \<Rightarrow> bytes option \<Rightarrow> nat \<Rightarrow> 's DB \<Rightarrow> trxdb_error + BlockWithRefs list" where
  "block_rows env kv startKey endKey limit db =
     bind_res (read_store (blkReadStore db) db) (\<lambda>s.
     bind_res (from_opt DbPanic startKey) (\<lambda>a.
     bind_res (from_opt DbPanic endKey) (\<lambda>b.
       case kv_Scan kv a b limit s of
         (items, err) \<Rightarrow>
           bind_res (map_res (\<lambda>(_, val). bind_res (from_opt DbPanic (dec_BlockRow env val)) (blockRowToBlockWithRef env kv s)) items) (\<lambda>out.
             case err of Some e \<Rightarrow> Inl (DbStore e) | None \<Rightarrow> Inr out))))"

definition GetBlockByNum :: "trxdb_env \<Rightarrow> 's kv_ops \<Rightarrow> u32 \<Rightarrow> 's DB \<Rightarrow> trxdb_error + BlockWithRefs list" where
  "GetBlockByNum env kv num db =
     bind_res (block_rows env kv (PackBlockNumPrefix (te_keys env) num) (PackBlockNumPrefix (te_keys env) (num - 1)) 0 db) (\<lambda>out.
       if out = [] then Inl DbNotFound else Inr out)"

definition ListBlocks :: "trxdb_env \<Rightarrow> 's kv_ops \<Rightarrow> u32 \<Rightarrow> nat \<Rightarrow> 's DB \<Rightarrow> trxdb_error + BlockWithRefs list" where
  "ListBlocks env kv highBlockNum limit db =
     block_rows env kv (PackBlockNumPrefix (te_keys env) highBlockNum) (Some EndOfBlocksTable) limit db"

definition ListSiblingBlocks :: "trxdb_env \<Rightarrow> 's kv_ops \<Rightarrow> u32 \<Rightarrow> u32 \<Rightarrow> 's DB \<Rightarrow> trxdb_error + BlockWithRefs list" where
  "ListSiblingBlocks env kv blockNum spread db =
     (let highBlockNum = blockNum + spread; lowBlockNum = blockNum - (spread + 1)
      in block_rows env kv (PackBlockNumPrefix (te_keys env) highBlockNum) (PackBlockNumPrefix (te_keys env) lowBlockNum) 0 db)"

definition GetClosestIrreversibleIDAtBlockNum :: "trxdb_env \<Rightarrow> 's kv_ops \<Rightarrow> u32 \<Rightarrow> 's DB \<Rightarrow> trxdb_error + BlockRef" where
  "GetClosestIrreversibleIDAtBlockNum env kv num db =
     bind_res (read_store (blkReadStore db) db) (\<lambda>s.
     bind_res (first_key kv (PackIrrBlockNumPrefix (te_keys env) num) (Some EndOfIrrBlockTable) s) (irr_ref env))"

definition GetIrreversibleIDAtBlockID :: "trxdb_env \<Rightarrow> 's kv_ops \<Rightarrow> string \<Rightarrow> 's DB \<Rightarrow> trxdb_error + BlockRef" where
  "GetIrreversibleIDAtBlockID env kv ID db =
     bind_res (GetBlock env kv ID db) (\<lambda>blk.
       let dposIrrNum = blk_DposIrreversibleBlocknum (bwr_Block blk)
       in bind_res (read_store (blkReadStore db) db) (\<lambda>s.
          bind_res (first_key kv (PackIrrBlockNumPrefix (te_keys env) dposIrrNum) (PackIrrBlockNumPrefix (te_keys env) (dposIrrNum - 1)) s) (\<lambda>key.
          bind_res (irr_ref env key) (\<lambda>ref.
            if ref_Num ref \<noteq> ucast dposIrrNum then Inl DbNotFound else Inr ref))))"

section \<open>Timeline and accounts\<close>

definition BlockIDAt :: "'s kv_ops \<Rightarrow> int \<Rightarrow> 's DB \<Rightarrow> trxdb_error + string" where
  "BlockIDAt kv start db =
     bind_res (read_store (blkReadStore db) db) (\<lambda>s.
     bind_res (first_key kv (PackTimelinePrefix True start) (Some (EndOfTimelineIndex True)) s) (\<lambda>key.
     bind_res (from_opt DbPanic (UnpackTimelineKey True key)) (\<lambda>(blockTime, blockID).
       if start = blockTime then Inr blockID else Inl DbNotFound)))"

fun first_around :: "bool \<Rightarrow> int \<Rightarrow> bool \<Rightarrow> (bytes \<times> bytes) list \<Rightarrow> trxdb_error + (string \<times> int) option" where
  "first_around fwd start inclusive [] = Inr None"
| "first_around fwd start inclusive ((key, _) # items) =
     bind_res (from_opt DbPanic (UnpackTimelineKey fwd key)) (\<lambda>(foundTime, id).
       if \<not> inclusive \<and> foundTime = start then first_around fwd start inclusive items
       else Inr (Some (id, foundTime)))"

definition blockIDAround :: "'s kv_ops \<Rightarrow> bool \<Rightarrow> int \<Rightarrow> bool \<Rightarrow> 's DB \<Rightarrow> trxdb_error + string \<times> int" where
  "blockIDAround kv fwd start inclusive db =
     bind_res (read_store (blkReadStore db) db) (\<lambda>s.
     bind_res (from_opt DbPanic (PackTimelinePrefix fwd start)) (\<lambda>a.
       case kv_Scan kv a (EndOfTimelineIndex fwd) 4 s of
         (items, err) \<Rightarrow>
           bind_res (first_around fwd start inclusive items) (\<lambda>found.
             case found of
               Some r \<Rightarrow> Inr r
             | None \<Rightarrow> (case err of Some e \<Rightarrow> Inl (DbStore e) | None \<Rightarrow> Inl DbNotFound))))"

definition BlockIDAfter :: "'s kv_ops \<Rightarrow> int \<Rightarrow> bool \<Rightarrow> 's DB \<Rightarrow> trxdb_error + string \<times> int" where
  "BlockIDAfter kv start inclusive db = blockIDAround kv True start inclusive db"

definition BlockIDBefore :: "'s kv_ops \<Rightarrow> int \<Rightarrow> bool \<Rightarrow> 's DB \<Rightarrow> trxdb_error + string \<times> int" where
  "BlockIDBefore kv start inclusive db = blockIDAround kv False start inclusive db"

definition GetAccount :: "trxdb_env \<Rightarrow> 's kv_ops \<Rightarrow> string \<Rightarrow> 's DB \<Rightarrow> trxdb_error + AccountCreationRef" where
  "GetAccount env kv accountName db =
     bind_res (read_store (blkReadStore db) db) (\<lambda>s.
     bind_res (from_opt DbPanic (PackAccountKey (te_keys env) accountName)) (\<lambda>key.
       case kv_Get kv key s of
         Inl KvNotFound \<Rightarrow> Inl DbNotFound
       | Inl e \<Rightarrow> Inl (DbStore e)
       | Inr val \<Rightarrow>
           bind_res (from_opt DbPanic (dec_AccountRow env val)) (\<lambda>row.
             Inr \<lparr>acr_Account = arow_Name row, acr_Creator = arow_Creator row,
               acr_BlockNum = ucast (eosgo_BlockNum (te_keys env) (arow_BlockId row)), acr_BlockId = arow_BlockId row,
               acr_BlockTime = arow_BlockTime row, acr_TransactionId = arow_TrxId row\<rparr>)))"

definition ListAccountNames :: "trxdb_env \<Rightarrow> 's kv_ops \<Rightarrow> 's DB \<Rightarrow> trxdb_error + string list" where
  "ListAccountNames env kv db =
     bind_res (read_store (blkReadStore db) db) (\<lambda>s.
       case kv_Scan kv StartOfAccountTable EndOfAccountTable 0 s of
         (items, err) \<Rightarrow>
           bind_res (map_res (\<lambda>(_, val). from_opt DbPanic (dec_AccountRow env val)) items) (\<lambda>rows.
             case err of Some e \<Rightarrow> Inl (DbStore e) | None \<Rightarrow> Inr (map arow_Name rows)))"

section \<open>Reading transactions\<close>

definition HasPrefixBytes :: "bytes \<Rightarrow> bytes \<Rightarrow> bool" where
  "HasPrefixBytes s p \<longleftrightarrow> take (length p) s = p"

text \<open>The requested prefixes with the id that each stood for; a map in the code, whose iteration
  order is the argument \<open>ord\<close>.\<close>

type_synonym trxPrefixToFull = "string \<rightharpoonup> string"

definition newTrxPrefixToFull :: "string list \<Rightarrow> trxPrefixToFull" where
  "newTrxPrefixToFull prefixes = (\<lambda>p. if p \<in> set prefixes then Some '''' else None)"

fun check_prefix :: "string list \<Rightarrow> trxPrefixToFull \<Rightarrow> string \<Rightarrow> trxdb_error + trxPrefixToFull" where
  "check_prefix [] p2f full = Inl DbNoPrefix"
| "check_prefix (idPrefix # ps) p2f full =
     (if HasPrefix full idPrefix
      then (case p2f idPrefix of
              None \<Rightarrow> Inr (p2f(idPrefix \<mapsto> full))
            | Some known \<Rightarrow>
                if known = '''' then Inr (p2f(idPrefix \<mapsto> full))
                else if known = full then Inr p2f
                else Inl DbManyTransactions)
      else check_prefix ps p2f full)"

datatype TrxEventType = TrxAdditionEvent | TrxExecutionEvent | ImplicitTrxEvent | DtrxEvent

fun event_prefix :: "TrxEventType \<Rightarrow> string \<Rightarrow> bytes option" where
  "event_prefix TrxAdditionEvent p = PackTrxsPrefix p"
| "event_prefix TrxExecutionEvent p = PackTrxTracesPrefix p"
| "event_prefix ImplicitTrxEvent p = PackImplicitTrxsPrefix p"
| "event_prefix DtrxEvent p = PackDtrxsPrefix p"

definition new_event :: "trxdb_env \<Rightarrow> string \<times> string \<Rightarrow> trx_event \<Rightarrow> TransactionEvent" where
  "new_event env ids ev =
     \<lparr>ev_Id = fst ids, ev_BlockId = snd ids, ev_BlockNum = eosgo_BlockNum (te_keys env) (snd ids),
      ev_Irreversible = False, ev_Event = Some ev\<rparr>"

text \<open>One turn of the loop over the rows: the ids of the key, and the event of the row, which is made
  once the ids are checked.\<close>

definition row_event :: "trxdb_env \<Rightarrow> bytes \<times> bytes \<Rightarrow> trxdb_error + ((string \<times> string) \<times> (trxdb_error + trx_event)) option" where
  "row_event env item =
     (case item of (key, val) \<Rightarrow>
        if HasPrefixBytes key StartOfImplicitTrxsTable
        then bind_res (from_opt DbPanic (dec_ImplicitTrxRow env val)) (\<lambda>row.
             bind_res (from_opt DbPanic (UnpackImplicitTrxsKey key)) (\<lambda>ids.
               Inr (Some (ids, Inr (EvInternalAddition (Some (impl_SignedTrx row)))))))
        else if HasPrefixBytes key StartOfTrxsTable
        then bind_res (from_opt DbPanic (dec_TrxRow env val)) (\<lambda>row.
             bind_res (from_opt DbPanic (UnpackTrxsKey key)) (\<lambda>ids.
               Inr (Some (ids, Inr (case trow_Receipt row of
                    Some receipt \<Rightarrow> EvAddition receipt (trow_SignedTrx row) (trow_PublicKeys row)
                  | None \<Rightarrow> EvInternalAddition (trow_SignedTrx row))))))
        else if HasPrefixBytes key StartOfTrxTracesTable
        then bind_res (from_opt DbPanic (dec_TrxTraceRow env val)) (\<lambda>row.
             bind_res (from_opt DbPanic (UnpackTrxTracesKey key)) (\<lambda>ids.
               Inr (Some (ids, bind_res (from_opt DbPanic (ReduplicateTransactionTrace (ttrow_view row)))
                                 (\<lambda>full. Inr (EvExecution (with_view full (ttrow_TrxTrace row))))))))
        else if HasPrefixBytes key StartOfDtrxsTable
        then bind_res (from_opt DbPanic (dec_DtrxRow env val)) (\<lambda>row.
             bind_res (from_opt DbPanic (UnpackDtrxsKey key)) (\<lambda>ids.
               Inr (Some (ids, Inr (case drow_CreatedBy row of
                    Some op \<Rightarrow> EvDtrxScheduling (Some op) (drow_SignedTrx row)
                  | None \<Rightarrow> EvDtrxCancellation (drow_CanceledBy row))))))
        else Inr None)"

fun collect_events ::
  "trxdb_env \<Rightarrow> (string list \<Rightarrow> string list) \<Rightarrow> string list \<Rightarrow> (bytes \<times> bytes) list \<Rightarrow> trxPrefixToFull \<Rightarrow>
   trxdb_error + TransactionEvent list" where
  "collect_events env ord prefixes [] p2f = Inr []"
| "collect_events env ord prefixes (item # items) p2f =
     bind_res (row_event env item) (\<lambda>r.
       case r of
         None \<Rightarrow> collect_events env ord prefixes items p2f
       | Some (ids, ev) \<Rightarrow>
           bind_res (check_prefix (ord (remdups prefixes)) p2f (fst ids)) (\<lambda>p2f'.
           bind_res ev (\<lambda>event.
           bind_res (collect_events env ord prefixes items p2f') (\<lambda>out.
             Inr (new_event env ids event # out)))))"

definition getTransactionEvents ::
  "trxdb_env \<Rightarrow> (string list \<Rightarrow> string list) \<Rightarrow> (bytes list \<Rightarrow> 's \<Rightarrow> (bytes \<times> bytes) list \<times> kv_error option) \<Rightarrow>
   string list \<Rightarrow> TrxEventType list \<Rightarrow> 's DB \<Rightarrow> trxdb_error + TransactionEvent list" where
  "getTransactionEvents env ord batchPrefix idPrefixes eventTypes db =
     (let types = (if eventTypes = [] then [TrxAdditionEvent, TrxExecutionEvent, ImplicitTrxEvent, DtrxEvent] else eventTypes)
      in bind_res (map_res (from_opt DbPanic) (concat (map (\<lambda>p. map (\<lambda>t. event_prefix t p) types) idPrefixes))) (\<lambda>keys.
         bind_res (read_store (trxReadStore db) db) (\<lambda>s.
           case batchPrefix keys s of
             (items, err) \<Rightarrow>
               bind_res (collect_events env ord idPrefixes items (newTrxPrefixToFull idPrefixes)) (\<lambda>out.
                 case err of Some e \<Rightarrow> Inl (DbStore e) | None \<Rightarrow> Inr out))))"

definition fillIrreversibilityData ::
  "trxdb_env \<Rightarrow> (bytes list \<Rightarrow> 's \<Rightarrow> (bytes \<times> bytes) list \<times> kv_error option) \<Rightarrow> TransactionEvent list \<Rightarrow> 's DB \<Rightarrow>
   trxdb_error + TransactionEvent list" where
  "fillIrreversibilityData env batchGet events db =
     bind_res (map_res (\<lambda>id. from_opt DbPanic (PackIrrBlocksKey (te_keys env) id)) (remdups (map ev_BlockId events))) (\<lambda>prefixes.
     bind_res (read_store (trxReadStore db) db) (\<lambda>s.
       case batchGet prefixes s of
         (items, err) \<Rightarrow>
           bind_res (map_res (\<lambda>(key, _). from_opt DbPanic (UnpackIrrBlocksKey (te_keys env) key)) items) (\<lambda>irr.
             if err \<noteq> None \<and> err \<noteq> Some KvNotFound then Inl (DbStore (the err))
             else Inr (map (\<lambda>ev. ev\<lparr>ev_Irreversible := (ev_BlockId ev \<in> set irr)\<rparr>) events))))"

definition splitEventsPerTrx :: "string list \<Rightarrow> TransactionEvent list \<Rightarrow> TransactionEvent list list" where
  "splitEventsPerTrx inPrefixes flatEvents = map (\<lambda>pref. filter (\<lambda>ev. HasPrefix (ev_Id ev) pref) flatEvents) inPrefixes"

definition filled_events ::
  "trxdb_env \<Rightarrow> (string list \<Rightarrow> string list) \<Rightarrow> (bytes list \<Rightarrow> 's \<Rightarrow> (bytes \<times> bytes) list \<times> kv_error option) \<Rightarrow>
   (bytes list \<Rightarrow> 's \<Rightarrow> (bytes \<times> bytes) list \<times> kv_error option) \<Rightarrow> string list \<Rightarrow> TrxEventType list \<Rightarrow> 's DB \<Rightarrow>
   trxdb_error + TransactionEvent list" where
  "filled_events env ord batchPrefix batchGet idPrefixes types db =
     bind_res (getTransactionEvents env ord batchPrefix idPrefixes types db) (\<lambda>out.
       fillIrreversibilityData env batchGet out db)"

definition GetTransactionTraces where
  "GetTransactionTraces env ord batchPrefix batchGet idPrefix db =
     filled_events env ord batchPrefix batchGet [idPrefix] [TrxExecutionEvent] db"

definition GetTransactionEvents where
  "GetTransactionEvents env ord batchPrefix batchGet idPrefix db =
     filled_events env ord batchPrefix batchGet [idPrefix] [] db"

definition GetTransactionEventsBatch where
  "GetTransactionEventsBatch env ord batchPrefix batchGet idPrefixes db =
     bind_res (filled_events env ord batchPrefix batchGet idPrefixes [] db) (\<lambda>flat. Inr (splitEventsPerTrx idPrefixes flat))"

definition GetTransactionTracesBatch where
  "GetTransactionTracesBatch env ord batchPrefix batchGet idPrefixes db =
     bind_res (filled_events env ord batchPrefix batchGet idPrefixes [TrxExecutionEvent] db) (\<lambda>flat.
       Inr (splitEventsPerTrx idPrefixes flat))"

end
