(* ===== verification/TrxDbProps.thy ===== *)
theory TrxDbProps
  imports TrxDb
begin

text \<open>
  Properties of the transaction database: the lookup of the irreversible block at or below a
  number, the block that is read back after it was written, and the events of a transaction, which
  always merge into one lifecycle.
\<close>

section \<open>Irreversible blocks\<close>

definition irr_key :: "u32 \<Rightarrow> bytes \<Rightarrow> bytes" where
  "irr_key n r = TblPrefixIrrBlks # PutUint32 (NOT n) @ r"

text \<open>The block with this number and rest of the id is marked irreversible.\<close>

definition marked :: "(bytes \<rightharpoonup> bytes) \<Rightarrow> u32 \<Rightarrow> bytes \<Rightarrow> bool" where
  "marked m n r \<longleftrightarrow> length r = 28 \<and> m (irr_key n r) \<noteq> None"

definition irr_wf :: "(bytes \<rightharpoonup> bytes) \<Rightarrow> bool" where
  "irr_wf m \<longleftrightarrow> (\<forall>k\<in>dom m. k \<noteq> [] \<and> hd k = TblPrefixIrrBlks \<longrightarrow> (\<exists>n r. length r = 28 \<and> k = irr_key n r))"

lemma PackIrrBlocksKey_block_id:
  assumes "keys_env_ok env" and "length r = 28"
  shows "PackIrrBlocksKey env (block_id n r) = Some (irr_key n r)"
    and "UnpackIrrBlocksKey env (irr_key n r) = Some (block_id n r)"
proof -
  have rev: "kvdb_ReversedBlockID env (block_id n r) = block_id (NOT n) r" for n
    using assms unfolding keys_env_ok_def by blast
  then show "PackIrrBlocksKey env (block_id n r) = Some (irr_key n r)"
    by (simp add: PackIrrBlocksKey_def irr_key_def) (simp add: block_id_def)
  show "UnpackIrrBlocksKey env (irr_key n r) = Some (block_id n r)"
    using rev [of "NOT n"] by (simp add: UnpackIrrBlocksKey_def irr_key_def block_id_def)
qed

lemma PackIrrBlockNumPrefix_eq:
  "keys_env_ok env \<Longrightarrow> PackIrrBlockNumPrefix env n = Some (TblPrefixIrrBlks # PutUint32 (NOT n))"
  by (simp add: keys_env_ok_def PackIrrBlockNumPrefix_def)

lemma irr_key_order:
  "TblPrefixIrrBlks # PutUint32 (NOT num) \<le> irr_key n r \<longleftrightarrow> n \<le> num"
  "irr_key n r \<le> irr_key n' r' \<Longrightarrow> n' \<le> n"
  "irr_key n r < EndOfIrrBlockTable"
proof -
  show "TblPrefixIrrBlks # PutUint32 (NOT num) \<le> irr_key n r \<longleftrightarrow> n \<le> num"
    using list_less_append [of "PutUint32 (NOT n)" "PutUint32 (NOT num)" r "[]"]
    by (auto simp: irr_key_def not_less [symmetric])
  show "n' \<le> n" if "irr_key n r \<le> irr_key n' r'"
    using that list_less_append [of "PutUint32 (NOT n')" "PutUint32 (NOT n)" r' r]
    by (auto simp: irr_key_def not_less [symmetric])
  show "irr_key n r < EndOfIrrBlockTable" by (simp add: irr_key_def EndOfIrrBlockTable_def tbl_defs)
qed

lemma irr_range:
  assumes "irr_wf m" and "k \<in> dom m"
  shows "TblPrefixIrrBlks # PutUint32 (NOT num) \<le> k \<and> k < EndOfIrrBlockTable \<longleftrightarrow>
    (\<exists>n r. k = irr_key n r \<and> marked m n r \<and> n \<le> num)"
proof
  assume k: "TblPrefixIrrBlks # PutUint32 (NOT num) \<le> k \<and> k < EndOfIrrBlockTable"
  then have "k \<noteq> [] \<and> hd k = TblPrefixIrrBlks"
    by (cases k) (auto simp: EndOfIrrBlockTable_def tbl_defs word_less_nat_alt word_le_nat_alt)
  with assms obtain n r where "length r = 28" "k = irr_key n r" unfolding irr_wf_def by blast
  with k assms(2) show "\<exists>n r. k = irr_key n r \<and> marked m n r \<and> n \<le> num"
    by (auto simp: irr_key_order marked_def)
qed (auto simp: irr_key_order)

context kv_store
begin

lemma closest_irreversible:
  assumes env: "keys_env_ok (te_keys env)" and inv: "sinv s" and wf: "irr_wf (view s)"
  shows "case bind_res (first_key kv (PackIrrBlockNumPrefix (te_keys env) num) (Some EndOfIrrBlockTable) s) (irr_ref env) of
      Inr ref \<Rightarrow> \<exists>n r. marked (view s) n r \<and> n \<le> num \<and> ref_ID ref = block_id n r
        \<and> (\<forall>n' r'. marked (view s) n' r' \<and> n' \<le> num \<longrightarrow> n' \<le> n)
    | Inl e \<Rightarrow> (\<exists>er. e = DbStore er) \<or> e = DbNotFound \<and> (\<forall>n r. marked (view s) n r \<longrightarrow> num < n)"
proof -
  let ?a = "TblPrefixIrrBlks # PutUint32 (NOT num)" and ?m = "view s"
  have fin: "finite (dom ?m)" using finite_view [OF inv] .
  obtain items e where sc: "kv_Scan kv ?a EndOfIrrBlockTable 1 s = (items, e)" by fastforce
  show ?thesis
  proof (cases e)
    case (Some er)
    then show ?thesis using sc env by (cases items) (auto simp: first_key_def PackIrrBlockNumPrefix_eq)
  next
    case None
    then have items: "items = take 1 (scan_items ?m ?a EndOfIrrBlockTable)"
      using scan [OF inv sc] by (simp add: limited_def)
    show ?thesis
    proof (cases "scan_items ?m ?a EndOfIrrBlockTable")
      case Nil
      then have "\<forall>n r. marked ?m n r \<longrightarrow> num < n"
        using irr_range [OF wf] unfolding scan_items_Nil [OF fin] marked_def by (metis domIff not_le)
      then show ?thesis using Nil items sc None env by (simp add: first_key_def PackIrrBlockNumPrefix_eq)
    next
      case (Cons item rest)
      obtain k v where item: "item = (k, v)" by fastforce
      note first = scan_items_Cons [OF fin Cons [unfolded item]]
      obtain n r where k: "k = irr_key n r" "marked ?m n r" "n \<le> num" using irr_range [OF wf] first(1) by blast
      have "n' \<le> n" if "marked ?m n' r'" "n' \<le> num" for n' r'
        using first(2) [of "irr_key n' r'"] irr_range [OF wf, of "irr_key n' r'" num] that k(1) irr_key_order(2)
        unfolding marked_def by blast
      moreover have "bind_res (first_key kv (PackIrrBlockNumPrefix (te_keys env) num) (Some EndOfIrrBlockTable) s) (irr_ref env) =
          Inr (NewBlockRefFromID env (block_id n r))"
        using k items Cons item sc None env PackIrrBlocksKey_block_id(2) [OF env, of r n]
        by (simp add: first_key_def PackIrrBlockNumPrefix_eq irr_ref_def marked_def)
      ultimately show ?thesis using k by (auto simp: NewBlockRefFromID_def intro!: exI [of _ n] exI [of _ r])
    qed
  qed
qed

end

text \<open>C31: the closest irreversible block. The query returns the irreversible block with the greatest
  number that is at most the one asked for, and reports that none is found exactly when there is
  no irreversible block at or below it; any other error is an error of the store.\<close>

theorem GetClosestIrreversibleID_correct:
  assumes "kv_store kv sinv view eff pend" and "keys_env_ok (te_keys env)"
    and "blkReadStore db = Some i" and "sinv (db_stores db ! i)" and "irr_wf (view (db_stores db ! i))"
  shows "case GetClosestIrreversibleIDAtBlockNum env kv num db of
      Inr ref \<Rightarrow> \<exists>n r. marked (view (db_stores db ! i)) n r \<and> n \<le> num \<and> ref_ID ref = block_id n r
        \<and> (\<forall>n' r'. marked (view (db_stores db ! i)) n' r' \<and> n' \<le> num \<longrightarrow> n' \<le> n)
    | Inl e \<Rightarrow> (\<exists>er. e = DbStore er) \<or> e = DbNotFound \<and> (\<forall>n r. marked (view (db_stores db ! i)) n r \<longrightarrow> num < n)"
  using kv_store.closest_irreversible [OF assms(1,2,4,5), of num] assms(3)
  by (simp add: GetClosestIrreversibleIDAtBlockNum_def read_store_def)

section \<open>Writing and reading a block\<close>

text \<open>The row of the block reads back as it was written.\<close>

definition rows_ok :: "trxdb_env \<Rightarrow> Block \<Rightarrow> bool" where
  "rows_ok env blk \<longleftrightarrow> keys_env_ok (te_keys env)
     \<and> (\<forall>row. brow_Block row = without_transactions blk
          \<and> getRefs blk = Inr (brow_ImplicitTrxRefs row, brow_TrxRefs row, brow_TraceRefs row)
          \<longrightarrow> dec_BlockRow env (enc_BlockRow env row) = Some row)"

definition block_key :: "u32 \<Rightarrow> bytes \<Rightarrow> bytes" where
  "block_key n r = TblPrefixBlocks # PutUint32 (NOT n) @ r"

lemma PackBlocksKey_block_id:
  assumes "keys_env_ok env" and "length r = 28"
  shows "PackBlocksKey env (block_id n r) = Some (block_key n r)"
  using assms unfolding keys_env_ok_def by (simp add: PackBlocksKey_def block_key_def) (simp add: block_id_def)

lemma sum_case_panic: "(case r of Inl _ \<Rightarrow> Inl e | Inr t \<Rightarrow> Inr t) = Inr y \<longleftrightarrow> r = Inr y"
  by (cases r) auto

lemma write_op_Inr:
  "write_op f db = Inr db' \<Longrightarrow>
    \<exists>i s. writeStore db = Some i \<and> f (db_stores db ! i) = (None, s) \<and> db' = db\<lparr>db_stores := (db_stores db)[i := s]\<rparr>"
  by (auto simp: write_op_def split: prod.split_asm option.split_asm)

context kv_store
begin

text \<open>The database over a store in a good state at position \<open>i\<close>; a write changes this store only.\<close>

definition db_ok :: "nat \<Rightarrow> 's DB \<Rightarrow> bool" where
  "db_ok i db \<longleftrightarrow> writeStore db = Some i \<and> i < length (db_stores db) \<and> sinv (db_stores db ! i)"

definition wrote :: "nat \<Rightarrow> 's DB \<Rightarrow> 's DB \<Rightarrow> bool" where
  "wrote i db db' \<longleftrightarrow> db_ok i db' \<and> (\<exists>s. db' = db\<lparr>db_stores := (db_stores db)[i := s]\<rparr>)"

lemma wrote_refl: "db_ok i db \<Longrightarrow> wrote i db db"
  unfolding wrote_def by (metis DB.surjective DB.update_convs(1) list_update_id)

lemma wrote_trans: "wrote i db db1 \<Longrightarrow> wrote i db1 db2 \<Longrightarrow> wrote i db db2"
proof -
  assume "wrote i db db1" "wrote i db1 db2"
  then obtain s s' where "db1 = db\<lparr>db_stores := (db_stores db)[i := s]\<rparr>" "db2 = db1\<lparr>db_stores := (db_stores db1)[i := s']\<rparr>"
    "db_ok i db2" by (auto simp: wrote_def)
  then have "db2 = db\<lparr>db_stores := (db_stores db)[i := s']\<rparr>" by simp
  then show ?thesis using \<open>db_ok i db2\<close> unfolding wrote_def by blast
qed

lemma db_Put_wrote:
  assumes "db_ok i db" and "db_Put kv key v db = Inr db'"
  shows "wrote i db db' \<and> (\<exists>k. key = Some k \<and> eff (db_stores db' ! i) = (eff (db_stores db ! i))(k \<mapsto> v))"
proof -
  from assms obtain k s' where "key = Some k" "kv_Put kv k v (db_stores db ! i) = (None, s')"
    "db' = db\<lparr>db_stores := (db_stores db)[i := s']\<rparr>"
    by (auto simp: db_Put_def db_ok_def res_simps dest!: write_op_Inr)
  then show ?thesis using put [of "db_stores db ! i" k v None s'] assms(1) by (auto simp: wrote_def db_ok_def)
qed

lemma fold_wrote:
  assumes "\<forall>x d d'. db_ok i d \<longrightarrow> f x d = Inr d' \<longrightarrow> wrote i d d'"
  shows "db_ok i db \<Longrightarrow> fold_res f xs db = Inr db' \<Longrightarrow> wrote i db db'"
proof (induction xs arbitrary: db)
  case (Cons x xs)
  then obtain d where d: "f x db = Inr d" "fold_res f xs d = Inr db'" by (auto simp: res_simps)
  then have w: "wrote i db d" using assms Cons.prems(1) by blast
  then have "db_ok i d" by (simp add: wrote_def)
  then have "wrote i d db'" using Cons.IH [OF _ d(2)] by simp
  with w show ?case by (rule wrote_trans)
qed (simp add: wrote_refl)

lemma put_transactions_wrote:
  assumes ok: "db_ok i db"
  shows "putTransactions env kv blk db = Inr db' \<Longrightarrow> wrote i db db'"
    and "putTransactionTraces env kv blk db = Inr db' \<Longrightarrow> wrote i db db'"
    and "putImplicitTransactions env kv blk db = Inr db' \<Longrightarrow> wrote i db db'"
proof -
  have "put_transaction env kv blk x d = Inr d' \<Longrightarrow> wrote i d d'" if "db_ok i d" for x d d'
    using that db_Put_wrote [OF that] wrote_refl [OF that]
    by (auto simp: put_transaction_def res_simps sum_case_panic split: option.split_asm)
  then show "putTransactions env kv blk db = Inr db' \<Longrightarrow> wrote i db db'"
    unfolding putTransactions_def using fold_wrote [OF _ ok, where f = "put_transaction env kv blk"] by blast
  have dtrx: "put_dtrxOp env kv blk t x d = Inr d' \<Longrightarrow> wrote i d d'" if "db_ok i d" for t x d d'
    using db_Put_wrote [OF that] by (auto simp: put_dtrxOp_def Let_def split: if_splits)
  have "put_transactionTrace env kv blk x d = Inr d' \<Longrightarrow> wrote i d d'" if d: "db_ok i d" for x d d'
  proof -
    assume "put_transactionTrace env kv blk x d = Inr d'"
    then obtain d1 stored where d1: "fold_res (put_dtrxOp env kv blk x) (tt_DtrxOps (trace_of x)) d = Inr d1"
      and p: "db_Put kv (PackTrxTracesKey (tt_Id (trace_of x)) (blk_Id blk)) 
        (enc_TrxTraceRow env \<lparr>ttrow_TrxTrace = x, ttrow_view = stored\<rparr>) d1 = Inr d'"
      by (auto simp: put_transactionTrace_def res_simps)
    have w: "wrote i d d1" using fold_wrote [OF _ d d1] dtrx by simp
    then show "wrote i d d'" using db_Put_wrote [OF _ p] wrote_trans [OF w] by (auto simp: wrote_def)
  qed
  then show "putTransactionTraces env kv blk db = Inr db' \<Longrightarrow> wrote i db db'"
    unfolding putTransactionTraces_def using fold_wrote [OF _ ok, where f = "put_transactionTrace env kv blk"] by blast
  have "put_implicit env kv blk x d = Inr d' \<Longrightarrow> wrote i d d'" if "db_ok i d" for x d d'
    using db_Put_wrote [OF that] by (auto simp: put_implicit_def)
  then show "putImplicitTransactions env kv blk db = Inr db' \<Longrightarrow> wrote i db db'"
    unfolding putImplicitTransactions_def using fold_wrote [OF _ ok, where f = "put_implicit env kv blk"] by blast
qed

lemma PutBlock_row:
  assumes ok: "db_ok i db" and env: "rows_ok env blk" and bw: "enableBlkWrite db"
    and blk_id: "blk_Id blk = block_id n r" "length r = 28" and p: "PutBlock env kv None blk db = Inr db1"
  obtains implicit trxs traces where "getRefs blk = Inr (implicit, trxs, traces)" "wrote i db db1"
    "eff (db_stores db1 ! i) (block_key n r) =
      Some (enc_BlockRow env \<lparr>brow_Block = without_transactions blk, brow_ImplicitTrxRefs = implicit, brow_TrxRefs = trxs, brow_TraceRefs = traces\<rparr>)"
proof -
  have "\<exists>d. wrote i db d \<and> putBlock env kv blk d = Inr db1"
  proof (cases "enableTrxWrite db")
    case True
    with p obtain d1 d2 d3 where d: "putTransactions env kv blk db = Inr d1" "putTransactionTraces env kv blk d1 = Inr d2"
      "putImplicitTransactions env kv blk d2 = Inr d3"
      and rest: "(if enableBlkWrite d3 then bind_res (purgeSetupAndAttempt None (ucast (blk_Number blk)) d3) (putBlock env kv blk) else Inr d3) = Inr db1"
      by (auto simp: PutBlock_def purgeSetupAndAttempt_def res_simps)
    have w1: "wrote i db d1" using put_transactions_wrote(1) [OF ok d(1)] .
    then have w2: "wrote i d1 d2" using put_transactions_wrote(2) [OF _ d(2)] by (simp add: wrote_def)
    then have w3: "wrote i d2 d3" using put_transactions_wrote(3) [OF _ d(3)] by (simp add: wrote_def)
    have w: "wrote i db d3" using wrote_trans [OF wrote_trans [OF w1 w2] w3] .
    then have "enableBlkWrite d3" using bw by (auto simp: wrote_def)
    with w rest show ?thesis by (auto simp: purgeSetupAndAttempt_def)
  next
    case False
    then show ?thesis using p bw wrote_refl [OF ok] by (auto simp: PutBlock_def purgeSetupAndAttempt_def)
  qed
  then obtain d where w: "wrote i db d" and pb: "putBlock env kv blk d = Inr db1" by blast
  then obtain implicit trxs traces where refs: "getRefs blk = Inr (implicit, trxs, traces)"
    and put: "db_Put kv (PackBlocksKey (te_keys env) (blk_Id blk)) (enc_BlockRow env \<lparr>brow_Block = without_transactions blk,
       brow_ImplicitTrxRefs = implicit, brow_TrxRefs = trxs, brow_TraceRefs = traces\<rparr>) d = Inr db1"
    by (auto simp: putBlock_def res_simps)
  have "db_ok i d" using w by (simp add: wrote_def)
  moreover have "PackBlocksKey (te_keys env) (blk_Id blk) = Some (block_key n r)"
    using PackBlocksKey_block_id env blk_id unfolding rows_ok_def by simp
  ultimately show ?thesis using db_Put_wrote [OF _ put] wrote_trans [OF w] that [OF refs] by auto
qed

lemma GetBlock_row:
  assumes env: "rows_ok env blk" and i: "blkReadStore db = Some i" "sinv (db_stores db ! i)"
    and blk_id: "blk_Id blk = block_id n r" "length r = 28" and row: "brow_Block row = without_transactions blk"
      "getRefs blk = Inr (brow_ImplicitTrxRefs row, brow_TrxRefs row, brow_TraceRefs row)"
    and v: "view (db_stores db ! i) (block_key n r) = Some (enc_BlockRow env row)"
  shows "case GetBlock env kv (blk_Id blk) db of
      Inr b \<Rightarrow> b = \<lparr>bwr_Id = blk_Id blk, bwr_Block = without_transactions blk, bwr_ImplicitTransactionRefs = brow_ImplicitTrxRefs row,
        bwr_TransactionRefs = brow_TrxRefs row, bwr_TransactionTraceRefs = brow_TrxRefs row,
        bwr_Irreversible = marked (view (db_stores db ! i)) n r\<rparr>
    | Inl e \<Rightarrow> \<exists>er. e = DbStore er"
proof -
  let ?s = "db_stores db ! i"
  have keys: "PackBlocksKey (te_keys env) (blk_Id blk) = Some (block_key n r)"
    "PackIrrBlocksKey (te_keys env) (blk_Id blk) = Some (irr_key n r)"
    using PackBlocksKey_block_id PackIrrBlocksKey_block_id(1) env blk_id unfolding rows_ok_def by simp_all
  have dec: "dec_BlockRow env (enc_BlockRow env row) = Some row" using env row unfolding rows_ok_def by blast
  have same: "blk_Id (without_transactions blk) = blk_Id blk" by (simp add: without_transactions_def)
  have irr: "case blockRowToBlockWithRef env kv ?s row of
      Inr b \<Rightarrow> b = \<lparr>bwr_Id = blk_Id blk, bwr_Block = without_transactions blk, bwr_ImplicitTransactionRefs = brow_ImplicitTrxRefs row,
        bwr_TransactionRefs = brow_TrxRefs row, bwr_TransactionTraceRefs = brow_TrxRefs row, bwr_Irreversible = marked (view ?s) n r\<rparr>
    | Inl e \<Rightarrow> \<exists>er. e = DbStore er"
    using get [OF i(2) refl, of "irr_key n r"] blk_id(2)
    by (auto simp: blockRowToBlockWithRef_def row(1) same keys marked_def Let_def split: sum.splits kv_error.splits)
  show ?thesis
  proof (cases "kv_Get kv (block_key n r) ?s")
    case (Inl e)
    then show ?thesis
      using get [OF i(2) refl, of "block_key n r"] v i(1) keys(1)
      by (cases e) (auto simp: GetBlock_def read_store_def)
  next
    case (Inr val)
    then have "val = enc_BlockRow env row" using get [OF i(2) Inr] v by simp
    then show ?thesis using irr Inr i(1) keys(1) dec by (simp add: GetBlock_def read_store_def)
  qed
qed

end

text \<open>C32: a block that was written and flushed is read back: the query returns the block without its
  transactions, with references to the implicit transactions and the transactions, and says
  whether the block is marked irreversible; it never reports the block as missing. The references
  of the traces are those of the transactions, although the row has the right ones.\<close>

theorem PutBlock_GetBlock:
  assumes "kv_store kv sinv view eff pend" and "rows_ok env blk"
    and "writeStore db = Some i" and "blkReadStore db = Some i" and "i < length (db_stores db)" and "sinv (db_stores db ! i)"
    and "enableBlkWrite db" and "blk_Id blk = block_id n r" and "length r = 28"
    and "PutBlock env kv None blk db = Inr db1" and "db_Flush kv db1 = Inr db2"
  shows "\<exists>implicit trxs traces. getRefs blk = Inr (implicit, trxs, traces) \<and>
    (case GetBlock env kv (blk_Id blk) db2 of
       Inr b \<Rightarrow> b = \<lparr>bwr_Id = blk_Id blk, bwr_Block = without_transactions blk, bwr_ImplicitTransactionRefs = implicit,
         bwr_TransactionRefs = trxs, bwr_TransactionTraceRefs = trxs,
         bwr_Irreversible = marked (view (db_stores db2 ! i)) n r\<rparr>
     | Inl e \<Rightarrow> \<exists>er. e = DbStore er)"
proof -
  have ok: "kv_store.db_ok sinv i db" using assms by (simp add: kv_store.db_ok_def [OF assms(1)])
  obtain implicit trxs traces where refs: "getRefs blk = Inr (implicit, trxs, traces)" and w: "kv_store.wrote sinv i db db1"
    and e: "eff (db_stores db1 ! i) (block_key n r) = Some (enc_BlockRow env \<lparr>brow_Block = without_transactions blk,
      brow_ImplicitTrxRefs = implicit, brow_TrxRefs = trxs, brow_TraceRefs = traces\<rparr>)"
    by (rule kv_store.PutBlock_row [OF assms(1) ok assms(2,7-10)])
  have d1: "writeStore db1 = Some i" "blkReadStore db1 = Some i" "i < length (db_stores db1)" "sinv (db_stores db1 ! i)"
    using w assms(4) by (auto simp: kv_store.wrote_def [OF assms(1)] kv_store.db_ok_def [OF assms(1)])
  obtain s where s: "kv_FlushPuts kv (db_stores db1 ! i) = (None, s)" "db2 = db1\<lparr>db_stores := (db_stores db1)[i := s]\<rparr>"
    using write_op_Inr [OF assms(11) [unfolded db_Flush_def]] d1(1) by auto
  have "sinv s" "view s = eff (db_stores db1 ! i)" using kv_store.flush [OF assms(1) d1(4) s(1)] by simp_all
  then have d2: "blkReadStore db2 = Some i" "sinv (db_stores db2 ! i)" "view (db_stores db2 ! i) (block_key n r) = Some (enc_BlockRow env
      \<lparr>brow_Block = without_transactions blk, brow_ImplicitTrxRefs = implicit, brow_TrxRefs = trxs, brow_TraceRefs = traces\<rparr>)"
    using s(2) d1 e by simp_all
  from kv_store.GetBlock_row [OF assms(1,2) d2(1,2) assms(8,9) _ _ d2(3)] refs show ?thesis
    by (cases "GetBlock env kv (blk_Id blk) db2") simp_all
qed

section \<open>Events of a transaction\<close>

lemma hex_not_Nil: "length bs = 32 \<Longrightarrow> hex_EncodeToString bs \<noteq> []"
  by (cases bs) auto

lemma row_event_id:
  assumes "row_event env item = Inr (Some (ids, ev))"
  shows "fst ids \<noteq> ''''"
proof -
  have "fst ids \<noteq> []" if "unpackTrxBlockIDKey k = Some ids \<or> UnpackDtrxsKey k = Some ids" for k
    using that by (auto simp: unpackTrxBlockIDKey_def UnpackDtrxsKey_def hex_not_Nil split: if_splits)
  then show ?thesis
    using assms
    by (auto simp: row_event_def res_simps UnpackImplicitTrxsKey_def UnpackTrxsKey_def UnpackTrxTracesKey_def
        split: prod.split_asm if_split_asm)
qed

lemma collect_events_one_id:
  assumes "ord [p] = [p]" and "collect_events env ord [p] items p2f = Inr evs"
    and "p2f p = Some known"
  shows "(\<forall>e\<in>set evs. ev_Event e \<noteq> None \<and> (known \<noteq> '''' \<longrightarrow> ev_Id e = known)) \<and> (\<exists>tid. \<forall>e\<in>set evs. ev_Id e = tid)"
  using assms(2,3)
proof (induction items arbitrary: p2f known evs)
  case (Cons item items)
  from Cons.prems(1) obtain r where r: "row_event env item = Inr r" by (auto simp: res_simps)
  show ?case
  proof (cases r)
    case None
    then show ?thesis using Cons r by simp
  next
    case (Some x)
    obtain ids ev where x: "x = (ids, ev)" by fastforce
    with Cons.prems(1) r Some obtain p2f' event out where c: "check_prefix [p] p2f (fst ids) = Inr p2f'"
      "collect_events env ord [p] items p2f' = Inr out" "evs = new_event env ids event # out"
      by (auto simp: res_simps assms(1))
    have n: "fst ids \<noteq> ''''" using row_event_id r Some x by blast
    have "p2f' p = Some (fst ids)" "known = '''' \<or> known = fst ids"
      using c(1) Cons.prems(2) by (auto split: if_split_asm)
    then show ?thesis using Cons.IH [OF c(2)] n c(3) by (auto simp: new_event_def)
  qed
qed simp

text \<open>C33: the events the database returns for one transaction prefix always merge. When the query
  succeeds, the events are all of one transaction and of a known kind, so that the merge into a
  lifecycle does not panic on different ids or on an unknown event; the only panic left is the nil
  receipt.\<close>

theorem transaction_events_merge:
  assumes "event_sort_ok sortSlice" and "ord [idPrefix] = [idPrefix]"
    and "GetTransactionEvents env ord batchPrefix batchGet idPrefix db = Inr evs"
    and "MergeTransactionEvents sortSlice evs inCanonicalChain = Inl p"
  shows "p = NilPointer"
proof -
  obtain out where g: "getTransactionEvents env ord batchPrefix [idPrefix] [] db = Inr out"
    and f: "fillIrreversibilityData env batchGet out db = Inr evs"
    using assms(3) by (auto simp: GetTransactionEvents_def filled_events_def res_simps)
  obtain items where "collect_events env ord [idPrefix] items (newTrxPrefixToFull [idPrefix]) = Inr out"
    using g by (auto simp: getTransactionEvents_def res_simps Let_def split: prod.split_asm option.split_asm)
      (metis option.distinct(1) surj_pair)
  from collect_events_one_id [OF assms(2) this, of "''''"] obtain tid where
    "\<forall>e\<in>set out. ev_Event e \<noteq> None \<and> ev_Id e = tid" by (auto simp: newTrxPrefixToFull_def)
  moreover obtain irr where "evs = map (\<lambda>ev. ev\<lparr>ev_Irreversible := (ev_BlockId ev \<in> set irr)\<rparr>) out"
    using f by (auto simp: fillIrreversibilityData_def bind_res_def split: sum.split_asm prod.split_asm if_split_asm)
  ultimately have evs: "\<forall>e\<in>set evs. ev_Id e = tid \<and> ev_Event e \<noteq> None" by auto
  have "evs \<noteq> []" using assms(4) by (auto simp: MergeTransactionEvents_def)
  from trans [OF sym [OF merge_counts_only [OF assms(1) this evs, of inCanonicalChain]] assms(4)] show ?thesis
    by (auto simp: res_simps dest: merge_counted_panic)
qed

section \<open>Examples\<close>

definition sample_keys_env :: keys_env where
  "sample_keys_env =
     \<lparr>kvdb_ReversedBlockID = (\<lambda>s. case hex_DecodeString s of None \<Rightarrow> s
        | Some bs \<Rightarrow> hex_EncodeToString (map NOT (take 4 bs) @ drop 4 bs)),
      kvdb_HexRevBlockNum = (\<lambda>n. hex_EncodeToString (PutUint32 (NOT n))),
      eosgo_BlockNum = (\<lambda>s. case hex_DecodeString s of None \<Rightarrow> 0 | Some bs \<Rightarrow> of_nat (be_val (take 4 bs))),
      eosgo_StringToName = (\<lambda>s. None), eosgo_NameToString = (\<lambda>n. '''')\<rparr>"

lemma PutUint32_not: "map NOT (PutUint32 n) = PutUint32 (NOT n)"
proof -
  have "NOT (ucast (drop_bit (8 * i) n) :: u8) = ucast (drop_bit (8 * i) (NOT n))" if "i < 4" for i
    by (rule bit_word_eqI) (use that in \<open>auto simp: bit_simps\<close>)
  then show ?thesis by (simp add: PutUint32_def)
qed

lemma sample_keys_env_ok: "keys_env_ok sample_keys_env"
  by (simp add: keys_env_ok_def sample_keys_env_def block_id_def PutUint32_not)

definition sample_view :: dd_trace where
  "sample_view = \<lparr>dd_Id = '''', dd_ProducerBlockId = '''', dd_BlockTime = None, dd_BlockNum = 0, dd_ActionTraces = []\<rparr>"

definition sample_trxdb_env :: trxdb_env where
  "sample_trxdb_env =
     \<lparr>te_keys = sample_keys_env, te_hydrator = sample_hydrator_env, te_view = (\<lambda>t. sample_view), enc_ImplicitTrxRow = (\<lambda>r. []), dec_ImplicitTrxRow = (\<lambda>b. None),
      enc_TrxRow = (\<lambda>r. []), dec_TrxRow = (\<lambda>b. None), enc_TrxTraceRow = (\<lambda>r. []),
      dec_TrxTraceRow = (\<lambda>b. if b = [] then Some \<lparr>ttrow_TrxTrace = TransactionTrace empty_trace_fields None, ttrow_view = sample_view\<rparr> else None),
      enc_DtrxRow = (\<lambda>r. []), dec_DtrxRow = (\<lambda>b. None), enc_BlockRow = (\<lambda>r. []),
      dec_BlockRow = (\<lambda>b. Some \<lparr>brow_Block = empty_block\<lparr>blk_Id := block_id 5 (replicate 28 0)\<rparr>, brow_ImplicitTrxRefs = [],
        brow_TrxRefs = [], brow_TraceRefs = []\<rparr>),
      enc_AccountRow = (\<lambda>r. []), dec_AccountRow = (\<lambda>b. None), eosgo_UnpackBare = (\<lambda>b. None), eosgo_SignedByKeys = (\<lambda>c t. None),
      gjson_Get = (\<lambda>j p. ''''), bstream_RefNum = (\<lambda>s. 0), url_Query = (\<lambda>s. Some (\<lambda>k. if k = ''write'' then [s] else [])),
      kvdb_RemoveDSNOptions = (\<lambda>s. (s, None))\<rparr>"

definition sample_db :: "mem_store \<Rightarrow> mem_store DB" where
  "sample_db s = \<lparr>db_stores = [s], storeCachePool = Map.empty, blkReadStore = Some 0, trxReadStore = Some 0, irrReadStore = Some 0,
     lastWrittenBlockStore = None, enableBlkWrite = True, enableTrxWrite = True, writeStore = Some 0, writerChainID = [], purgeInterval = 0\<rparr>"

definition sample_irr :: mem_store where
  "sample_irr = \<lparr>mem_rows = [(irr_key 3 (replicate 28 0), [1]), (irr_key 9 (replicate 28 0), [1])], mem_buffer = []\<rparr>"

lemma irr_key_inject: "irr_key n r = irr_key n' r' \<longleftrightarrow> n = n' \<and> r = r'"
  by (auto simp: irr_key_def append_eq_append_conv)

theorem GetClosestIrreversibleID_witness:
  "\<exists>ref. GetClosestIrreversibleIDAtBlockNum sample_trxdb_env mem_ops 7 (sample_db sample_irr) = Inr ref
    \<and> ref_ID ref = block_id 3 (replicate 28 0)"
proof -
  have m: "marked (mem_view sample_irr) n r \<longleftrightarrow> r = replicate 28 0 \<and> (n = 3 \<or> n = 9)" for n r
    by (auto simp: marked_def sample_irr_def irr_key_inject)
  have "\<exists>n' r'. length r' = 28 \<and> irr_key n (replicate 28 0) = irr_key n' r'" for n
    by (intro exI [of _ n] exI [of _ "replicate 28 0"]) simp
  then have wf: "irr_wf (mem_view sample_irr)" by (auto simp: irr_wf_def sample_irr_def split: if_split_asm)
  have db: "blkReadStore (sample_db sample_irr) = Some 0" "db_stores (sample_db sample_irr) ! 0 = sample_irr"
    by (simp_all add: sample_db_def)
  let ?r = "GetClosestIrreversibleIDAtBlockNum sample_trxdb_env mem_ops 7 (sample_db sample_irr)"
  have "keys_env_ok (te_keys sample_trxdb_env)" using sample_keys_env_ok by (simp add: sample_trxdb_env_def)
  from GetClosestIrreversibleID_correct [OF mem.kv_store_axioms this db(1), of 7] wf
  have c: "case ?r of
      Inr ref \<Rightarrow> \<exists>n r. marked (mem_view sample_irr) n r \<and> n \<le> 7 \<and> ref_ID ref = block_id n r
        \<and> (\<forall>n' r'. marked (mem_view sample_irr) n' r' \<and> n' \<le> 7 \<longrightarrow> n' \<le> n)
    | Inl e \<Rightarrow> (\<exists>er. e = DbStore er) \<or> e = DbNotFound \<and> (\<forall>n r. marked (mem_view sample_irr) n r \<longrightarrow> 7 < n)"
    unfolding db(2) by simp
  have "?r \<noteq> Inl (DbStore er)" for er
    by (auto simp: GetClosestIrreversibleIDAtBlockNum_def read_store_def first_key_def irr_ref_def mem_ops_def bind_res_def from_opt_def
        split: sum.splits option.splits list.splits)
  with c m show ?thesis by (cases ?r) auto
qed

definition sample_trx_block :: Block where
  "sample_trx_block = empty_block\<lparr>blk_Id := block_id 5 (replicate 28 0)\<rparr>"

theorem PutBlock_GetBlock_witness:
  "\<exists>db1 db2 b. PutBlock sample_trxdb_env mem_ops None sample_trx_block (sample_db \<lparr>mem_rows = [], mem_buffer = []\<rparr>) = Inr db1
    \<and> db_Flush mem_ops db1 = Inr db2 \<and> GetBlock sample_trxdb_env mem_ops (blk_Id sample_trx_block) db2 = Inr b
    \<and> bwr_Block b = sample_trx_block"
proof -
  have "keys_env_ok (te_keys sample_trxdb_env)" using sample_keys_env_ok by (simp add: sample_trxdb_env_def)
  then have env: "rows_ok sample_trxdb_env sample_trx_block"
    by (auto simp: rows_ok_def sample_trxdb_env_def sample_trx_block_def getRefs_def MustHexDecodes_def Transactions_def
        TransactionTraces_def ImplicitTransactionOps_def empty_block_def without_transactions_def)
  let ?db = "sample_db \<lparr>mem_rows = [], mem_buffer = []\<rparr>"
  obtain db1 where p: "PutBlock sample_trxdb_env mem_ops None sample_trx_block ?db = Inr db1" "writeStore db1 = Some 0"
    using PackBlocksKey_block_id [OF \<open>keys_env_ok (te_keys sample_trxdb_env)\<close>, of "replicate 28 0" 5]
    by (simp add: PutBlock_def purgeSetupAndAttempt_def putTransactions_def putTransactionTraces_def putImplicitTransactions_def
        putBlock_def getRefs_def MustHexDecodes_def Transactions_def TransactionTraces_def ImplicitTransactionOps_def
        sample_trx_block_def empty_block_def sample_db_def db_Put_def write_op_def mem_ops_def)
  obtain db2 where f: "db_Flush mem_ops db1 = Inr db2" using p(2) by (simp add: db_Flush_def write_op_def mem_ops_def)
  let ?g = "GetBlock sample_trxdb_env mem_ops (blk_Id sample_trx_block) db2"
  have db: "writeStore ?db = Some 0" "blkReadStore ?db = Some 0" "0 < length (db_stores ?db)" "enableBlkWrite ?db"
    by (simp_all add: sample_db_def)
  have id: "blk_Id sample_trx_block = block_id 5 (replicate 28 0)" by (simp add: sample_trx_block_def)
  note c = PutBlock_GetBlock [OF mem.kv_store_axioms env db(1-3) _ db(4) id _ p(1) f]
  have "?g \<noteq> Inl (DbStore er)" for er
    by (auto simp: GetBlock_def blockRowToBlockWithRef_def read_store_def mem_ops_def bind_res_def from_opt_def Let_def
        split: sum.splits option.splits)
  moreover have "without_transactions sample_trx_block = sample_trx_block"
    by (simp add: without_transactions_def sample_trx_block_def empty_block_def)
  ultimately have "\<exists>b. ?g = Inr b \<and> bwr_Block b = sample_trx_block" using c by (cases ?g) auto
  then show ?thesis using p(1) f by blast
qed

text \<open>Three data source names, of which the first and the third write: the third is accepted and
  takes the place of the first.\<close>

lemma NewDB_two_writers:
  "case NewDB sample_trxdb_env (\<lambda>dsn. Some dsn) [''blk'', ''none'', ''trx''] of
     Inr db \<Rightarrow> writeStore db = Some 2 \<and> enableBlkWrite db \<and> enableTrxWrite db
   | Inl e \<Rightarrow> False"
  by code_simp

definition sample_trace_row :: "u8 \<Rightarrow> bytes \<times> bytes" where
  "sample_trace_row b = (TblPrefixTrxTraces # replicate 32 0 @ replicate 32 b, [])"

definition sample_trace_event :: "u8 \<Rightarrow> TransactionEvent" where
  "sample_trace_event b =
     new_event sample_trxdb_env (hex_EncodeToString (replicate 32 0), hex_EncodeToString (replicate 32 b))
       (EvExecution (TransactionTrace empty_trace_fields None))"

lemma sample_row_event:
  "row_event sample_trxdb_env (sample_trace_row b) =
     Inr (Some ((hex_EncodeToString (replicate 32 0), hex_EncodeToString (replicate 32 b)),
       Inr (EvExecution (TransactionTrace empty_trace_fields None))))"
  by (simp add: row_event_def sample_trace_row_def HasPrefixBytes_def StartOfImplicitTrxsTable_def StartOfTrxsTable_def
      StartOfTrxTracesTable_def tbl_defs UnpackTrxTracesKey_def unpackTrxBlockIDKey_def sample_trxdb_env_def
      sample_view_def ReduplicateTransactionTrace_def with_view_def empty_trace_fields_def)

lemma sample_collect:
  "collect_events sample_trxdb_env rev [''00''] [sample_trace_row 1, sample_trace_row 2] (newTrxPrefixToFull [''00'']) =
     Inr [sample_trace_event 1, sample_trace_event 2]"
proof -
  have "HasPrefix (hex_EncodeToString (replicate 32 0)) ''00''" by code_simp
  then show ?thesis by (simp add: sample_row_event newTrxPrefixToFull_def sample_trace_event_def)
qed

lemma sample_fill:
  "fillIrreversibilityData sample_trxdb_env (\<lambda>ks s. ([], None)) [sample_trace_event 1, sample_trace_event 2] (sample_db sample_irr) =
     Inr [sample_trace_event 1, sample_trace_event 2]"
  by (simp add: fillIrreversibilityData_def sample_trace_event_def new_event_def PackIrrBlocksKey_def sample_trxdb_env_def
      sample_keys_env_def read_store_def sample_db_def)

theorem transaction_events_merge_witness:
  "\<exists>evs. GetTransactionEvents sample_trxdb_env rev (\<lambda>ks s. ([sample_trace_row 1, sample_trace_row 2], None))
      (\<lambda>ks s. ([], None)) ''00'' (sample_db sample_irr) = Inr evs
    \<and> MergeTransactionEvents insertion_sort evs (\<lambda>b. True) = Inl NilPointer"
proof -
  let ?evs = "[sample_trace_event 1, sample_trace_event 2]"
  have g: "GetTransactionEvents sample_trxdb_env rev (\<lambda>ks s. ([sample_trace_row 1, sample_trace_row 2], None))
      (\<lambda>ks s. ([], None)) ''00'' (sample_db sample_irr) = Inr ?evs"
  proof -
    have "packTrxPrefix p ''00'' = Some [p, 0]" for p by (simp add: packTrxPrefix_def hex_val_def)
    moreover have "read_store (trxReadStore (sample_db sample_irr)) (sample_db sample_irr) = Inr sample_irr"
      by (simp add: read_store_def sample_db_def)
    ultimately show ?thesis
      by (simp add: GetTransactionEvents_def filled_events_def getTransactionEvents_def PackTrxsPrefix_def PackTrxTracesPrefix_def
          PackImplicitTrxsPrefix_def PackDtrxsPrefix_def sample_collect sample_fill del: collect_events.simps)
  qed
  moreover obtain p where m: "MergeTransactionEvents insertion_sort ?evs (\<lambda>b. True) = Inl p"
    by (simp add: MergeTransactionEvents_def sortEvents_def insertion_sort_def sample_trace_event_def new_event_def event_less_def
        merge_event_def skip_def apply_event_def merge_execution_def executed_condition_def empty_lifecycle_def
        empty_trace_fields_def Let_def)
  moreover from transaction_events_merge [OF insertion_sort_ok _ g m] have "p = NilPointer" by simp
  ultimately show ?thesis by simp
qed

end
