(* ===== verification/TrxDbLoader.thy ===== *)
theory TrxDbLoader
  imports TrxDb
begin

text \<open>
  The loader of the transaction database, \<open>trxdb-loader/loader.go\<close>: a job is called for every step of
  the chain, writes the block when it is new, marks the blocks that became irreversible, and flushes
  the store now and then; a flush that fails is tried again. The time of a block and whether it is
  close to the head are arguments, and so is the step object of the stream library. Building the
  stream, progress logs and metrics are left out. A panic is \<open>Inl\<close>; a returned error stands beside the
  loader, whose fields may have changed.
\<close>

definition MaxRetries :: int where "MaxRetries = 5"

datatype Job = FullJobKind | PatchJobKind

record 's TrxDBLoader =
  processingJob :: Job
  ld_db :: "'s DB"
  batchSize :: u64
  endBlock :: u64
  ld_healthy :: bool
  retryCnt :: int
  ld_terminating :: bool

datatype Step = StepNew | StepIrreversible | StepOther

record ForkableObject =
  fo_Step :: Step
  fo_StepCount :: int
  fo_StepIndex :: int
  fo_StepBlocks :: "Block list"

datatype loader_error = LdStoreBlock | LdDb trxdb_error | LdFlush kv_error | LdUnsupportedStep

definition NewTrxDBLoader :: "u64 \<Rightarrow> 's DB \<Rightarrow> 's TrxDBLoader" where
  "NewTrxDBLoader batch db =
     \<lparr>processingJob = FullJobKind, ld_db = db, batchSize = batch, endBlock = 0, ld_healthy = False, retryCnt = 1, ld_terminating = False\<rparr>"

definition StopBeforeBlock :: "u64 \<Rightarrow> 's TrxDBLoader \<Rightarrow> 's TrxDBLoader" where
  "StopBeforeBlock blockNum l = l\<lparr>endBlock := blockNum\<rparr>"

definition setHealthy :: "'s TrxDBLoader \<Rightarrow> 's TrxDBLoader" where
  "setHealthy l = (if \<not> ld_healthy l then l\<lparr>ld_healthy := True\<rparr> else l)"

definition setUnhealthy :: "'s TrxDBLoader \<Rightarrow> 's TrxDBLoader" where
  "setUnhealthy l = (if ld_healthy l then l\<lparr>ld_healthy := False\<rparr> else l)"

text \<open>A flush of the write store, with the store it leaves also when it fails.\<close>

definition flush_attempt :: "'s kv_ops \<Rightarrow> 's DB \<Rightarrow> trxdb_error + kv_error option \<times> 's DB" where
  "flush_attempt kv db =
     (case writeStore db of
        None \<Rightarrow> Inl DbPanic
      | Some i \<Rightarrow> (case kv_FlushPuts kv (db_stores db ! i) of (e, s) \<Rightarrow> Inr (e, db\<lparr>db_stores := (db_stores db)[i := s]\<rparr>)))"

function retry_flush :: "'s kv_ops \<Rightarrow> int \<Rightarrow> 's DB \<Rightarrow> trxdb_error + kv_error option \<times> int \<times> 's DB" where
  "retry_flush kv r db =
     (case flush_attempt kv db of
        Inl p \<Rightarrow> Inl p
      | Inr (e, db1) \<Rightarrow>
          if r + 1 \<le> MaxRetries \<and> e \<noteq> None then retry_flush kv (r + 1) db1 else Inr (e, r + 1, db1))"
  by pat_completeness auto
termination by (relation "measure (\<lambda>(kv, r, db). nat (MaxRetries - r))") auto

declare retry_flush.simps [simp del]

definition DoFlush :: "'s kv_ops \<Rightarrow> 's TrxDBLoader \<Rightarrow> trxdb_error + loader_error option \<times> 's TrxDBLoader" where
  "DoFlush kv l =
     bind_res (flush_attempt kv (ld_db l)) (\<lambda>(e, db1).
       case e of
         None \<Rightarrow> Inr (None, l\<lparr>ld_db := db1, retryCnt := 1\<rparr>)
       | Some _ \<Rightarrow>
           bind_res (retry_flush kv (retryCnt l) db1) (\<lambda>(e2, r, db2).
             Inr (map_option LdFlush e2, l\<lparr>ld_db := db2, retryCnt := r\<rparr>)))"

definition FlushIfNeeded :: "'s kv_ops \<Rightarrow> bool \<Rightarrow> u64 \<Rightarrow> 's TrxDBLoader \<Rightarrow> trxdb_error + loader_error option \<times> 's TrxDBLoader" where
  "FlushIfNeeded kv closeToHead blockNum l =
     (if batchSize l = 0 then Inl DbPanic
      else if blockNum mod batchSize l = 0 \<or> closeToHead then DoFlush kv l
      else Inr (None, l))"

text \<open>An error of the database: a panic stays a panic.\<close>

definition db_step :: "(trxdb_error \<Rightarrow> loader_error) \<Rightarrow> trxdb_error + 's DB \<Rightarrow> 's TrxDBLoader \<Rightarrow>
    ('s TrxDBLoader \<Rightarrow> trxdb_error + loader_error option \<times> 's TrxDBLoader) \<Rightarrow> trxdb_error + loader_error option \<times> 's TrxDBLoader" where
  "db_step err r l cont =
     (case r of Inl DbPanic \<Rightarrow> Inl DbPanic | Inl e \<Rightarrow> Inr (Some (err e), l) | Inr db1 \<Rightarrow> cont (l\<lparr>ld_db := db1\<rparr>))"

fun UpdateIrreversibleData ::
  "trxdb_env \<Rightarrow> 's kv_ops \<Rightarrow> (Block \<Rightarrow> int) \<Rightarrow> Block list \<Rightarrow> 's TrxDBLoader \<Rightarrow> trxdb_error + loader_error option \<times> 's TrxDBLoader" where
  "UpdateIrreversibleData env kv blockTime [] l = Inr (None, l)"
| "UpdateIrreversibleData env kv blockTime (blk # blks) l =
     (if Block_Num blk = 1 then UpdateIrreversibleData env kv blockTime blks l
      else db_step LdDb (UpdateNowIrreversibleBlock env kv blk (blockTime blk) (ld_db l)) l (UpdateIrreversibleData env kv blockTime blks))"

text \<open>The last block of a step at or above the end block flushes and stops.\<close>

definition reached_end :: "u64 \<Rightarrow> ForkableObject \<Rightarrow> 's TrxDBLoader \<Rightarrow> bool" where
  "reached_end blockNum fObj l \<longleftrightarrow> endBlock l \<noteq> 0 \<and> blockNum \<ge> endBlock l \<and> fo_StepCount fObj = fo_StepIndex fObj + 1"

definition FullJob ::
  "trxdb_env \<Rightarrow> 's kv_ops \<Rightarrow> 's purge_ops option \<Rightarrow> (Block \<Rightarrow> int) \<Rightarrow> bool \<Rightarrow> u64 \<Rightarrow> Block \<Rightarrow> ForkableObject \<Rightarrow> 's TrxDBLoader \<Rightarrow>
   trxdb_error + loader_error option \<times> 's TrxDBLoader" where
  "FullJob env kv purge blockTime closeToHead blockNum block fObj l =
     (case fo_Step fObj of
        StepNew \<Rightarrow>
          (let l1 = setHealthy l
           in db_step (\<lambda>_. LdStoreBlock) (PutBlock env kv purge block (ld_db l1)) l1 (FlushIfNeeded kv closeToHead blockNum))
      | StepIrreversible \<Rightarrow>
          if reached_end blockNum fObj l
          then bind_res (DoFlush kv l) (\<lambda>(e, l1). Inr (e, l1\<lparr>ld_terminating := True\<rparr>))
          else if fo_StepIndex fObj \<noteq> 0 then Inr (None, l)
          else bind_res (UpdateIrreversibleData env kv blockTime (fo_StepBlocks fObj) l) (\<lambda>(e, l1).
                 if e \<noteq> None then Inr (e, l1) else FlushIfNeeded kv closeToHead blockNum l1)
      | StepOther \<Rightarrow> Inr (Some LdUnsupportedStep, l))"

definition PatchJob ::
  "'s kv_ops \<Rightarrow> bool \<Rightarrow> u64 \<Rightarrow> ForkableObject \<Rightarrow> 's TrxDBLoader \<Rightarrow> trxdb_error + loader_error option \<times> 's TrxDBLoader" where
  "PatchJob kv closeToHead blockNum fObj l =
     (case fo_Step fObj of
        StepNew \<Rightarrow> FlushIfNeeded kv closeToHead blockNum l
      | StepIrreversible \<Rightarrow>
          if reached_end blockNum fObj l
          then bind_res (DoFlush kv l) (\<lambda>(e, l1). Inr (e, if e = None then l1\<lparr>ld_terminating := True\<rparr> else l1))
          else Inr (None, l)
      | StepOther \<Rightarrow> Inr (None, l))"

definition Loader_ProcessBlock ::
  "trxdb_env \<Rightarrow> 's kv_ops \<Rightarrow> 's purge_ops option \<Rightarrow> (Block \<Rightarrow> int) \<Rightarrow> bool \<Rightarrow> Block \<Rightarrow> ForkableObject \<Rightarrow> 's TrxDBLoader \<Rightarrow>
   trxdb_error + loader_error option \<times> 's TrxDBLoader" where
  "Loader_ProcessBlock env kv purge blockTime closeToHead block fObj l =
     (if ld_terminating l then Inr (None, l)
      else case processingJob l of
             FullJobKind \<Rightarrow> FullJob env kv purge blockTime closeToHead (Block_Num block) block fObj l
           | PatchJobKind \<Rightarrow> PatchJob kv closeToHead (Block_Num block) fObj l)"

section \<open>Retries\<close>

text \<open>The store after some attempts, and the outcome of each attempt.\<close>

definition after_attempts :: "'s kv_ops \<Rightarrow> nat \<Rightarrow> 's \<Rightarrow> 's" where
  "after_attempts kv n s = ((\<lambda>s. snd (kv_FlushPuts kv s)) ^^ n) s"

definition attempt_error :: "'s kv_ops \<Rightarrow> nat \<Rightarrow> 's \<Rightarrow> kv_error option" where
  "attempt_error kv n s = fst (kv_FlushPuts kv (after_attempts kv n s))"

definition with_store :: "nat \<Rightarrow> 's \<Rightarrow> 's DB \<Rightarrow> 's DB" where
  "with_store i s db = db\<lparr>db_stores := (db_stores db)[i := s]\<rparr>"

text \<open>The number of attempts of one call, the first one included.\<close>

definition attempts :: "int \<Rightarrow> nat" where
  "attempts r = 1 + nat (max 1 (MaxRetries + 1 - r))"

lemma after_attempts_Suc: "after_attempts kv (Suc n) s = after_attempts kv n (snd (kv_FlushPuts kv s))"
  by (simp add: after_attempts_def funpow_Suc_right del: funpow.simps)

lemma attempts_shift [simp]:
  "after_attempts kv m (after_attempts kv (Suc 0) s) = after_attempts kv (Suc m) s"
  "attempt_error kv m (after_attempts kv (Suc 0) s) = attempt_error kv (Suc m) s"
proof -
  show "after_attempts kv m (after_attempts kv (Suc 0) s) = after_attempts kv (Suc m) s"
    by (simp only: after_attempts_Suc) (simp add: after_attempts_def)
  then show "attempt_error kv m (after_attempts kv (Suc 0) s) = attempt_error kv (Suc m) s"
    by (simp add: attempt_error_def)
qed

lemma flush_attempt_store:
  assumes "writeStore db = Some i" and "i < length (db_stores db)"
  shows "flush_attempt kv (with_store i s db) = Inr (attempt_error kv 0 s, with_store i (after_attempts kv (Suc 0) s) db)"
  using assms by (simp add: flush_attempt_def with_store_def attempt_error_def after_attempts_def case_prod_unfold)

lemma retry_flush_spec:
  assumes "writeStore db = Some i" and "i < length (db_stores db)"
  shows "\<exists>n e. n < nat (max 1 (MaxRetries + 1 - r)) \<and> (\<forall>m<n. attempt_error kv m s \<noteq> None) \<and> e = attempt_error kv n s
    \<and> (e = None \<or> Suc n = nat (max 1 (MaxRetries + 1 - r)))
    \<and> retry_flush kv r (with_store i s db) = Inr (e, r + 1 + int n, with_store i (after_attempts kv (Suc n) s) db)"
proof (induction "nat (MaxRetries - r)" arbitrary: r s rule: less_induct)
  case less
  note fl = flush_attempt_store [OF assms, of kv s]
  show ?case
  proof (cases "r + 1 \<le> MaxRetries \<and> attempt_error kv 0 s \<noteq> None")
    case False
    then show ?thesis
      using fl by (intro exI [of _ 0] exI [of _ "attempt_error kv 0 s"]) (auto simp: retry_flush.simps [of kv r] max_def)
  next
    case True
    let ?s = "after_attempts kv (Suc 0) s"
    from less [of "r + 1" ?s] True obtain n where n: "n < nat (max 1 (MaxRetries - r))" "\<forall>m<n. attempt_error kv (Suc m) s \<noteq> None"
      "attempt_error kv (Suc n) s = None \<or> Suc n = nat (max 1 (MaxRetries - r))"
      "retry_flush kv (r + 1) (with_store i ?s db) = Inr (attempt_error kv (Suc n) s, r + 2 + int n, with_store i (after_attempts kv (Suc (Suc n)) s) db)"
      by (auto simp: add.commute)
    have "\<forall>m<Suc n. attempt_error kv m s \<noteq> None" using n(2) True by (auto simp: less_Suc_eq_0_disj)
    moreover have "Suc n < nat (max 1 (MaxRetries + 1 - r))" "Suc n = nat (max 1 (MaxRetries - r)) \<Longrightarrow> Suc (Suc n) = nat (max 1 (MaxRetries + 1 - r))"
      using n(1) True by (auto simp: max_def split: if_splits)
    ultimately show ?thesis
      using n(3,4) fl True
      by (intro exI [of _ "Suc n"] exI [of _ "attempt_error kv (Suc n) s"]) (auto simp: retry_flush.simps [of kv r])
  qed
qed

text \<open>C39: a flush of the loader ends after at most \<open>attempts\<close> attempts: it reports success with the store that
  the first successful attempt left, and an error only when all the attempts failed. The counter of
  retries goes back to one only when the first attempt succeeds, so after failures that were retried
  with success the next call has fewer attempts, but always two.\<close>

theorem DoFlush_retries:
  assumes "writeStore (ld_db l) = Some i" and "i < length (db_stores (ld_db l))"
  shows "\<exists>n<attempts (retryCnt l).
      (\<forall>m<n. attempt_error kv m (db_stores (ld_db l) ! i) \<noteq> None)
      \<and> (attempt_error kv n (db_stores (ld_db l) ! i) = None \<or> Suc n = attempts (retryCnt l))
      \<and> DoFlush kv l = Inr (map_option LdFlush (attempt_error kv n (db_stores (ld_db l) ! i)),
          l\<lparr>ld_db := with_store i (after_attempts kv (Suc n) (db_stores (ld_db l) ! i)) (ld_db l),
            retryCnt := (if n = 0 then 1 else retryCnt l + int n)\<rparr>)
      \<and> 2 \<le> attempts (retryCnt l)"
proof -
  let ?s = "db_stores (ld_db l) ! i" and ?db = "ld_db l"
  have db: "with_store i ?s ?db = ?db" by (simp add: with_store_def)
  note fl = flush_attempt_store [OF assms, of kv ?s, unfolded db]
  have two: "2 \<le> attempts (retryCnt l)" by (simp add: attempts_def)
  show ?thesis
  proof (cases "attempt_error kv 0 ?s")
    case None
    then show ?thesis using fl two by (intro exI [of _ 0]) (auto simp: DoFlush_def)
  next
    case (Some e0)
    let ?s1 = "after_attempts kv (Suc 0) ?s"
    from retry_flush_spec [OF assms, of "retryCnt l" kv ?s1] obtain n where n: "n < nat (max 1 (MaxRetries + 1 - retryCnt l))"
      "\<forall>m<n. attempt_error kv (Suc m) ?s \<noteq> None"
      "attempt_error kv (Suc n) ?s = None \<or> Suc n = nat (max 1 (MaxRetries + 1 - retryCnt l))"
      "retry_flush kv (retryCnt l) (with_store i ?s1 ?db) =
        Inr (attempt_error kv (Suc n) ?s, retryCnt l + 1 + int n, with_store i (after_attempts kv (Suc (Suc n)) ?s) ?db)"
      by auto
    have "\<forall>m<Suc n. attempt_error kv m ?s \<noteq> None" using n(2) Some by (auto simp: less_Suc_eq_0_disj)
    then show ?thesis
      using n two fl Some by (intro exI [of _ "Suc n"]) (auto simp: DoFlush_def attempts_def)
  qed
qed

text \<open>A store that fails a number of flushes.\<close>

definition flaky_ops :: "nat kv_ops" where
  "flaky_ops = \<lparr>kv_Put = (\<lambda>k v s. (None, s)), kv_FlushPuts = (\<lambda>s. if s = 0 then (None, 0) else (Some (KvError ''''), s - 1)),
     kv_Get = (\<lambda>k s. Inl KvNotFound), kv_Scan = (\<lambda>a b n s. ([], None)), kv_BatchDelete = (\<lambda>ks s. (None, s))\<rparr>"

definition sample_loader :: "nat \<Rightarrow> nat TrxDBLoader" where
  "sample_loader failures = NewTrxDBLoader 10 \<lparr>db_stores = [failures], storeCachePool = Map.empty, blkReadStore = None, trxReadStore = None,
     irrReadStore = None, lastWrittenBlockStore = None, enableBlkWrite = True, enableTrxWrite = True, writeStore = Some 0,
     writerChainID = [], purgeInterval = 0\<rparr>"

theorem DoFlush_retries_witness:
  "\<exists>n<6. DoFlush flaky_ops (sample_loader 3) =
     Inr (map_option LdFlush (attempt_error flaky_ops n 3),
       (sample_loader 3)\<lparr>ld_db := with_store 0 (after_attempts flaky_ops (Suc n) 3) (ld_db (sample_loader 3)),
         retryCnt := (if n = 0 then 1 else 1 + int n)\<rparr>) \<and> attempt_error flaky_ops n 3 = None"
proof -
  have l: "writeStore (ld_db (sample_loader 3)) = Some 0" "0 < length (db_stores (ld_db (sample_loader 3)))"
    "retryCnt (sample_loader 3) = 1" "db_stores (ld_db (sample_loader 3)) ! 0 = 3"
    by (simp_all add: sample_loader_def NewTrxDBLoader_def)
  have e: "attempt_error flaky_ops 3 3 = None" by code_simp
  from DoFlush_retries [OF l(1,2), of flaky_ops] obtain n where n: "n < 6" "\<forall>m<n. attempt_error flaky_ops m 3 \<noteq> None"
    "attempt_error flaky_ops n 3 = None \<or> n = 5"
    "DoFlush flaky_ops (sample_loader 3) = Inr (map_option LdFlush (attempt_error flaky_ops n 3),
       (sample_loader 3)\<lparr>ld_db := with_store 0 (after_attempts flaky_ops (Suc n) 3) (ld_db (sample_loader 3)),
         retryCnt := (if n = 0 then 1 else 1 + int n)\<rparr>)"
    unfolding l(3,4) by (auto simp: attempts_def MaxRetries_def)
  have "\<not> 3 < n" using n(2) e by blast
  then have "n \<noteq> 5" by simp
  then show ?thesis using n by blast
qed

end
