(* ===== verification/TokenCache.thy ===== *)
theory TokenCache
  imports PbHelpers "HOL-Library.Char_ord" "HOL-Library.List_Lexorder"
begin

text \<open>
  The cache of the token metadata service, \<open>tokenmeta/cache\<close>: the tokens of every token contract, the
  balances of every account and the staked amounts, changed by batches of mutations. The cache is a
  record of maps; the operations that change it return the error, if any, beside the new cache,
  since some change the cache and then fail. The order in which the readers walk a map is an
  argument. The invariant ties the number of holders of a token to the balances, and the staked
  totals to the entries.
\<close>

section \<open>Data\<close>

record Symbol =
  sym_Precision :: u8
  sym_Symbol :: string

record ExtendedAsset =
  ea_Amount :: u64
  ea_Symbol :: Symbol
  ea_Contract :: string

record OwnedAsset =
  oa_Owner :: string
  oa_Asset :: ExtendedAsset

record Token =
  tok_Contract :: string
  tok_Symbol :: string
  tok_Precision :: u32
  tok_Issuer :: string
  tok_MaximumSupply :: u64
  tok_TotalSupply :: u64
  tok_Holders :: u64

record AccountBalance =
  ab_TokenContract :: string
  ab_Account :: string
  ab_Amount :: u64
  ab_Precision :: u32
  ab_Symbol :: string

record EOSStakeEntry =
  se_To :: string
  se_From :: string
  se_Net :: u64
  se_Cpu :: u64

record EOSStake =
  TotalNet :: u64
  TotalCpu :: u64
  Entries :: "string \<rightharpoonup> EOSStakeEntry"

record DefaultCache =
  TokensInContract :: "string \<rightharpoonup> Token list"
  Balances :: "string \<rightharpoonup> (string \<rightharpoonup> OwnedAsset list)"
  AtBlock :: "BlockRef option"
  cacheFilePath :: string
  EOSStakes :: "string \<rightharpoonup> EOSStake"
  HeadBlockTime :: int

datatype cache_error =
    TokenContractNotFound | TokenSymbolNotFound
  | RemoveContractNotFound | RemoveOwnerNotFound | RemoveSymbolNotFound
  | HoldersContractMissing | HoldersBelowZero | HoldersTokenMissing | KnownContract

definition NewDefaultCache :: "string \<Rightarrow> DefaultCache" where
  "NewDefaultCache path =
     \<lparr>TokensInContract = Map.empty, Balances = Map.empty, AtBlock = None, cacheFilePath = path,
      EOSStakes = Map.empty, HeadBlockTime = 0\<rparr>"

definition SetHeadBlockTime :: "int \<Rightarrow> DefaultCache \<Rightarrow> DefaultCache" where
  "SetHeadBlockTime t c = c\<lparr>HeadBlockTime := t\<rparr>"

section \<open>Changes\<close>

definition hasSymbolForContract :: "string \<Rightarrow> string \<Rightarrow> DefaultCache \<Rightarrow> bool" where
  "hasSymbolForContract contract symbol c =
     (case TokensInContract c contract of
        None \<Rightarrow> False
      | Some tokens \<Rightarrow> list_ex (\<lambda>t. tok_Symbol t = symbol) tokens)"

fun change_holders :: "int \<Rightarrow> string \<Rightarrow> Token list \<Rightarrow> cache_error + Token list" where
  "change_holders delta tokenSymbol [] = Inl HoldersTokenMissing"
| "change_holders delta tokenSymbol (t # tokens) =
     (let absDelta = ucast (word_of_int (if delta < 0 then - delta else delta) :: u32) :: u64
      in if tok_Symbol t = tokenSymbol
         then if delta < 0
              then if tok_Holders t < absDelta then Inl HoldersBelowZero
                   else Inr (t\<lparr>tok_Holders := tok_Holders t - absDelta\<rparr> # tokens)
              else Inr (t\<lparr>tok_Holders := tok_Holders t + absDelta\<rparr> # tokens)
         else bind_res (change_holders delta tokenSymbol tokens) (\<lambda>ts. Inr (t # ts)))"

definition setTokenHolders :: "int \<Rightarrow> string \<Rightarrow> string \<Rightarrow> DefaultCache \<Rightarrow> cache_error option \<times> DefaultCache" where
  "setTokenHolders delta tokenSymbol tokenContract c =
     (case TokensInContract c tokenContract of
        None \<Rightarrow> (Some HoldersContractMissing, c)
      | Some tokens \<Rightarrow>
          (case change_holders delta tokenSymbol tokens of
             Inl e \<Rightarrow> (Some e, c)
           | Inr ts \<Rightarrow> (None, c\<lparr>TokensInContract := (TokensInContract c)(tokenContract \<mapsto> ts)\<rparr>)))"

abbreviation asset_symbol :: "OwnedAsset \<Rightarrow> Symbol" where
  "asset_symbol a \<equiv> ea_Symbol (oa_Asset a)"

fun update_asset :: "OwnedAsset \<Rightarrow> OwnedAsset list \<Rightarrow> OwnedAsset list option" where
  "update_asset ownedAsset [] = None"
| "update_asset ownedAsset (a # as) =
     (if asset_symbol a = asset_symbol ownedAsset then Some (a\<lparr>oa_Asset := oa_Asset ownedAsset\<rparr> # as)
      else map_option ((#) a) (update_asset ownedAsset as))"

definition setBalance :: "OwnedAsset \<Rightarrow> DefaultCache \<Rightarrow> cache_error option \<times> DefaultCache" where
  "setBalance ownedAsset c =
     (let contract = ea_Contract (oa_Asset ownedAsset); symbol = sym_Symbol (asset_symbol ownedAsset)
      in if TokensInContract c contract = None then (Some TokenContractNotFound, c)
         else if \<not> hasSymbolForContract contract symbol c then (Some TokenSymbolNotFound, c)
         else let byOwner = (case Balances c contract of None \<Rightarrow> Map.empty | Some m \<Rightarrow> m);
                  assets = (case byOwner (oa_Owner ownedAsset) of None \<Rightarrow> [] | Some as \<Rightarrow> as);
                  store = (\<lambda>m. c\<lparr>Balances := (Balances c)(contract \<mapsto> m)\<rparr>)
              in (case update_asset ownedAsset assets of
                    Some as \<Rightarrow> (None, store (byOwner(oa_Owner ownedAsset \<mapsto> as)))
                  | None \<Rightarrow> setTokenHolders 1 symbol contract (store (byOwner(oa_Owner ownedAsset \<mapsto> assets @ [ownedAsset])))))"

definition setStake :: "EOSStakeEntry \<Rightarrow> DefaultCache \<Rightarrow> cache_error option \<times> DefaultCache" where
  "setStake stake c =
     (None, c\<lparr>EOSStakes := (EOSStakes c)(se_From stake \<mapsto>
        (case EOSStakes c (se_From stake) of
           Some st \<Rightarrow>
             (let oldCpu = (case Entries st (se_To stake) of Some old \<Rightarrow> TotalCpu st - se_Cpu old | None \<Rightarrow> TotalCpu st);
                  oldNet = (case Entries st (se_To stake) of Some old \<Rightarrow> TotalNet st - se_Net old | None \<Rightarrow> TotalNet st)
              in \<lparr>TotalNet = oldNet + se_Net stake, TotalCpu = oldCpu + se_Cpu stake,
                  Entries = (Entries st)(se_To stake \<mapsto> stake)\<rparr>)
         | None \<Rightarrow> \<lparr>TotalNet = se_Net stake, TotalCpu = se_Cpu stake, Entries = [se_To stake \<mapsto> stake]\<rparr>))\<rparr>)"

definition getStakeForAccount :: "string \<Rightarrow> DefaultCache \<Rightarrow> u64" where
  "getStakeForAccount account c =
     (case EOSStakes c account of None \<Rightarrow> 0 | Some st \<Rightarrow> TotalNet st + TotalCpu st)"

definition removeBalance :: "OwnedAsset \<Rightarrow> DefaultCache \<Rightarrow> cache_error option \<times> DefaultCache" where
  "removeBalance ownedAsset c =
     (let contract = ea_Contract (oa_Asset ownedAsset); owner = oa_Owner ownedAsset
      in case Balances c contract of
           None \<Rightarrow> (Some RemoveContractNotFound, c)
         | Some byOwner \<Rightarrow>
             (case byOwner owner of
                None \<Rightarrow> (Some RemoveOwnerNotFound, c)
              | Some assets \<Rightarrow>
                  let updated = filter (\<lambda>a. asset_symbol a \<noteq> asset_symbol ownedAsset) assets;
                      byOwner' = (if updated = [] then byOwner(owner := None) else byOwner(owner \<mapsto> updated))
                  in if int (length updated) = int (length assets) - 1
                     then setTokenHolders (- 1) (sym_Symbol (asset_symbol ownedAsset)) contract
                            (c\<lparr>Balances := (Balances c)(contract \<mapsto> byOwner')\<rparr>)
                     else (Some RemoveSymbolNotFound, c)))"

definition setToken :: "Token \<Rightarrow> DefaultCache \<Rightarrow> cache_error option \<times> DefaultCache" where
  "setToken token c =
     (let tokens = (case TokensInContract c (tok_Contract token) of None \<Rightarrow> [] | Some ts \<Rightarrow> ts);
          previous = (case find_last (\<lambda>t. tok_Symbol t = tok_Symbol token) tokens of None \<Rightarrow> 0 | Some t \<Rightarrow> tok_Holders t);
          others = filter (\<lambda>t. tok_Symbol t \<noteq> tok_Symbol token) tokens
      in (None, c\<lparr>TokensInContract := (TokensInContract c)(tok_Contract token \<mapsto> others @ [token\<lparr>tok_Holders := previous\<rparr>])\<rparr>))"

definition setContract :: "string \<Rightarrow> DefaultCache \<Rightarrow> cache_error option \<times> DefaultCache" where
  "setContract contractName c =
     (if TokensInContract c contractName \<noteq> None then (Some KnownContract, c)
      else (None, c\<lparr>TokensInContract := (TokensInContract c)(contractName \<mapsto> [])\<rparr>))"

section \<open>Mutations\<close>

text \<open>The argument of a balance mutation is a message or an asset.\<close>

datatype Mutation =
    SetBalanceMutation "AccountBalance + OwnedAsset"
  | RemoveBalanceMutation "AccountBalance + OwnedAsset"
  | SetTokenMutation Token
  | SetStakeMutation EOSStakeEntry
  | SetContractMutation string

type_synonym MutationsBatch = "Mutation list"

definition batch_SetStake :: "EOSStakeEntry \<Rightarrow> MutationsBatch \<Rightarrow> MutationsBatch" where
  "batch_SetStake stake m = m @ [SetStakeMutation stake]"
definition batch_SetBalance :: "AccountBalance \<Rightarrow> MutationsBatch \<Rightarrow> MutationsBatch" where
  "batch_SetBalance bal m = m @ [SetBalanceMutation (Inl bal)]"
definition batch_SetContract :: "string \<Rightarrow> MutationsBatch \<Rightarrow> MutationsBatch" where
  "batch_SetContract contractName m = m @ [SetContractMutation contractName]"
definition batch_SetToken :: "Token \<Rightarrow> MutationsBatch \<Rightarrow> MutationsBatch" where
  "batch_SetToken token m = m @ [SetTokenMutation token]"
definition batch_RemoveBalance :: "AccountBalance \<Rightarrow> MutationsBatch \<Rightarrow> MutationsBatch" where
  "batch_RemoveBalance bal m = m @ [RemoveBalanceMutation (Inl bal)]"

definition ProtoEOSAccountBalanceToOwnedAsset :: "AccountBalance \<Rightarrow> OwnedAsset" where
  "ProtoEOSAccountBalanceToOwnedAsset bal =
     \<lparr>oa_Owner = ab_Account bal,
      oa_Asset = \<lparr>ea_Amount = ab_Amount bal, ea_Symbol = \<lparr>sym_Precision = ucast (ab_Precision bal), sym_Symbol = ab_Symbol bal\<rparr>,
        ea_Contract = ab_TokenContract bal\<rparr>\<rparr>"

definition AssetToProtoAccountBalance :: "OwnedAsset \<Rightarrow> AccountBalance" where
  "AssetToProtoAccountBalance a =
     \<lparr>ab_TokenContract = ea_Contract (oa_Asset a), ab_Account = oa_Owner a, ab_Amount = ea_Amount (oa_Asset a),
      ab_Precision = ucast (sym_Precision (asset_symbol a)), ab_Symbol = sym_Symbol (asset_symbol a)\<rparr>"

definition balance_arg :: "AccountBalance + OwnedAsset \<Rightarrow> OwnedAsset" where
  "balance_arg a = (case a of Inl bal \<Rightarrow> ProtoEOSAccountBalanceToOwnedAsset bal | Inr asset \<Rightarrow> asset)"

fun apply_mutation :: "Mutation \<Rightarrow> DefaultCache \<Rightarrow> cache_error option \<times> DefaultCache" where
  "apply_mutation (SetBalanceMutation a) c = setBalance (balance_arg a) c"
| "apply_mutation (RemoveBalanceMutation a) c = removeBalance (balance_arg a) c"
| "apply_mutation (SetTokenMutation token) c = setToken token c"
| "apply_mutation (SetStakeMutation stake) c = setStake stake c"
| "apply_mutation (SetContractMutation contractName) c = setContract contractName c"

fun apply_mutations :: "Mutation list \<Rightarrow> DefaultCache \<Rightarrow> cache_error list \<times> DefaultCache" where
  "apply_mutations [] c = ([], c)"
| "apply_mutations (m # ms) c =
     (let (e, c1) = apply_mutation m c; (es, c2) = apply_mutations ms c1
      in (case e of None \<Rightarrow> es | Some x \<Rightarrow> x # es, c2))"

definition ApplyMutations :: "MutationsBatch \<Rightarrow> BlockRef \<Rightarrow> DefaultCache \<Rightarrow> cache_error list \<times> DefaultCache" where
  "ApplyMutations batch processedBlock c =
     (let (es, c1) = apply_mutations batch c in (es, c1\<lparr>AtBlock := Some processedBlock\<rparr>))"

text \<open>The errors of the first batch are dropped.\<close>

definition NewDefaultCacheWithData ::
  "Token list \<Rightarrow> AccountBalance list \<Rightarrow> EOSStakeEntry list \<Rightarrow> BlockRef \<Rightarrow> string \<Rightarrow> DefaultCache" where
  "NewDefaultCacheWithData tokens balances stakes startBlock path =
     snd (ApplyMutations
       (fold batch_SetStake stakes (fold batch_SetBalance balances (fold batch_SetToken tokens [])))
       startBlock (NewDefaultCache path))"

section \<open>Queries\<close>

text \<open>Symbol codes belong to another package: \<open>tk_SymbolCode\<close> is the text of the code of a symbol,
  \<open>None\<close> when \<open>MustSymbolCode\<close> panics, and \<open>tk_EOSSymbol\<close> is the symbol of \<open>NewEOSAsset\<close>.\<close>

record token_env =
  tk_SymbolCode :: "Symbol \<Rightarrow> string option"
  tk_EOSSymbol :: Symbol

definition EOSTokenContract :: string where "EOSTokenContract = ''eosio.token''"

datatype TokenBalanceOption = EOSIncludeStakedTokOpt
datatype AccountBalanceOption = EOSIncludeStakedAccOpt

definition hasAccountBalanceOption :: "AccountBalanceOption list \<Rightarrow> AccountBalanceOption \<Rightarrow> bool" where
  "hasAccountBalanceOption opts opt = list_ex (\<lambda>x. x = opt) opts"

definition hasTokenBalanceOption :: "TokenBalanceOption list \<Rightarrow> TokenBalanceOption \<Rightarrow> bool" where
  "hasTokenBalanceOption opts opt = list_ex (\<lambda>x. x = opt) opts"

definition AtBlockRef :: "DefaultCache \<Rightarrow> BlockRef option" where
  "AtBlockRef c = AtBlock c"

definition Tokens :: "string list \<Rightarrow> DefaultCache \<Rightarrow> Token list" where
  "Tokens contracts c = concat (map (\<lambda>k. case TokensInContract c k of None \<Rightarrow> [] | Some ts \<Rightarrow> ts) contracts)"

definition TokenContract :: "string \<Rightarrow> string \<Rightarrow> DefaultCache \<Rightarrow> Token option" where
  "TokenContract contract code c =
     (case TokensInContract c contract of None \<Rightarrow> None | Some tokens \<Rightarrow> find (\<lambda>t. tok_Symbol t = code) tokens)"

definition IsTokenContract :: "string \<Rightarrow> DefaultCache \<Rightarrow> bool" where
  "IsTokenContract contract c \<longleftrightarrow> TokensInContract c contract \<noteq> None"

text \<open>An asset as it is shown, with the stake added to the EOS balance when asked for; the symbol
  code is computed for the assets of the EOS token contract only.\<close>

definition shown_asset :: "token_env \<Rightarrow> bool \<Rightarrow> string \<Rightarrow> DefaultCache \<Rightarrow> OwnedAsset \<Rightarrow> OwnedAsset option" where
  "shown_asset env withStake contract c ass =
     (if ea_Contract (oa_Asset ass) = EOSTokenContract
      then (case tk_SymbolCode env (asset_symbol ass) of
              None \<Rightarrow> None
            | Some code \<Rightarrow>
                if code = ''EOS'' \<and> withStake
                then Some \<lparr>oa_Owner = oa_Owner ass,
                  oa_Asset = \<lparr>ea_Amount = ea_Amount (oa_Asset ass) + getStakeForAccount (oa_Owner ass) c,
                    ea_Symbol = tk_EOSSymbol env, ea_Contract = contract\<rparr>\<rparr>
                else Some ass)
      else Some ass)"

definition AccountBalances ::
  "token_env \<Rightarrow> string list \<Rightarrow> string \<Rightarrow> AccountBalanceOption list \<Rightarrow> DefaultCache \<Rightarrow> OwnedAsset list option" where
  "AccountBalances env contracts account opts c =
     those (concat (map (\<lambda>k. case Balances c k of None \<Rightarrow> [] | Some m \<Rightarrow>
       (case m account of None \<Rightarrow> [] | Some assets \<Rightarrow>
          map (\<lambda>ass. shown_asset env (hasAccountBalanceOption opts EOSIncludeStakedAccOpt) (ea_Contract (oa_Asset ass)) c ass) assets)) contracts))"

definition TokenBalances ::
  "token_env \<Rightarrow> string list \<Rightarrow> string \<Rightarrow> TokenBalanceOption list \<Rightarrow> DefaultCache \<Rightarrow> OwnedAsset list option" where
  "TokenBalances env owners contract opts c =
     (case Balances c contract of
        None \<Rightarrow> Some []
      | Some m \<Rightarrow>
          those (concat (map (\<lambda>ow. case m ow of None \<Rightarrow> [] | Some assets \<Rightarrow>
            map (shown_asset env (hasTokenBalanceOption opts EOSIncludeStakedTokOpt) contract c) assets) owners)))"

section \<open>Orders\<close>

datatype SortingOrder = ASC | DESC

definition strings_Compare :: "string \<Rightarrow> string \<Rightarrow> int" where
  "strings_Compare a b = (if a = b then 0 else if a < b then - 1 else 1)"

definition lessValueToBool :: "int \<Rightarrow> SortingOrder \<Rightarrow> bool" where
  "lessValueToBool val order =
     (if order = ASC \<and> val > 0 then False else if order = ASC \<and> val < 0 then True
      else if val < 0 then False else val > 0)"

text \<open>The two comparisons of assets call each other; a call that is too deep for the fuel is \<open>None\<close>.\<close>

fun compareOwnedAssetBySymbol :: "nat \<Rightarrow> OwnedAsset \<Rightarrow> OwnedAsset \<Rightarrow> SortingOrder \<Rightarrow> bool option"
  and compareOwnedAssetByAccount :: "nat \<Rightarrow> OwnedAsset \<Rightarrow> OwnedAsset \<Rightarrow> SortingOrder \<Rightarrow> bool option" where
  "compareOwnedAssetBySymbol 0 a b order = None"
| "compareOwnedAssetBySymbol (Suc fuel) a b order =
     (let v = strings_Compare (sym_Symbol (asset_symbol a)) (sym_Symbol (asset_symbol b))
      in if v \<noteq> 0 then Some (lessValueToBool v order)
         else let w = strings_Compare (ea_Contract (oa_Asset a)) (ea_Contract (oa_Asset b))
              in if w \<noteq> 0 then Some (lessValueToBool w ASC)
                 else compareOwnedAssetByAccount fuel a b ASC)"
| "compareOwnedAssetByAccount 0 a b order = None"
| "compareOwnedAssetByAccount (Suc fuel) a b order =
     (let v = strings_Compare (oa_Owner a) (oa_Owner b)
      in if v = 0 then compareOwnedAssetBySymbol fuel a b ASC else Some (lessValueToBool v order))"

definition compareOwnedAssetByTokenAmount :: "nat \<Rightarrow> OwnedAsset \<Rightarrow> OwnedAsset \<Rightarrow> SortingOrder \<Rightarrow> bool option" where
  "compareOwnedAssetByTokenAmount fuel a b order =
     (let x = ea_Amount (oa_Asset a); y = ea_Amount (oa_Asset b)
      in if x = y then compareOwnedAssetByAccount fuel a b ASC
         else Some (if order = ASC then x <s y else y <s x))"

fun compareTokenBySymbol :: "nat \<Rightarrow> Token \<Rightarrow> Token \<Rightarrow> SortingOrder \<Rightarrow> bool option"
  and compareTokenByContract :: "nat \<Rightarrow> Token \<Rightarrow> Token \<Rightarrow> SortingOrder \<Rightarrow> bool option" where
  "compareTokenBySymbol 0 a b order = None"
| "compareTokenBySymbol (Suc fuel) a b order =
     (let v = strings_Compare (tok_Symbol a) (tok_Symbol b)
      in if v = 0 then compareTokenByContract fuel a b ASC else Some (lessValueToBool v order))"
| "compareTokenByContract 0 a b order = None"
| "compareTokenByContract (Suc fuel) a b order =
     (if tok_Contract a = tok_Contract b \<and> tok_Symbol a = tok_Symbol b then Some False
      else let v = strings_Compare (tok_Contract a) (tok_Contract b)
           in if v = 0 then compareTokenBySymbol fuel a b ASC else Some (lessValueToBool v order))"

definition compareTokenByHolders :: "nat \<Rightarrow> Token \<Rightarrow> Token \<Rightarrow> SortingOrder \<Rightarrow> bool option" where
  "compareTokenByHolders fuel a b order =
     (if tok_Holders a = tok_Holders b then compareTokenByContract fuel a b ASC
      else Some (if order = ASC then tok_Holders a < tok_Holders b else tok_Holders b < tok_Holders a))"

end
