(* ===== verification/TokenCacheProps.thy ===== *)
theory TokenCacheProps
  imports TokenCache
begin

text \<open>
  The invariant of the token cache, kept by every mutation, and the termination of the comparisons
  that the queries sort with.
\<close>

section \<open>Invariant\<close>

text \<open>The number of holders recorded for a token, and the number of balances in it.\<close>

definition holders :: "DefaultCache \<Rightarrow> string \<Rightarrow> string \<Rightarrow> u64 option" where
  "holders c k s = map_option tok_Holders (TokenContract k s c)"

definition count_symbol :: "string \<Rightarrow> OwnedAsset list \<Rightarrow> nat" where
  "count_symbol s as = length (filter (\<lambda>a. sym_Symbol (asset_symbol a) = s) as)"

definition total :: "string \<Rightarrow> (string \<rightharpoonup> OwnedAsset list) \<Rightarrow> nat" where
  "total s m = (\<Sum>ow\<in>dom m. count_symbol s (the (m ow)))"

definition balances_in :: "DefaultCache \<Rightarrow> string \<Rightarrow> string \<Rightarrow> nat" where
  "balances_in c k s = (case Balances c k of None \<Rightarrow> 0 | Some m \<Rightarrow> total s m)"

definition tokens_ok :: "DefaultCache \<Rightarrow> bool" where
  "tokens_ok c \<longleftrightarrow>
     (\<forall>k ts. TokensInContract c k = Some ts \<longrightarrow> distinct (map tok_Symbol ts) \<and> (\<forall>t\<in>set ts. tok_Contract t = k))"

definition owner_ok :: "DefaultCache \<Rightarrow> string \<Rightarrow> string \<Rightarrow> OwnedAsset list \<Rightarrow> bool" where
  "owner_ok c k ow as \<longleftrightarrow>
     as \<noteq> [] \<and> distinct (map (\<lambda>a. asset_symbol a) as)
     \<and> (\<forall>a\<in>set as. oa_Owner a = ow \<and> ea_Contract (oa_Asset a) = k \<and> holders c k (sym_Symbol (asset_symbol a)) \<noteq> None)"

definition balances_ok :: "DefaultCache \<Rightarrow> bool" where
  "balances_ok c \<longleftrightarrow>
     (\<forall>k m. Balances c k = Some m \<longrightarrow> finite (dom m) \<and> (\<forall>ow as. m ow = Some as \<longrightarrow> owner_ok c k ow as))"

definition holders_ok :: "DefaultCache \<Rightarrow> bool" where
  "holders_ok c \<longleftrightarrow> (\<forall>k s h. holders c k s = Some h \<longrightarrow> h = of_nat (balances_in c k s))"

definition stakes_ok :: "DefaultCache \<Rightarrow> bool" where
  "stakes_ok c \<longleftrightarrow>
     (\<forall>account st. EOSStakes c account = Some st \<longrightarrow>
        finite (dom (Entries st))
        \<and> TotalNet st = (\<Sum>to\<in>dom (Entries st). se_Net (the (Entries st to)))
        \<and> TotalCpu st = (\<Sum>to\<in>dom (Entries st). se_Cpu (the (Entries st to))))"

definition cache_ok :: "DefaultCache \<Rightarrow> bool" where
  "cache_ok c \<longleftrightarrow> tokens_ok c \<and> balances_ok c \<and> holders_ok c \<and> stakes_ok c"

text \<open>No token has more balances than the counter can hold, after \<open>n\<close> more of them.\<close>

definition room :: "nat \<Rightarrow> DefaultCache \<Rightarrow> bool" where
  "room n c \<longleftrightarrow> (\<forall>k s. balances_in c k s + n < 2 ^ 64)"

lemma token_cache_ok_new: "cache_ok (NewDefaultCache path)"
  by (simp add: cache_ok_def tokens_ok_def balances_ok_def holders_ok_def stakes_ok_def NewDefaultCache_def holders_def
      TokenContract_def)

lemma hasSymbol_iff: "hasSymbolForContract k s c \<longleftrightarrow> holders c k s \<noteq> None"
  by (simp add: hasSymbolForContract_def holders_def TokenContract_def list_ex_iff find_None_iff del: not_None_eq split: option.split)
    blast

text \<open>Sums over the entries of a map after a change of one entry.\<close>

lemma sum_map_upd:
  fixes g :: "'a \<Rightarrow> 'c::comm_monoid_add"
  assumes "finite (dom m)"
  shows "(\<Sum>x\<in>dom (m(k \<mapsto> v)). g (the ((m(k \<mapsto> v)) x))) = g v + (\<Sum>x\<in>dom m - {k}. g (the (m x)))"
    and "(\<Sum>x\<in>dom m. g (the (m x))) = (case m k of None \<Rightarrow> 0 | Some x \<Rightarrow> g x) + (\<Sum>x\<in>dom m - {k}. g (the (m x)))"
    and "(\<Sum>x\<in>dom (m(k := None)). g (the ((m(k := None)) x))) = (\<Sum>x\<in>dom m - {k}. g (the (m x)))"
proof -
  have eq: "(\<Sum>x\<in>dom m - {k}. g (the ((m(k := w)) x))) = (\<Sum>x\<in>dom m - {k}. g (the (m x)))" for w
    by (rule sum.cong) auto
  have "dom (m(k \<mapsto> v)) = insert k (dom m - {k})" by auto
  then show "(\<Sum>x\<in>dom (m(k \<mapsto> v)). g (the ((m(k \<mapsto> v)) x))) = g v + (\<Sum>x\<in>dom m - {k}. g (the (m x)))"
    using assms eq [of "Some v"] by (simp add: sum.insert_remove)
  show "(\<Sum>x\<in>dom m. g (the (m x))) = (case m k of None \<Rightarrow> 0 | Some x \<Rightarrow> g x) + (\<Sum>x\<in>dom m - {k}. g (the (m x)))"
    using assms by (cases "m k") (auto simp: domIff sum.remove [of "dom m" k])
  show "(\<Sum>x\<in>dom (m(k := None)). g (the ((m(k := None)) x))) = (\<Sum>x\<in>dom m - {k}. g (the (m x)))"
    using eq [of None] by simp
qed

lemma count_symbol_simps [simp]:
  "count_symbol s [] = 0"
  "count_symbol s (a # as) = (if sym_Symbol (asset_symbol a) = s then 1 else 0) + count_symbol s as"
  "count_symbol s (as @ bs) = count_symbol s as + count_symbol s bs"
  by (simp_all add: count_symbol_def)

text \<open>The counter of a token goes up or down by one, and nothing else changes.\<close>

lemma change_holders_ok:
  assumes "map_option tok_Holders (find (\<lambda>t. tok_Symbol t = s) ts) = Some h"
    and "delta = 1 \<and> h' = h + 1 \<or> delta = - 1 \<and> h' = h - 1 \<and> h \<noteq> 0"
  shows "\<exists>ts'. change_holders delta s ts = Inr ts'
    \<and> map (\<lambda>t. (tok_Symbol t, tok_Contract t)) ts' = map (\<lambda>t. (tok_Symbol t, tok_Contract t)) ts
    \<and> (\<forall>s'. map_option tok_Holders (find (\<lambda>t. tok_Symbol t = s') ts') =
          (if s' = s then Some h' else map_option tok_Holders (find (\<lambda>t. tok_Symbol t = s') ts)))"
  using assms(1)
proof (induction ts)
  case (Cons t ts)
  have h: "\<not> h < 1" if "h \<noteq> 0" using that by (simp add: word_less_1)
  show ?case
  proof (cases "tok_Symbol t = s")
    case True
    then show ?thesis using Cons.prems assms(2) h by (auto simp: Let_def)
  next
    case False
    then obtain ts' where "change_holders delta s ts = Inr ts'"
      "map (\<lambda>t. (tok_Symbol t, tok_Contract t)) ts' = map (\<lambda>t. (tok_Symbol t, tok_Contract t)) ts"
      "\<forall>s'. map_option tok_Holders (find (\<lambda>t. tok_Symbol t = s') ts') =
          (if s' = s then Some h' else map_option tok_Holders (find (\<lambda>t. tok_Symbol t = s') ts))"
      using Cons by auto
    then show ?thesis using False by (auto simp: Let_def)
  qed
qed simp

lemma setTokenHolders_ok:
  assumes "holders c k s = Some h" and "delta = 1 \<and> h' = h + 1 \<or> delta = - 1 \<and> h' = h - 1 \<and> h \<noteq> 0"
  obtains c' where "setTokenHolders delta s k c = (None, c')" "Balances c' = Balances c" "EOSStakes c' = EOSStakes c"
    "\<And>k' s'. holders c' k' s' = (if k' = k \<and> s' = s then Some h' else holders c k' s')" "tokens_ok c \<Longrightarrow> tokens_ok c'"
proof -
  obtain ts where ts: "TokensInContract c k = Some ts" "map_option tok_Holders (find (\<lambda>t. tok_Symbol t = s) ts) = Some h"
    using assms(1) by (auto simp: holders_def TokenContract_def split: option.splits)
  from change_holders_ok [OF ts(2) assms(2)] obtain ts' where ts': "change_holders delta s ts = Inr ts'"
    "map (\<lambda>t. (tok_Symbol t, tok_Contract t)) ts' = map (\<lambda>t. (tok_Symbol t, tok_Contract t)) ts"
    "\<And>s'. map_option tok_Holders (find (\<lambda>t. tok_Symbol t = s') ts') =
          (if s' = s then Some h' else map_option tok_Holders (find (\<lambda>t. tok_Symbol t = s') ts))"
    by blast
  let ?c' = "c\<lparr>TokensInContract := (TokensInContract c)(k \<mapsto> ts')\<rparr>"
  have m: "map tok_Symbol ts' = map tok_Symbol ts" "map tok_Contract ts' = map tok_Contract ts"
    using arg_cong [OF ts'(2), of "map fst"] arg_cong [OF ts'(2), of "map snd"] by (simp_all add: comp_def)
  then have "set (map tok_Contract ts') = set (map tok_Contract ts)" by (simp only:)
  then have t: "tokens_ok c \<Longrightarrow> tokens_ok ?c'"
    using ts(1) m(1) unfolding tokens_ok_def by (auto simp: image_def)
  show thesis
  proof (rule that [of ?c'])
    show "setTokenHolders delta s k c = (None, ?c')" using ts(1) ts'(1) by (simp add: setTokenHolders_def)
    show "holders ?c' k' s' = (if k' = k \<and> s' = s then Some h' else holders c k' s')" for k' s'
      using ts'(3) ts(1) by (simp add: holders_def TokenContract_def)
  qed (simp_all add: t)
qed

text \<open>Storing the assets \<open>v\<close> of one owner, or none.\<close>

definition by_owner :: "DefaultCache \<Rightarrow> string \<Rightarrow> (string \<rightharpoonup> OwnedAsset list)" where
  "by_owner c k = (case Balances c k of None \<Rightarrow> Map.empty | Some m \<Rightarrow> m)"

definition store :: "string \<Rightarrow> string \<Rightarrow> OwnedAsset list option \<Rightarrow> DefaultCache \<Rightarrow> DefaultCache" where
  "store k ow v c = c\<lparr>Balances := (Balances c)(k \<mapsto> (by_owner c k)(ow := v))\<rparr>"

definition count_opt :: "string \<Rightarrow> OwnedAsset list option \<Rightarrow> nat" where
  "count_opt s v = (case v of None \<Rightarrow> 0 | Some as \<Rightarrow> count_symbol s as)"

lemma total_upd:
  assumes "finite (dom m)"
  shows "total s (m(ow := v)) + count_opt s (m ow) = total s m + count_opt s v"
  using sum_map_upd [OF assms, where g = "count_symbol s" and k = ow]
  by (cases v) (simp_all add: total_def count_opt_def del: fun_upd_apply dom_fun_upd)

lemma store_simps [simp]:
  "TokensInContract (store k ow v c) = TokensInContract c" "EOSStakes (store k ow v c) = EOSStakes c"
  "holders (store k ow v c) = holders c"
  by (simp_all add: store_def holders_def TokenContract_def fun_eq_iff)

lemma finite_by_owner: "balances_ok c \<Longrightarrow> finite (dom (by_owner c k))"
  by (auto simp: by_owner_def balances_ok_def split: option.split)

lemma balances_in_by_owner: "balances_in c k s = total s (by_owner c k)"
  by (simp add: balances_in_def by_owner_def total_def split: option.split)

lemma store_balances_in:
  assumes "balances_ok c"
  shows "balances_in (store k ow v c) k s + count_opt s (by_owner c k ow) = balances_in c k s + count_opt s v"
    and "k' \<noteq> k \<Longrightarrow> balances_in (store k ow v c) k' s = balances_in c k' s"
proof -
  have "by_owner (store k ow v c) k = (by_owner c k)(ow := v)" by (simp add: by_owner_def store_def)
  then show "balances_in (store k ow v c) k s + count_opt s (by_owner c k ow) = balances_in c k s + count_opt s v"
    using total_upd [OF finite_by_owner [OF assms]] by (simp add: balances_in_by_owner)
qed (simp add: balances_in_def store_def)

lemma store_balances_ok:
  assumes "balances_ok c" and "\<And>as. v = Some as \<Longrightarrow> owner_ok c k ow as"
  shows "balances_ok (store k ow v c)"
proof -
  have o: "owner_ok (store k ow v c) = owner_ok c" by (simp add: owner_ok_def fun_eq_iff)
  have "by_owner c k ow' = Some as \<Longrightarrow> owner_ok c k ow' as" for ow' as
    using assms(1) by (auto simp: by_owner_def balances_ok_def split: option.splits)
  then show ?thesis
    unfolding balances_ok_def o using assms finite_by_owner [OF assms(1), of k]
    by (auto simp: store_def balances_ok_def split: if_splits)
qed

lemma of_nat_nonzero: "0 < n \<Longrightarrow> n < 2 ^ 64 \<Longrightarrow> (of_nat n :: u64) \<noteq> 0"
  by (auto simp: word_of_nat_eq_0_iff dest: dvd_imp_le)

text \<open>A change of the balances of an owner by one, with the counter of the token.\<close>

lemma store_counted:
  assumes ok: "cache_ok c" and h: "holders c k s = Some h"
    and v: "\<And>as. v = Some as \<Longrightarrow> owner_ok c k ow as"
    and d: "d = 1 \<and> (\<forall>s'. count_opt s' v = count_opt s' (by_owner c k ow) + (if s' = s then 1 else 0))
      \<or> d = - 1 \<and> (\<forall>s'. count_opt s' (by_owner c k ow) = count_opt s' v + (if s' = s then 1 else 0)) \<and> balances_in c k s < 2 ^ 64"
  shows "\<exists>c'. setTokenHolders d s k (store k ow v c) = (None, c') \<and> cache_ok c'
    \<and> (\<forall>k' s'. balances_in c' k' s' \<le> balances_in c k' s' + 1)"
proof -
  let ?c1 = "store k ow v c"
  have b: "balances_ok c" and hk: "holders_ok c" using ok by (simp_all add: cache_ok_def)
  note bi = store_balances_in [OF b, where k = k and ow = ow and v = v]
  have n: "h = of_nat (balances_in c k s)" using hk h by (simp add: holders_ok_def)
  define h' where "h' = (of_nat (balances_in ?c1 k s) :: u64)"
  have bc: "d = 1 \<and> balances_in ?c1 k s = balances_in c k s + 1 \<or> d = - 1 \<and> balances_in c k s = balances_in ?c1 k s + 1"
    using d bi(1) [of s] by auto
  have hh: "d = 1 \<and> h' = h + 1 \<or> d = - 1 \<and> h' = h - 1 \<and> h \<noteq> 0"
  proof (cases "d = 1")
    case False
    then have "balances_in c k s = balances_in ?c1 k s + 1" "balances_in c k s < 2 ^ 64" using d bc by auto
    moreover then have "h \<noteq> 0" using n of_nat_nonzero [of "balances_in c k s"] by simp
    ultimately show ?thesis using False d by (auto simp: h'_def n)
  qed (use bc in \<open>auto simp: h'_def n\<close>)
  have h1: "holders ?c1 k s = Some h" using h by simp
  obtain c' where
    c': "setTokenHolders d s k ?c1 = (None, c')" "Balances c' = Balances ?c1" "EOSStakes c' = EOSStakes c"
    "\<And>k' s'. holders c' k' s' = (if k' = k \<and> s' = s then Some h' else holders c k' s')" "tokens_ok ?c1 \<Longrightarrow> tokens_ok c'"
    using setTokenHolders_ok [OF h1 hh] unfolding store_simps by blast
  have bs: "balances_in c' = balances_in ?c1" using c'(2) by (simp add: balances_in_def fun_eq_iff)
  have other: "balances_in ?c1 k' s' = balances_in c k' s'" if "k' \<noteq> k \<or> s' \<noteq> s" for k' s'
    using that bi(1) [of s'] bi(2) [of k' s'] d by (cases "k' = k") auto
  have "tokens_ok c'" using ok c'(5) by (simp add: cache_ok_def tokens_ok_def)
  moreover have step: "owner_ok c' k' ow' as" if "owner_ok ?c1 k' ow' as" for k' ow' as
    using that c'(4) by (auto simp: owner_ok_def)
  have "balances_ok ?c1" by (rule store_balances_ok [OF b v])
  then have "balances_ok c'" using step unfolding balances_ok_def c'(2) by blast
  moreover have "holders_ok c'"
    using hk other by (auto simp: holders_ok_def bs c'(4) h'_def split: if_splits)
  moreover have "stakes_ok c'" using ok c'(3) by (simp add: cache_ok_def stakes_ok_def)
  moreover have "balances_in c' k' s' \<le> balances_in c k' s' + 1" for k' s'
    using bc other [of k' s'] by (cases "k' = k \<and> s' = s") (auto simp: bs)
  ultimately show ?thesis using c'(1) by (auto simp: cache_ok_def)
qed

lemma update_asset_props:
  assumes "update_asset x as = Some as'"
  shows "map (\<lambda>a. asset_symbol a) as' = map (\<lambda>a. asset_symbol a) as"
    and "\<And>a. a \<in> set as' \<Longrightarrow> \<exists>b\<in>set as. oa_Owner a = oa_Owner b \<and> asset_symbol a = asset_symbol b \<and> (oa_Asset a = oa_Asset b \<or> oa_Asset a = oa_Asset x)"
  using assms by (induction as arbitrary: as') (fastforce split: if_splits)+

lemma update_asset_None: "update_asset x as = None \<longleftrightarrow> asset_symbol x \<notin> (\<lambda>a. asset_symbol a) ` set as"
  by (induction as) auto

lemma count_symbol_map: "count_symbol s as = length (filter (\<lambda>y. sym_Symbol y = s) (map (\<lambda>a. asset_symbol a) as))"
  by (simp add: count_symbol_def filter_map comp_def)

lemma by_owner_ok: "balances_ok c \<Longrightarrow> by_owner c k ow = Some as \<Longrightarrow> owner_ok c k ow as"
  by (auto simp: by_owner_def balances_ok_def split: option.splits)

lemma setBalance_ok:
  assumes ok: "cache_ok c"
  shows "cache_ok (snd (setBalance x c)) \<and> (\<forall>k s. balances_in (snd (setBalance x c)) k s \<le> balances_in c k s + 1)
    \<and> fst (setBalance x c) \<in> {None, Some TokenContractNotFound, Some TokenSymbolNotFound}"
proof -
  define k s ow where "k = ea_Contract (oa_Asset x)" and "s = sym_Symbol (asset_symbol x)" and "ow = oa_Owner x"
  define as where "as = (case by_owner c k ow of None \<Rightarrow> [] | Some as \<Rightarrow> as)"
  have b: "balances_ok c" using ok by (simp add: cache_ok_def)
  have r: "setBalance x c =
      (if TokensInContract c k = None then (Some TokenContractNotFound, c)
       else if \<not> hasSymbolForContract k s c then (Some TokenSymbolNotFound, c)
       else case update_asset x as of
              Some as' \<Rightarrow> (None, store k ow (Some as') c)
            | None \<Rightarrow> setTokenHolders 1 s k (store k ow (Some (as @ [x])) c))"
    unfolding setBalance_def Let_def k_def s_def ow_def as_def store_def by_owner_def by simp
  have as: "as \<noteq> [] \<Longrightarrow> owner_ok c k ow as" using by_owner_ok [OF b, of k ow] by (simp add: as_def split: option.splits)
  have cnt: "count_opt s' (by_owner c k ow) = count_symbol s' as" for s' by (simp add: as_def count_opt_def split: option.split)
  show ?thesis
  proof (cases "TokensInContract c k = None \<or> \<not> hasSymbolForContract k s c")
    case True
    then show ?thesis using ok by (auto simp: r)
  next
    case False
    then obtain h where h: "holders c k s = Some h" by (auto simp: hasSymbol_iff)
    show ?thesis
    proof (cases "update_asset x as")
      case None
      then have new: "asset_symbol x \<notin> (\<lambda>a. asset_symbol a) ` set as" by (simp add: update_asset_None)
      have o: "owner_ok c k ow (as @ [x])"
        using as new h by (cases "as = []") (auto simp: owner_ok_def k_def [symmetric] s_def [symmetric] ow_def [symmetric])
      have "\<forall>s'. count_opt s' (Some (as @ [x])) = count_opt s' (by_owner c k ow) + (if s' = s then 1 else 0)"
        by (simp add: cnt) (simp add: count_opt_def s_def)
      then obtain c' where "setTokenHolders 1 s k (store k ow (Some (as @ [x])) c) = (None, c')" "cache_ok c'"
        "\<forall>k' s'. balances_in c' k' s' \<le> balances_in c k' s' + 1"
        using store_counted [OF ok h, of "Some (as @ [x])" ow 1] o by auto
      then show ?thesis using False None by (auto simp: r)
    next
      case (Some as')
      note u = update_asset_props [OF Some]
      have "as \<noteq> []" using Some by auto
      then have o: "owner_ok c k ow as'"
        using as u by (auto simp: owner_ok_def) (metis k_def)+
      have "count_opt s' (Some as') = count_opt s' (by_owner c k ow)" for s'
        using cnt u(1) by (simp add: count_opt_def count_symbol_map)
      then have same: "balances_in (store k ow (Some as') c) k' s' = balances_in c k' s'" for k' s'
        using store_balances_in [OF b, where k = k and ow = ow and v = "Some as'"] by (cases "k' = k") auto
      have "balances_ok (store k ow (Some as') c)" by (rule store_balances_ok [OF b]) (use o in simp)
      then have "cache_ok (store k ow (Some as') c)"
        using ok same by (simp add: cache_ok_def tokens_ok_def holders_ok_def stakes_ok_def)
      then show ?thesis using False Some same by (auto simp: r)
    qed
  qed
qed

lemma count_symbol_split: "count_symbol s as = count_symbol s (filter P as) + count_symbol s (filter (\<lambda>a. \<not> P a) as)"
  by (induction as) simp_all

lemma removeBalance_ok:
  assumes ok: "cache_ok c" and room: "\<And>k s. balances_in c k s < 2 ^ 64"
  shows "cache_ok (snd (removeBalance x c)) \<and> (\<forall>k s. balances_in (snd (removeBalance x c)) k s \<le> balances_in c k s + 1)
    \<and> fst (removeBalance x c) \<in> {None, Some RemoveContractNotFound, Some RemoveOwnerNotFound, Some RemoveSymbolNotFound}"
proof -
  define k s ow where "k = ea_Contract (oa_Asset x)" and "s = sym_Symbol (asset_symbol x)" and "ow = oa_Owner x"
  define upd where "upd as = filter (\<lambda>a. asset_symbol a \<noteq> asset_symbol x) as" for as
  have b: "balances_ok c" using ok by (simp add: cache_ok_def)
  have r: "removeBalance x c =
      (case Balances c k of
         None \<Rightarrow> (Some RemoveContractNotFound, c)
       | Some m \<Rightarrow>
           (case m ow of
              None \<Rightarrow> (Some RemoveOwnerNotFound, c)
            | Some as \<Rightarrow>
                if int (length (upd as)) = int (length as) - 1
                then setTokenHolders (- 1) s k (store k ow (if upd as = [] then None else Some (upd as)) c)
                else (Some RemoveSymbolNotFound, c)))"
    unfolding removeBalance_def Let_def k_def s_def ow_def upd_def store_def by_owner_def
    by (simp split: option.split)
  show ?thesis
  proof (cases "\<exists>m as. Balances c k = Some m \<and> m ow = Some as \<and> int (length (upd as)) = int (length as) - 1")
    case False
    then show ?thesis using ok by (auto simp: r split: option.splits)
  next
    case True
    then obtain m as where m: "Balances c k = Some m" "m ow = Some as" "length as = length (upd as) + 1" by force
    have bo: "by_owner c k ow = Some as" using m by (simp add: by_owner_def)
    then have o: "owner_ok c k ow as" using by_owner_ok [OF b] by simp
    have "as \<noteq> upd as" using m(3) by auto
    then obtain a where a: "a \<in> set as" "asset_symbol a = asset_symbol x"
      unfolding upd_def by (metis (mono_tags, lifting) filter_True)
    let ?v = "if upd as = [] then None else Some (upd as)"
    have cv: "count_opt s' ?v = count_symbol s' (upd as)" for s' by (simp add: count_opt_def)
    have "length (filter (\<lambda>a. asset_symbol a = asset_symbol x) as) = 1"
      using m(3) sum_length_filter_compl [of "\<lambda>a. asset_symbol a = asset_symbol x" as] by (simp add: upd_def)
    then obtain a' where one: "filter (\<lambda>a. asset_symbol a = asset_symbol x) as = [a']" by (auto simp: length_Suc_conv)
    then have "a' \<in> set (filter (\<lambda>a. asset_symbol a = asset_symbol x) as)" by simp
    then have a': "asset_symbol a' = asset_symbol x" by simp
    have cnt: "count_symbol s' as = count_symbol s' (upd as) + (if s' = s then 1 else 0)" for s'
    proof -
      have "count_symbol s' as = count_symbol s' (filter (\<lambda>a. asset_symbol a = asset_symbol x) as) + count_symbol s' (upd as)"
        unfolding upd_def by (rule count_symbol_split)
      then show ?thesis using one a' by (auto simp: s_def)
    qed
    obtain h where h: "holders c k s = Some h" using o a by (auto simp: owner_ok_def s_def)
    have "owner_ok c k ow as' " if "?v = Some as'" for as'
      using that o by (auto simp: owner_ok_def upd_def distinct_map_filter split: if_splits)
    then obtain c' where "setTokenHolders (- 1) s k (store k ow ?v c) = (None, c')" "cache_ok c'"
      "\<forall>k' s'. balances_in c' k' s' \<le> balances_in c k' s' + 1"
      using store_counted [OF ok h, of ?v ow "- 1"] cnt cv room by (auto simp: bo count_opt_def [of _ "Some as"])
    then show ?thesis using m by (simp add: r)
  qed
qed

text \<open>Setting a token keeps its counter; a token that is new has no balances yet.\<close>

lemma setToken_ok:
  assumes ok: "cache_ok c"
  shows "cache_ok (snd (setToken t c)) \<and> balances_in (snd (setToken t c)) = balances_in c \<and> fst (setToken t c) = None"
proof -
  define ts where "ts = (case TokensInContract c (tok_Contract t) of None \<Rightarrow> [] | Some ts \<Rightarrow> ts)"
  define h where "h = (case find_last (\<lambda>u. tok_Symbol u = tok_Symbol t) ts of None \<Rightarrow> 0 | Some u \<Rightarrow> tok_Holders u)"
  define ts' where "ts' = filter (\<lambda>u. tok_Symbol u \<noteq> tok_Symbol t) ts @ [t\<lparr>tok_Holders := h\<rparr>]"
  define c' where "c' = c\<lparr>TokensInContract := (TokensInContract c)(tok_Contract t \<mapsto> ts')\<rparr>"
  have r: "setToken t c = (None, c')"
    by (simp add: setToken_def Let_def c'_def ts'_def h_def ts_def)
  have tk: "distinct (map tok_Symbol ts)" "\<forall>u\<in>set ts. tok_Contract u = tok_Contract t"
    using ok by (cases "TokensInContract c (tok_Contract t)"; auto simp: cache_ok_def tokens_ok_def ts_def)+
  have hs: "holders c (tok_Contract t) s = map_option tok_Holders (find (\<lambda>u. tok_Symbol u = s) ts)" for s
    by (simp add: holders_def TokenContract_def ts_def split: option.split)
  have find_other: "find (\<lambda>u. tok_Symbol u = s) (filter (\<lambda>u. tok_Symbol u \<noteq> tok_Symbol t) us) = find (\<lambda>u. tok_Symbol u = s) us"
    if "s \<noteq> tok_Symbol t" for s us
    using that by (induction us) auto
  have find_self: "find (\<lambda>u. tok_Symbol u = tok_Symbol t) (filter (\<lambda>u. tok_Symbol u \<noteq> tok_Symbol t) us) = None" for us
    by (induction us) auto
  have h': "holders c' k s = (if k = tok_Contract t \<and> s = tok_Symbol t then Some h else holders c k s)" for k s
  proof (cases "k = tok_Contract t")
    case True
    have "holders c' k s = map_option tok_Holders (find (\<lambda>u. tok_Symbol u = s) ts')"
      using True by (simp add: holders_def TokenContract_def c'_def)
    then show ?thesis
      using True hs [of s] find_other [of s ts] find_self [of ts]
      by (auto simp: ts'_def find_append split: option.split)
  qed (simp add: holders_def TokenContract_def c'_def)
  have bs: "balances_in c' = balances_in c" by (simp add: c'_def balances_in_def fun_eq_iff)
  have "h = of_nat (balances_in c (tok_Contract t) (tok_Symbol t))"
  proof (cases "find_last (\<lambda>u. tok_Symbol u = tok_Symbol t) ts")
    case None
    then have no: "holders c (tok_Contract t) (tok_Symbol t) = None"
      by (simp add: hs find_None_iff find_last_None_iff)
    have "count_symbol (tok_Symbol t) as = 0" if "by_owner c (tok_Contract t) ow = Some as" for ow as
      using by_owner_ok [OF _ that] ok no by (auto simp: cache_ok_def owner_ok_def count_symbol_def filter_empty_conv)
    then have "balances_in c (tok_Contract t) (tok_Symbol t) = 0"
      unfolding balances_in_by_owner total_def by (intro sum.neutral) auto
    then show ?thesis using None by (simp add: h_def)
  next
    case (Some u)
    then have u: "u \<in> set ts" "tok_Symbol u = tok_Symbol t" by (auto dest: find_last_SomeD)
    then obtain v where v: "find (\<lambda>w. tok_Symbol w = tok_Symbol t) ts = Some v"
      by (cases "find (\<lambda>w. tok_Symbol w = tok_Symbol t) ts") (auto simp: find_None_iff)
    then have "v \<in> set ts" "tok_Symbol v = tok_Symbol t" by (auto simp: find_Some_iff)
    then have "v = u" using u tk(1) by (metis (mono_tags, lifting) distinct_map inj_onD)
    then have "holders c (tok_Contract t) (tok_Symbol t) = Some h" using v Some by (simp add: hs h_def)
    then show ?thesis using ok by (simp add: cache_ok_def holders_ok_def)
  qed
  then have "holders_ok c'" using ok by (auto simp: holders_ok_def h' bs cache_ok_def split: if_splits)
  moreover have "tokens_ok c'"
    using ok tk by (auto simp: tokens_ok_def c'_def ts'_def cache_ok_def distinct_map_filter)
  moreover have "owner_ok c' k ow as" if "owner_ok c k ow as" for k ow as
    using that by (auto simp: owner_ok_def h')
  then have "balances_ok c'" using ok by (simp add: balances_ok_def cache_ok_def c'_def)
  moreover have "stakes_ok c'" using ok by (simp add: stakes_ok_def cache_ok_def c'_def)
  ultimately show ?thesis by (simp add: r cache_ok_def bs)
qed

lemma setContract_ok:
  assumes ok: "cache_ok c"
  shows "cache_ok (snd (setContract k c)) \<and> balances_in (snd (setContract k c)) = balances_in c
    \<and> fst (setContract k c) \<in> {None, Some KnownContract}"
proof (cases "TokensInContract c k")
  case None
  define c' where "c' = c\<lparr>TokensInContract := (TokensInContract c)(k \<mapsto> [])\<rparr>"
  have h: "holders c' = holders c" using None by (auto simp: fun_eq_iff holders_def TokenContract_def c'_def)
  then have "cache_ok c'"
    using ok unfolding cache_ok_def
    by (auto simp: tokens_ok_def balances_ok_def owner_ok_def holders_ok_def stakes_ok_def balances_in_def c'_def)
  then show ?thesis using None by (simp add: setContract_def c'_def balances_in_def fun_eq_iff)
qed (use ok in \<open>simp add: setContract_def\<close>)

lemma setStake_ok:
  assumes ok: "cache_ok c"
  shows "cache_ok (snd (setStake st c)) \<and> balances_in (snd (setStake st c)) = balances_in c \<and> fst (setStake st c) = None"
proof -
  have same: "holders (c\<lparr>EOSStakes := x\<rparr>) = holders c" "balances_in (c\<lparr>EOSStakes := x\<rparr>) = balances_in c" for x
    by (simp_all add: fun_eq_iff holders_def TokenContract_def balances_in_def)
  have "stakes_ok (snd (setStake st c))"
  proof (cases "EOSStakes c (se_From st)")
    case None
    then show ?thesis using ok by (simp add: setStake_def stakes_ok_def cache_ok_def)
  next
    case (Some s)
    then have s: "finite (dom (Entries s))"
      "TotalNet s = (\<Sum>to\<in>dom (Entries s). se_Net (the (Entries s to)))" "TotalCpu s = (\<Sum>to\<in>dom (Entries s). se_Cpu (the (Entries s to)))"
      using ok by (auto simp: stakes_ok_def cache_ok_def)
    have "(\<Sum>to\<in>dom ((Entries s)(se_To st \<mapsto> st)). g (the (((Entries s)(se_To st \<mapsto> st)) to))) =
        (\<Sum>to\<in>dom (Entries s). g (the (Entries s to))) - (case Entries s (se_To st) of None \<Rightarrow> 0 | Some x \<Rightarrow> g x) + g st" for g :: "EOSStakeEntry \<Rightarrow> u64"
      using sum_map_upd(1) [OF s(1), where g = g and k = "se_To st" and v = st] sum_map_upd(2) [OF s(1), where g = g and k = "se_To st"]
      by (simp del: fun_upd_apply dom_fun_upd)
    moreover have "finite (dom ((Entries s)(se_To st \<mapsto> st)))" using s(1) by simp
    ultimately show ?thesis
      using ok Some s
      by (auto simp: setStake_def stakes_ok_def cache_ok_def Let_def simp del: dom_fun_upd split: option.split)
  qed
  then show ?thesis
    using ok by (auto simp: cache_ok_def setStake_def tokens_ok_def balances_ok_def owner_ok_def holders_ok_def same)
qed

text \<open>Only a stake mutation changes the stakes.\<close>

lemma setTokenHolders_stakes: "EOSStakes (snd (setTokenHolders d s k c)) = EOSStakes c"
  by (simp add: setTokenHolders_def split: option.split sum.split)

lemma apply_mutations_stakes:
  assumes "\<And>st. SetStakeMutation st \<notin> set ms"
  shows "EOSStakes (snd (apply_mutations ms c)) = EOSStakes c"
  using assms
proof (induction ms arbitrary: c)
  case (Cons m ms)
  have "EOSStakes (snd (apply_mutation m c)) = EOSStakes c"
    using Cons.prems
    by (cases m) (auto simp: setBalance_def removeBalance_def setToken_def setContract_def Let_def setTokenHolders_stakes
        split: option.split)
  then show ?case using Cons.IH Cons.prems by (simp add: case_prod_unfold Let_def)
qed simp

lemma apply_mutation_ok:
  assumes ok: "cache_ok c" and room: "room (Suc n) c"
  shows "cache_ok (snd (apply_mutation m c)) \<and> room n (snd (apply_mutation m c))
    \<and> fst (apply_mutation m c) \<notin> {Some HoldersContractMissing, Some HoldersBelowZero, Some HoldersTokenMissing}"
proof -
  have lt: "balances_in c k s < 2 ^ 64" "balances_in c k s + Suc n < 2 ^ 64" for k s
    using room unfolding room_def by (metis add_lessD1)+
  have up: "room n c'" if "\<forall>k s. balances_in c' k s \<le> balances_in c k s + 1" for c'
    using that lt(2) unfolding room_def by (metis add.assoc add_Suc_right add_le_mono1 order_le_less_trans plus_1_eq_Suc add.commute)
  have same: "room n c'" if "balances_in c' = balances_in c" for c' using up that by simp
  show ?thesis
  proof (cases m)
    case (SetBalanceMutation a)
    show ?thesis using setBalance_ok [OF ok, of "balance_arg a"] up by (auto simp: SetBalanceMutation)
  next
    case (RemoveBalanceMutation a)
    show ?thesis using removeBalance_ok [OF ok lt(1), of "balance_arg a"] up by (auto simp: RemoveBalanceMutation)
  next
    case (SetTokenMutation t)
    show ?thesis using setToken_ok [OF ok, of t] same by (auto simp: SetTokenMutation)
  next
    case (SetStakeMutation st)
    show ?thesis using setStake_ok [OF ok, of st] same by (auto simp: SetStakeMutation)
  next
    case (SetContractMutation k)
    show ?thesis using setContract_ok [OF ok, of k] same by (auto simp: SetContractMutation)
  qed
qed

lemma apply_mutations_ok:
  assumes "cache_ok c" and "room (length ms) c"
  shows "cache_ok (snd (apply_mutations ms c))
    \<and> set (fst (apply_mutations ms c)) \<inter> {HoldersContractMissing, HoldersBelowZero, HoldersTokenMissing} = {}"
  using assms
proof (induction ms arbitrary: c)
  case (Cons m ms)
  obtain e c1 where m: "apply_mutation m c = (e, c1)" by fastforce
  obtain es c2 where ms: "apply_mutations ms c1 = (es, c2)" by fastforce
  have 1: "cache_ok c1 \<and> room (length ms) c1 \<and> e \<notin> {Some HoldersContractMissing, Some HoldersBelowZero, Some HoldersTokenMissing}"
    using apply_mutation_ok [OF Cons.prems(1), of "length ms" m] Cons.prems(2) m by simp
  then have "cache_ok c2 \<and> set es \<inter> {HoldersContractMissing, HoldersBelowZero, HoldersTokenMissing} = {}"
    using Cons.IH [of c1] ms by simp
  then show ?case using 1 m ms by (auto split: option.split)
qed simp

lemma at_block:
  "cache_ok (c\<lparr>AtBlock := x\<rparr>) = cache_ok c" "balances_in (c\<lparr>AtBlock := x\<rparr>) = balances_in c"
proof -
  have same: "holders (c\<lparr>AtBlock := x\<rparr>) = holders c" "balances_in (c\<lparr>AtBlock := x\<rparr>) = balances_in c"
    by (simp_all add: fun_eq_iff holders_def TokenContract_def balances_in_def)
  then show "cache_ok (c\<lparr>AtBlock := x\<rparr>) = cache_ok c" "balances_in (c\<lparr>AtBlock := x\<rparr>) = balances_in c"
    by (simp_all add: cache_ok_def tokens_ok_def balances_ok_def owner_ok_def holders_ok_def stakes_ok_def)
qed

lemma ApplyMutations_ok:
  assumes "cache_ok c" and "room (length batch) c"
  shows "cache_ok (snd (ApplyMutations batch blk c))
    \<and> set (fst (ApplyMutations batch blk c)) \<inter> {HoldersContractMissing, HoldersBelowZero, HoldersTokenMissing} = {}"
proof -
  obtain es c1 where r: "apply_mutations batch c = (es, c1)" by fastforce
  show ?thesis using apply_mutations_ok [OF assms] r by (simp add: ApplyMutations_def at_block)
qed

section \<open>Comparisons\<close>

lemma strings_Compare_0 [simp]: "strings_Compare a b = 0 \<longleftrightarrow> a = b"
  by (simp add: strings_Compare_def)

definition same_key :: "OwnedAsset \<Rightarrow> OwnedAsset \<Rightarrow> bool" where
  "same_key a b \<longleftrightarrow>
     sym_Symbol (asset_symbol a) = sym_Symbol (asset_symbol b) \<and> ea_Contract (oa_Asset a) = ea_Contract (oa_Asset b)
     \<and> oa_Owner a = oa_Owner b"

lemma compare_same_key:
  "same_key a b \<Longrightarrow> compareOwnedAssetBySymbol fuel a b order = None"
  "same_key a b \<Longrightarrow> compareOwnedAssetByAccount fuel a b order = None"
  by (induction fuel a b order and fuel a b order rule: compareOwnedAssetBySymbol_compareOwnedAssetByAccount.induct)
    (simp_all add: same_key_def)

lemma compare_two_steps:
  assumes "\<not> same_key a b"
  shows "\<exists>r. \<forall>n. compareOwnedAssetBySymbol (n + 2) a b order = Some r"
    and "\<exists>r. \<forall>n. compareOwnedAssetByAccount (n + 2) a b order = Some r"
  using assms
  by (cases "oa_Owner a = oa_Owner b"; cases "ea_Contract (oa_Asset a) = ea_Contract (oa_Asset b)";
      cases "sym_Symbol (asset_symbol a) = sym_Symbol (asset_symbol b)"; simp add: same_key_def Let_def numeral_2_eq_2)+

text \<open>C40: the comparisons of owned assets, which call each other, return exactly for assets that
  differ in the symbol, the contract or the owner, and then after two calls at most. For two assets
  with the same three keys they call each other forever; the cache holds such assets when an account
  has balances of one symbol with different precisions.\<close>

theorem compare_assets_terminates:
  "((\<exists>fuel r. compareOwnedAssetBySymbol fuel a b order = Some r) \<longleftrightarrow> \<not> same_key a b)
   \<and> ((\<exists>fuel r. compareOwnedAssetByAccount fuel a b order = Some r) \<longleftrightarrow> \<not> same_key a b)
   \<and> ((\<exists>r. \<forall>n. compareOwnedAssetBySymbol (n + 2) a b order = Some r) \<longleftrightarrow> \<not> same_key a b)
   \<and> ((\<exists>r. \<forall>n. compareOwnedAssetByAccount (n + 2) a b order = Some r) \<longleftrightarrow> \<not> same_key a b)"
proof (cases "same_key a b")
  case True
  then show ?thesis using compare_same_key [of a b] by simp
next
  case False
  then show ?thesis using compare_two_steps [of a b order] by blast
qed

definition sample_balance :: "string \<Rightarrow> u32 \<Rightarrow> AccountBalance" where
  "sample_balance account precision =
     \<lparr>ab_TokenContract = ''eosio.token'', ab_Account = account, ab_Amount = 5, ab_Precision = precision, ab_Symbol = ''EOS''\<rparr>"

definition sample_ref :: BlockRef where
  "sample_ref = \<lparr>ref_ID = ''00'', ref_Num = 0\<rparr>"

text \<open>Two balances of one symbol with different precisions are both kept and both counted.\<close>

lemma two_precisions:
  "case Balances (NewDefaultCacheWithData
      [\<lparr>tok_Contract = ''eosio.token'', tok_Symbol = ''EOS'', tok_Precision = 4, tok_Issuer = ''eosio'',
        tok_MaximumSupply = 100, tok_TotalSupply = 10, tok_Holders = 0\<rparr>]
      [sample_balance ''alice'' 4, sample_balance ''alice'' 5] [] sample_ref '''') ''eosio.token'' of
     None \<Rightarrow> False
   | Some m \<Rightarrow> (case m ''alice'' of Some [a, b] \<Rightarrow> same_key a b | _ \<Rightarrow> False)"
  by code_simp

end
