(* ===== verification/TokenMeta.thy ===== *)
theory TokenMeta
  imports TokenCacheProps
begin

text \<open>
  The token metadata service, \<open>tokenmeta\<close>: every irreversible block is searched for new token contracts
  (\<open>setabi\<close> actions) and for changes of the tables of the known ones, which become a batch of mutations
  of the cache. The state is the cache, the ABIs already fetched and the last saved file. Decoding
  (ABIs, table rows, JSON, names) belongs to other packages and is the record \<open>tokenmeta_env\<close>.
  A nil byte slice is an empty one, as the decoded messages have it.
\<close>

section \<open>Decoding\<close>

record abi_field =
  fld_Name :: string
  fld_Type :: string

record tok_abi =
  abi_Tables :: "(string \<times> string) list"
  abi_Structs :: "(string \<times> abi_field list) list"

record eos_asset =
  ast_Amount :: u64
  ast_Symbol :: Symbol

record EOSStakeDbRow =
  sr_CPUWeight :: eos_asset
  sr_NetWeight :: eos_asset
  sr_To :: string
  sr_From :: string

record statDbRow =
  st_Issuer :: string
  st_MaxSupply :: eos_asset
  st_Supply :: eos_asset

record tokenmeta_env =
  tm_Get :: "string \<Rightarrow> string \<Rightarrow> string option"
  tm_UnmarshalBinary :: "bytes \<Rightarrow> tok_abi option"
  tm_UnmarshalJSON :: "string \<Rightarrow> tok_abi option"
  tm_GetAbi :: "string \<Rightarrow> u32 \<Rightarrow> (string \<times> u32) option"
  tm_DecodeTableRow :: "tok_abi \<Rightarrow> string \<Rightarrow> bytes \<Rightarrow> string option"
  tm_NameToSymbolCode :: "string \<Rightarrow> string option"
  tm_accountsRow :: "string \<Rightarrow> eos_asset option"
  tm_stakeRow :: "string \<Rightarrow> EOSStakeDbRow option"
  tm_statRow :: "string \<Rightarrow> statDbRow option"
  tm_fileWritten :: "DefaultCache \<Rightarrow> bool"

definition accountsRow_valid :: "eos_asset \<Rightarrow> bool" where
  "accountsRow_valid balance \<longleftrightarrow> sym_Symbol (ast_Symbol balance) \<noteq> ''''"

definition stakeRow_valid :: "EOSStakeDbRow \<Rightarrow> bool" where
  "stakeRow_valid r \<longleftrightarrow> sym_Symbol (ast_Symbol (sr_CPUWeight r)) \<noteq> '''' \<and> sym_Symbol (ast_Symbol (sr_NetWeight r)) \<noteq> ''''"

definition statRow_valid :: "statDbRow \<Rightarrow> bool" where
  "statRow_valid r \<longleftrightarrow> st_Issuer r \<noteq> '''' \<and> sym_Symbol (ast_Symbol (st_Supply r)) \<noteq> ''''"

record abiItem =
  ai_abi :: tok_abi
  ai_blockNum :: u32

record TokenMeta =
  tm_cache :: DefaultCache
  abisCache :: "string \<rightharpoonup> abiItem"
  saveEveryNBlock :: u32
  tm_file :: "DefaultCache option"

definition NewTokenMeta :: "DefaultCache \<Rightarrow> u32 \<Rightarrow> TokenMeta" where
  "NewTokenMeta cache n = \<lparr>tm_cache = cache, abisCache = Map.empty, saveEveryNBlock = n, tm_file = None\<rparr>"

text \<open>The block number matters for the first lookup of a contract only.\<close>

definition getABI :: "tokenmeta_env \<Rightarrow> string \<Rightarrow> u32 \<Rightarrow> TokenMeta \<Rightarrow> tok_abi option \<times> TokenMeta" where
  "getABI env contract blockNum t =
     (case abisCache t contract of
        Some item \<Rightarrow> (Some (ai_abi item), t)
      | None \<Rightarrow>
          (case tm_GetAbi env contract blockNum of
             None \<Rightarrow> (None, t)
           | Some (payload, abiBlockNum) \<Rightarrow>
               (case tm_UnmarshalJSON env payload of
                  None \<Rightarrow> (None, t)
                | Some abi \<Rightarrow>
                    (Some abi, t\<lparr>abisCache := (abisCache t)(contract \<mapsto> \<lparr>ai_abi = abi, ai_blockNum = abiBlockNum\<rparr>)\<rparr>))))"

definition decodeTableRow :: "tokenmeta_env \<Rightarrow> bytes \<Rightarrow> string \<Rightarrow> tok_abi \<Rightarrow> string option" where
  "decodeTableRow env data tableName abi = tm_DecodeTableRow env abi tableName data"

definition decodeDBOpToRow :: "tokenmeta_env \<Rightarrow> bytes \<Rightarrow> string \<Rightarrow> string \<Rightarrow> u32 \<Rightarrow> TokenMeta \<Rightarrow> string option \<times> TokenMeta" where
  "decodeDBOpToRow env data tableName contract blockNum t =
     (case getABI env contract blockNum t of
        (None, t1) \<Rightarrow> (None, t1)
      | (Some abi, t1) \<Rightarrow> (decodeTableRow env data tableName abi, t1))"

definition getStakeEntryFromDBRow :: "tokenmeta_env \<Rightarrow> string \<Rightarrow> EOSStakeEntry option" where
  "getStakeEntryFromDBRow env dbRow =
     (case tm_stakeRow env dbRow of
        None \<Rightarrow> None
      | Some r \<Rightarrow>
          if stakeRow_valid r
          then Some \<lparr>se_To = sr_To r, se_From = sr_From r, se_Net = ast_Amount (sr_NetWeight r), se_Cpu = ast_Amount (sr_CPUWeight r)\<rparr>
          else None)"

definition getAccountBalanceFromDBRow :: "tokenmeta_env \<Rightarrow> string \<Rightarrow> Symbol \<Rightarrow> string \<Rightarrow> string \<Rightarrow> AccountBalance option" where
  "getAccountBalanceFromDBRow env contract symbol scope dbRow =
     (case tm_accountsRow env dbRow of
        None \<Rightarrow> None
      | Some balance \<Rightarrow>
          if accountsRow_valid balance
          then Some \<lparr>ab_TokenContract = contract, ab_Account = scope, ab_Amount = ast_Amount balance,
            ab_Precision = ucast (sym_Precision (ast_Symbol balance)), ab_Symbol = sym_Symbol symbol\<rparr>
          else None)"

definition getTokenFromDBRow :: "tokenmeta_env \<Rightarrow> string \<Rightarrow> Symbol option \<Rightarrow> string \<Rightarrow> Token option" where
  "getTokenFromDBRow env contract symbol dbRow =
     (case tm_statRow env dbRow of
        None \<Rightarrow> None
      | Some r \<Rightarrow>
          let sy = (case symbol of None \<Rightarrow> ast_Symbol (st_Supply r) | Some s \<Rightarrow> s)
          in if statRow_valid r
             then Some \<lparr>tok_Contract = contract, tok_Symbol = sym_Symbol sy, tok_Precision = ucast (sym_Precision sy),
               tok_Issuer = st_Issuer r, tok_MaximumSupply = ast_Amount (st_MaxSupply r), tok_TotalSupply = ast_Amount (st_Supply r),
               tok_Holders = 0\<rparr>
             else None)"

section \<open>Token contracts\<close>

record contractStats =
  hasAccountsTable :: bool
  hasStatsTable :: bool
  isTokenContract :: bool

text \<open>The last table of each name gives the type.\<close>

definition table_type :: "string \<Rightarrow> tok_abi \<Rightarrow> string option" where
  "table_type name abi = map_option snd (find_last (\<lambda>tbl. fst tbl = name) (abi_Tables abi))"

definition account_fields :: "string \<Rightarrow> string \<times> abi_field list \<Rightarrow> bool" where
  "account_fields accountStruct s \<longleftrightarrow> fst s = accountStruct \<and> snd s \<noteq> [] \<and> fld_Type (hd (snd s)) = ''asset''"

definition stat_fields :: "string \<Rightarrow> string \<times> abi_field list \<Rightarrow> bool" where
  "stat_fields statStruct s \<longleftrightarrow>
     fst s = statStruct \<and> length (snd s) > 2
     \<and> fld_Name (snd s ! 0) = ''supply'' \<and> fld_Name (snd s ! 1) = ''max_supply'' \<and> fld_Name (snd s ! 2) = ''issuer''"

definition getTokenContractStats :: "tokenmeta_env \<Rightarrow> bytes + string \<Rightarrow> contractStats option" where
  "getTokenContractStats env rawABI =
     (case (case rawABI of Inl b \<Rightarrow> tm_UnmarshalBinary env b | Inr j \<Rightarrow> tm_UnmarshalJSON env j) of
        None \<Rightarrow> None
      | Some abi \<Rightarrow>
          (case (table_type ''stat'' abi, table_type ''accounts'' abi) of
             (Some statStruct, Some accountStruct) \<Rightarrow>
               Some \<lparr>hasAccountsTable = True, hasStatsTable = True,
                 isTokenContract = list_ex (stat_fields statStruct) (abi_Structs abi) \<and> list_ex (account_fields accountStruct) (abi_Structs abi)\<rparr>
           | (stat, accounts) \<Rightarrow>
               Some \<lparr>hasAccountsTable = (accounts \<noteq> None), hasStatsTable = (stat \<noteq> None), isTokenContract = False\<rparr>))"

section \<open>Blocks\<close>

definition AccountsTable :: string where "AccountsTable = ''accounts''"
definition StatTable :: string where "StatTable = ''stat''"
definition EOSStakeTable :: string where "EOSStakeTable = ''delband''"

definition shouldProcessDbop :: "DBOp \<Rightarrow> (u32 \<Rightarrow> bool) \<Rightarrow> bool" where
  "shouldProcessDbop dbop matched \<longleftrightarrow>
     matched (db_ActionIndex dbop) \<and> (db_TableName dbop = AccountsTable \<or> db_TableName dbop = StatTable)"

definition shouldProcessAction :: "ActionTrace \<Rightarrow> (u32 \<Rightarrow> bool) \<Rightarrow> bool" where
  "shouldProcessAction actTrace matched \<longleftrightarrow>
     matched (at_ExecutionIndex actTrace) \<and> at_Receiver actTrace = ''eosio'' \<and> act_Account (at_Action actTrace) = ''eosio''
     \<and> act_Name (at_Action actTrace) = ''setabi''"

definition TokenToEOSSymbol :: "Token \<Rightarrow> Symbol" where
  "TokenToEOSSymbol e = \<lparr>sym_Precision = ucast (tok_Precision e), sym_Symbol = tok_Symbol e\<rparr>"

text \<open>A \<open>setabi\<close> action that passed \<open>shouldProcessAction\<close>.\<close>

definition process_setabi :: "tokenmeta_env \<Rightarrow> Block \<Rightarrow> ActionTrace \<Rightarrow> TokenMeta \<Rightarrow> TokenMeta" where
  "process_setabi env blk actTrace t =
     (let json = act_JsonData (at_Action actTrace);
          account = (case tm_Get env json ''account'' of None \<Rightarrow> '''' | Some a \<Rightarrow> a)
      in case tm_Get env json ''abi'' of
           None \<Rightarrow> t
         | Some hexData \<Rightarrow>
             if hexData = '''' then t
             else (case hex_DecodeString hexData of
                     None \<Rightarrow> t
                   | Some abiData \<Rightarrow>
                       (case getTokenContractStats env (Inl abiData) of
                          None \<Rightarrow> t
                        | Some stats \<Rightarrow>
                            if isTokenContract stats \<and> \<not> IsTokenContract account (tm_cache t)
                            then t\<lparr>tm_cache := snd (ApplyMutations (batch_SetContract account []) (AsRef blk) (tm_cache t))\<rparr>
                            else t)))"

text \<open>The mutation of a changed row of a table of tokens.\<close>

definition row_mutation :: "tokenmeta_env \<Rightarrow> DefaultCache \<Rightarrow> DBOp \<Rightarrow> string \<Rightarrow> string \<Rightarrow> MutationsBatch \<Rightarrow> MutationsBatch" where
  "row_mutation env c dbop symbolCode row muts =
     (let contract = db_Code dbop; isEOSStake = (contract = ''eosio'' \<and> db_TableName dbop = EOSStakeTable)
      in if db_TableName dbop = EOSStakeTable
         then if \<not> isEOSStake then muts
              else (case getStakeEntryFromDBRow env row of None \<Rightarrow> muts | Some e \<Rightarrow> batch_SetStake e muts)
         else if db_TableName dbop = AccountsTable
         then (case TokenContract contract symbolCode c of
                 None \<Rightarrow> muts
               | Some eosToken \<Rightarrow>
                   (case getAccountBalanceFromDBRow env contract (TokenToEOSSymbol eosToken) (db_Scope dbop) row of
                      None \<Rightarrow> muts
                    | Some bal \<Rightarrow> if db_NewData dbop = [] then batch_RemoveBalance bal muts else batch_SetBalance bal muts))
         else if db_TableName dbop = StatTable
         then (case getTokenFromDBRow env contract (map_option TokenToEOSSymbol (TokenContract contract symbolCode c)) row of
                 None \<Rightarrow> muts
               | Some token \<Rightarrow> batch_SetToken token muts)
         else muts)"

definition process_dbop ::
  "tokenmeta_env \<Rightarrow> u32 \<Rightarrow> (u32 \<Rightarrow> bool) \<Rightarrow> DBOp \<Rightarrow> MutationsBatch \<times> TokenMeta \<Rightarrow> MutationsBatch \<times> TokenMeta" where
  "process_dbop env blockNum matched dbop = (\<lambda>(muts, t).
     let contract = db_Code dbop; isEOSStake = (contract = ''eosio'' \<and> db_TableName dbop = EOSStakeTable)
     in if \<not> shouldProcessDbop dbop matched then (muts, t)
        else if \<not> IsTokenContract contract (tm_cache t) \<and> \<not> isEOSStake then (muts, t)
        else case tm_NameToSymbolCode env (db_PrimaryKey dbop) of
               None \<Rightarrow> (muts, t)
             | Some symbolCode \<Rightarrow>
                 (case decodeDBOpToRow env (if db_NewData dbop = [] then db_OldData dbop else db_NewData dbop)
                         (db_TableName dbop) contract blockNum t of
                    (None, t1) \<Rightarrow> (muts, t1)
                  | (Some row, t1) \<Rightarrow> (row_mutation env (tm_cache t1) dbop symbolCode row muts, t1)))"

definition process_trx ::
  "tokenmeta_env \<Rightarrow> Block \<Rightarrow> TransactionTrace \<Rightarrow> MutationsBatch \<times> TokenMeta \<Rightarrow> MutationsBatch \<times> TokenMeta" where
  "process_trx env blk trx = (\<lambda>(muts, t).
     let matched = FilteringActionMatcher blk trx [];
         t1 = fold (\<lambda>act t. if shouldProcessAction act matched then process_setabi env blk act t else t) (tt_ActionTraces (trace_of trx)) t
     in fold (process_dbop env (blk_Number blk) matched) (tt_DbOps (trace_of trx)) (muts, t1))"

definition SaveToFile :: "tokenmeta_env \<Rightarrow> TokenMeta \<Rightarrow> TokenMeta" where
  "SaveToFile env t =
     (if cacheFilePath (tm_cache t) = '''' \<or> \<not> tm_fileWritten env (tm_cache t) then t
      else t\<lparr>tm_file := Some (tm_cache t)\<rparr>)"

definition TokenMeta_ProcessBlock :: "tokenmeta_env \<Rightarrow> Block \<Rightarrow> TokenMeta \<Rightarrow> TokenMeta" where
  "TokenMeta_ProcessBlock env blk t =
     (let (muts, t1) = fold (process_trx env blk) (TransactionTraces blk) ([], t);
          t2 = t1\<lparr>tm_cache := snd (ApplyMutations muts (AsRef blk) (tm_cache t1))\<rparr>
      in if saveEveryNBlock t2 \<noteq> 0 \<and> blk_Number blk mod saveEveryNBlock t2 = 0 then SaveToFile env t2 else t2)"

section \<open>Consistency\<close>

definition trace_dbops :: "TransactionTrace list \<Rightarrow> DBOp list" where
  "trace_dbops trxs = concat (map (\<lambda>trx. tt_DbOps (trace_of trx)) trxs)"

text \<open>What holds while a block is processed, after at most \<open>n\<close> rows: the cache is consistent with
  unchanged balances and stakes, and the batch has no stakes.\<close>

definition batch_inv :: "DefaultCache \<Rightarrow> nat \<Rightarrow> MutationsBatch \<times> TokenMeta \<Rightarrow> bool" where
  "batch_inv c n = (\<lambda>(muts, t).
     cache_ok (tm_cache t) \<and> balances_in (tm_cache t) = balances_in c \<and> EOSStakes (tm_cache t) = EOSStakes c
     \<and> length muts \<le> n \<and> (\<forall>st. SetStakeMutation st \<notin> set muts))"

lemma fold_counted:
  assumes "\<And>x n s. P n s \<Longrightarrow> P (n + g x) (f x s)" and "P n s"
  shows "P (n + sum_list (map g xs) :: nat) (fold f xs s)"
  using assms(2)
proof (induction xs arbitrary: n s)
  case (Cons x xs)
  show ?case using Cons.IH [OF assms(1) [OF Cons.prems], of x] by (simp add: add.assoc)
qed simp

lemma process_setabi_inv:
  assumes "batch_inv c n (muts, t)"
  shows "batch_inv c n (muts, process_setabi env blk act t)"
proof -
  have "cache_ok (snd (ApplyMutations (batch_SetContract k []) ref c')) \<and> balances_in (snd (ApplyMutations (batch_SetContract k []) ref c')) = balances_in c'
      \<and> EOSStakes (snd (ApplyMutations (batch_SetContract k []) ref c')) = EOSStakes c'" if "cache_ok c'" for k ref c'
    using setContract_ok [OF that, of k] at_block [where c = "snd (setContract k c')"]
    by (auto simp: ApplyMutations_def batch_SetContract_def case_prod_unfold Let_def setContract_def)
  then show ?thesis
    using assms by (auto simp: batch_inv_def process_setabi_def Let_def split: option.split)
qed

lemma decode_cache: "decodeDBOpToRow env data tbl contract n t = (r, t1) \<Longrightarrow> tm_cache t1 = tm_cache t"
  by (auto simp: decodeDBOpToRow_def getABI_def split: option.splits prod.splits)

lemma row_mutation_inv:
  assumes "shouldProcessDbop dbop matched" and "\<forall>st. SetStakeMutation st \<notin> set muts"
  shows "length (row_mutation env c dbop sc row muts) \<le> Suc (length muts)
    \<and> (\<forall>st. SetStakeMutation st \<notin> set (row_mutation env c dbop sc row muts))"
proof -
  have "db_TableName dbop \<noteq> EOSStakeTable"
    using assms(1) by (auto simp: shouldProcessDbop_def AccountsTable_def StatTable_def EOSStakeTable_def)
  then show ?thesis
    using assms(2)
    by (auto simp: row_mutation_def Let_def batch_RemoveBalance_def batch_SetBalance_def batch_SetToken_def split: option.split)
qed

lemma process_dbop_inv:
  assumes "batch_inv c n s"
  shows "batch_inv c (Suc n) (process_dbop env num matched dbop s)"
proof -
  obtain muts t where s: "s = (muts, t)" by fastforce
  show ?thesis
  proof (cases "shouldProcessDbop dbop matched")
    case True
    have "length (row_mutation env (tm_cache t) dbop sc row muts) \<le> Suc n
        \<and> (\<forall>st. SetStakeMutation st \<notin> set (row_mutation env (tm_cache t) dbop sc row muts))" for sc row
      using row_mutation_inv [OF True, of muts env "tm_cache t" sc row] assms s
      by (auto simp: batch_inv_def)
    then show ?thesis
      using assms
      by (cases "\<not> IsTokenContract (db_Code dbop) (tm_cache t) \<and> \<not> (db_Code dbop = ''eosio'' \<and> db_TableName dbop = EOSStakeTable)")
        (auto simp: s process_dbop_def batch_inv_def Let_def True dest!: decode_cache
          split del: if_split split: option.split prod.split)
  next
    case False
    then show ?thesis using assms by (simp add: s process_dbop_def batch_inv_def)
  qed
qed

lemma process_trx_inv:
  assumes "batch_inv c n s"
  shows "batch_inv c (n + length (tt_DbOps (trace_of trx))) (process_trx env blk trx s)"
proof -
  obtain muts t where s: "s = (muts, t)" by fastforce
  let ?act = "\<lambda>act t. if shouldProcessAction act (FilteringActionMatcher blk trx []) then process_setabi env blk act t else t"
  have "batch_inv c n (muts, fold ?act acts t')" if "batch_inv c n (muts, t')" for acts t'
    using that by (induction acts arbitrary: t') (auto simp: process_setabi_inv)
  then have 1: "batch_inv c n (muts, fold ?act (tt_ActionTraces (trace_of trx)) t)" using assms s by simp
  have step: "batch_inv c m s' \<Longrightarrow> batch_inv c (m + 1) (process_dbop env num matched op s')" for m op s' num matched
    using process_dbop_inv [of c m s'] by simp
  show ?thesis
    using fold_counted [where P = "batch_inv c" and g = "\<lambda>_. 1" and f = "process_dbop env (blk_Number blk) (FilteringActionMatcher blk trx [])",
        OF step 1, where xs = "tt_DbOps (trace_of trx)"]
    by (simp add: s process_trx_def Let_def sum_list_triv)
qed

text \<open>C36: processing a block keeps the token cache consistent: the symbols of a contract are distinct,
  every balance belongs to its owner, its contract and a known token, the number of holders of a
  token is the number of balances in it, and the staked totals are the sums of the entries. The
  stakes never change, since the rows of \<open>delband\<close> are filtered out before their branch is reached. The
  hypothesis \<open>room\<close> says that the counters of the holders do not overflow.\<close>

theorem process_block_keeps_cache:
  assumes "cache_ok (tm_cache t)" and "room (length (trace_dbops (TransactionTraces blk))) (tm_cache t)"
  shows "cache_ok (tm_cache (TokenMeta_ProcessBlock env blk t))
    \<and> EOSStakes (tm_cache (TokenMeta_ProcessBlock env blk t)) = EOSStakes (tm_cache t)"
proof -
  obtain muts t1 where f: "fold (process_trx env blk) (TransactionTraces blk) ([], t) = (muts, t1)" by fastforce
  have 0: "batch_inv (tm_cache t) 0 ([], t)" using assms(1) by (simp add: batch_inv_def)
  have inv: "batch_inv (tm_cache t) (length (trace_dbops (TransactionTraces blk))) (muts, t1)"
    using fold_counted [where P = "batch_inv (tm_cache t)" and f = "process_trx env blk", OF process_trx_inv 0, where xs = "TransactionTraces blk"] f
    by (simp add: trace_dbops_def length_concat comp_def)
  then have "room (length muts) (tm_cache t1)"
    using assms(2) unfolding batch_inv_def room_def by (auto intro: le_less_trans [OF add_left_mono])
  then have "cache_ok (snd (ApplyMutations muts (AsRef blk) (tm_cache t1)))" using ApplyMutations_ok inv by (simp add: batch_inv_def)
  moreover have "EOSStakes (snd (ApplyMutations muts (AsRef blk) (tm_cache t1))) = EOSStakes (tm_cache t)"
    using apply_mutations_stakes [of muts "tm_cache t1"] inv
    by (simp add: batch_inv_def ApplyMutations_def case_prod_unfold Let_def)
  ultimately show ?thesis by (simp add: TokenMeta_ProcessBlock_def f SaveToFile_def Let_def)
qed

definition sample_token :: Token where
  "sample_token = \<lparr>tok_Contract = ''eosio.token'', tok_Symbol = ''EOS'', tok_Precision = 4, tok_Issuer = ''eosio'',
     tok_MaximumSupply = 100, tok_TotalSupply = 10, tok_Holders = 0\<rparr>"

definition sample_token_cache :: DefaultCache where
  "sample_token_cache = NewDefaultCacheWithData [sample_token] [] [] sample_ref ''''"

definition sample_tokenmeta_env :: tokenmeta_env where
  "sample_tokenmeta_env =
     \<lparr>tm_Get = (\<lambda>j p. None), tm_UnmarshalBinary = (\<lambda>b. None), tm_UnmarshalJSON = (\<lambda>j. Some \<lparr>abi_Tables = [], abi_Structs = []\<rparr>),
      tm_GetAbi = (\<lambda>c n. Some ('''', n)), tm_DecodeTableRow = (\<lambda>a t d. Some ''''), tm_NameToSymbolCode = (\<lambda>n. Some n),
      tm_accountsRow = (\<lambda>r. Some \<lparr>ast_Amount = 5, ast_Symbol = \<lparr>sym_Precision = 4, sym_Symbol = ''EOS''\<rparr>\<rparr>),
      tm_stakeRow = (\<lambda>r. None), tm_statRow = (\<lambda>r. None), tm_fileWritten = (\<lambda>c. True)\<rparr>"

definition sample_dbop :: "string \<Rightarrow> DBOp" where
  "sample_dbop owner =
     \<lparr>db_Operation = DBOp_OPERATION_INSERT, db_ActionIndex = 0, db_OldPayer = '''', db_NewPayer = owner, db_Code = ''eosio.token'',
      db_Scope = owner, db_TableName = ''accounts'', db_PrimaryKey = ''EOS'', db_OldData = [], db_NewData = [1]\<rparr>"

definition sample_token_block :: Block where
  "sample_token_block = empty_block\<lparr>blk_UnfilteredTransactionTraces :=
     [TransactionTrace (empty_trace_fields\<lparr>tt_DbOps := [sample_dbop ''alice'', sample_dbop ''bob'']\<rparr>) None]\<rparr>"

theorem process_block_keeps_cache_witness:
  "cache_ok (tm_cache (TokenMeta_ProcessBlock sample_tokenmeta_env sample_token_block (NewTokenMeta sample_token_cache 0)))
   \<and> holders (tm_cache (TokenMeta_ProcessBlock sample_tokenmeta_env sample_token_block (NewTokenMeta sample_token_cache 0))) ''eosio.token'' ''EOS'' = Some 2"
proof
  let ?t = "NewTokenMeta sample_token_cache 0"
  have "room (length [SetTokenMutation sample_token]) (NewDefaultCache '''')"
    by (simp add: room_def balances_in_def NewDefaultCache_def)
  from ApplyMutations_ok [OF token_cache_ok_new this, of sample_ref] have "cache_ok (tm_cache ?t)"
    by (simp add: NewTokenMeta_def sample_token_cache_def NewDefaultCacheWithData_def batch_SetToken_def)
  moreover have "Balances sample_token_cache = Map.empty"
    by (simp add: sample_token_cache_def NewDefaultCacheWithData_def batch_SetToken_def ApplyMutations_def setToken_def NewDefaultCache_def)
  then have "room (length (trace_dbops (TransactionTraces sample_token_block))) (tm_cache ?t)"
    by (simp add: room_def balances_in_def NewTokenMeta_def trace_dbops_def sample_token_block_def TransactionTraces_def empty_block_def)
  ultimately show "cache_ok (tm_cache (TokenMeta_ProcessBlock sample_tokenmeta_env sample_token_block ?t))"
    using process_block_keeps_cache [of ?t sample_token_block sample_tokenmeta_env] by simp
  show "holders (tm_cache (TokenMeta_ProcessBlock sample_tokenmeta_env sample_token_block ?t)) ''eosio.token'' ''EOS'' = Some 2"
    by code_simp
qed

end
