(* ===== verification/GoFormat.thy ===== *)
theory GoFormat
  imports KvStore
begin

text \<open>
  More of the Go library: printing and parsing of numbers in \<open>strconv\<close> and \<open>fmt\<close>, and the 16-bit integers of
  \<open>encoding/binary\<close>.
\<close>

type_synonym u16 = "16 word"

section \<open>Definitions\<close>

definition PutUint16 :: "u16 \<Rightarrow> bytes" where
  "PutUint16 v = map (\<lambda>i. ucast (drop_bit (8 * i) v)) (rev [0..<2])"

definition string_bytes :: "string \<Rightarrow> bytes" where
  "string_bytes s = map of_char s"

text \<open>\<open>strconv.FormatUint\<close> in base 10 and \<open>strconv.ParseUint\<close> in base 16.\<close>

fun format_nat :: "nat \<Rightarrow> string" where
  "format_nat n = (if n < 10 then [char_of (n + 48)] else format_nat (n div 10) @ [char_of (n mod 10 + 48)])"

fun hex_digits_val :: "nat \<Rightarrow> string \<Rightarrow> nat option" where
  "hex_digits_val acc [] = Some acc"
| "hex_digits_val acc (c # cs) = (case hex_val c of None \<Rightarrow> None | Some d \<Rightarrow> hex_digits_val (16 * acc + d) cs)"

definition ParseUintHex :: "string \<Rightarrow> u64 option" where
  "ParseUintHex s =
     (if s = [] then None
      else case hex_digits_val 0 s of None \<Rightarrow> None | Some v \<Rightarrow> if v < 18446744073709551616 then Some (of_nat v) else None)"

text \<open>The white space that \<open>TrimSpace\<close> removes from an ASCII text.\<close>

definition is_space :: "char \<Rightarrow> bool" where
  "is_space c \<longleftrightarrow> (of_char c :: nat) = 32 \<or> 9 \<le> (of_char c :: nat) \<and> (of_char c :: nat) \<le> 13"

definition TrimSpace :: "string \<Rightarrow> string" where
  "TrimSpace s = rev (dropWhile is_space (rev (dropWhile is_space s)))"

text \<open>\<open>strconv.ParseUint\<close> in base 16 with another bit size, and the verb \<open>%x\<close> of \<open>fmt\<close> with zero padding.\<close>

definition parse_hex_below :: "nat \<Rightarrow> string \<Rightarrow> nat option" where
  "parse_hex_below bound s =
     (if s = [] then None
      else case hex_digits_val 0 s of None \<Rightarrow> None | Some v \<Rightarrow> if v < bound then Some v else None)"

fun format_hex :: "nat \<Rightarrow> string" where
  "format_hex n = (if n < 16 then [hex_digit n] else format_hex (n div 16) @ [hex_digit (n mod 16)])"

definition format_hex_padded :: "nat \<Rightarrow> nat \<Rightarrow> string" where
  "format_hex_padded width n = replicate (width - length (format_hex n)) CHR ''0'' @ format_hex n"

section \<open>Lemmas\<close>

lemma length_PutUint16 [simp]: "length (PutUint16 v) = 2"
  by (simp add: PutUint16_def)

lemma be_val_PutUint16: "be_val (PutUint16 v) = unat v"
  using be_val_word_bytes [of v 2] unsigned_less [of v, where ?'a = nat] by (simp add: PutUint16_def)

lemma PutUint16_inject [simp]: "PutUint16 a = PutUint16 b \<longleftrightarrow> a = b"
  by (metis be_val_PutUint16 word_unat_eq_iff)

lemma of_nat_u16_inject:
  assumes "m \<le> 65535" and "n \<le> 65535"
  shows "(of_nat m :: u16) = of_nat n \<longleftrightarrow> m = n"
proof -
  have "unat (of_nat m :: u16) = m" "unat (of_nat n :: u16) = n" using assms by (simp_all add: unat_of_nat)
  then show ?thesis by metis
qed

lemma digits_val_snoc:
  "digits_val acc (xs @ [c]) = (case digits_val acc xs of None \<Rightarrow> None | Some v \<Rightarrow> map_option (\<lambda>d. 10 * v + d) (digit_val c))"
  by (induction xs arbitrary: acc) (auto split: option.split)

lemma digit_val_char: "n < 10 \<Longrightarrow> digit_val (char_of (n + 48)) = Some (int n)"
  by (simp add: digit_val_def)

declare format_nat.simps [simp del]

lemma digits_val_format: "digits_val 0 (format_nat n) = Some (int n)"
proof (induction n rule: format_nat.induct)
  case (1 n)
  show ?case
  proof (cases "n < 10")
    case True
    then show ?thesis by (simp add: format_nat.simps [of n] digit_val_char)
  next
    case False
    then have "digits_val 0 (format_nat (n div 10)) = Some (int (n div 10))" by (rule 1)
    then show ?thesis using False digit_val_char [of "n mod 10"]
      by (simp add: format_nat.simps [of n] digits_val_snoc del: of_nat_div of_nat_mod) presburger
  qed
qed

lemma ParseUint64_format [simp]: "ParseUint64 (format_nat (unat v)) = Some v"
proof -
  have "format_nat n \<noteq> []" for n by (simp add: format_nat.simps [of n])
  moreover have "int (unat v) < 18446744073709551616" using unsigned_less [of v, where ?'a = int] by simp
  ultimately show ?thesis by (simp add: ParseUint64_def parse_below_def digits_val_format)
qed

lemma hex_digits_val_encode:
  "hex_digits_val acc (hex_EncodeToString bs) = Some (acc * 256 ^ length bs + be_val bs)"
proof (induction bs arbitrary: acc)
  case (Cons b bs)
  have "unat b < 256" using unsigned_less [of b, where ?'a = nat] by simp
  then have "hex_val (hex_digit (unat b div 16)) = Some (unat b div 16)" "hex_val (hex_digit (unat b mod 16)) = Some (unat b mod 16)"
    by (simp_all add: hex_val_digit)
  moreover have "16 * (16 * acc + unat b div 16) + unat b mod 16 = 256 * acc + unat b" by presburger
  ultimately show ?case using Cons.IH by (simp add: algebra_simps)
qed simp

lemma be_val_inject: "length xs = length ys \<Longrightarrow> be_val xs = be_val ys \<longleftrightarrow> xs = ys"
  using be_val_order [of xs ys] be_val_order [of ys xs] by (metis linorder_less_linear order_less_irrefl)

lemma PutUint64_Uint64:
  assumes "length bs = 8"
  shows "PutUint64 (Uint64 bs) = bs"
proof -
  have "be_val bs < 2 ^ 64" using be_val_less [of bs] assms by simp
  then have "be_val (PutUint64 (Uint64 bs)) = be_val bs"
    using Uint64_be_val [OF assms, of "[]"] by (simp add: unat_of_nat)
  then show ?thesis using be_val_inject [of "PutUint64 (Uint64 bs)" bs] assms by simp
qed

declare format_hex.simps [simp del]

lemma hex_digits_val_append:
  "hex_digits_val acc (xs @ ys) = Option.bind (hex_digits_val acc xs) (\<lambda>v. hex_digits_val v ys)"
  by (induction xs arbitrary: acc) (auto split: option.split)

lemma hex_digits_val_format: "hex_digits_val 0 (format_hex n) = Some n"
proof (induction n rule: format_hex.induct)
  case (1 n)
  show ?case
  proof (cases "n < 16")
    case True
    then show ?thesis by (simp add: format_hex.simps [of n] hex_val_digit)
  next
    case False
    then have "hex_digits_val 0 (format_hex (n div 16)) = Some (n div 16)" by (rule 1)
    then show ?thesis using False by (simp add: format_hex.simps [of n] hex_digits_val_append hex_val_digit)
  qed
qed

lemma parse_hex_padded [simp]: "parse_hex_below bound (format_hex_padded w n) = (if n < bound then Some n else None)"
proof -
  have "hex_digits_val 0 (replicate k CHR ''0'' @ s) = hex_digits_val 0 s" for k s
    by (induction k) (simp_all add: hex_val_def)
  moreover have "format_hex n \<noteq> []" by (simp add: format_hex.simps [of n])
  ultimately show ?thesis by (simp add: parse_hex_below_def format_hex_padded_def hex_digits_val_format)
qed

lemma hex_digit_not_colon: "n < 16 \<Longrightarrow> hex_digit n \<noteq> CHR '':''"
proof
  assume n: "n < 16" and "hex_digit n = CHR '':''"
  then have "hex_val CHR '':'' = Some n" using hex_val_digit [OF n] by simp
  then show False by (simp add: hex_val_def)
qed

lemma format_hex_no_colon: "CHR '':'' \<notin> set (format_hex_padded w n)"
proof -
  have "CHR '':'' \<notin> set (format_hex n)"
  proof (induction n rule: format_hex.induct)
    case (1 n)
    then show ?case using hex_digit_not_colon [of n] hex_digit_not_colon [of "n mod 16"] by (auto simp: format_hex.simps [of n])
  qed
  then show ?thesis by (auto simp: format_hex_padded_def)
qed

end
