(* ===== verification/Filtering.thy ===== *)
theory Filtering
  imports PbHelpers GoFormat
begin

text \<open>
  The block filter, \<open>filtering\<close>: expressions of the CEL language decide for every action of a block
  whether it passes; a block keeps the transactions with at least one action that passes. A block may be
  filtered several times, by different services. Compiling and evaluating an expression belongs to
  the CEL library: a compiled program is a function of the names it may resolve, and \<open>cel_Compile\<close>
  is an argument. The order in which the map of actors is walked is the argument \<open>ord\<close>.
\<close>

section \<open>Programs\<close>

datatype cel_value = CelString string | CelUint u64 | CelInt int | CelBoolVal bool | CelStrings "string list" | CelMap string

text \<open>What a name resolves to; reading a field of a nil receipt panics.\<close>

datatype resolved = Resolved cel_value | NotResolved | ResolvePanic

datatype cel_result = CelError | CelBool bool | CelOther

type_synonym program = "(string \<Rightarrow> resolved) \<Rightarrow> cel_result"

record CELFilter =
  flt_name :: string
  flt_code :: string
  flt_program :: "program option"
  flt_valueWhenNoop :: bool

datatype filter_error = InvalidBlockNum | FilterCompile | DeclaredTwice

definition IsNoop :: "CELFilter \<Rightarrow> bool" where
  "IsNoop f \<longleftrightarrow> flt_program f = None"

definition cel_match :: "CELFilter \<Rightarrow> (string \<Rightarrow> resolved) \<Rightarrow> bool" where
  "cel_match f activation =
     (case flt_program f of
        None \<Rightarrow> flt_valueWhenNoop f
      | Some program \<Rightarrow>
          (case program activation of CelError \<Rightarrow> flt_valueWhenNoop f | CelOther \<Rightarrow> flt_valueWhenNoop f | CelBool b \<Rightarrow> b))"

fun trim_left :: "char \<Rightarrow> string \<Rightarrow> string" where
  "trim_left c [] = []"
| "trim_left c (x # xs) = (if x = c then trim_left c xs else x # xs)"

definition Trim :: "char \<Rightarrow> string \<Rightarrow> string" where
  "Trim c s = rev (trim_left c (rev (trim_left c s)))"

text \<open>The code and the number are set even when the number does not parse; the error is returned
  beside them.\<close>

definition parseBlocknumBasedCode :: "string \<Rightarrow> filter_error + string \<times> u64" where
  "parseBlocknumBasedCode code =
     (case SplitN 2 CHR '';'' code of
        [part] \<Rightarrow> Inr (part, 0)
      | part # rest # _ \<Rightarrow>
          if \<not> HasPrefix part ''#'' then Inl InvalidBlockNum
          else (case ParseUint64 (trim_left CHR ''#'' part) of
                  None \<Rightarrow> Inl InvalidBlockNum
                | Some blocknum \<Rightarrow> Inr (Trim CHR '' '' rest, blocknum))
      | [] \<Rightarrow> Inl InvalidBlockNum)"

definition newCELFilter ::
  "(string \<Rightarrow> program option) \<Rightarrow> string \<Rightarrow> string \<Rightarrow> string list \<Rightarrow> bool \<Rightarrow> filter_error + CELFilter" where
  "newCELFilter cel_Compile name code noopPrograms valueWhenNoop =
     (let stripped = TrimSpace code
      in if stripped \<in> set noopPrograms
         then Inr \<lparr>flt_name = name, flt_code = stripped, flt_program = None, flt_valueWhenNoop = valueWhenNoop\<rparr>
         else (case cel_Compile stripped of
                 None \<Rightarrow> Inl FilterCompile
               | Some program \<Rightarrow>
                   Inr \<lparr>flt_name = name, flt_code = code, flt_program = Some program, flt_valueWhenNoop = valueWhenNoop\<rparr>))"

text \<open>A map from block numbers to filters, as the list of its entries in the order of a walk.\<close>

type_synonym blocknumBasedCELFilter = "(u64 \<times> CELFilter) list"

definition choose_filter :: "u64 \<Rightarrow> blocknumBasedCELFilter \<Rightarrow> CELFilter option" where
  "choose_filter blknum bbcf =
     snd (fold (\<lambda>(k, v) (highest, out). if k \<le> blknum \<and> highest \<le> k then (k, Some v) else (highest, out)) bbcf (0, None))"

definition add_filter ::
  "(string \<Rightarrow> program option) \<Rightarrow> string \<Rightarrow> string list \<Rightarrow> bool \<Rightarrow> string \<Rightarrow> blocknumBasedCELFilter \<Rightarrow> filter_error + blocknumBasedCELFilter" where
  "add_filter cel_Compile name noopPrograms valueWhenNoop code filtersMap =
     bind_res (parseBlocknumBasedCode code) (\<lambda>(parsedCode, blockNum).
     bind_res (newCELFilter cel_Compile name parsedCode noopPrograms valueWhenNoop) (\<lambda>flt.
       if map_of filtersMap blockNum \<noteq> None then Inl DeclaredTwice else Inr ((blockNum, flt) # filtersMap)))"

definition newCELFilters ::
  "(string \<Rightarrow> program option) \<Rightarrow> string \<Rightarrow> string list \<Rightarrow> string list \<Rightarrow> bool \<Rightarrow> filter_error + blocknumBasedCELFilter" where
  "newCELFilters cel_Compile name codes noopPrograms valueWhenNoop =
     bind_res (fold_res (add_filter cel_Compile name noopPrograms valueWhenNoop) codes []) (\<lambda>filtersMap.
       if map_of filtersMap 0 \<noteq> None then Inr filtersMap
       else Inr ((0, \<lparr>flt_name = name, flt_code = '''', flt_program = None, flt_valueWhenNoop = valueWhenNoop\<rparr>) # filtersMap))"

definition newCELFiltersInclude :: "(string \<Rightarrow> program option) \<Rightarrow> string list \<Rightarrow> filter_error + blocknumBasedCELFilter" where
  "newCELFiltersInclude cel_Compile codes = newCELFilters cel_Compile ''inclusion'' codes ['''', ''true'', ''*''] True"
definition newCELFiltersSystemActionsInclude :: "(string \<Rightarrow> program option) \<Rightarrow> string list \<Rightarrow> filter_error + blocknumBasedCELFilter" where
  "newCELFiltersSystemActionsInclude cel_Compile codes = newCELFilters cel_Compile ''system action inclusion'' codes [''false'', ''''] False"
definition newCELFiltersExclude :: "(string \<Rightarrow> program option) \<Rightarrow> string list \<Rightarrow> filter_error + blocknumBasedCELFilter" where
  "newCELFiltersExclude cel_Compile codes = newCELFilters cel_Compile ''exclusion'' codes ['''', ''false''] False"

record BlockFilter =
  IncludeProgram :: blocknumBasedCELFilter
  ExcludeProgram :: blocknumBasedCELFilter
  SystemActionsIncludeProgram :: blocknumBasedCELFilter

definition NewBlockFilter ::
  "(string \<Rightarrow> program option) \<Rightarrow> string list \<Rightarrow> string list \<Rightarrow> string list \<Rightarrow> filter_error + BlockFilter" where
  "NewBlockFilter cel_Compile includeCode excludeCode systemCode =
     bind_res (newCELFiltersInclude cel_Compile includeCode) (\<lambda>i.
     bind_res (newCELFiltersExclude cel_Compile excludeCode) (\<lambda>e.
     bind_res (newCELFiltersSystemActionsInclude cel_Compile systemCode) (\<lambda>s.
       Inr \<lparr>IncludeProgram = i, ExcludeProgram = e, SystemActionsIncludeProgram = s\<rparr>)))"

section \<open>Actors of a transaction\<close>

type_synonym kv = "string \<times> int"

definition actor_names :: "trace_fields \<Rightarrow> string list" where
  "actor_names trx = concat (map (\<lambda>a. at_Receiver a # act_Account (at_Action a) # map pl_Actor (act_Authorization (at_Action a))) (tt_ActionTraces trx))"

definition actor_add :: "string \<Rightarrow> (string \<rightharpoonup> int) \<Rightarrow> (string \<rightharpoonup> int)" where
  "actor_add actor m = m(actor \<mapsto> (case m actor of None \<Rightarrow> 0 | Some n \<Rightarrow> n) + 1)"

definition KVHeap_Less :: "kv list \<Rightarrow> nat \<Rightarrow> nat \<Rightarrow> bool" where
  "KVHeap_Less h i j \<longleftrightarrow> snd (h ! i) > snd (h ! j)"

definition KVHeap_Swap :: "nat \<Rightarrow> nat \<Rightarrow> kv list \<Rightarrow> kv list" where
  "KVHeap_Swap i j h = h[i := h ! j, j := h ! i]"

text \<open>\<open>up\<close> and \<open>Push\<close> of \<open>container/heap\<close>.\<close>

fun heap_up :: "nat \<Rightarrow> kv list \<Rightarrow> kv list" where
  "heap_up j h =
     (let i = (j - 1) div 2
      in if j = 0 \<or> \<not> KVHeap_Less h j i then h else heap_up i (KVHeap_Swap i j h))"

definition heap_Push :: "kv \<Rightarrow> kv list \<Rightarrow> kv list" where
  "heap_Push x h = heap_up (length h) (h @ [x])"

text \<open>The method of the type, which takes the last element; it is not the \<open>Pop\<close> of \<open>container/heap\<close>.\<close>

definition KVHeap_Pop :: "kv list \<Rightarrow> kv \<times> kv list" where
  "KVHeap_Pop h = (last h, butlast h)"

definition getHeap :: "(string list \<Rightarrow> string list) \<Rightarrow> string list \<Rightarrow> (string \<rightharpoonup> int) \<Rightarrow> kv list" where
  "getHeap ord names m = fold (\<lambda>k h. heap_Push (k, the (m k)) h) (ord (remdups names)) []"

fun pop_times :: "nat \<Rightarrow> kv list \<Rightarrow> string list" where
  "pop_times 0 h = []"
| "pop_times (Suc n) h = (if h = [] then [] else case KVHeap_Pop h of (x, h') \<Rightarrow> fst x # pop_times n h')"

definition getTop5ActorsForTrx :: "(string list \<Rightarrow> string list) \<Rightarrow> trace_fields \<Rightarrow> string list" where
  "getTop5ActorsForTrx ord trx =
     (let names = actor_names trx in pop_times 5 (getHeap ord names (fold actor_add names Map.empty)))"

section \<open>Names\<close>

definition tokenizeEOSAuthority :: "PermissionLevel list \<Rightarrow> string list" where
  "tokenizeEOSAuthority auths = concat (map (\<lambda>auth. [pl_Actor auth, Authorization auth]) auths)"

definition shortStepName :: "(string \<Rightarrow> string) \<Rightarrow> string \<Rightarrow> string" where
  "shortStepName toTitle s =
     (if s = '''' then ''Unknown'' else toTitle (if HasPrefix s ''STEP_'' then drop 5 s else s))"

definition act_receiver :: "ActionTrace \<Rightarrow> string" where
  "act_receiver a = (case at_Receipt a of Some r \<Rightarrow> rcpt_Receiver r | None \<Rightarrow> at_Receiver a)"

text \<open>The text of the block time is a function of the block id, since the trace record has no time;
  \<open>fe_unmarshal\<close> says whether the data of the action is a JSON object.\<close>

record filter_env =
  fe_ord :: "string list \<Rightarrow> string list"
  fe_unmarshal :: "string \<Rightarrow> bool"
  fe_toTitle :: "string \<Rightarrow> string"
  fe_blockTime :: "string \<Rightarrow> string"

definition ResolveName ::
  "filter_env \<Rightarrow> trace_fields \<Rightarrow> ActionTrace \<Rightarrow> string \<Rightarrow> string \<Rightarrow> resolved" where
  "ResolveName env trx a stepName name =
     (if name = ''block_num'' then Resolved (CelUint (tt_BlockNum trx))
      else if name = ''block_id'' then Resolved (CelString (tt_ProducerBlockId trx))
      else if name = ''block_time'' then Resolved (CelString (fe_blockTime env (tt_ProducerBlockId trx)))
      else if name = ''transaction_id'' then Resolved (CelString (tt_Id trx))
      else if name = ''transaction_index'' then Resolved (CelUint (tt_Index trx))
      else if name = ''step'' then Resolved (CelString stepName)
      else if name = ''global_seq'' then (case at_Receipt a of None \<Rightarrow> ResolvePanic | Some r \<Rightarrow> Resolved (CelUint (rcpt_GlobalSequence r)))
      else if name = ''execution_index'' then Resolved (CelUint (ucast (at_ExecutionIndex a)))
      else if name = ''top5_trx_actors'' then Resolved (CelStrings (getTop5ActorsForTrx (fe_ord env) trx))
      else if name = ''trx_action_count'' then Resolved (CelInt (int (length (tt_ActionTraces trx))))
      else if name = ''receiver'' then Resolved (CelString (act_receiver a))
      else if name = ''account'' then Resolved (CelString (act_Account (at_Action a)))
      else if name = ''action'' then Resolved (CelString (act_Name (at_Action a)))
      else if name = ''auth'' then Resolved (CelStrings (tokenizeEOSAuthority (act_Authorization (at_Action a))))
      else if name = ''data''
      then (let jsonData = act_JsonData (at_Action a)
            in if jsonData = '''' \<or> CHR ''{'' \<notin> set jsonData \<or> \<not> fe_unmarshal env jsonData then NotResolved else Resolved (CelMap jsonData))
      else if name = ''notif'' then Resolved (CelBoolVal (act_Account (at_Action a) \<noteq> act_receiver a))
      else if name = ''executed'' then Resolved (CelBoolVal (\<not> HasBeenReverted trx))
      else if name = ''scheduled'' then Resolved (CelBoolVal (tt_Scheduled trx))
      else if name = ''input'' then Resolved (CelBoolVal (IsInput a))
      else if name = ''ram'' \<or> name = ''db'' then ResolvePanic
      else NotResolved)"

section \<open>Filtering a block\<close>

record filters =
  fs_include :: CELFilter
  fs_exclude :: CELFilter
  fs_system :: CELFilter

definition shouldProcess :: "filter_env \<Rightarrow> filters \<Rightarrow> trace_fields \<Rightarrow> ActionTrace \<Rightarrow> bool \<times> bool" where
  "shouldProcess env fs trx a =
     (let activation = ResolveName env trx a (shortStepName (fe_toTitle env) '''')
      in if \<not> cel_match (fs_include fs) activation
         then if cel_match (fs_system fs) activation then (True, True) else (False, False)
         else if cel_match (fs_exclude fs) activation
         then if cel_match (fs_system fs) activation then (True, True) else (False, False)
         else (True, False))"

text \<open>An action of the loop, and whether it was added to the filtered ones.\<close>

definition filter_action :: "bool \<Rightarrow> (ActionTrace \<Rightarrow> bool \<times> bool) \<Rightarrow> ActionTrace \<Rightarrow> ActionTrace \<times> bool" where
  "filter_action wasFiltered decide a =
     (if wasFiltered \<and> \<not> at_FilteringMatched a then (a, False)
      else let a1 = (if wasFiltered then a\<lparr>at_FilteringMatched := False\<rparr> else a);
               (passes, isSystem) = decide a1
           in if passes then (a1\<lparr>at_FilteringMatched := True, at_FilteringMatchedSystemActionFilter := isSystem\<rparr>, True)
              else (a1, False))"

definition filter_actions :: "bool \<Rightarrow> (ActionTrace \<Rightarrow> bool \<times> bool) \<Rightarrow> ActionTrace list \<Rightarrow> (ActionTrace \<times> bool) list" where
  "filter_actions wasFiltered decide acts = map (filter_action wasFiltered decide) acts"

fun filter_trace ::
  "bool \<Rightarrow> (trace_fields \<Rightarrow> ActionTrace \<Rightarrow> bool \<times> bool) \<Rightarrow> TransactionTrace \<Rightarrow> TransactionTrace \<times> ActionTrace list \<times> bool" where
  "filter_trace wasFiltered decide (TransactionTrace f failed) =
     (let acts = filter_actions wasFiltered (decide f) (tt_ActionTraces f);
          passed = map fst (filter snd acts);
          f1 = f\<lparr>tt_ActionTraces := map fst acts\<rparr>
      in case failed of
           None \<Rightarrow> (TransactionTrace f1 None, passed, passed \<noteq> [])
         | Some (TransactionTrace g gfailed) \<Rightarrow>
             (let gacts = filter_actions wasFiltered (decide g) (tt_ActionTraces g)
              in (TransactionTrace f1 (Some (TransactionTrace (g\<lparr>tt_ActionTraces := map fst gacts\<rparr>) gfailed)),
                  passed, passed \<noteq> [] \<or> filter snd gacts \<noteq> [])))"

definition combineFilters :: "string \<Rightarrow> CELFilter \<Rightarrow> string" where
  "combineFilters prev nxt =
     (if prev = '''' then flt_code nxt else if IsNoop nxt then prev else prev @ '';;;'' @ flt_code nxt)"

definition count_u32 :: "'a list \<Rightarrow> u32" where
  "count_u32 xs = of_nat (length xs)"

definition transformInPlaceV2 :: "filter_env \<Rightarrow> filters \<Rightarrow> Block \<Rightarrow> Block" where
  "transformInPlaceV2 env fs block =
     (let results = map (filter_trace (blk_FilteringApplied block) (shouldProcess env fs)) (TransactionTraces block);
          passed = concat (map (\<lambda>(t, acts, added). acts) results);
          filteredTrxTrace = map fst (filter (\<lambda>(t, acts, added). added) results);
          excludedTransactionIds = map (\<lambda>(t, acts, added). tt_Id (trace_of t)) (filter (\<lambda>(t, acts, added). \<not> added) results);
          filteredTrx = filter (\<lambda>trx. tr_Id trx \<notin> set excludedTransactionIds) (Transactions block);
          filteredImplicit = filter (\<lambda>op. trx_TransactionId op \<notin> set excludedTransactionIds) (ImplicitTransactionOps block)
      in block\<lparr>blk_FilteringApplied := True,
           blk_FilteringIncludeFilterExpr := combineFilters (blk_FilteringIncludeFilterExpr block) (fs_include fs),
           blk_FilteringExcludeFilterExpr := combineFilters (blk_FilteringExcludeFilterExpr block) (fs_exclude fs),
           blk_FilteringSystemActionsIncludeFilterExpr := combineFilters (blk_FilteringSystemActionsIncludeFilterExpr block) (fs_system fs),
           blk_UnfilteredTransactions := [], blk_UnfilteredTransactionTraces := [], blk_UnfilteredImplicitTransactionOps := [],
           blk_FilteredTransactions := filteredTrx, blk_FilteredTransactionCount := count_u32 filteredTrx,
           blk_FilteredTransactionTraces := filteredTrxTrace, blk_FilteredTransactionTraceCount := count_u32 filteredTrxTrace,
           blk_FilteredExecutedInputActionCount := count_u32 (filter IsInput passed),
           blk_FilteredExecutedTotalActionCount := count_u32 passed,
           blk_FilteredImplicitTransactionOps := filteredImplicit\<rparr>)"

fun split_text :: "string \<Rightarrow> string \<Rightarrow> string \<Rightarrow> string list" where
  "split_text sep acc [] = [rev acc]"
| "split_text sep acc (c # cs) =
     (if HasPrefix (c # cs) sep then rev acc # split_text sep [] (drop (length sep - 1) cs)
      else split_text sep (c # acc) cs)"

definition filterExprContains :: "string \<Rightarrow> string \<Rightarrow> bool" where
  "filterExprContains appliedFilters newFilter \<longleftrightarrow> newFilter = '''' \<or> newFilter \<in> set (split_text '';;;'' [] appliedFilters)"

definition includeNOOP :: CELFilter where
  "includeNOOP = \<lparr>flt_name = ''include'', flt_code = '''', flt_program = None, flt_valueWhenNoop = True\<rparr>"
definition excludeNOOP :: CELFilter where
  "excludeNOOP = \<lparr>flt_name = ''exclude'', flt_code = '''', flt_program = None, flt_valueWhenNoop = False\<rparr>"
definition systemIncludeNOOP :: CELFilter where
  "systemIncludeNOOP = \<lparr>flt_name = ''system include'', flt_code = '''', flt_program = None, flt_valueWhenNoop = False\<rparr>"

text \<open>The number is that of the enclosing stream block. No filter for the number is a nil
  dereference, \<open>None\<close>; \<open>newCELFilters\<close> always adds one for block 0.\<close>

definition TransformInPlace :: "filter_env \<Rightarrow> BlockFilter \<Rightarrow> u64 \<Rightarrow> Block \<Rightarrow> Block option" where
  "TransformInPlace env bf number block =
     (case (choose_filter number (IncludeProgram bf), choose_filter number (ExcludeProgram bf)) of
        (Some include, Some exclude) \<Rightarrow>
          if IsNoop include \<and> IsNoop exclude then Some block
          else (let include1 = (if filterExprContains (blk_FilteringIncludeFilterExpr block) (flt_code include) then includeNOOP else include);
                    exclude1 = (if filterExprContains (blk_FilteringExcludeFilterExpr block) (flt_code exclude) then excludeNOOP else exclude)
                in if IsNoop include1 \<and> IsNoop exclude1 then Some block
                   else (case choose_filter number (SystemActionsIncludeProgram bf) of
                           None \<Rightarrow> None
                         | Some sys \<Rightarrow>
                             let sys1 = (if filterExprContains (blk_FilteringSystemActionsIncludeFilterExpr block) (flt_code sys)
                                         then systemIncludeNOOP else sys)
                             in Some (transformInPlaceV2 env \<lparr>fs_include = include1, fs_exclude = exclude1, fs_system = sys1\<rparr> block)))
      | _ \<Rightarrow> None)"

declare heap_up.simps [simp del]

end
