(* ===== verification/FilteringProps.thy ===== *)
theory FilteringProps
  imports Filtering
begin

text \<open>
  What the block filter computes: the programs do not see the marks that filtering writes, so a
  second pass keeps what passes both filters; the filter of a block is the one with the highest
  number, and there is always one.
\<close>

section \<open>Actors\<close>

text \<open>With six actors the one that occurs most often is at the root of the heap, and it is the one
  that is not taken.\<close>

definition sample_actors :: trace_fields where
  "sample_actors = empty_trace_fields\<lparr>tt_ActionTraces :=
     map (\<lambda>n. \<lparr>at_Receiver = n, at_Receipt = None,
        at_Action = \<lparr>act_ref = 0, act_Account = ''top'', act_Name = ''x'', act_Authorization = [], act_JsonData = '''', act_RawData = []\<rparr>,
        at_Console = '''', at_ActionOrdinal = 0, at_CreatorActionOrdinal = 0, at_ClosestUnnotifiedAncestorActionOrdinal = 0, at_ExecutionIndex = 0, at_FilteringMatched = False,
        at_FilteringMatchedSystemActionFilter = False\<rparr>) [''a'', ''b'', ''c'', ''d'', ''e'']\<rparr>"

lemma top5_misses_top_actor:
  "fold actor_add (actor_names sample_actors) Map.empty ''top'' = Some 5 \<and> ''top'' \<notin> set (getTop5ActorsForTrx (\<lambda>xs. xs) sample_actors)"
  by code_simp

section \<open>Flags\<close>

text \<open>The flags that filtering writes are not visible to the programs.\<close>

definition erase_act :: "ActionTrace \<Rightarrow> ActionTrace" where
  "erase_act a = a\<lparr>at_FilteringMatched := False, at_FilteringMatchedSystemActionFilter := False\<rparr>"

definition erase_fields :: "trace_fields \<Rightarrow> trace_fields" where
  "erase_fields f = f\<lparr>tt_ActionTraces := map erase_act (tt_ActionTraces f)\<rparr>"

fun erase :: "TransactionTrace \<Rightarrow> TransactionTrace" where
  "erase (TransactionTrace f None) = TransactionTrace (erase_fields f) None"
| "erase (TransactionTrace f (Some (TransactionTrace g x))) = TransactionTrace (erase_fields f) (Some (TransactionTrace (erase_fields g) x))"

text \<open>Which actions satisfy a predicate, in the trace and in the failed trace inside it.\<close>

fun trace_marks :: "(trace_fields \<Rightarrow> ActionTrace \<Rightarrow> bool) \<Rightarrow> TransactionTrace \<Rightarrow> bool list \<times> bool list" where
  "trace_marks P (TransactionTrace f None) = (map (P f) (tt_ActionTraces f), [])"
| "trace_marks P (TransactionTrace f (Some (TransactionTrace g x))) = (map (P f) (tt_ActionTraces f), map (P g) (tt_ActionTraces g))"

definition trace_passes :: "(trace_fields \<Rightarrow> ActionTrace \<Rightarrow> bool) \<Rightarrow> TransactionTrace \<Rightarrow> bool" where
  "trace_passes P t \<longleftrightarrow> True \<in> set (fst (trace_marks P t)) \<or> True \<in> set (snd (trace_marks P t))"

definition matched :: "trace_fields \<Rightarrow> ActionTrace \<Rightarrow> bool" where
  "matched f a = at_FilteringMatched a"

definition passes :: "filter_env \<Rightarrow> filters \<Rightarrow> trace_fields \<Rightarrow> ActionTrace \<Rightarrow> bool" where
  "passes env fs f a = fst (shouldProcess env fs f a)"

lemma erase_act_simps [simp]:
  "at_Receiver (erase_act a) = at_Receiver a" "at_Receipt (erase_act a) = at_Receipt a" "at_Action (erase_act a) = at_Action a"
  "at_ExecutionIndex (erase_act a) = at_ExecutionIndex a" "at_CreatorActionOrdinal (erase_act a) = at_CreatorActionOrdinal a"
  "SimpleName (erase_act a) = SimpleName a" "IsInput (erase_act a) = IsInput a"
  by (simp_all add: erase_act_def SimpleName_def IsInput_def)

lemma resolve_erase: "ResolveName env (erase_fields f) (erase_act a) s n = ResolveName env f a s n"
proof -
  have "actor_names (erase_fields f) = actor_names f" by (simp add: actor_names_def erase_fields_def comp_def)
  then have top: "getTop5ActorsForTrx ord (erase_fields f) = getTop5ActorsForTrx ord f" for ord
    by (simp add: getTop5ActorsForTrx_def)
  have rev: "HasBeenReverted (erase_fields f) = HasBeenReverted f"
    by (cases "tt_ActionTraces f") (simp_all add: HasBeenReverted_def erase_fields_def split: option.split)
  have fields: "tt_BlockNum (erase_fields f) = tt_BlockNum f" "tt_ProducerBlockId (erase_fields f) = tt_ProducerBlockId f"
    "tt_Id (erase_fields f) = tt_Id f" "tt_Index (erase_fields f) = tt_Index f" "tt_Scheduled (erase_fields f) = tt_Scheduled f"
    "length (tt_ActionTraces (erase_fields f)) = length (tt_ActionTraces f)"
    by (simp_all add: erase_fields_def)
  show ?thesis unfolding ResolveName_def act_receiver_def fields top rev erase_act_simps by (rule refl)
qed

lemma passes_erase: "passes env fs (erase_fields f) (erase_act a) = passes env fs f a"
proof -
  have "ResolveName env (erase_fields f) (erase_act a) s = ResolveName env f a s" for s
    by (rule ext) (rule resolve_erase)
  then show ?thesis by (simp add: passes_def shouldProcess_def)
qed

lemma passes_flags:
  "erase_fields f = erase_fields f' \<Longrightarrow> erase_act a = erase_act a' \<Longrightarrow> passes env fs f a = passes env fs f' a'"
  by (metis passes_erase)

section \<open>One pass\<close>

definition effective :: "filter_env \<Rightarrow> filters \<Rightarrow> bool \<Rightarrow> trace_fields \<Rightarrow> ActionTrace \<Rightarrow> bool" where
  "effective env fs w f a \<longleftrightarrow> (w \<longrightarrow> matched f a) \<and> passes env fs f a"

lemma filter_action_props:
  "erase_act (fst (filter_action w (shouldProcess env fs f) a)) = erase_act a"
  "snd (filter_action w (shouldProcess env fs f) a) = effective env fs w f a"
  "w \<or> \<not> at_FilteringMatched a \<Longrightarrow> at_FilteringMatched (fst (filter_action w (shouldProcess env fs f) a)) = effective env fs w f a"
proof -
  have "passes env fs f (a\<lparr>at_FilteringMatched := False\<rparr>) = passes env fs f a"
    by (rule passes_flags) (simp_all add: erase_act_def)
  then have p: "fst (shouldProcess env fs f (if w then a\<lparr>at_FilteringMatched := False\<rparr> else a)) = passes env fs f a"
    by (simp add: passes_def)
  show "erase_act (fst (filter_action w (shouldProcess env fs f) a)) = erase_act a"
    "snd (filter_action w (shouldProcess env fs f) a) = effective env fs w f a"
    "w \<or> \<not> at_FilteringMatched a \<Longrightarrow> at_FilteringMatched (fst (filter_action w (shouldProcess env fs f) a)) = effective env fs w f a"
    using p by (auto simp: filter_action_def Let_def case_prod_unfold effective_def matched_def erase_act_def)
qed

lemma filter_actions_props:
  "map erase_act (map fst (filter_actions w (shouldProcess env fs f) as)) = map erase_act as"
  "length (filter snd (filter_actions w (shouldProcess env fs f) as)) = length (filter id (map (effective env fs w f) as))"
  "filter snd (filter_actions w (shouldProcess env fs f) as) = [] \<longleftrightarrow> True \<notin> set (map (effective env fs w f) as)"
  "w \<or> (\<forall>a\<in>set as. \<not> at_FilteringMatched a) \<Longrightarrow>
     map at_FilteringMatched (map fst (filter_actions w (shouldProcess env fs f) as)) = map (effective env fs w f) as"
  using filter_action_props [where w = w and env = env and fs = fs and f = f] by (auto simp: filter_actions_def filter_map comp_def filter_empty_conv)

definition fresh :: "TransactionTrace \<Rightarrow> bool" where
  "fresh t \<longleftrightarrow> \<not> trace_passes matched t"

lemma erase_fields_acts: "map erase_act as = map erase_act (tt_ActionTraces f) \<Longrightarrow> erase_fields (f\<lparr>tt_ActionTraces := as\<rparr>) = erase_fields f"
  by (simp add: erase_fields_def)

lemma filter_trace_props:
  fixes env fs w t
  defines "r \<equiv> filter_trace w (shouldProcess env fs) t"
  shows "erase (fst r) = erase t" "tt_Id (trace_of (fst r)) = tt_Id (trace_of t)"
    "snd (snd r) = trace_passes (effective env fs w) t"
    "length (fst (snd r)) = length (filter id (fst (trace_marks (effective env fs w) t)))"
    "w \<or> fresh t \<Longrightarrow> trace_marks matched (fst r) = trace_marks (effective env fs w) t"
proof -
  obtain f failed where t: "t = TransactionTrace f failed" by (cases t)
  note fa = filter_actions_props [where w = w and env = env and fs = fs]
  note ef = erase_fields_acts [OF fa(1)]
  have m: "matched x = at_FilteringMatched" for x by (rule ext) (simp add: matched_def)
  have "erase (fst r) = erase t \<and> tt_Id (trace_of (fst r)) = tt_Id (trace_of t)
      \<and> snd (snd r) = trace_passes (effective env fs w) t
      \<and> length (fst (snd r)) = length (filter id (fst (trace_marks (effective env fs w) t)))
      \<and> (w \<or> fresh t \<longrightarrow> trace_marks matched (fst r) = trace_marks (effective env fs w) t)"
  proof (cases failed)
    case None
    have "w \<or> fresh t \<Longrightarrow> w \<or> (\<forall>a\<in>set (tt_ActionTraces f). \<not> at_FilteringMatched a)"
      using t None by (auto simp: fresh_def trace_passes_def matched_def)
    then show ?thesis
      using ef fa(4) by (simp add: r_def t None Let_def m fa(2,3) trace_passes_def del: set_map)
  next
    case (Some u)
    obtain g x where u: "u = TransactionTrace g x" by (cases u)
    have "w \<or> fresh t \<Longrightarrow> (w \<or> (\<forall>a\<in>set (tt_ActionTraces f). \<not> at_FilteringMatched a)) \<and> (w \<or> (\<forall>a\<in>set (tt_ActionTraces g). \<not> at_FilteringMatched a))"
      using t Some u by (auto simp: fresh_def trace_passes_def matched_def)
    then show ?thesis
      using ef fa(4) by (simp add: r_def t Some u Let_def m fa(2,3) trace_passes_def del: set_map) blast
  qed
  then show "erase (fst r) = erase t" "tt_Id (trace_of (fst r)) = tt_Id (trace_of t)"
    "snd (snd r) = trace_passes (effective env fs w) t"
    "length (fst (snd r)) = length (filter id (fst (trace_marks (effective env fs w) t)))"
    "w \<or> fresh t \<Longrightarrow> trace_marks matched (fst r) = trace_marks (effective env fs w) t"
    by blast+
qed

section \<open>Two passes\<close>

lemma erase_fields_actions: "tt_ActionTraces (erase_fields f) = map erase_act (tt_ActionTraces f)"
  by (simp add: erase_fields_def)

lemma erase_eq_None: "erase (TransactionTrace f x) = TransactionTrace h None \<longleftrightarrow> x = None \<and> erase_fields f = h"
proof (cases x)
  case (Some v)
  then show ?thesis by (cases v) simp
qed simp

lemma erase_eq_Some:
  "erase (TransactionTrace f x) = TransactionTrace h (Some (TransactionTrace g y)) \<longleftrightarrow>
     (\<exists>g'. x = Some (TransactionTrace g' y) \<and> erase_fields f = h \<and> erase_fields g' = g)"
proof (cases x)
  case (Some v)
  then show ?thesis by (cases v) auto
qed simp

lemma marks_after_pass:
  assumes "erase t' = erase t" and "trace_marks matched t' = trace_marks P t"
  shows "trace_marks (effective env fs True) t' = trace_marks (\<lambda>f a. P f a \<and> passes env fs f a) t"
proof -
  have list: "map (effective env fs True f') as' = map (\<lambda>a. P f a \<and> passes env fs f a) as"
    if "erase_fields f' = erase_fields f" "map erase_act as' = map erase_act as" "map (matched f') as' = map (P f) as" for f f' as as'
  proof (rule nth_equalityI)
    show len: "length (map (effective env fs True f') as') = length (map (\<lambda>a. P f a \<and> passes env fs f a) as)"
      using arg_cong [OF that(2), of length] by simp
    fix i assume "i < length (map (effective env fs True f') as')"
    then have i: "i < length as'" "i < length as" using len by simp_all
    then have "erase_act (as' ! i) = erase_act (as ! i)" "matched f' (as' ! i) = P f (as ! i)"
      using arg_cong [OF that(2), of "\<lambda>xs. xs ! i"] arg_cong [OF that(3), of "\<lambda>xs. xs ! i"] by simp_all
    then show "map (effective env fs True f') as' ! i = map (\<lambda>a. P f a \<and> passes env fs f a) as ! i"
      using i passes_flags [OF that(1)] by (simp add: effective_def)
  qed
  obtain f x f' x' where t: "t = TransactionTrace f x" "t' = TransactionTrace f' x'" by (metis TransactionTrace.exhaust)
  have a: "erase_fields f' = erase_fields f \<Longrightarrow> map erase_act (tt_ActionTraces f') = map erase_act (tt_ActionTraces f)" for f f'
    using erase_fields_actions by metis
  show ?thesis
  proof (cases x)
    case None
    then have x: "x' = None" and e: "erase_fields f' = erase_fields f" using assms(1) by (simp_all add: t erase_eq_None)
    have "map (matched f') (tt_ActionTraces f') = map (P f) (tt_ActionTraces f)" using assms(2) None x by (simp add: t)
    from list [OF e a [OF e] this] show ?thesis using None x by (simp add: t)
  next
    case (Some u)
    obtain g y where u: "u = TransactionTrace g y" by (cases u)
    then obtain g' where x: "x' = Some (TransactionTrace g' y)" and e: "erase_fields f' = erase_fields f" and e': "erase_fields g' = erase_fields g"
      using assms(1) Some by (auto simp: t erase_eq_Some)
    have "map (matched f') (tt_ActionTraces f') = map (P f) (tt_ActionTraces f)" "map (matched g') (tt_ActionTraces g') = map (P g) (tt_ActionTraces g)"
      using assms(2) Some u x by (simp_all add: t)
    from list [OF e a [OF e] this(1)] list [OF e' a [OF e'] this(2)] show ?thesis using Some u x by (simp add: t)
  qed
qed

lemma trace_passes_cong: "trace_marks P t = trace_marks Q t' \<Longrightarrow> trace_passes P t = trace_passes Q t'"
  by (simp add: trace_passes_def)

definition pass_count :: "(trace_fields \<Rightarrow> ActionTrace \<Rightarrow> bool) \<Rightarrow> TransactionTrace list \<Rightarrow> nat" where
  "pass_count P ts = (\<Sum>t\<leftarrow>ts. length (filter id (fst (trace_marks P t))))"

lemma pass_count_filter:
  assumes "\<And>t. t \<in> set ts \<Longrightarrow> trace_marks Q (f t) = trace_marks P t" and "\<And>t. trace_passes P t \<Longrightarrow> trace_passes P1 t"
  shows "pass_count Q (map f (filter (trace_passes P1) ts)) = pass_count P ts"
proof -
  have "filter id (fst (trace_marks P t)) = []" if "\<not> trace_passes P1 t" for t
    using that assms(2) [of t] by (auto simp: trace_passes_def filter_empty_conv)
  then show ?thesis using assms(1) by (induction ts) (auto simp: pass_count_def)
qed

text \<open>A transaction id is kept when all the traces with this id are.\<close>

definition id_kept :: "(trace_fields \<Rightarrow> ActionTrace \<Rightarrow> bool) \<Rightarrow> TransactionTrace list \<Rightarrow> string \<Rightarrow> bool" where
  "id_kept P ts i \<longleftrightarrow> (\<forall>t\<in>set ts. tt_Id (trace_of t) = i \<longrightarrow> trace_passes P t)"

lemma one_pass:
  fixes env fs b
  defines "b' \<equiv> transformInPlaceV2 env fs b" and "E \<equiv> effective env fs (blk_FilteringApplied b)"
    and "ft \<equiv> (\<lambda>t. fst (filter_trace (blk_FilteringApplied b) (shouldProcess env fs) t))"
  shows "blk_FilteringApplied b'"
    "TransactionTraces b' = map ft (filter (trace_passes E) (TransactionTraces b))"
    "Transactions b' = filter (\<lambda>r. id_kept E (TransactionTraces b) (tr_Id r)) (Transactions b)"
    "ImplicitTransactionOps b' = filter (\<lambda>x. id_kept E (TransactionTraces b) (trx_TransactionId x)) (ImplicitTransactionOps b)"
    "blk_FilteredExecutedTotalActionCount b' = of_nat (pass_count E (TransactionTraces b))"
proof -
  define F where "F = filter_trace (blk_FilteringApplied b) (shouldProcess env fs)"
  note ft = filter_trace_props [where w = "blk_FilteringApplied b" and env = env and fs = fs, folded E_def F_def]
  have added: "(\<lambda>t. snd (snd (F t))) = trace_passes E" using ft(3) by (simp add: fun_eq_iff)
  have traces: "map fst (filter (\<lambda>(t, acts, added). added) (map F ts)) = map ft (filter (trace_passes E) ts)" for ts
    by (simp add: filter_map comp_def case_prod_unfold added ft_def F_def [symmetric])
  have ex: "i \<notin> set (map (\<lambda>(t, acts, added). tt_Id (trace_of t)) (filter (\<lambda>(t, acts, added). \<not> added) (map F ts))) \<longleftrightarrow> id_kept E ts i" for i ts
    using ft(2,3) by (auto simp: id_kept_def filter_map comp_def case_prod_unfold)
  have count: "length (concat (map (\<lambda>(t, acts, added). acts) (map F ts))) = pass_count E ts" for ts
    using ft(4) by (simp add: pass_count_def length_concat comp_def case_prod_unfold)
  note d = b'_def transformInPlaceV2_def Let_def F_def [symmetric]
  show applied: "blk_FilteringApplied b'" by (simp add: d)
  have "blk_FilteredTransactionTraces b' = map fst (filter (\<lambda>(t, acts, added). added) (map F (TransactionTraces b)))"
    by (simp add: d)
  then show "TransactionTraces b' = map ft (filter (trace_passes E) (TransactionTraces b))"
    unfolding traces by (simp add: TransactionTraces_def [of b'] applied)
  let ?ex = "set (map (\<lambda>(t, acts, added). tt_Id (trace_of t)) (filter (\<lambda>(t, acts, added). \<not> added) (map F (TransactionTraces b))))"
  have "blk_FilteredTransactions b' = filter (\<lambda>r. tr_Id r \<notin> ?ex) (Transactions b)" by (simp add: d)
  then show "Transactions b' = filter (\<lambda>r. id_kept E (TransactionTraces b) (tr_Id r)) (Transactions b)"
    unfolding ex by (simp add: Transactions_def [of b'] applied)
  have "blk_FilteredImplicitTransactionOps b' = filter (\<lambda>x. trx_TransactionId x \<notin> ?ex) (ImplicitTransactionOps b)" by (simp add: d)
  then show "ImplicitTransactionOps b' = filter (\<lambda>x. id_kept E (TransactionTraces b) (trx_TransactionId x)) (ImplicitTransactionOps b)"
    unfolding ex by (simp add: ImplicitTransactionOps_def [of b'] applied)
  have "blk_FilteredExecutedTotalActionCount b' = of_nat (length (concat (map (\<lambda>(t, acts, added). acts) (map F (TransactionTraces b)))))"
    by (simp add: d count_u32_def)
  then show "blk_FilteredExecutedTotalActionCount b' = of_nat (pass_count E (TransactionTraces b))"
    unfolding count .
qed

text \<open>C37: filtering a block by one filter and then by another keeps exactly the transactions with an action
  that passes both, marks exactly the actions that pass both, in the traces and in the failed traces
  inside them, keeps the receipts and the implicit transactions of which no trace was dropped, and
  counts the marked actions. Nothing but the marks of a trace changes.\<close>

theorem filters_compose:
  fixes env fs1 fs2 b
  defines "b2 \<equiv> transformInPlaceV2 env fs2 (transformInPlaceV2 env fs1 b)"
    and "P \<equiv> (\<lambda>f a. passes env fs1 f a \<and> passes env fs2 f a)"
  assumes "\<not> blk_FilteringApplied b" and "\<forall>t\<in>set (TransactionTraces b). fresh t"
  shows "map erase (TransactionTraces b2) = map erase (filter (trace_passes P) (TransactionTraces b))
    \<and> map (trace_marks matched) (TransactionTraces b2) = map (trace_marks P) (filter (trace_passes P) (TransactionTraces b))
    \<and> Transactions b2 = filter (\<lambda>r. id_kept P (TransactionTraces b) (tr_Id r)) (Transactions b)
    \<and> ImplicitTransactionOps b2 = filter (\<lambda>x. id_kept P (TransactionTraces b) (trx_TransactionId x)) (ImplicitTransactionOps b)
    \<and> blk_FilteredExecutedTotalActionCount b2 = of_nat (pass_count P (TransactionTraces b))"
proof -
  define b1 where "b1 = transformInPlaceV2 env fs1 b"
  define ts where "ts = TransactionTraces b"
  define f1 where "f1 t = fst (filter_trace False (shouldProcess env fs1) t)" for t
  define f2 where "f2 t = fst (filter_trace True (shouldProcess env fs2) t)" for t
  define P1 where "P1 = passes env fs1"
  have E1: "effective env fs1 False = P1" by (simp add: fun_eq_iff effective_def P1_def)
  note p1 = one_pass [of env fs1 b, folded b1_def ts_def, unfolded E1]
  have b1: "blk_FilteringApplied b1" "TransactionTraces b1 = map f1 (filter (trace_passes P1) ts)"
    using p1(1,2) assms(3) by (simp_all add: E1 f1_def)
  have b2: "transformInPlaceV2 env fs2 b1 = b2" by (simp add: b1_def b2_def)
  note p2 = one_pass [of env fs2 b1, unfolded b2]
  have 1: "erase (f1 t) = erase t" "tt_Id (trace_of (f1 t)) = tt_Id (trace_of t)" for t
    using filter_trace_props(1,2) by (simp_all add: f1_def)
  have m1: "trace_marks (effective env fs2 True) (f1 t) = trace_marks P t" if "t \<in> set ts" for t
  proof -
    have "trace_marks matched (f1 t) = trace_marks P1 t"
      using filter_trace_props(5) [of False t env fs1] assms(4) that by (simp add: f1_def E1 ts_def)
    from marks_after_pass [OF 1(1) this] show ?thesis by (simp add: P_def P1_def)
  qed
  have le: "trace_passes P1 t" if "trace_passes P t" for t
    using that by (cases t rule: erase.cases) (auto simp: trace_passes_def P_def P1_def)
  have tp: "t \<in> set ts \<Longrightarrow> trace_passes (effective env fs2 True) (f1 t) = trace_passes P t" for t
    by (rule trace_passes_cong) (rule m1)
  have "filter (\<lambda>t. trace_passes (effective env fs2 True) (f1 t)) (filter (trace_passes P1) ts) = filter (trace_passes P) ts"
    using tp le by (auto simp: intro!: filter_cong)
  then have t2: "TransactionTraces b2 = map (\<lambda>t. f2 (f1 t)) (filter (trace_passes P) ts)"
    using p2(2) b1 by (simp add: f2_def [symmetric] filter_map comp_def)
  have 2: "erase (f2 (f1 t)) = erase t" for t using filter_trace_props(1) 1(1) by (simp add: f2_def)
  have m2: "trace_marks matched (f2 (f1 t)) = trace_marks P t" if "t \<in> set ts" for t
    using filter_trace_props(5) [of True "f1 t" env fs2] m1 [OF that] by (simp add: f2_def)
  have idk: "id_kept (effective env fs2 True) (TransactionTraces b1) i \<and> id_kept P1 ts i \<longleftrightarrow> id_kept P ts i" for i
    using tp le 1(2) by (auto simp: id_kept_def b1(2))
  have z: "pass_count (effective env fs2 True) (TransactionTraces b1) = pass_count P ts"
    using pass_count_filter [OF m1 le] by (simp add: b1(2))
  show ?thesis
    unfolding ts_def [symmetric]
    using t2 2 m2 p1(3,4) p2(3,4,5) idk z b1(1) assms(3) by (auto simp: E1 conj_commute)
qed

definition sample_filter_env :: filter_env where
  "sample_filter_env = \<lparr>fe_ord = (\<lambda>xs. xs), fe_unmarshal = (\<lambda>j. True), fe_toTitle = (\<lambda>s. s), fe_blockTime = (\<lambda>b. '''')\<rparr>"

definition sample_filters :: "(string \<Rightarrow> bool) \<Rightarrow> filters" where
  "sample_filters receivers =
     \<lparr>fs_include = \<lparr>flt_name = ''inclusion'', flt_code = ''r'',
        flt_program = Some (\<lambda>res. case res ''receiver'' of Resolved (CelString r) \<Rightarrow> CelBool (receivers r) | _ \<Rightarrow> CelError), flt_valueWhenNoop = True\<rparr>,
      fs_exclude = excludeNOOP, fs_system = systemIncludeNOOP\<rparr>"

definition sample_filter_block :: Block where
  "sample_filter_block = empty_block\<lparr>blk_UnfilteredTransactionTraces := [TransactionTrace sample_actors None, TransactionTrace empty_trace_fields None]\<rparr>"

theorem filters_compose_witness:
  "map (trace_marks matched) (TransactionTraces (transformInPlaceV2 sample_filter_env (sample_filters (\<lambda>r. r \<noteq> ''b''))
      (transformInPlaceV2 sample_filter_env (sample_filters (\<lambda>r. r \<noteq> ''a'')) sample_filter_block))) =
    [([False, False, True, True, True], [])]"
proof -
  let ?P = "\<lambda>f a. passes sample_filter_env (sample_filters (\<lambda>r. r \<noteq> ''a'')) f a \<and> passes sample_filter_env (sample_filters (\<lambda>r. r \<noteq> ''b'')) f a"
  have "\<not> blk_FilteringApplied sample_filter_block" "\<forall>t\<in>set (TransactionTraces sample_filter_block). fresh t"
    by (simp_all add: sample_filter_block_def empty_block_def TransactionTraces_def fresh_def trace_passes_def matched_def
        sample_actors_def empty_trace_fields_def)
  from filters_compose [OF this, of sample_filter_env "sample_filters (\<lambda>r. r \<noteq> ''b'')" "sample_filters (\<lambda>r. r \<noteq> ''a'')"]
  have "map (trace_marks matched) (TransactionTraces (transformInPlaceV2 sample_filter_env (sample_filters (\<lambda>r. r \<noteq> ''b''))
      (transformInPlaceV2 sample_filter_env (sample_filters (\<lambda>r. r \<noteq> ''a'')) sample_filter_block))) =
      map (trace_marks ?P) (filter (trace_passes ?P) (TransactionTraces sample_filter_block))" by blast
  also have "\<dots> = [([False, False, True, True, True], [])]" by code_simp
  finally show ?thesis .
qed

section \<open>Choice of the filter\<close>

text \<open>The chosen filter is the one with the highest number that is not above the block's.\<close>

lemma choose_filter_correct:
  assumes "\<exists>v. (0, v) \<in> set bbcf"
  obtains k v where "choose_filter n bbcf = Some v" "(k, v) \<in> set bbcf" "k \<le> n" "\<And>k' v'. (k', v') \<in> set bbcf \<Longrightarrow> k' \<le> n \<Longrightarrow> k' \<le> k"
proof -
  let ?step = "\<lambda>(k, v) (highest, out). if k \<le> n \<and> highest \<le> k then (k, Some v) else (highest, out)"
  define inv where "inv done st \<longleftrightarrow> (case st of (h, out) \<Rightarrow>
      (\<forall>(k, v)\<in>set done. k \<le> n \<longrightarrow> k \<le> h) \<and> (case out of None \<Rightarrow> h = 0 \<and> (\<forall>(k, v)\<in>set done. \<not> k \<le> n) | Some v \<Rightarrow> (h, v) \<in> set done \<and> h \<le> n))"
    for "done" :: blocknumBasedCELFilter and st :: "u64 \<times> CELFilter option"
  have "inv bbcf (fold ?step bbcf (0, None))"
  proof (induction bbcf rule: rev_induct)
    case (snoc x xs)
    obtain k v where x: "x = (k, v)" by fastforce
    obtain h out where f: "fold ?step xs (0, None) = (h, out)" by fastforce
    have "inv xs (h, out)" using snoc f by simp
    then show ?case using x f by (cases out) (auto simp: inv_def intro: order_trans)
  qed (simp add: inv_def)
  moreover obtain h out where f: "fold ?step bbcf (0, None) = (h, out)" by fastforce
  ultimately have i: "inv bbcf (h, out)" by simp
  obtain v where v: "out = Some v" using assms i by (cases out) (auto simp: inv_def)
  show thesis
    by (rule that [of v h]) (use i v f in \<open>auto simp: inv_def choose_filter_def\<close>)
qed

lemma newCELFilters_zero:
  assumes "newCELFilters compile name codes noops val = Inr bbcf"
  shows "\<exists>v. (0, v) \<in> set bbcf"
  using assms by (auto simp: newCELFilters_def res_simps split: if_splits dest: map_of_SomeD)

lemma TransformInPlace_total:
  assumes "NewBlockFilter compile i e s = Inr bf"
  shows "TransformInPlace env bf n b \<noteq> None"
proof -
  have "\<exists>v. (0, v) \<in> set (IncludeProgram bf)" "\<exists>v. (0, v) \<in> set (ExcludeProgram bf)" "\<exists>v. (0, v) \<in> set (SystemActionsIncludeProgram bf)"
    using assms
    by (auto simp: NewBlockFilter_def res_simps newCELFiltersInclude_def newCELFiltersExclude_def newCELFiltersSystemActionsInclude_def
        dest: newCELFilters_zero)
  then obtain x y z where "choose_filter n (IncludeProgram bf) = Some x" "choose_filter n (ExcludeProgram bf) = Some y"
    "choose_filter n (SystemActionsIncludeProgram bf) = Some z"
    by (metis choose_filter_correct)
  then show ?thesis by (simp add: TransformInPlace_def Let_def)
qed

end
