(* ===== verification/AbiCodec.thy ===== *)
theory AbiCodec
  imports PbHelpers
begin

text \<open>
  The ABI codec service, \<open>abicodec\<close>: a cache of the ABIs of every account by block number, filled from a
  stream of \<open>setabi\<close> actions that may be undone, and the decoder that serves requests from it. An ABI is
  of the abstract type \<open>'abi\<close>; unpacking and decoding belong to other packages and are the record
  \<open>abicodec_env\<close>. The file of the saved state is the field \<open>ac_file\<close>; the locks are left out.
\<close>

section \<open>Cache\<close>

record 'abi ABICacheItem =
  item_ABI :: 'abi
  item_BlockNum :: u32

record 'abi AbiCodecCache =
  Abis :: "string \<rightharpoonup> 'abi ABICacheItem list"
  ac_Cursor :: string
  dirty :: bool
  ac_file :: "((string \<rightharpoonup> 'abi ABICacheItem list) \<times> string) option"

definition NewABICache :: "((string \<rightharpoonup> 'abi ABICacheItem list) \<times> string) option \<Rightarrow> 'abi AbiCodecCache" where
  "NewABICache stored =
     (case stored of
        None \<Rightarrow> \<lparr>Abis = Map.empty, ac_Cursor = '''', dirty = False, ac_file = None\<rparr>
      | Some (abis, cursor) \<Rightarrow> \<lparr>Abis = abis, ac_Cursor = cursor, dirty = False, ac_file = stored\<rparr>)"

text \<open>The loop from the end of the list: the position of the new item, and whether it replaces one.\<close>

fun set_position :: "'abi ABICacheItem list \<Rightarrow> u32 \<Rightarrow> nat \<Rightarrow> nat \<times> bool" where
  "set_position items blockNum 0 = (0, False)"
| "set_position items blockNum (Suc i) =
     (if item_BlockNum (items ! i) = blockNum then (i, True)
      else if item_BlockNum (items ! i) < blockNum then (Suc i, False)
      else set_position items blockNum i)"

definition SetABIAtBlockNum :: "string \<Rightarrow> u32 \<Rightarrow> 'abi \<Rightarrow> 'abi AbiCodecCache \<Rightarrow> 'abi AbiCodecCache" where
  "SetABIAtBlockNum account blockNum abi c =
     (let newItem = \<lparr>item_ABI = abi, item_BlockNum = blockNum\<rparr>
      in case Abis c account of
           None \<Rightarrow> c\<lparr>dirty := True, Abis := (Abis c)(account \<mapsto> [newItem])\<rparr>
         | Some items \<Rightarrow>
             (case set_position items blockNum (length items) of
                (i, replace) \<Rightarrow>
                  c\<lparr>dirty := True, Abis := (Abis c)(account \<mapsto>
                    if replace then items[i := newItem] else take i items @ newItem # drop i items)\<rparr>))"

text \<open>The loop from the end removes the first item it finds; the flag \<open>dirty\<close> is left alone.\<close>

fun remove_position :: "'abi ABICacheItem list \<Rightarrow> u32 \<Rightarrow> nat \<Rightarrow> nat option" where
  "remove_position items blockNum 0 = None"
| "remove_position items blockNum (Suc i) =
     (if item_BlockNum (items ! i) = blockNum then Some i else remove_position items blockNum i)"

definition RemoveABIAtBlockNum :: "string \<Rightarrow> u32 \<Rightarrow> 'abi AbiCodecCache \<Rightarrow> 'abi AbiCodecCache" where
  "RemoveABIAtBlockNum account blockNum c =
     (case Abis c account of
        None \<Rightarrow> c
      | Some items \<Rightarrow>
          (case remove_position items blockNum (length items) of
             None \<Rightarrow> c
           | Some i \<Rightarrow> c\<lparr>Abis := (Abis c)(account \<mapsto> take i items @ drop (Suc i) items)\<rparr>))"

definition ABIAtBlockNum :: "string \<Rightarrow> u32 \<Rightarrow> 'abi AbiCodecCache \<Rightarrow> 'abi ABICacheItem option" where
  "ABIAtBlockNum account blockNum c =
     (case Abis c account of None \<Rightarrow> None | Some abis \<Rightarrow> find_last (\<lambda>a. item_BlockNum a \<le> blockNum) abis)"

definition SaveState :: "bool \<Rightarrow> 'abi AbiCodecCache \<Rightarrow> bool \<times> 'abi AbiCodecCache" where
  "SaveState written c =
     (if \<not> dirty c then (True, c)
      else if \<not> written then (False, c)
      else (True, c\<lparr>ac_file := Some (Abis c, ac_Cursor c), dirty := False\<rparr>))"

definition SetCursor :: "string \<Rightarrow> 'abi AbiCodecCache \<Rightarrow> 'abi AbiCodecCache" where
  "SetCursor cursor c = c\<lparr>ac_Cursor := cursor\<rparr>"

definition GetCursor :: "'abi AbiCodecCache \<Rightarrow> string" where
  "GetCursor c = ac_Cursor c"

section \<open>Syncer\<close>

record 'abi abicodec_env =
  ae_Get :: "string \<Rightarrow> string \<Rightarrow> string option"
  ae_UnmarshalBinary :: "bytes \<Rightarrow> 'abi option"
  ae_DecodeAction :: "'abi \<Rightarrow> string \<Rightarrow> bytes \<Rightarrow> string option"
  ae_DecodeTableRow :: "'abi \<Rightarrow> string \<Rightarrow> bytes \<Rightarrow> string option"
  ae_Marshal :: "'abi \<Rightarrow> string option"

record 'abi ABISyncer =
  sy_cache :: "'abi AbiCodecCache"
  isLive :: bool

record search_match =
  m_Block :: BlockRef
  m_Trace :: "TransactionTrace option"
  m_Actions :: "ActionTrace list"
  m_Undo :: bool
  m_Cursor :: string

definition handleABIAction :: "'abi abicodec_env \<Rightarrow> BlockRef \<Rightarrow> bool \<Rightarrow> ActionTrace \<Rightarrow> 'abi ABISyncer \<Rightarrow> 'abi ABISyncer" where
  "handleABIAction env blockRef undo act s =
     (let json = act_JsonData (at_Action act);
          account = (case ae_Get env json ''account'' of None \<Rightarrow> '''' | Some a \<Rightarrow> a);
          num = (ucast (ref_Num blockRef) :: u32)
      in case ae_Get env json ''abi'' of
           None \<Rightarrow> s
         | Some hexData \<Rightarrow>
             if undo then s\<lparr>sy_cache := RemoveABIAtBlockNum account num (sy_cache s)\<rparr>
             else if hexData = '''' then s
             else (case hex_DecodeString hexData of
                     None \<Rightarrow> s
                   | Some abiData \<Rightarrow>
                       (case ae_UnmarshalBinary env abiData of
                          None \<Rightarrow> s
                        | Some abi \<Rightarrow> s\<lparr>sy_cache := SetABIAtBlockNum account num abi (sy_cache s)\<rparr>)))"

definition handleLiveMaker :: "string \<Rightarrow> 'abi ABISyncer \<Rightarrow> 'abi ABISyncer" where
  "handleLiveMaker cursor s = s\<lparr>sy_cache := SetCursor cursor (sy_cache s), isLive := True\<rparr>"

text \<open>The matches that are received until the stream ends with an error.\<close>

definition streamABIChanges :: "'abi abicodec_env \<Rightarrow> search_match list \<Rightarrow> 'abi ABISyncer \<Rightarrow> 'abi ABISyncer" where
  "streamABIChanges env matches s =
     fold (\<lambda>m s.
       if m_Trace m = None then handleLiveMaker (m_Cursor m) s
       else (let s1 = fold (handleABIAction env (m_Block m) (m_Undo m)) (m_Actions m) s
             in s1\<lparr>sy_cache := SetCursor (m_Cursor m) (sy_cache s1)\<rparr>)) matches s"

section \<open>Decoder\<close>

datatype decode_status = InvalidArgument | NoABI

definition dec_decodeAction ::
  "'abi abicodec_env \<Rightarrow> string \<Rightarrow> string \<Rightarrow> bytes \<Rightarrow> u32 \<Rightarrow> 'abi AbiCodecCache \<Rightarrow> decode_status + string \<times> u32" where
  "dec_decodeAction env account action data blockNum c =
     (case ABIAtBlockNum account blockNum c of
        None \<Rightarrow> Inl NoABI
      | Some item \<Rightarrow> bind_res (from_opt InvalidArgument (ae_DecodeAction env (item_ABI item) action data)) (\<lambda>out. Inr (out, item_BlockNum item)))"

definition dec_decodeTable ::
  "'abi abicodec_env \<Rightarrow> string \<Rightarrow> string \<Rightarrow> bytes \<Rightarrow> u32 \<Rightarrow> 'abi AbiCodecCache \<Rightarrow> decode_status + string \<times> u32" where
  "dec_decodeTable env account table data blockNum c =
     (case ABIAtBlockNum account blockNum c of
        None \<Rightarrow> Inl NoABI
      | Some item \<Rightarrow> bind_res (from_opt InvalidArgument (ae_DecodeTableRow env (item_ABI item) table data)) (\<lambda>out. Inr (out, item_BlockNum item)))"

definition dec_getABI :: "'abi abicodec_env \<Rightarrow> string \<Rightarrow> u32 \<Rightarrow> 'abi AbiCodecCache \<Rightarrow> decode_status + string \<times> u32" where
  "dec_getABI env account blockNum c =
     (case ABIAtBlockNum account blockNum c of
        None \<Rightarrow> Inl NoABI
      | Some item \<Rightarrow> bind_res (from_opt InvalidArgument (ae_Marshal env (item_ABI item))) (\<lambda>out. Inr (out, item_BlockNum item)))"

definition Decoder_DecodeTable where
  "Decoder_DecodeTable env account table payload atBlockNum c = dec_decodeTable env account table payload atBlockNum c"

text \<open>The request for an action is decoded as a table row.\<close>

definition Decoder_DecodeAction where
  "Decoder_DecodeAction env account action payload atBlockNum c = dec_decodeTable env account action payload atBlockNum c"

definition Decoder_GetAbi where
  "Decoder_GetAbi env account atBlockNum c = dec_getABI env account atBlockNum c"

section \<open>Refinement\<close>

text \<open>The specification of the cache: a map from block numbers to ABIs for every account.\<close>

datatype 'abi abi_op = OpSet string u32 'abi | OpRemove string u32

fun spec_op :: "'abi abi_op \<Rightarrow> (string \<Rightarrow> u32 \<rightharpoonup> 'abi) \<Rightarrow> (string \<Rightarrow> u32 \<rightharpoonup> 'abi)" where
  "spec_op (OpSet account n abi) m = m(account := (m account)(n \<mapsto> abi))"
| "spec_op (OpRemove account n) m = m(account := (m account)(n := None))"

fun cache_op :: "'abi abi_op \<Rightarrow> 'abi AbiCodecCache \<Rightarrow> 'abi AbiCodecCache" where
  "cache_op (OpSet account n abi) c = SetABIAtBlockNum account n abi c"
| "cache_op (OpRemove account n) c = RemoveABIAtBlockNum account n c"

definition items_of :: "'abi AbiCodecCache \<Rightarrow> string \<Rightarrow> 'abi ABICacheItem list" where
  "items_of c account = (case Abis c account of None \<Rightarrow> [] | Some items \<Rightarrow> items)"

definition items_map :: "'abi ABICacheItem list \<Rightarrow> u32 \<rightharpoonup> 'abi" where
  "items_map items = map_of (map (\<lambda>i. (item_BlockNum i, item_ABI i)) items)"

definition abi_sorted :: "'abi ABICacheItem list \<Rightarrow> bool" where
  "abi_sorted items \<longleftrightarrow> sorted_wrt (<) (map item_BlockNum items)"

text \<open>What a lookup promises: the ABI set at the highest block number not above the one asked for.\<close>

definition latest_at :: "(u32 \<rightharpoonup> 'abi) \<Rightarrow> u32 \<Rightarrow> 'abi ABICacheItem option \<Rightarrow> bool" where
  "latest_at m n r \<longleftrightarrow>
     (case r of
        None \<Rightarrow> \<forall>k. m k \<noteq> None \<longrightarrow> n < k
      | Some item \<Rightarrow> m (item_BlockNum item) = Some (item_ABI item) \<and> item_BlockNum item \<le> n
          \<and> (\<forall>k. m k \<noteq> None \<and> k \<le> n \<longrightarrow> k \<le> item_BlockNum item))"

lemma set_position_spec:
  assumes "abi_sorted items" and "j \<le> length items" and "\<And>k. j \<le> k \<Longrightarrow> k < length items \<Longrightarrow> n < item_BlockNum (items ! k)"
    and "set_position items n j = (i, replace)"
  shows "if replace then i < length items \<and> item_BlockNum (items ! i) = n
    else i \<le> length items \<and> (\<forall>k<i. item_BlockNum (items ! k) < n) \<and> (\<forall>k. i \<le> k \<and> k < length items \<longrightarrow> n < item_BlockNum (items ! k))"
  using assms(2-)
proof (induction j)
  case (Suc j)
  show ?case
  proof (cases "n < item_BlockNum (items ! j)")
    case True
    then have "set_position items n j = (i, replace)" using Suc.prems(3) order.asym [OF True] by (auto split: if_splits)
    moreover have "n < item_BlockNum (items ! k)" if "j \<le> k" "k < length items" for k
      using True Suc.prems(2) that by (cases "k = j") auto
    ultimately show ?thesis using Suc.IH Suc.prems(1) by simp
  next
    case False
    have "item_BlockNum (items ! k) < item_BlockNum (items ! j)" if "k < j" for k
      using assms(1) that Suc.prems(1) by (auto simp: abi_sorted_def sorted_wrt_iff_nth_less)
    then have "\<forall>k<Suc j. item_BlockNum (items ! k) < n" if "item_BlockNum (items ! j) < n"
      using that by (auto simp: less_Suc_eq intro: less_trans)
    then show ?thesis using False Suc.prems by (auto split: if_splits)
  qed
qed auto

lemma remove_position_spec:
  "remove_position items n j = r \<Longrightarrow> j \<le> length items \<Longrightarrow>
     (case r of Some i \<Rightarrow> i < length items \<and> item_BlockNum (items ! i) = n | None \<Rightarrow> \<forall>k<j. item_BlockNum (items ! k) \<noteq> n)"
  by (induction j) (auto simp: less_Suc_eq split: if_splits option.splits)

text \<open>A sorted list around one of its items.\<close>

lemma abi_sorted_append:
  "abi_sorted (xs @ x # ys) \<longleftrightarrow> abi_sorted xs \<and> abi_sorted ys \<and> (\<forall>y\<in>set xs. item_BlockNum y < item_BlockNum x)
    \<and> (\<forall>y\<in>set ys. item_BlockNum x < item_BlockNum y)"
  by (auto simp: abi_sorted_def sorted_wrt_append intro: less_trans)

lemma abi_sorted_without: "abi_sorted (xs @ x # ys) \<Longrightarrow> abi_sorted (xs @ ys)"
  by (auto simp: abi_sorted_def sorted_wrt_append)

lemma items_map_insert:
  assumes "\<forall>y\<in>set xs. item_BlockNum y \<noteq> n"
  shows "items_map (xs @ \<lparr>item_ABI = a, item_BlockNum = n\<rparr> # ys) = (items_map (xs @ ys))(n \<mapsto> a)"
    and "\<lbrakk>item_BlockNum x = n\<rbrakk> \<Longrightarrow> items_map (xs @ \<lparr>item_ABI = a, item_BlockNum = n\<rparr> # ys) = (items_map (xs @ x # ys))(n \<mapsto> a)"
    and "\<lbrakk>item_BlockNum x = n; \<forall>y\<in>set ys. item_BlockNum y \<noteq> n\<rbrakk> \<Longrightarrow> items_map (xs @ ys) = (items_map (xs @ x # ys))(n := None)"
proof -
  have none: "map_of (map (\<lambda>i. (item_BlockNum i, item_ABI i)) zs) n = None" if "\<forall>y\<in>set zs. item_BlockNum y \<noteq> n" for zs :: "'a ABICacheItem list"
    using that by (auto simp: map_of_eq_None_iff)
  note nx = none [OF assms]
  show "items_map (xs @ \<lparr>item_ABI = a, item_BlockNum = n\<rparr> # ys) = (items_map (xs @ ys))(n \<mapsto> a)"
    using nx by (auto simp: items_map_def map_add_def fun_eq_iff split: option.split)
  show "items_map (xs @ \<lparr>item_ABI = a, item_BlockNum = n\<rparr> # ys) = (items_map (xs @ x # ys))(n \<mapsto> a)" if "item_BlockNum x = n"
    using nx that by (auto simp: items_map_def map_add_def fun_eq_iff split: option.split)
  show "items_map (xs @ ys) = (items_map (xs @ x # ys))(n := None)" if "item_BlockNum x = n" "\<forall>y\<in>set ys. item_BlockNum y \<noteq> n"
    using nx none [OF that(2)] that(1) by (auto simp: items_map_def map_add_def fun_eq_iff split: option.split)
qed

lemma SetABI_refines:
  assumes "abi_sorted (items_of c account)"
  shows "abi_sorted (items_of (SetABIAtBlockNum account n abi c) account)
    \<and> items_map (items_of (SetABIAtBlockNum account n abi c) account) = (items_map (items_of c account))(n \<mapsto> abi)"
proof (cases "Abis c account")
  case None
  then show ?thesis by (simp add: SetABIAtBlockNum_def items_of_def abi_sorted_def items_map_def)
next
  case (Some items)
  let ?new = "\<lparr>item_ABI = abi, item_BlockNum = n\<rparr>"
  obtain i replace where p: "set_position items n (length items) = (i, replace)" by fastforce
  have s: "abi_sorted items" using assms Some by (simp add: items_of_def)
  note sp = set_position_spec [OF s order_refl _ p]
  have r: "items_of (SetABIAtBlockNum account n abi c) account =
      (if replace then items[i := ?new] else take i items @ ?new # drop i items)" "items_of c account = items"
    using Some p by (simp_all add: SetABIAtBlockNum_def items_of_def Let_def)
  show ?thesis
  proof (cases replace)
    case True
    then have i: "i < length items" "item_BlockNum (items ! i) = n" using sp by simp_all
    have it: "items = take i items @ items ! i # drop (Suc i) items" "items[i := ?new] = take i items @ ?new # drop (Suc i) items"
      using i(1) by (simp_all add: id_take_nth_drop upd_conv_take_nth_drop)
    have "\<forall>y\<in>set (take i items). item_BlockNum y < n" "\<forall>y\<in>set (drop (Suc i) items). n < item_BlockNum y"
      "abi_sorted (take i items)" "abi_sorted (drop (Suc i) items)"
      using s i(2) by (subst (asm) it(1), simp add: abi_sorted_append)+
    moreover from this(1) have "\<forall>y\<in>set (take i items). item_BlockNum y \<noteq> n" by auto
    from items_map_insert(2) [OF this i(2), of abi "drop (Suc i) items"]
    have "items_map (items[i := ?new]) = (items_map items)(n \<mapsto> abi)" using it by simp
    ultimately show ?thesis using True r it(2) by (simp add: abi_sorted_append)
  next
    case False
    have i: "i \<le> length items" "\<forall>k<i. item_BlockNum (items ! k) < n" "\<forall>k. i \<le> k \<and> k < length items \<longrightarrow> n < item_BlockNum (items ! k)"
      using sp False by simp_all
    have lt: "\<forall>y\<in>set (take i items). item_BlockNum y < n" "\<forall>y\<in>set (drop i items). n < item_BlockNum y"
      using i by (auto simp: in_set_conv_nth)
    have "abi_sorted (take i items)" "abi_sorted (drop i items)"
      using s by (simp_all add: abi_sorted_def sorted_wrt_take sorted_wrt_drop take_map [symmetric] drop_map [symmetric])
    moreover have "\<forall>y\<in>set (take i items). item_BlockNum y \<noteq> n" using lt(1) by auto
    from items_map_insert(1) [OF this, of abi "drop i items"] have "items_map (take i items @ ?new # drop i items) = (items_map items)(n \<mapsto> abi)" by simp
    ultimately show ?thesis using False r lt by (simp add: abi_sorted_append)
  qed
qed

lemma RemoveABI_refines:
  assumes "abi_sorted (items_of c account)"
  shows "abi_sorted (items_of (RemoveABIAtBlockNum account n c) account)
    \<and> items_map (items_of (RemoveABIAtBlockNum account n c) account) = (items_map (items_of c account))(n := None)"
proof (cases "Abis c account")
  case None
  then show ?thesis using assms by (simp add: RemoveABIAtBlockNum_def items_of_def items_map_def fun_upd_idem)
next
  case (Some items)
  have s: "abi_sorted items" and it: "items_of c account = items" using assms Some by (simp_all add: items_of_def)
  show ?thesis
  proof (cases "remove_position items n (length items)")
    case None
    then have "\<forall>y\<in>set items. item_BlockNum y \<noteq> n" using remove_position_spec [OF None] by (auto simp: in_set_conv_nth)
    then have "items_map items n = None" by (auto simp: items_map_def map_of_eq_None_iff)
    then show ?thesis using None Some s it by (simp add: RemoveABIAtBlockNum_def fun_upd_idem)
  next
    case p: (Some i)
    have i: "i < length items" "item_BlockNum (items ! i) = n" using remove_position_spec [OF p] by simp_all
    have d: "items = take i items @ items ! i # drop (Suc i) items" using i(1) by (rule id_take_nth_drop)
    have sd: "abi_sorted (take i items @ items ! i # drop (Suc i) items)" by (simp add: s flip: d)
    have "\<forall>y\<in>set (take i items). item_BlockNum y \<noteq> n" "\<forall>y\<in>set (drop (Suc i) items). item_BlockNum y \<noteq> n"
      using sd i(2) by (auto simp: abi_sorted_append)
    from items_map_insert(3) [OF this(1) i(2) this(2)] have "items_map (take i items @ drop (Suc i) items) = (items_map items)(n := None)"
      by (simp flip: d)
    moreover have "abi_sorted (take i items @ drop (Suc i) items)" by (rule abi_sorted_without [OF sd])
    ultimately show ?thesis using Some p it by (simp add: RemoveABIAtBlockNum_def items_of_def)
  qed
qed

lemma lookup_refines:
  assumes "abi_sorted (items_of c account)"
  shows "latest_at (items_map (items_of c account)) n (ABIAtBlockNum account n c)"
proof -
  have key: "items_map items k \<noteq> None \<longleftrightarrow> (\<exists>y\<in>set items. item_BlockNum y = k)" for items :: "'a ABICacheItem list" and k
    by (force simp: items_map_def map_of_eq_None_iff image_iff)
  have "latest_at (items_map items) n (find_last (\<lambda>a. item_BlockNum a \<le> n) items)" if "abi_sorted items" for items :: "'a ABICacheItem list"
    using that
  proof (induction items rule: rev_induct)
    case (snoc x xs)
    have xs: "abi_sorted xs" "\<forall>y\<in>set xs. item_BlockNum y < item_BlockNum x" using snoc.prems abi_sorted_append [of xs x "[]"] by simp_all
    have m: "items_map (xs @ [x]) = (items_map xs)(item_BlockNum x \<mapsto> item_ABI x)"
      using items_map_insert(1) [of xs "item_BlockNum x" "item_ABI x" "[]"] xs(2)
      by (cases x) force
    have nx: "items_map xs (item_BlockNum x) = None" using key [of xs] xs(2) by force
    show ?case
    proof (cases "item_BlockNum x \<le> n")
      case True
      have "\<forall>k. items_map xs k \<noteq> None \<longrightarrow> k \<le> item_BlockNum x" using key [of xs] xs(2) by (auto intro: less_imp_le)
      then show ?thesis using True by (auto simp: latest_at_def m)
    next
      case False
      then show ?thesis using snoc.IH [OF xs(1)] nx by (auto simp: latest_at_def m split: option.splits)
    qed
  qed (simp add: latest_at_def items_map_def)
  from this [OF assms] show ?thesis
    by (cases "Abis c account") (simp_all add: ABIAtBlockNum_def items_of_def latest_at_def items_map_def)
qed

lemma cache_ops_other:
  "account' \<noteq> account \<Longrightarrow> items_of (SetABIAtBlockNum account n abi c) account' = items_of c account'"
  "account' \<noteq> account \<Longrightarrow> items_of (RemoveABIAtBlockNum account n c) account' = items_of c account'"
  by (simp_all add: items_of_def SetABIAtBlockNum_def RemoveABIAtBlockNum_def Let_def split: option.split prod.split)

lemma cache_ops_refine:
  "abi_sorted (items_of (fold cache_op ops (NewABICache None)) account)
   \<and> items_map (items_of (fold cache_op ops (NewABICache None)) account) = fold spec_op ops (\<lambda>_. Map.empty) account"
proof (induction ops arbitrary: account rule: rev_induct)
  case Nil
  show ?case by (simp add: NewABICache_def items_of_def abi_sorted_def items_map_def)
next
  case (snoc x ops)
  show ?case
  proof (cases x)
    case (OpSet a n abi)
    then show ?thesis
      using snoc [of account] SetABI_refines [of "fold cache_op ops (NewABICache None)" account n abi]
      by (cases "account = a") (simp_all add: cache_ops_other)
  next
    case (OpRemove a n)
    then show ?thesis
      using snoc [of account] RemoveABI_refines [of "fold cache_op ops (NewABICache None)" account n]
      by (cases "account = a") (simp_all add: cache_ops_other)
  qed
qed

text \<open>C38: after any sequence of settings and removals, in any order of the block numbers, a lookup in the
  cache of the ABI codec returns the ABI set at the highest block number not above the one asked for,
  in the map that the same operations give.\<close>

theorem abicodec_cache_refines:
  "latest_at (fold spec_op ops (\<lambda>_. Map.empty) account) n (ABIAtBlockNum account n (fold cache_op ops (NewABICache None)))"
  using lookup_refines [of "fold cache_op ops (NewABICache None)" account n] cache_ops_refine [of ops account] by simp

text \<open>A removal is not saved: the state that was saved before it comes back after a restart.\<close>

lemma removal_not_saved:
  assumes "ABIAtBlockNum ''a'' 5 c = None" and "c1 = snd (SaveState True (SetABIAtBlockNum ''a'' 5 abi c))"
    and "c2 = snd (SaveState True (RemoveABIAtBlockNum ''a'' 5 c1))"
  shows "ac_file c2 = Some (Abis (SetABIAtBlockNum ''a'' 5 abi c), ac_Cursor c)"
proof -
  have "dirty (SetABIAtBlockNum ''a'' 5 abi c)" "ac_Cursor (SetABIAtBlockNum ''a'' 5 abi c) = ac_Cursor c"
    by (simp_all add: SetABIAtBlockNum_def Let_def split: option.split prod.split)
  then show ?thesis
    using assms(2,3) by (simp add: SaveState_def RemoveABIAtBlockNum_def split: option.split)
qed

end
