(* ===== verification/StateDb.thy ===== *)
theory StateDb
  imports GoFormat PbHelpers "HOL-Library.AList"
begin

text \<open>
  The state database, \<open>statedb\<close>: every block becomes a write request with the last row of each table
  row, key, scope and permission link that it changed, and the last ABI of each contract. The rows are
  stored and read by the library \<open>fluxdb\<close>, whose row keys are the field \<open>se_rowKey\<close> of the record
  \<open>statedb_env\<close>; the names of \<open>eos-go\<close>, JSON and protobuf encodings are fields of the same record. A row
  without a value is a deletion.
\<close>

section \<open>Environment\<close>

datatype statedb_error = StPanic | StMarshal | StUnmarshal | StKeyLength

record tablet_row =
  row_Collection :: u16
  row_Identifier :: bytes
  row_Height :: u64
  row_PrimaryKey :: bytes
  row_Value :: bytes

record singlet_entry =
  ent_Collection :: u16
  ent_Identifier :: bytes
  ent_Height :: u64
  ent_Value :: bytes

record WriteRequest =
  wr_Height :: u64
  wr_BlockRef :: BlockRef
  wr_SingletEntries :: "singlet_entry list"
  wr_TabletRows :: "tablet_row list"

text \<open>JSON that holds \<open>null\<close> leaves the pointer nil: this is the inner option of the three fields that
  unmarshal the data of an action. \<open>se_ord\<close> is the order in which Go ranges over a map.\<close>

record statedb_env =
  se_StringToName :: "string \<Rightarrow> u64 option"
  se_ExtendedStringToName :: "string \<Rightarrow> u64 option"
  se_NameToString :: "u64 \<Rightarrow> string"
  se_MarshalState :: "u64 \<Rightarrow> bytes \<Rightarrow> bytes option"
  se_UnmarshalState :: "bytes \<Rightarrow> (u64 \<times> bytes) option"
  se_MarshalScope :: "u64 \<Rightarrow> bytes option"
  se_UnmarshalScope :: "bytes \<Rightarrow> u64 option"
  se_MarshalLink :: "u64 \<Rightarrow> bytes option"
  se_UnmarshalLink :: "bytes \<Rightarrow> u64 option"
  se_MarshalABI :: "bytes \<Rightarrow> bytes option"
  se_UnmarshalABI :: "bytes \<Rightarrow> bytes option"
  se_kaValue :: bytes
  se_SetABI :: "string \<Rightarrow> (string \<times> bytes) option option"
  se_LinkAuth :: "string \<Rightarrow> (string \<times> string \<times> string \<times> string) option option"
  se_UnlinkAuth :: "string \<Rightarrow> (string \<times> string \<times> string) option option"
  se_rowKey :: "u16 \<Rightarrow> bytes \<Rightarrow> u64 \<Rightarrow> bytes \<Rightarrow> string"
  se_entryKey :: "u16 \<Rightarrow> bytes \<Rightarrow> u64 \<Rightarrow> string"
  se_ord :: "string list \<Rightarrow> string list"

section \<open>Names\<close>

definition bytesToName :: "statedb_env \<Rightarrow> bytes \<Rightarrow> string" where
  "bytesToName env bs = se_NameToString env (Uint64 bs)"

definition bytesToName2 :: "statedb_env \<Rightarrow> bytes \<Rightarrow> string \<times> string" where
  "bytesToName2 env bs = (se_NameToString env (Uint64 bs), se_NameToString env (Uint64 (drop 8 bs)))"

definition bytesToName3 :: "statedb_env \<Rightarrow> bytes \<Rightarrow> string \<times> string \<times> string" where
  "bytesToName3 env bs =
     (se_NameToString env (Uint64 bs), se_NameToString env (Uint64 (drop 8 bs)), se_NameToString env (Uint64 (drop 16 bs)))"

fun nameToBytes :: "(string \<Rightarrow> u64 option) \<Rightarrow> string list \<Rightarrow> statedb_error + bytes" where
  "nameToBytes converter [] = Inr []"
| "nameToBytes converter (name # names) =
     bind_res (from_opt StPanic (converter name)) (\<lambda>v.
     bind_res (nameToBytes converter names) (\<lambda>out. Inr (PutUint64 v @ out)))"

definition standardNameToBytes :: "statedb_env \<Rightarrow> string list \<Rightarrow> statedb_error + bytes" where
  "standardNameToBytes env names = nameToBytes (se_StringToName env) names"

definition extendedNameToBytes :: "statedb_env \<Rightarrow> string list \<Rightarrow> statedb_error + bytes" where
  "extendedNameToBytes env names = nameToBytes (se_ExtendedStringToName env) names"

section \<open>Contract state\<close>

definition cstCollection :: u16 where "cstCollection = 0xB000"

definition NewContractStateTablet :: "statedb_env \<Rightarrow> string \<Rightarrow> string \<Rightarrow> string \<Rightarrow> statedb_error + bytes" where
  "NewContractStateTablet env contract table scope = extendedNameToBytes env [contract, table, scope]"

text \<open>The rows the database gives back when it reads are built by the method \<open>Row\<close> of a tablet.\<close>

definition ContractStateTablet_Row :: "bytes \<Rightarrow> u64 \<Rightarrow> bytes \<Rightarrow> bytes \<Rightarrow> statedb_error + tablet_row" where
  "ContractStateTablet_Row t height primaryKey data =
     (if length primaryKey \<noteq> 8 then Inl StKeyLength
      else Inr \<lparr>row_Collection = cstCollection, row_Identifier = t, row_Height = height, row_PrimaryKey = primaryKey, row_Value = data\<rparr>)"

definition ContractStateTablet_Explode :: "statedb_env \<Rightarrow> bytes \<Rightarrow> string \<times> string \<times> string" where
  "ContractStateTablet_Explode env t = bytesToName3 env t"

definition NewContractStateRow :: "statedb_env \<Rightarrow> u64 \<Rightarrow> DBOp \<Rightarrow> statedb_error + tablet_row" where
  "NewContractStateRow env blockNum op =
     bind_res (if db_Operation op \<noteq> DBOp_OPERATION_REMOVE
               then bind_res (from_opt StPanic (se_StringToName env (db_NewPayer op))) (\<lambda>payer.
                    from_opt StMarshal (se_MarshalState env payer (db_NewData op)))
               else Inr []) (\<lambda>value.
     bind_res (NewContractStateTablet env (db_Code op) (db_TableName op) (db_Scope op)) (\<lambda>tablet.
     bind_res (standardNameToBytes env [db_PrimaryKey op]) (\<lambda>primaryKey.
       Inr \<lparr>row_Collection = cstCollection, row_Identifier = tablet, row_Height = blockNum,
            row_PrimaryKey = primaryKey, row_Value = value\<rparr>)))"

definition ContractStateRow_Info :: "statedb_env \<Rightarrow> tablet_row \<Rightarrow> statedb_error + string \<times> bytes" where
  "ContractStateRow_Info env r =
     bind_res (from_opt StUnmarshal (se_UnmarshalState env (row_Value r))) (\<lambda>(payer, data).
       Inr (se_NameToString env payer, data))"

section \<open>Table scopes\<close>

definition ctscpCollection :: u16 where "ctscpCollection = 0xB200"

definition NewContractTableScopeTablet :: "statedb_env \<Rightarrow> string \<Rightarrow> string \<Rightarrow> statedb_error + bytes" where
  "NewContractTableScopeTablet env contract table = standardNameToBytes env [contract, table]"

definition ContractTableScopeTablet_Row :: "bytes \<Rightarrow> u64 \<Rightarrow> bytes \<Rightarrow> bytes \<Rightarrow> statedb_error + tablet_row" where
  "ContractTableScopeTablet_Row t height primaryKey data =
     (if length primaryKey \<noteq> 8 then Inl StKeyLength
      else Inr \<lparr>row_Collection = ctscpCollection, row_Identifier = t, row_Height = height, row_PrimaryKey = primaryKey, row_Value = data\<rparr>)"

definition NewContractTableScopeRow :: "statedb_env \<Rightarrow> u64 \<Rightarrow> TableOp \<Rightarrow> statedb_error + tablet_row" where
  "NewContractTableScopeRow env blockNum op =
     bind_res (if tbl_Operation op \<noteq> TableOp_OPERATION_REMOVE
               then bind_res (from_opt StPanic (se_StringToName env (tbl_Payer op))) (\<lambda>payer.
                    from_opt StMarshal (se_MarshalScope env payer))
               else Inr []) (\<lambda>value.
     bind_res (NewContractTableScopeTablet env (tbl_Code op) (tbl_TableName op)) (\<lambda>tablet.
     bind_res (standardNameToBytes env [tbl_Scope op]) (\<lambda>primaryKey.
       Inr \<lparr>row_Collection = ctscpCollection, row_Identifier = tablet, row_Height = blockNum,
            row_PrimaryKey = primaryKey, row_Value = value\<rparr>)))"

definition ContractTableScopeRow_Scope :: "statedb_env \<Rightarrow> tablet_row \<Rightarrow> string" where
  "ContractTableScopeRow_Scope env r = bytesToName env (row_PrimaryKey r)"

definition ContractTableScopeRow_Payer :: "statedb_env \<Rightarrow> tablet_row \<Rightarrow> statedb_error + string" where
  "ContractTableScopeRow_Payer env r =
     bind_res (from_opt StUnmarshal (se_UnmarshalScope env (row_Value r))) (\<lambda>payer. Inr (se_NameToString env payer))"

section \<open>Permission links\<close>

definition alCollection :: u16 where "alCollection = 0xB100"

definition NewAuthLinkTablet :: "statedb_env \<Rightarrow> string \<Rightarrow> statedb_error + bytes" where
  "NewAuthLinkTablet env account = standardNameToBytes env [account]"

definition AuthLinkTablet_Row :: "bytes \<Rightarrow> u64 \<Rightarrow> bytes \<Rightarrow> bytes \<Rightarrow> statedb_error + tablet_row" where
  "AuthLinkTablet_Row t height primaryKey data =
     (if length primaryKey \<noteq> 16 then Inl StKeyLength
      else Inr \<lparr>row_Collection = alCollection, row_Identifier = t, row_Height = height, row_PrimaryKey = primaryKey, row_Value = data\<rparr>)"

definition newAuthLinkRow :: "statedb_env \<Rightarrow> u64 \<Rightarrow> string \<Rightarrow> string \<Rightarrow> string \<Rightarrow> string \<Rightarrow> statedb_error + tablet_row" where
  "newAuthLinkRow env blockNum account contract action permission =
     bind_res (NewAuthLinkTablet env account) (\<lambda>tablet.
     bind_res (standardNameToBytes env [contract, action]) (\<lambda>primaryKey.
     bind_res (if permission \<noteq> ''''
               then bind_res (from_opt StPanic (se_StringToName env permission)) (\<lambda>name.
                    from_opt StMarshal (se_MarshalLink env name))
               else Inr []) (\<lambda>value.
       Inr \<lparr>row_Collection = alCollection, row_Identifier = tablet, row_Height = blockNum,
            row_PrimaryKey = primaryKey, row_Value = value\<rparr>)))"

definition NewInsertAuthLinkRow :: "statedb_env \<Rightarrow> u64 \<Rightarrow> ActionTrace \<Rightarrow> statedb_error + tablet_row" where
  "NewInsertAuthLinkRow env blockNum act =
     bind_res (from_opt StUnmarshal (se_LinkAuth env (act_JsonData (at_Action act)))) (\<lambda>p.
     bind_res (from_opt StPanic p) (\<lambda>(account, code, type, requirement).
       newAuthLinkRow env blockNum account code type requirement))"

definition NewDeleteAuthLinkRow :: "statedb_env \<Rightarrow> u64 \<Rightarrow> ActionTrace \<Rightarrow> statedb_error + tablet_row" where
  "NewDeleteAuthLinkRow env blockNum act =
     bind_res (from_opt StUnmarshal (se_UnlinkAuth env (act_JsonData (at_Action act)))) (\<lambda>p.
     bind_res (from_opt StPanic p) (\<lambda>(account, code, type).
       newAuthLinkRow env blockNum account code type ''''))"

definition AuthLinkRow_Explode :: "statedb_env \<Rightarrow> tablet_row \<Rightarrow> string \<times> string" where
  "AuthLinkRow_Explode env r = bytesToName2 env (row_PrimaryKey r)"

definition AuthLinkRow_Permission :: "statedb_env \<Rightarrow> tablet_row \<Rightarrow> statedb_error + string" where
  "AuthLinkRow_Permission env r =
     bind_res (from_opt StUnmarshal (se_UnmarshalLink env (row_Value r))) (\<lambda>p. Inr (se_NameToString env p))"

section \<open>Accounts of a key\<close>

definition kaCollection :: u16 where "kaCollection = 0xB300"

definition NewKeyAccountTablet :: "string \<Rightarrow> statedb_error + bytes" where
  "NewKeyAccountTablet publicKey =
     (if length publicKey > 65535 then Inl StPanic
      else Inr (PutUint16 (of_nat (length publicKey)) @ string_bytes publicKey))"

definition KeyAccountTablet_Row :: "bytes \<Rightarrow> u64 \<Rightarrow> bytes \<Rightarrow> bytes \<Rightarrow> statedb_error + tablet_row" where
  "KeyAccountTablet_Row t height primaryKey data =
     (if length primaryKey \<noteq> 16 then Inl StKeyLength
      else Inr \<lparr>row_Collection = kaCollection, row_Identifier = t, row_Height = height, row_PrimaryKey = primaryKey, row_Value = data\<rparr>)"

definition NewKeyAccountRow :: "statedb_env \<Rightarrow> u64 \<Rightarrow> string \<Rightarrow> string \<Rightarrow> string \<Rightarrow> bool \<Rightarrow> statedb_error + tablet_row" where
  "NewKeyAccountRow env blockNum publicKey account permission isDeletion =
     bind_res (NewKeyAccountTablet publicKey) (\<lambda>tablet.
     bind_res (standardNameToBytes env [account, permission]) (\<lambda>primaryKey.
       Inr \<lparr>row_Collection = kaCollection, row_Identifier = tablet, row_Height = blockNum,
            row_PrimaryKey = primaryKey, row_Value = (if \<not> isDeletion then se_kaValue env else [])\<rparr>))"

definition KeyAccountRow_Explode :: "statedb_env \<Rightarrow> tablet_row \<Rightarrow> string \<times> string" where
  "KeyAccountRow_Explode env r = bytesToName2 env (row_PrimaryKey r)"

section \<open>ABIs\<close>

definition abiCollection :: u16 where "abiCollection = 0xA000"

definition NewContractABISinglet :: "statedb_env \<Rightarrow> string \<Rightarrow> statedb_error + bytes" where
  "NewContractABISinglet env contract = standardNameToBytes env [contract]"

definition nameaToBytes :: "statedb_env \<Rightarrow> string \<Rightarrow> statedb_error + bytes" where
  "nameaToBytes env name = bind_res (from_opt StPanic (se_StringToName env name)) (\<lambda>v. Inr (PutUint64 v))"

definition HasJSONDecodedData :: "Action \<Rightarrow> bool" where
  "HasJSONDecodedData a \<longleftrightarrow> length (act_JsonData a) > 0"

definition NewContractABIEntry :: "statedb_env \<Rightarrow> u64 \<Rightarrow> ActionTrace \<Rightarrow> statedb_error + singlet_entry option" where
  "NewContractABIEntry env blockNum act =
     (if \<not> HasJSONDecodedData (at_Action act) then Inr None
      else
        bind_res (from_opt StUnmarshal (se_SetABI env (act_JsonData (at_Action act)))) (\<lambda>p.
        bind_res (from_opt StPanic p) (\<lambda>(account, abi).
        bind_res (if length abi > 0 then from_opt StMarshal (se_MarshalABI env abi) else Inr []) (\<lambda>value.
        bind_res (nameaToBytes env account) (\<lambda>singlet.
          Inr (Some \<lparr>ent_Collection = abiCollection, ent_Identifier = singlet, ent_Height = blockNum, ent_Value = value\<rparr>))))))"

definition ContractABIEntry_RawABI :: "statedb_env \<Rightarrow> singlet_entry \<Rightarrow> statedb_error + bytes" where
  "ContractABIEntry_RawABI env e = from_opt StUnmarshal (se_UnmarshalABI env (ent_Value e))"

section \<open>Mapper\<close>

record mapper_state =
  lastSingletEntryMap :: "(string \<times> singlet_entry) list"
  lastTabletRowMap :: "(string \<times> tablet_row) list"
  firstDbOpWasInsert :: "string \<Rightarrow> bool"

definition keyForRow :: "statedb_env \<Rightarrow> tablet_row \<Rightarrow> string" where
  "keyForRow env r = se_rowKey env (row_Collection r) (row_Identifier r) (row_Height r) (row_PrimaryKey r)"

definition keyForEntry :: "statedb_env \<Rightarrow> singlet_entry \<Rightarrow> string" where
  "keyForEntry env e = se_entryKey env (ent_Collection e) (ent_Identifier e) (ent_Height e)"

definition statedb_isRequiredSystemAction :: "ActionTrace \<Rightarrow> bool" where
  "statedb_isRequiredSystemAction a \<longleftrightarrow>
     at_Receiver a = ''eosio'' \<and> act_Account (at_Action a) = ''eosio''
     \<and> act_Name (at_Action a) \<in> {''setabi'', ''newaccount'', ''updateauth'', ''deleteauth'', ''linkauth'', ''unlinkauth''}"

definition dbOpToContractStateRow :: "statedb_env \<Rightarrow> u64 \<Rightarrow> DBOp \<Rightarrow> statedb_error + tablet_row" where
  "dbOpToContractStateRow env blockNum op = NewContractStateRow env blockNum op"

definition permToKeyAccountRows :: "statedb_env \<Rightarrow> u64 \<Rightarrow> PermissionObject option \<Rightarrow> bool \<Rightarrow> statedb_error + tablet_row list" where
  "permToKeyAccountRows env blockNum perm isDeletion =
     bind_res (from_opt StPanic perm) (\<lambda>p.
       fold_res (\<lambda>key rows.
         bind_res (NewKeyAccountRow env blockNum (kw_PublicKey key) (po_Owner p) (po_Name p) isDeletion) (\<lambda>row.
           Inr (rows @ [row]))) (auth_Keys (po_Authority p)) [])"

definition permOpToKeyAccountRows :: "statedb_env \<Rightarrow> u64 \<Rightarrow> PermOp \<Rightarrow> statedb_error + tablet_row list" where
  "permOpToKeyAccountRows env blockNum permOp =
     (case po_Operation permOp of
        PermOp_OPERATION_INSERT \<Rightarrow> permToKeyAccountRows env blockNum (po_NewPerm permOp) False
      | PermOp_OPERATION_UPDATE \<Rightarrow>
          bind_res (permToKeyAccountRows env blockNum (po_OldPerm permOp) True) (\<lambda>deletedRows.
          bind_res (permToKeyAccountRows env blockNum (po_NewPerm permOp) False) (\<lambda>insertedRows.
            Inr (deletedRows @ insertedRows)))
      | PermOp_OPERATION_REMOVE \<Rightarrow> permToKeyAccountRows env blockNum (po_OldPerm permOp) True
      | _ \<Rightarrow> Inl StPanic)"

definition put_row :: "statedb_env \<Rightarrow> tablet_row \<Rightarrow> mapper_state \<Rightarrow> mapper_state" where
  "put_row env row st = st\<lparr>lastTabletRowMap := AList.update (keyForRow env row) row (lastTabletRowMap st)\<rparr>"

definition unchanged_update :: "DBOp \<Rightarrow> bool" where
  "unchanged_update op \<longleftrightarrow>
     db_Operation op = DBOp_OPERATION_UPDATE \<and> db_OldData op = db_NewData op \<and> db_OldPayer op = db_NewPayer op"

definition map_row :: "statedb_env \<Rightarrow> DBOp_Operation \<Rightarrow> tablet_row \<Rightarrow> mapper_state \<Rightarrow> mapper_state" where
  "map_row env operation row st =
     (let rowKey = keyForRow env row;
          first = (if map_of (lastTabletRowMap st) rowKey = None \<and> operation = DBOp_OPERATION_INSERT
                   then (firstDbOpWasInsert st)(rowKey := True) else firstDbOpWasInsert st)
      in if operation = DBOp_OPERATION_REMOVE \<and> first rowKey
         then st\<lparr>firstDbOpWasInsert := first(rowKey := False),
                 lastTabletRowMap := AList.delete rowKey (lastTabletRowMap st)\<rparr>
         else put_row env row (st\<lparr>firstDbOpWasInsert := first\<rparr>))"

definition map_dbop :: "statedb_env \<Rightarrow> u64 \<Rightarrow> (u32 \<Rightarrow> bool) \<Rightarrow> DBOp \<Rightarrow> mapper_state \<Rightarrow> statedb_error + mapper_state" where
  "map_dbop env blockNum matched op st =
     (if \<not> matched (db_ActionIndex op) then Inr st
      else if unchanged_update op then Inr st
      else bind_res (dbOpToContractStateRow env blockNum op) (\<lambda>row. Inr (map_row env (db_Operation op) row st)))"

definition map_permop :: "statedb_env \<Rightarrow> u64 \<Rightarrow> PermOp \<Rightarrow> mapper_state \<Rightarrow> statedb_error + mapper_state" where
  "map_permop env blockNum op st =
     bind_res (permOpToKeyAccountRows env blockNum op) (\<lambda>rows. Inr (fold (put_row env) rows st))"

definition map_tableop :: "statedb_env \<Rightarrow> u64 \<Rightarrow> (u32 \<Rightarrow> bool) \<Rightarrow> TableOp \<Rightarrow> mapper_state \<Rightarrow> statedb_error + mapper_state" where
  "map_tableop env blockNum matched op st =
     (if \<not> matched (tbl_ActionIndex op) then Inr st
      else bind_res (NewContractTableScopeRow env blockNum op) (\<lambda>row. Inr (put_row env row st)))"

definition map_action :: "statedb_env \<Rightarrow> u64 \<Rightarrow> ActionTrace \<Rightarrow> mapper_state \<Rightarrow> statedb_error + mapper_state" where
  "map_action env blockNum act st =
     (if at_Receiver act \<noteq> ''eosio'' then Inr st
      else if SimpleName act = ''eosio:setabi'' then
        bind_res (NewContractABIEntry env blockNum act) (\<lambda>e.
          case e of
            None \<Rightarrow> Inr st
          | Some abiEntry \<Rightarrow>
              Inr (st\<lparr>lastSingletEntryMap := AList.update (keyForEntry env abiEntry) abiEntry (lastSingletEntryMap st)\<rparr>))
      else if SimpleName act = ''eosio:linkauth'' then
        bind_res (NewInsertAuthLinkRow env blockNum act) (\<lambda>row. Inr (put_row env row st))
      else if SimpleName act = ''eosio:unlinkauth'' then
        bind_res (NewDeleteAuthLinkRow env blockNum act) (\<lambda>row. Inr (put_row env row st))
      else Inr st)"

definition map_trace :: "statedb_env \<Rightarrow> Block \<Rightarrow> u64 \<Rightarrow> TransactionTrace \<Rightarrow> mapper_state \<Rightarrow> statedb_error + mapper_state" where
  "map_trace env blk blockNum trx st =
     (let matched = FilteringActionMatcher blk trx [statedb_isRequiredSystemAction]
      in bind_res (fold_res (map_dbop env blockNum matched) (tt_DbOps (trace_of trx)) st) (\<lambda>st.
         bind_res (fold_res (map_permop env blockNum) (tt_PermOps (trace_of trx)) st) (\<lambda>st.
         bind_res (fold_res (map_tableop env blockNum matched) (tt_TableOps (trace_of trx)) st) (\<lambda>st.
           fold_res (map_action env blockNum) (tt_ActionTraces (trace_of trx)) st))))"

definition addSingletEntriesToRequest :: "statedb_env \<Rightarrow> (string \<times> singlet_entry) list \<Rightarrow> WriteRequest \<Rightarrow> WriteRequest" where
  "addSingletEntriesToRequest env m req =
     fold (\<lambda>k r. r\<lparr>wr_SingletEntries := wr_SingletEntries r @ [the (map_of m k)]\<rparr>) (se_ord env (map fst m)) req"

definition addTabletRowsToRequest :: "statedb_env \<Rightarrow> (string \<times> tablet_row) list \<Rightarrow> WriteRequest \<Rightarrow> WriteRequest" where
  "addTabletRowsToRequest env m req =
     fold (\<lambda>k r. r\<lparr>wr_TabletRows := wr_TabletRows r @ [the (map_of m k)]\<rparr>) (se_ord env (map fst m)) req"

definition BlockMapper_Map :: "statedb_env \<Rightarrow> Block \<Rightarrow> statedb_error + WriteRequest" where
  "BlockMapper_Map env blk =
     (let blockNum = ref_Num (AsRef blk);
          req = \<lparr>wr_Height = Block_Num blk, wr_BlockRef = AsRef blk, wr_SingletEntries = [], wr_TabletRows = []\<rparr>
      in bind_res (fold_res (map_trace env blk blockNum) (TransactionTraces blk)
                     \<lparr>lastSingletEntryMap = [], lastTabletRowMap = [], firstDbOpWasInsert = (\<lambda>_. False)\<rparr>) (\<lambda>st.
           Inr (addTabletRowsToRequest env (lastTabletRowMap st) (addSingletEntriesToRequest env (lastSingletEntryMap st) req))))"

end
