(* ===== verification/StateDbProps.thy ===== *)
theory StateDbProps
  imports StateDb
begin

text \<open>
  The write request of a block against the state of the chain. The specification is the plain map of all
  contract rows, changed by every operation of the block in order; the mapper keeps one row for each key
  and drops rows that were inserted and removed in the same block.
\<close>

section \<open>Store\<close>

type_synonym row_id = "u16 \<times> bytes \<times> bytes"

definition row_id :: "tablet_row \<Rightarrow> row_id" where
  "row_id r = (row_Collection r, row_Identifier r, row_PrimaryKey r)"

definition value_of :: "tablet_row \<Rightarrow> bytes option" where
  "value_of r = (if row_Value r = [] then None else Some (row_Value r))"

definition apply_row :: "tablet_row \<Rightarrow> (row_id \<rightharpoonup> bytes) \<Rightarrow> (row_id \<rightharpoonup> bytes)" where
  "apply_row r s = s(row_id r := value_of r)"

definition apply_request :: "WriteRequest \<Rightarrow> (row_id \<rightharpoonup> bytes) \<Rightarrow> (row_id \<rightharpoonup> bytes)" where
  "apply_request req s = fold apply_row (wr_TabletRows req) s"

text \<open>The identifiers the tablets build: fixed lengths, or a length prefix for public keys.\<close>

definition id_wf :: "row_id \<Rightarrow> bool" where
  "id_wf i = (case i of (c, t, p) \<Rightarrow>
     c = cstCollection \<and> length t = 24 \<and> length p = 8
     \<or> c = ctscpCollection \<and> length t = 16 \<and> length p = 8
     \<or> c = alCollection \<and> length t = 8 \<and> length p = 16
     \<or> c = kaCollection \<and> (\<exists>k. length k \<le> 65535 \<and> t = PutUint16 (of_nat (length k)) @ string_bytes k) \<and> length p = 16)"

definition id_key :: "statedb_env \<Rightarrow> u64 \<Rightarrow> row_id \<Rightarrow> string" where
  "id_key env h i = (case i of (c, t, p) \<Rightarrow> se_rowKey env c t h p)"

text \<open>What the mapper relies on: the row keys of \<open>fluxdb\<close> at one height tell well-formed rows apart, ranging
  over a map visits every key once, and protobuf gives back what it encoded; a message with a field that
  is not zero has at least one byte.\<close>

definition statedb_env_ok :: "statedb_env \<Rightarrow> bool" where
  "statedb_env_ok env \<longleftrightarrow>
     (\<forall>h i j. id_wf i \<and> id_wf j \<and> id_key env h i = id_key env h j \<longrightarrow> i = j)
     \<and> (\<forall>xs. mset (se_ord env xs) = mset xs)
     \<and> (\<forall>p d v. se_MarshalState env p d = Some v \<longrightarrow>
          se_UnmarshalState env v = Some (p, d) \<and> (p \<noteq> 0 \<or> d \<noteq> [] \<longrightarrow> v \<noteq> []))"

section \<open>Chain\<close>

type_synonym chain_state = "u64 \<times> u64 \<times> u64 \<times> u64 \<rightharpoonup> u64 \<times> bytes"

definition std_num :: "statedb_env \<Rightarrow> string \<Rightarrow> u64" where
  "std_num env s = (case se_StringToName env s of None \<Rightarrow> 0 | Some n \<Rightarrow> n)"

definition ext_num :: "statedb_env \<Rightarrow> string \<Rightarrow> u64" where
  "ext_num env s = (case se_ExtendedStringToName env s of None \<Rightarrow> 0 | Some n \<Rightarrow> n)"

definition op_key :: "statedb_env \<Rightarrow> DBOp \<Rightarrow> u64 \<times> u64 \<times> u64 \<times> u64" where
  "op_key env op =
     (ext_num env (db_Code op), ext_num env (db_TableName op), ext_num env (db_Scope op), std_num env (db_PrimaryKey op))"

definition chain_op :: "statedb_env \<Rightarrow> DBOp \<Rightarrow> chain_state \<Rightarrow> chain_state" where
  "chain_op env op cs =
     cs(op_key env op := if db_Operation op = DBOp_OPERATION_REMOVE then None
                         else Some (std_num env (db_NewPayer op), db_NewData op))"

text \<open>The operations of a chain: a row is inserted when it does not exist, updated from what it holds and
  removed when it exists. A row has a payer.\<close>

definition op_ok :: "statedb_env \<Rightarrow> DBOp \<Rightarrow> chain_state \<Rightarrow> bool" where
  "op_ok env op cs \<longleftrightarrow>
     (case db_Operation op of
        DBOp_OPERATION_INSERT \<Rightarrow> cs (op_key env op) = None \<and> std_num env (db_NewPayer op) \<noteq> 0
      | DBOp_OPERATION_UPDATE \<Rightarrow>
          cs (op_key env op) = Some (std_num env (db_OldPayer op), db_OldData op) \<and> std_num env (db_NewPayer op) \<noteq> 0
      | DBOp_OPERATION_REMOVE \<Rightarrow> cs (op_key env op) \<noteq> None
      | _ \<Rightarrow> False)"

fun ops_ok :: "statedb_env \<Rightarrow> DBOp list \<Rightarrow> chain_state \<Rightarrow> bool" where
  "ops_ok env [] cs = True"
| "ops_ok env (op # ops) cs = (op_ok env op cs \<and> ops_ok env ops (chain_op env op cs))"

definition trace_matched :: "Block \<Rightarrow> TransactionTrace \<Rightarrow> DBOp list" where
  "trace_matched blk t =
     filter (\<lambda>op. FilteringActionMatcher blk t [statedb_isRequiredSystemAction] (db_ActionIndex op)) (tt_DbOps (trace_of t))"

definition matched_ops :: "Block \<Rightarrow> DBOp list" where
  "matched_ops blk = concat (map (trace_matched blk) (TransactionTraces blk))"

definition cst_id :: "u64 \<times> u64 \<times> u64 \<times> u64 \<Rightarrow> row_id" where
  "cst_id k = (case k of (c, t, sc, p) \<Rightarrow> (cstCollection, PutUint64 c @ PutUint64 t @ PutUint64 sc, PutUint64 p))"

definition stored :: "statedb_env \<Rightarrow> (row_id \<rightharpoonup> bytes) \<Rightarrow> chain_state" where
  "stored env s k = Option.bind (s (cst_id k)) (se_UnmarshalState env)"

section \<open>Rows\<close>

lemma cst_id_inject [simp]: "cst_id k = cst_id k' \<longleftrightarrow> k = k'"
  by (cases k; cases k') (auto simp: cst_id_def)

lemma id_wf_cst [simp]: "id_wf (cst_id k)"
  by (cases k) (simp add: cst_id_def id_wf_def)

lemma keyForRow_id: "keyForRow env r = id_key env (row_Height r) (row_id r)"
  by (simp add: keyForRow_def id_key_def row_id_def)

lemma NewContractStateRow_Inr:
  assumes "NewContractStateRow env h op = Inr r"
  shows "row_Height r = h" "row_id r = cst_id (op_key env op)"
    "db_Operation op = DBOp_OPERATION_REMOVE \<Longrightarrow> value_of r = None"
    "\<lbrakk>statedb_env_ok env; db_Operation op \<noteq> DBOp_OPERATION_REMOVE; std_num env (db_NewPayer op) \<noteq> 0\<rbrakk> \<Longrightarrow>
       Option.bind (value_of r) (se_UnmarshalState env) = Some (std_num env (db_NewPayer op), db_NewData op)"
  using assms
  by (auto simp: NewContractStateRow_def NewContractStateTablet_def extendedNameToBytes_def standardNameToBytes_def res_simps
      row_id_def cst_id_def op_key_def std_num_def ext_num_def value_of_def statedb_env_ok_def split: if_splits)

definition other_row :: "u64 \<Rightarrow> tablet_row \<Rightarrow> bool" where
  "other_row h r \<longleftrightarrow> row_Height r = h \<and> id_wf (row_id r) \<and> row_Collection r \<noteq> cstCollection"

lemmas collections = cstCollection_def ctscpCollection_def alCollection_def kaCollection_def

lemma standardNameToBytes_length: "standardNameToBytes env names = Inr bs \<Longrightarrow> length bs = 8 * length names"
proof -
  have "nameToBytes f names = Inr bs \<Longrightarrow> length bs = 8 * length names" for f
    by (induction names arbitrary: bs) (auto simp: res_simps)
  then show "standardNameToBytes env names = Inr bs \<Longrightarrow> length bs = 8 * length names" by (simp add: standardNameToBytes_def)
qed

lemma other_scope: "NewContractTableScopeRow env h op = Inr r \<Longrightarrow> other_row h r"
  by (auto simp: other_row_def NewContractTableScopeRow_def NewContractTableScopeTablet_def row_id_def id_wf_def collections res_simps
      simp del: One_nat_def dest!: standardNameToBytes_length)

lemma other_link: "newAuthLinkRow env h account contract action permission = Inr r \<Longrightarrow> other_row h r"
  by (auto simp: other_row_def newAuthLinkRow_def NewAuthLinkTablet_def row_id_def id_wf_def collections res_simps
      dest!: standardNameToBytes_length)

lemma other_key:
  assumes "NewKeyAccountRow env h key account permission del = Inr r"
  shows "other_row h r"
proof -
  obtain p where r: "length key \<le> 65535" "row_Height r = h" "row_Collection r = kaCollection" "row_PrimaryKey r = p" "length p = 16"
      "row_Identifier r = PutUint16 (of_nat (length key)) @ string_bytes key"
    using assms by (auto simp: NewKeyAccountRow_def NewKeyAccountTablet_def res_simps dest!: standardNameToBytes_length split: if_splits)
  have "id_wf (kaCollection, PutUint16 (of_nat (length key)) @ string_bytes key, p)"
    unfolding id_wf_def using r(1,5) by blast
  then show ?thesis using r by (simp add: other_row_def row_id_def collections)
qed

lemma other_links:
  "NewInsertAuthLinkRow env h act = Inr r \<Longrightarrow> other_row h r"
  "NewDeleteAuthLinkRow env h act = Inr r \<Longrightarrow> other_row h r"
  by (auto simp: NewInsertAuthLinkRow_def NewDeleteAuthLinkRow_def res_simps intro: other_link)

lemma other_keys:
  assumes "permOpToKeyAccountRows env h op = Inr rows" and "r \<in> set rows"
  shows "other_row h r"
proof -
  have perm: "\<forall>r\<in>set rows. other_row h r" if perm: "permToKeyAccountRows env h perm del = Inr rows" for perm del rows
  proof (cases perm)
    case (Some p)
    from perm [unfolded permToKeyAccountRows_def Some from_opt_simps bind_res_simps]
    show ?thesis by (rule fold_res_invariant) (auto simp: res_simps dest: other_key)
  qed (use perm in \<open>simp add: permToKeyAccountRows_def\<close>)
  show ?thesis
    using assms by (cases "po_Operation op") (auto simp: permOpToKeyAccountRows_def res_simps dest!: perm)
qed

section \<open>Invariant of the mapper\<close>

text \<open>The pending rows on top of the store \<open>s\<close>.\<close>

definition pending_rows :: "statedb_env \<Rightarrow> u64 \<Rightarrow> (row_id \<rightharpoonup> bytes) \<Rightarrow> mapper_state \<Rightarrow> (row_id \<rightharpoonup> bytes)" where
  "pending_rows env h s st i =
     (case map_of (lastTabletRowMap st) (id_key env h i) of None \<Rightarrow> s i | Some r \<Rightarrow> value_of r)"

definition rows_inv :: "statedb_env \<Rightarrow> u64 \<Rightarrow> mapper_state \<Rightarrow> bool" where
  "rows_inv env h st \<longleftrightarrow>
     distinct (map fst (lastTabletRowMap st))
     \<and> (\<forall>(k, r)\<in>set (lastTabletRowMap st). k = keyForRow env r \<and> row_Height r = h \<and> id_wf (row_id r))"

definition mapper_inv :: "statedb_env \<Rightarrow> u64 \<Rightarrow> (row_id \<rightharpoonup> bytes) \<Rightarrow> chain_state \<Rightarrow> mapper_state \<Rightarrow> bool" where
  "mapper_inv env h s cs st \<longleftrightarrow>
     rows_inv env h st
     \<and> stored env (pending_rows env h s st) = cs
     \<and> (\<forall>k. firstDbOpWasInsert st (id_key env h (cst_id k)) \<longrightarrow> stored env s k = None)"

lemma id_key_eq:
  "\<lbrakk>statedb_env_ok env; id_wf i; id_wf j\<rbrakk> \<Longrightarrow> id_key env h i = id_key env h j \<longleftrightarrow> i = j"
  unfolding statedb_env_ok_def by metis

lemma rows_inv_put_row:
  assumes "rows_inv env h st" and "row_Height r = h" and "id_wf (row_id r)"
  shows "rows_inv env h (put_row env r st)"
proof -
  have "set (AList.update k v al) \<subseteq> insert (k, v) (set al)" for k :: string and v :: tablet_row and al
    by (induction al) auto
  then show ?thesis
    using assms by (fastforce simp: rows_inv_def put_row_def distinct_update)
qed

lemma pending_put_row:
  assumes "statedb_env_ok env" and "row_Height r = h" and "id_wf (row_id r)" and "id_wf i"
  shows "pending_rows env h s (put_row env r st) i = (if i = row_id r then value_of r else pending_rows env h s st i)"
  using id_key_eq [OF assms(1,4,3)] assms(2)
  by (simp add: pending_rows_def put_row_def keyForRow_id update_conv')

lemma mapper_inv_other:
  assumes "statedb_env_ok env" and "other_row h r" and "mapper_inv env h s cs st"
  shows "mapper_inv env h s cs (put_row env r st)"
proof -
  have "cst_id k \<noteq> row_id r" for k using assms(2) by (cases k) (auto simp: other_row_def cst_id_def row_id_def)
  then have "stored env (pending_rows env h s (put_row env r st)) = stored env (pending_rows env h s st)"
    using assms(1,2) by (auto simp: fun_eq_iff stored_def other_row_def pending_put_row)
  then show ?thesis
    using assms rows_inv_put_row [of env h st r] by (simp add: mapper_inv_def other_row_def) (simp add: put_row_def)
qed

lemma mapper_inv_dbop:
  assumes ok: "statedb_env_ok env" and row: "NewContractStateRow env h op = Inr r"
    and op: "op_ok env op cs" and inv: "mapper_inv env h s cs st"
  shows "mapper_inv env h s (chain_op env op cs) (map_row env (db_Operation op) r st)"
proof -
  let ?k = "op_key env op" and ?key = "id_key env h (cst_id (op_key env op))"
  note r = NewContractStateRow_Inr [OF row]
  have key: "keyForRow env r = ?key" using r(1,2) by (simp add: keyForRow_id)
  have cst: "id_key env h (cst_id k) = ?key \<longleftrightarrow> k = ?k" for k using id_key_eq [OF ok] by simp
  let ?first = "if map_of (lastTabletRowMap st) ?key = None \<and> db_Operation op = DBOp_OPERATION_INSERT
    then (firstDbOpWasInsert st)(?key := True) else firstDbOpWasInsert st"
  have absent: "stored env s ?k = None" if "map_of (lastTabletRowMap st) ?key = None" "db_Operation op = DBOp_OPERATION_INSERT"
  proof -
    have "stored env s ?k = cs ?k" using inv that(1) by (auto simp: mapper_inv_def stored_def pending_rows_def)
    then show ?thesis using op that(2) by (simp add: op_ok_def)
  qed
  have first: "\<forall>k. ?first (id_key env h (cst_id k)) \<longrightarrow> stored env s k = None"
    using inv absent cst by (auto simp: mapper_inv_def)
  show ?thesis
  proof (cases "db_Operation op = DBOp_OPERATION_REMOVE \<and> ?first ?key")
    case True
    let ?st = "st\<lparr>firstDbOpWasInsert := ?first(?key := False), lastTabletRowMap := AList.delete ?key (lastTabletRowMap st)\<rparr>"
    have "stored env s ?k = None" using True first by blast
    then have "stored env (pending_rows env h s ?st) k = chain_op env op cs k" for k
      using True inv cst [of k]
      by (auto simp: mapper_inv_def stored_def pending_rows_def chain_op_def delete_conv')
    moreover have "rows_inv env h ?st"
      using inv by (auto simp: mapper_inv_def rows_inv_def distinct_map_filter AList.delete_eq)
    moreover have "map_row env (db_Operation op) r st = ?st"
      unfolding map_row_def key Let_def using True by (rule if_P)
    ultimately show ?thesis using first by (auto simp: mapper_inv_def fun_eq_iff)
  next
    case False
    then have m: "map_row env (db_Operation op) r st = put_row env r (st\<lparr>firstDbOpWasInsert := ?first\<rparr>)"
      by (simp only: map_row_def key Let_def if_False)
    have val: "Option.bind (value_of r) (se_UnmarshalState env) = chain_op env op cs ?k"
      using r(3) r(4) [OF ok] op by (cases "db_Operation op") (auto simp: chain_op_def op_ok_def)
    have "stored env (pending_rows env h s (put_row env r (st\<lparr>firstDbOpWasInsert := ?first\<rparr>))) k = chain_op env op cs k" for k
    proof -
      have "stored env (pending_rows env h s st) k = cs k" using inv by (simp add: mapper_inv_def)
      moreover have "pending_rows env h s (st\<lparr>firstDbOpWasInsert := ?first\<rparr>) = pending_rows env h s st"
        by (simp add: pending_rows_def fun_eq_iff)
      ultimately show ?thesis
        using pending_put_row [OF ok r(1), of "cst_id k" s] r(2) val by (cases "k = ?k") (simp_all add: stored_def chain_op_def)
    qed
    moreover have "rows_inv env h (put_row env r (st\<lparr>firstDbOpWasInsert := ?first\<rparr>))"
      using inv r(1,2) by (intro rows_inv_put_row) (simp_all add: mapper_inv_def rows_inv_def)
    ultimately show ?thesis using first unfolding m by (simp add: mapper_inv_def fun_eq_iff) (simp add: put_row_def)
  qed
qed

section \<open>Blocks\<close>

lemma ops_ok_append: "ops_ok env (xs @ ys) cs \<longleftrightarrow> ops_ok env xs cs \<and> ops_ok env ys (fold (chain_op env) xs cs)"
  by (induction xs arbitrary: cs) simp_all

text \<open>An update that changes nothing is skipped, and changes nothing in the chain.\<close>

lemma chain_op_unchanged: "unchanged_update op \<Longrightarrow> op_ok env op cs \<Longrightarrow> chain_op env op cs = cs"
  by (auto simp: unchanged_update_def op_ok_def chain_op_def intro!: fun_upd_idem)

lemma mapper_inv_dbops:
  assumes "statedb_env_ok env"
  shows "\<lbrakk>fold_res (map_dbop env h matched) ops st = Inr st'; mapper_inv env h s cs st;
      ops_ok env (filter (\<lambda>op. matched (db_ActionIndex op)) ops) cs\<rbrakk> \<Longrightarrow>
    mapper_inv env h s (fold (chain_op env) (filter (\<lambda>op. matched (db_ActionIndex op)) ops) cs) st'"
proof (induction ops arbitrary: st cs)
  case (Cons op ops)
  from Cons.prems(1) obtain st1 where st1: "map_dbop env h matched op st = Inr st1" "fold_res (map_dbop env h matched) ops st1 = Inr st'"
    by (auto simp: res_simps)
  show ?case
  proof (cases "matched (db_ActionIndex op)")
    case True
    have "mapper_inv env h s (chain_op env op cs) st1"
      using st1(1) True Cons.prems(2,3) mapper_inv_dbop [OF assms, of h op _ cs s st]
      by (auto simp: map_dbop_def dbOpToContractStateRow_def res_simps chain_op_unchanged split: if_splits)
    then show ?thesis using Cons.IH [OF st1(2)] Cons.prems(3) True by simp
  next
    case False
    then show ?thesis using Cons.IH [OF st1(2)] Cons.prems st1(1) by (simp add: map_dbop_def)
  qed
qed simp

lemma mapper_inv_others:
  assumes ok: "statedb_env_ok env" and inv: "mapper_inv env h s cs st"
  shows "map_permop env h pop st = Inr st' \<Longrightarrow> mapper_inv env h s cs st'"
    and "map_tableop env h matched tblop st = Inr st' \<Longrightarrow> mapper_inv env h s cs st'"
    and "map_action env h act st = Inr st' \<Longrightarrow> mapper_inv env h s cs st'"
proof -
  note put = mapper_inv_other [OF ok]
  have rows: "\<forall>r\<in>set rows. other_row h r \<Longrightarrow> mapper_inv env h s cs st \<Longrightarrow> mapper_inv env h s cs (fold (put_row env) rows st)" for rows st
    by (induction rows arbitrary: st) (simp_all add: put)
  show "map_permop env h pop st = Inr st' \<Longrightarrow> mapper_inv env h s cs st'"
    using rows inv by (auto simp: map_permop_def res_simps dest: other_keys)
  show "map_tableop env h matched tblop st = Inr st' \<Longrightarrow> mapper_inv env h s cs st'"
    using put inv by (auto simp: map_tableop_def res_simps dest: other_scope split: if_splits)
  have "mapper_inv env h s cs (st\<lparr>lastSingletEntryMap := m\<rparr>)" for m
    using inv by (simp add: mapper_inv_def rows_inv_def stored_def pending_rows_def [abs_def])
  then show "map_action env h act st = Inr st' \<Longrightarrow> mapper_inv env h s cs st'"
    using put inv by (auto simp: map_action_def res_simps dest: other_links split: if_splits option.splits)
qed

lemma mapper_inv_traces:
  assumes ok: "statedb_env_ok env"
  shows "\<lbrakk>fold_res (map_trace env blk h) ts st = Inr st'; mapper_inv env h s cs st;
      ops_ok env (concat (map (trace_matched blk) ts)) cs\<rbrakk> \<Longrightarrow>
    mapper_inv env h s (fold (chain_op env) (concat (map (trace_matched blk) ts)) cs) st'"
proof (induction ts arbitrary: st cs)
  case (Cons t ts)
  let ?m = "FilteringActionMatcher blk t [statedb_isRequiredSystemAction]" and ?cs = "fold (chain_op env) (trace_matched blk t) cs"
  from Cons.prems(1) obtain st3 where t: "map_trace env blk h t st = Inr st3" and ts: "fold_res (map_trace env blk h) ts st3 = Inr st'"
    by (auto simp: res_simps)
  from t obtain st0 st1 st2
    where st: "fold_res (map_dbop env h ?m) (tt_DbOps (trace_of t)) st = Inr st0"
      "fold_res (map_permop env h) (tt_PermOps (trace_of t)) st0 = Inr st1"
      "fold_res (map_tableop env h ?m) (tt_TableOps (trace_of t)) st1 = Inr st2"
      "fold_res (map_action env h) (tt_ActionTraces (trace_of t)) st2 = Inr st3"
    by (auto simp: map_trace_def res_simps Let_def)
  have "mapper_inv env h s ?cs st0"
    using mapper_inv_dbops [OF ok st(1) Cons.prems(2)] Cons.prems(3) by (simp add: trace_matched_def ops_ok_append)
  note inv = this mapper_inv_others [OF ok]
  have "mapper_inv env h s ?cs st1" using st(2) inv(1) by (rule fold_res_invariant) (rule inv(2))
  with st(3) have "mapper_inv env h s ?cs st2" by (rule fold_res_invariant) (rule inv(3))
  with st(4) have "mapper_inv env h s ?cs st3" by (rule fold_res_invariant) (rule inv(4))
  then show ?case using Cons.IH [OF ts] Cons.prems(3) by (simp add: ops_ok_append)
qed simp

text \<open>Applying the pending rows in any order.\<close>

lemma fold_apply_rows:
  assumes "distinct (map row_id rows)"
  shows "fold apply_row rows s i = (case find (\<lambda>r. row_id r = i) rows of None \<Rightarrow> s i | Some r \<Rightarrow> value_of r)"
  using assms
proof (induction rows arbitrary: s)
  case (Cons r rows)
  have "find (\<lambda>r'. row_id r' = row_id r) rows = None" using Cons.prems by (auto simp: find_None_iff image_iff)
  then show ?case using Cons by (auto simp: apply_row_def split: option.split)
qed simp

lemma find_unique:
  "\<lbrakk>distinct (map f xs); x \<in> set xs; f x = y\<rbrakk> \<Longrightarrow> find (\<lambda>z. f z = y) xs = Some x"
  by (induction xs) (auto simp: image_iff)

lemma request_rows:
  "wr_TabletRows (addTabletRowsToRequest env m (addSingletEntriesToRequest env m' req))
     = wr_TabletRows req @ map (\<lambda>k. the (map_of m k)) (se_ord env (map fst m))"
proof -
  have "wr_TabletRows (fold (\<lambda>k r. r\<lparr>wr_TabletRows := wr_TabletRows r @ [f k]\<rparr>) ks q) = wr_TabletRows q @ map f ks"
    for f :: "string \<Rightarrow> tablet_row" and ks and q :: WriteRequest
    by (induction ks arbitrary: q) simp_all
  moreover have "wr_TabletRows (fold (\<lambda>k r. r\<lparr>wr_SingletEntries := wr_SingletEntries r @ [f k]\<rparr>) ks q) = wr_TabletRows q"
    for f :: "string \<Rightarrow> singlet_entry" and ks and q :: WriteRequest
    by (induction ks arbitrary: q) simp_all
  ultimately show ?thesis by (simp add: addTabletRowsToRequest_def addSingletEntriesToRequest_def)
qed

lemma apply_pending:
  assumes ok: "statedb_env_ok env" and inv: "rows_inv env h st" and wf: "id_wf i"
  shows "fold apply_row (map (\<lambda>k. the (map_of (lastTabletRowMap st) k)) (se_ord env (map fst (lastTabletRowMap st)))) s i
    = pending_rows env h s st i"
proof -
  let ?m = "lastTabletRowMap st"
  let ?rows = "map (\<lambda>k. the (map_of ?m k)) (se_ord env (map fst ?m))"
  have perm: "mset (se_ord env (map fst ?m)) = mset (map fst ?m)" using ok by (simp add: statedb_env_ok_def)
  have keys: "distinct (se_ord env (map fst ?m))" "set (se_ord env (map fst ?m)) = dom (map_of ?m)"
    using mset_eq_imp_distinct_iff [OF perm] inv mset_eq_setD [OF perm] by (simp_all add: rows_inv_def dom_map_of_conv_image_fst)
  have row: "id_key env h (row_id r) = k" "id_wf (row_id r)" if "map_of ?m k = Some r" for k r
    using inv map_of_SomeD [OF that] by (auto simp: rows_inv_def keyForRow_id)
  have "row_id (the (map_of ?m k)) = row_id (the (map_of ?m k')) \<longrightarrow> k = k'" if "k \<in> dom (map_of ?m)" "k' \<in> dom (map_of ?m)" for k k'
    using that row(1) [of k] row(1) [of k'] by auto
  then have "distinct (map row_id ?rows)" using keys by (simp add: distinct_map inj_on_def)
  note app = fold_apply_rows [OF this, of s i]
  show ?thesis
  proof (cases "map_of ?m (id_key env h i)")
    case None
    have "row_id r \<noteq> i" if "r \<in> set ?rows" for r
      using that keys(2) None row(1) by auto
    then have "find (\<lambda>r. row_id r = i) ?rows = None" by (simp add: find_None_iff)
    then show ?thesis using None app by (simp add: pending_rows_def)
  next
    case (Some r)
    have i: "row_id r = i" using row [OF Some] id_key_eq [OF ok _ wf] by blast
    have mem: "r \<in> set ?rows" using Some keys(2) by (force simp: image_iff)
    have "find (\<lambda>r. row_id r = i) ?rows = Some r"
      using \<open>distinct (map row_id ?rows)\<close> mem i by (rule find_unique)
    then show ?thesis using Some app by (simp add: pending_rows_def)
  qed
qed

lemma request_refines_ops:
  assumes "statedb_env_ok env" and "BlockMapper_Map env blk = Inr req" and "ops_ok env (matched_ops blk) (stored env s)"
  shows "stored env (apply_request req s) = fold (chain_op env) (matched_ops blk) (stored env s)"
proof -
  let ?h = "ref_Num (AsRef blk)"
  obtain st where st: "fold_res (map_trace env blk ?h) (TransactionTraces blk)
        \<lparr>lastSingletEntryMap = [], lastTabletRowMap = [], firstDbOpWasInsert = (\<lambda>_. False)\<rparr> = Inr st"
      and req: "wr_TabletRows req = map (\<lambda>k. the (map_of (lastTabletRowMap st) k)) (se_ord env (map fst (lastTabletRowMap st)))"
    using assms(2) by (auto simp: BlockMapper_Map_def res_simps Let_def request_rows)
  have "mapper_inv env ?h s (stored env s) \<lparr>lastSingletEntryMap = [], lastTabletRowMap = [], firstDbOpWasInsert = (\<lambda>_. False)\<rparr>"
    by (simp add: mapper_inv_def rows_inv_def stored_def pending_rows_def [abs_def])
  from mapper_inv_traces [OF assms(1) st this] assms(3)
  have "mapper_inv env ?h s (fold (chain_op env) (matched_ops blk) (stored env s)) st" by (simp add: matched_ops_def)
  then show ?thesis
    using apply_pending [OF assms(1), of ?h st "cst_id _"]
    by (auto simp: mapper_inv_def stored_def apply_request_def req fun_eq_iff)
qed

lemma requests_refine_ops:
  assumes "statedb_env_ok env" and "list_all2 (\<lambda>b r. BlockMapper_Map env b = Inr r) blks reqs"
    and "ops_ok env (concat (map matched_ops blks)) (stored env s)"
  shows "stored env (fold apply_request reqs s) = fold (chain_op env) (concat (map matched_ops blks)) (stored env s)"
  using assms(2,3)
proof (induction arbitrary: s rule: list_all2_induct)
  case (Cons blk blks req reqs)
  have ok: "ops_ok env (matched_ops blk) (stored env s)"
    "ops_ok env (concat (map matched_ops blks)) (fold (chain_op env) (matched_ops blk) (stored env s))"
    using Cons.prems by (simp_all add: ops_ok_append)
  note step = request_refines_ops [OF assms(1) Cons.hyps(1) ok(1)]
  show ?case using Cons.IH [of "apply_request req s"] ok(2) by (simp add: step)
qed simp

text \<open>A request carries the number and the reference of its block.\<close>

lemma mapped_request_fields:
  assumes "BlockMapper_Map env blk = Inr req"
  shows "wr_Height req = Block_Num blk" and "wr_BlockRef req = AsRef blk"
proof -
  have rows: "wr_Height (fold (\<lambda>k r. r\<lparr>wr_TabletRows := f k r\<rparr>) ks q) = wr_Height q \<and>
      wr_BlockRef (fold (\<lambda>k r. r\<lparr>wr_TabletRows := f k r\<rparr>) ks q) = wr_BlockRef q" for f ks and q :: WriteRequest
    by (induction ks arbitrary: q) simp_all
  have entries: "wr_Height (fold (\<lambda>k r. r\<lparr>wr_SingletEntries := f k r\<rparr>) ks q) = wr_Height q \<and>
      wr_BlockRef (fold (\<lambda>k r. r\<lparr>wr_SingletEntries := f k r\<rparr>) ks q) = wr_BlockRef q" for f ks and q :: WriteRequest
    by (induction ks arbitrary: q) simp_all
  have "wr_Height (addTabletRowsToRequest env m (addSingletEntriesToRequest env m' q)) = wr_Height q"
    "wr_BlockRef (addTabletRowsToRequest env m (addSingletEntriesToRequest env m' q)) = wr_BlockRef q" for m m' q
    by (simp_all add: addTabletRowsToRequest_def addSingletEntriesToRequest_def rows entries)
  then show "wr_Height req = Block_Num blk" "wr_BlockRef req = AsRef blk"
    using assms by (auto simp: BlockMapper_Map_def res_simps Let_def)
qed

lemma mapped_requests_filter:
  assumes "list_all2 (\<lambda>b r. BlockMapper_Map env b = Inr r) blks reqs"
  shows "list_all2 (\<lambda>b r. BlockMapper_Map env b = Inr r) (filter (\<lambda>b. P (Block_Num b)) blks) (filter (\<lambda>r. P (wr_Height r)) reqs)
    \<and> map wr_BlockRef (filter (\<lambda>r. P (wr_Height r)) reqs) = map AsRef (filter (\<lambda>b. P (Block_Num b)) blks)"
  using assms by (induction rule: list_all2_induct) (auto simp: mapped_request_fields)

text \<open>C1: The write request of a block does to the stored contract rows what all the matched operations of
  the block do to the rows of the chain, one after the other: coalescing the operations of a row, dropping
  updates that change nothing and dropping rows inserted and removed within the block lose nothing, in any
  order in which the rows are written.\<close>

theorem mapper_refines_chain:
  assumes "statedb_env_ok env" and "BlockMapper_Map env blk = Inr req" and "ops_ok env (matched_ops blk) (stored env s)"
  shows "stored env (apply_request req s) = fold (chain_op env) (matched_ops blk) (stored env s)"
  using assms by (rule request_refines_ops)

section \<open>Concrete keys\<close>

text \<open>Keys that are the collection, the identifier, the height and the primary key one after the other tell rows
  apart: the length of an identifier follows from its collection or from its own prefix.\<close>

definition concat_row_key :: "u16 \<Rightarrow> bytes \<Rightarrow> u64 \<Rightarrow> bytes \<Rightarrow> string" where
  "concat_row_key c t h p = map (\<lambda>b. char_of (unat b)) (PutUint16 c @ t @ PutUint64 h @ p)"

lemma concat_row_key_inject:
  assumes "id_wf (c, t, p)" and "id_wf (c', t', p')" and "concat_row_key c t h p = concat_row_key c' t' h p'"
  shows "c = c' \<and> t = t' \<and> p = p'"
proof -
  have "of_char (char_of (unat b) :: char) = unat b" for b :: u8
    using unsigned_less [of b, where ?'a = nat] by simp
  then have inj: "inj (\<lambda>b :: u8. char_of (unat b) :: char)"
    by (intro inj_on_inverseI [where g = "\<lambda>c. of_nat (of_char c)"]) simp
  from assms(3) have "PutUint16 c @ t @ PutUint64 h @ p = PutUint16 c' @ t' @ PutUint64 h @ p'"
    unfolding concat_row_key_def inj_map_eq_map [OF inj] .
  then have eq: "c = c'" "t @ PutUint64 h @ p = t' @ PutUint64 h @ p'" by simp_all
  have "length t = length t'"
  proof (cases "c = kaCollection")
    case True
    obtain k k' where k: "length k \<le> 65535" "t = PutUint16 (of_nat (length k)) @ string_bytes k"
        "length k' \<le> 65535" "t' = PutUint16 (of_nat (length k')) @ string_bytes k'"
      using assms(1,2) eq(1) True by (auto simp: id_wf_def collections)
    then have "(of_nat (length k) :: u16) = of_nat (length k')" using eq(2) by simp
    then have "length k = length k'" using of_nat_u16_inject k(1,3) by blast
    then show ?thesis using k by (simp add: string_bytes_def)
  next
    case False
    then show ?thesis using assms(1,2) eq(1) by (auto simp: id_wf_def collections)
  qed
  then show ?thesis using eq by simp
qed

definition sample_statedb_env :: statedb_env where
  "sample_statedb_env =
     \<lparr>se_StringToName = (\<lambda>s. Some (of_nat (length s))), se_ExtendedStringToName = (\<lambda>s. Some (of_nat (length s))),
      se_NameToString = (\<lambda>n. replicate (unat n) CHR ''a''),
      se_MarshalState = (\<lambda>p d. Some (PutUint64 p @ d)), se_UnmarshalState = (\<lambda>v. Some (Uint64 v, drop 8 v)),
      se_MarshalScope = (\<lambda>p. Some (PutUint64 p)), se_UnmarshalScope = (\<lambda>v. Some (Uint64 v)),
      se_MarshalLink = (\<lambda>p. Some (PutUint64 p)), se_UnmarshalLink = (\<lambda>v. Some (Uint64 v)),
      se_MarshalABI = Some, se_UnmarshalABI = Some, se_kaValue = [8, 1],
      se_SetABI = (\<lambda>j. None), se_LinkAuth = (\<lambda>j. None), se_UnlinkAuth = (\<lambda>j. None),
      se_rowKey = concat_row_key, se_entryKey = (\<lambda>c t h. concat_row_key c t h []), se_ord = (\<lambda>xs. xs)\<rparr>"

lemma sample_statedb_env_ok: "statedb_env_ok sample_statedb_env"
  using concat_row_key_inject by (auto simp: statedb_env_ok_def sample_statedb_env_def id_key_def)

definition sample_state_op :: "DBOp_Operation \<Rightarrow> string \<Rightarrow> bytes \<Rightarrow> bytes \<Rightarrow> DBOp" where
  "sample_state_op operation key oldData newData =
     \<lparr>db_Operation = operation, db_ActionIndex = 0, db_OldPayer = ''aaa'', db_NewPayer = ''aaa'', db_Code = ''eosio'',
      db_Scope = ''a'', db_TableName = ''ta'', db_PrimaryKey = key, db_OldData = oldData, db_NewData = newData\<rparr>"

definition sample_state_block :: Block where
  "sample_state_block = empty_block\<lparr>blk_Number := 7, blk_UnfilteredTransactionTraces :=
     [TransactionTrace (empty_trace_fields\<lparr>tt_DbOps :=
        [sample_state_op DBOp_OPERATION_INSERT ''k'' [] [1], sample_state_op DBOp_OPERATION_INSERT ''kk'' [] [2]]\<rparr>) None,
      TransactionTrace (empty_trace_fields\<lparr>tt_DbOps :=
        [sample_state_op DBOp_OPERATION_UPDATE ''k'' [1] [3], sample_state_op DBOp_OPERATION_REMOVE ''kk'' [2] []]\<rparr>) None]\<rparr>"

definition sample_state_request :: WriteRequest where
  "sample_state_request =
     \<lparr>wr_Height = 7, wr_BlockRef = AsRef sample_state_block, wr_SingletEntries = [],
      wr_TabletRows = [\<lparr>row_Collection = cstCollection, row_Identifier = PutUint64 5 @ PutUint64 2 @ PutUint64 1,
        row_Height = 7, row_PrimaryKey = PutUint64 1, row_Value = PutUint64 3 @ [3]\<rparr>]\<rparr>"

lemma sample_row:
  "NewContractStateRow sample_statedb_env h (sample_state_op operation key oldData newData) =
     Inr \<lparr>row_Collection = cstCollection, row_Identifier = PutUint64 5 @ PutUint64 2 @ PutUint64 1, row_Height = h,
       row_PrimaryKey = PutUint64 (of_nat (length key)),
       row_Value = (if operation = DBOp_OPERATION_REMOVE then [] else PutUint64 3 @ newData)\<rparr>"
  by (simp add: NewContractStateRow_def sample_statedb_env_def sample_state_op_def NewContractStateTablet_def
      extendedNameToBytes_def standardNameToBytes_def)

lemma sample_state_mapped: "BlockMapper_Map sample_statedb_env sample_state_block = Inr sample_state_request"
proof -
  let ?t = "PutUint64 5 @ PutUint64 2 @ PutUint64 1"
  have key: "concat_row_key cstCollection ?t h (PutUint64 a) = concat_row_key cstCollection ?t h (PutUint64 b) \<longleftrightarrow> a = b" for h a b
    using concat_row_key_inject [of cstCollection ?t "PutUint64 a" cstCollection ?t "PutUint64 b" h] by (auto simp: id_wf_def)
  have env: "keyForRow sample_statedb_env r = concat_row_key (row_Collection r) (row_Identifier r) (row_Height r) (row_PrimaryKey r)"
    "se_ord sample_statedb_env xs = xs" for r xs
    by (simp_all add: keyForRow_def sample_statedb_env_def)
  have ops: "db_Operation (sample_state_op operation key oldData newData) = operation"
    "unchanged_update (sample_state_op operation key oldData newData) \<longleftrightarrow> operation = DBOp_OPERATION_UPDATE \<and> oldData = newData" for operation key oldData newData
    by (auto simp: sample_state_op_def unchanged_update_def)
  have "TransactionTraces sample_state_block = blk_UnfilteredTransactionTraces sample_state_block" "\<not> blk_FilteringApplied sample_state_block"
    "ref_Num (AsRef sample_state_block) = 7" "Block_Num sample_state_block = 7"
    by (simp_all add: TransactionTraces_def sample_state_block_def empty_block_def AsRef_def Block_Num_def)
  then show ?thesis
    unfolding BlockMapper_Map_def Let_def
    by (simp add: sample_state_request_def sample_state_block_def map_trace_def FilteringActionMatcher_def map_dbop_def
        dbOpToContractStateRow_def sample_row ops map_row_def put_row_def env key addTabletRowsToRequest_def
        addSingletEntriesToRequest_def empty_trace_fields_def Let_def)
qed

lemma sample_matched:
  "matched_ops sample_state_block =
     [sample_state_op DBOp_OPERATION_INSERT ''k'' [] [1], sample_state_op DBOp_OPERATION_INSERT ''kk'' [] [2],
      sample_state_op DBOp_OPERATION_UPDATE ''k'' [1] [3], sample_state_op DBOp_OPERATION_REMOVE ''kk'' [2] []]"
  by code_simp

theorem mapper_refines_chain_witness:
  "stored sample_statedb_env (apply_request sample_state_request Map.empty) = [(5, 2, 1, 1) \<mapsto> (3, [3])]"
proof -
  have s: "stored env Map.empty = Map.empty" for env by (simp add: fun_eq_iff stored_def)
  note d = sample_matched s sample_statedb_env_def sample_state_op_def op_ok_def op_key_def std_num_def ext_num_def chain_op_def
  have "ops_ok sample_statedb_env (matched_ops sample_state_block) (stored sample_statedb_env Map.empty)"
    by (simp add: d)
  from mapper_refines_chain [OF sample_statedb_env_ok sample_state_mapped this] show ?thesis
    by (simp add: d fun_eq_iff)
qed

end
