(* ===== verification/StateDbServer.thy ===== *)
theory StateDbServer
  imports StateDbProps
begin

text \<open>
  The gRPC server of the state database, \<open>statedb/grpc\<close>: the block a request reads at, the conversion of
  primary keys, and the requests for a row, a table, the scopes of a table, an ABI, the accounts of a key and
  the permission links of an account. The reads of \<open>fluxdb\<close> are the record \<open>flux_reader\<close>; ABIs and symbols of
  \<open>eos-go\<close> are the record \<open>server_env\<close>. A nil block reference is \<open>None\<close>.
\<close>

section \<open>Environment\<close>

text \<open>\<open>fl_HeadBlock\<close> is \<open>None\<close> for the empty reference, which the database has before its first live block. In
  the results of the reads the outer option is the error and the inner one a row that does not exist.\<close>

record flux_reader =
  fl_FetchLastWrittenCheckpoint :: "BlockRef option"
  fl_HeadBlock :: "BlockRef option"
  fl_SpeculativeWrites :: "string \<Rightarrow> u64 \<Rightarrow> WriteRequest list"
  fl_ReadTabletAt :: "u64 \<Rightarrow> u16 \<Rightarrow> bytes \<Rightarrow> WriteRequest list \<Rightarrow> tablet_row list option"
  fl_ReadTabletRowAt :: "u64 \<Rightarrow> u16 \<Rightarrow> bytes \<Rightarrow> bytes \<Rightarrow> WriteRequest list \<Rightarrow> tablet_row option option"
  fl_ReadSingletEntryAt :: "u64 \<Rightarrow> u16 \<Rightarrow> bytes \<Rightarrow> WriteRequest list \<Rightarrow> singlet_entry option option"
  fl_HasSeenAnyRowForTablet :: "u16 \<Rightarrow> bytes \<Rightarrow> bool option"

record 'abi server_env =
  sv_env :: statedb_env
  sv_UnmarshalABI :: "bytes \<Rightarrow> 'abi option"
  sv_MarshalABI :: "'abi \<Rightarrow> string option"
  sv_TableForName :: "'abi \<Rightarrow> string \<Rightarrow> string option"
  sv_DecodeTableRowTyped :: "'abi \<Rightarrow> string \<Rightarrow> bytes \<Rightarrow> string option"
  sv_StringToSymbol :: "string \<Rightarrow> u64 option"
  sv_SymbolToString :: "u64 \<Rightarrow> string"
  sv_StringToSymbolCode :: "string \<Rightarrow> u64 option"
  sv_SymbolCodeToString :: "u64 \<Rightarrow> string"
  sv_sort :: "string list \<Rightarrow> string list"

datatype server_error = SvPanic | SvInternal | SvNotFound | SvUnknown

definition of_statedb_error :: "statedb_error \<Rightarrow> server_error" where
  "of_statedb_error e = (case e of StPanic \<Rightarrow> SvPanic | _ \<Rightarrow> SvInternal)"

definition lift_statedb :: "statedb_error + 'a \<Rightarrow> server_error + 'a" where
  "lift_statedb r = (case r of Inl e \<Rightarrow> Inl (of_statedb_error e) | Inr x \<Rightarrow> Inr x)"

section \<open>Primary keys\<close>

datatype KeyConverter =
  Uint64KeyConverter | NameKeyConverter | SymbolKeyConverter | SymbolCodeKeyConverter | HexKeyConverter | HexBEKeyConverter

definition keyTypeToKeyConverter :: "(string \<times> KeyConverter) list" where
  "keyTypeToKeyConverter =
     [(''uint64'', Uint64KeyConverter), (''name'', NameKeyConverter), (''symbol'', SymbolKeyConverter),
      (''symbol_code'', SymbolCodeKeyConverter), (''hex'', HexKeyConverter), (''hex_be'', HexBEKeyConverter)]"

definition getKeyConverterForType :: "string \<Rightarrow> KeyConverter" where
  "getKeyConverterForType keyType =
     (case map_of keyTypeToKeyConverter keyType of None \<Rightarrow> NameKeyConverter | Some c \<Rightarrow> c)"

fun KeyConverter_FromString :: "'abi server_env \<Rightarrow> KeyConverter \<Rightarrow> string \<Rightarrow> u64 option" where
  "KeyConverter_FromString env Uint64KeyConverter key = ParseUint64 key"
| "KeyConverter_FromString env NameKeyConverter key = se_ExtendedStringToName (sv_env env) key"
| "KeyConverter_FromString env SymbolKeyConverter key = sv_StringToSymbol env key"
| "KeyConverter_FromString env SymbolCodeKeyConverter key = sv_StringToSymbolCode env key"
| "KeyConverter_FromString env HexKeyConverter key = ParseUintHex key"
| "KeyConverter_FromString env HexBEKeyConverter key = ParseUintHex key"

fun KeyConverter_ToString :: "'abi server_env \<Rightarrow> KeyConverter \<Rightarrow> u64 \<Rightarrow> string" where
  "KeyConverter_ToString env Uint64KeyConverter key = format_nat (unat key)"
| "KeyConverter_ToString env NameKeyConverter key = se_NameToString (sv_env env) key"
| "KeyConverter_ToString env SymbolKeyConverter key = sv_SymbolToString env key"
| "KeyConverter_ToString env SymbolCodeKeyConverter key = sv_SymbolCodeToString env key"
| "KeyConverter_ToString env HexKeyConverter key = hex_EncodeToString (rev (PutUint64 key))"
| "KeyConverter_ToString env HexBEKeyConverter key = hex_EncodeToString (rev (PutUint64 key))"

definition toContractStatePrimaryKey :: "'abi server_env \<Rightarrow> string \<Rightarrow> KeyConverter \<Rightarrow> server_error + bytes" where
  "toContractStatePrimaryKey env key converter =
     bind_res (from_opt SvUnknown (KeyConverter_FromString env converter key)) (\<lambda>v. Inr (PutUint64 v))"

definition convertKey :: "'abi server_env \<Rightarrow> bytes \<Rightarrow> KeyConverter \<Rightarrow> string" where
  "convertKey env key converter =
     (if converter = NameKeyConverter then bytesToName (sv_env env) key
      else KeyConverter_ToString env converter (Uint64 key))"

section \<open>The block to read at\<close>

datatype prepare_error = CheckpointError | HigherThanLIB | NotReady | HigherThanHead

record prepared_read =
  pr_BlockNum :: u64
  pr_LastWritten :: BlockRef
  pr_UpTo :: "BlockRef option"
  pr_Writes :: "WriteRequest list"

definition BlockRefEmpty :: BlockRef where
  "BlockRefEmpty = \<lparr>ref_ID = '''', ref_Num = 0\<rparr>"

text \<open>With \<open>irreversibleOnly\<close> the chosen block is still zero when it is tested, whatever the request asked
  for, and the up to block is left nil.\<close>

definition prepareRead :: "flux_reader \<Rightarrow> u64 \<Rightarrow> bool \<Rightarrow> prepare_error + prepared_read" where
  "prepareRead db blockNum irreversibleOnly =
     bind_res (from_opt CheckpointError (fl_FetchLastWrittenCheckpoint db)) (\<lambda>lastWrittenBlock.
       if irreversibleOnly then
         (if blockNum > ref_Num lastWrittenBlock then Inl HigherThanLIB
          else Inr \<lparr>pr_BlockNum = ref_Num lastWrittenBlock, pr_LastWritten = lastWrittenBlock, pr_UpTo = None, pr_Writes = []\<rparr>)
       else
         bind_res (from_opt NotReady (fl_HeadBlock db)) (\<lambda>headBlock.
           let chosenBlockNum = (if blockNum = 0 then ref_Num headBlock else blockNum)
           in if chosenBlockNum > ref_Num headBlock then Inl HigherThanHead
              else let speculativeWrites = fl_SpeculativeWrites db (ref_ID headBlock) chosenBlockNum
                   in Inr \<lparr>pr_BlockNum = chosenBlockNum, pr_LastWritten = lastWrittenBlock,
                           pr_UpTo = Some (if speculativeWrites \<noteq> [] then wr_BlockRef (last speculativeWrites) else BlockRefEmpty),
                           pr_Writes = speculativeWrites\<rparr>))"

definition or_internal :: "prepare_error + 'a \<Rightarrow> server_error + 'a" where
  "or_internal r = (case r of Inl _ \<Rightarrow> Inl SvInternal | Inr x \<Rightarrow> Inr x)"

section \<open>Rows\<close>

record 'abi rowSerializationInfo =
  rs_abi :: 'abi
  rs_abiAtBlockNum :: u64
  rs_tableTypeName :: string

definition ContractABIEntry_ABI :: "'abi server_env \<Rightarrow> singlet_entry \<Rightarrow> statedb_error + 'abi" where
  "ContractABIEntry_ABI env e =
     bind_res (ContractABIEntry_RawABI (sv_env env) e) (\<lambda>raw. from_opt StUnmarshal (sv_UnmarshalABI env raw))"

definition newRowSerializationInfo ::
  "'abi server_env \<Rightarrow> flux_reader \<Rightarrow> string \<Rightarrow> string \<Rightarrow> prepared_read \<Rightarrow> server_error + 'abi rowSerializationInfo" where
  "newRowSerializationInfo env db contract table p =
     bind_res (lift_statedb (NewContractABISinglet (sv_env env) contract)) (\<lambda>singlet.
     bind_res (from_opt SvUnknown (fl_ReadSingletEntryAt db (pr_BlockNum p) abiCollection singlet (pr_Writes p))) (\<lambda>entry.
     bind_res (from_opt SvUnknown entry) (\<lambda>abiEntry.
     bind_res (case ContractABIEntry_ABI env abiEntry of Inl _ \<Rightarrow> Inl SvUnknown | Inr abi \<Rightarrow> Inr abi) (\<lambda>abi.
     bind_res (from_opt SvUnknown (sv_TableForName env abi table)) (\<lambda>type.
       Inr \<lparr>rs_abi = abi, rs_abiAtBlockNum = ent_Height abiEntry, rs_tableTypeName = type\<rparr>)))))"

record TableRowResponse =
  trr_Key :: string
  trr_Data :: bytes
  trr_Json :: string
  trr_Payer :: string
  trr_BlockNumber :: u64

definition toTableRowResponse ::
  "'abi server_env \<Rightarrow> tablet_row \<Rightarrow> KeyConverter \<Rightarrow> 'abi rowSerializationInfo option \<Rightarrow> bool \<Rightarrow> statedb_error + TableRowResponse" where
  "toTableRowResponse env row converter info withBlockNum =
     bind_res (ContractStateRow_Info (sv_env env) row) (\<lambda>(payer, data).
       let response = \<lparr>trr_Key = convertKey env (row_PrimaryKey row) converter, trr_Data = data, trr_Json = '''',
                       trr_Payer = payer, trr_BlockNumber = (if withBlockNum then row_Height row else 0)\<rparr>
       in case info of
            None \<Rightarrow> Inr response
          | Some i \<Rightarrow>
              (case sv_DecodeTableRowTyped env (rs_abi i) (rs_tableTypeName i) data of
                 None \<Rightarrow> Inr response
               | Some json \<Rightarrow> Inr (response\<lparr>trr_Data := [], trr_Json := json\<rparr>)))"

definition serialization_for ::
  "'abi server_env \<Rightarrow> flux_reader \<Rightarrow> bytes \<Rightarrow> bool \<Rightarrow> prepared_read \<Rightarrow> server_error + 'abi rowSerializationInfo option" where
  "serialization_for env db tablet toJSON p =
     (if toJSON
      then (case ContractStateTablet_Explode (sv_env env) tablet of (contract, table, scope) \<Rightarrow>
              bind_res (newRowSerializationInfo env db contract table p) (\<lambda>i. Inr (Some i)))
      else Inr None)"

definition readContractStateTable ::
  "'abi server_env \<Rightarrow> flux_reader \<Rightarrow> bytes \<Rightarrow> bool \<Rightarrow> prepared_read \<Rightarrow> server_error + tablet_row list \<times> 'abi rowSerializationInfo option" where
  "readContractStateTable env db tablet toJSON p =
     bind_res (from_opt SvUnknown (fl_ReadTabletAt db (pr_BlockNum p) cstCollection tablet (pr_Writes p))) (\<lambda>tabletRows.
     bind_res (serialization_for env db tablet toJSON p) (\<lambda>info. Inr (tabletRows, info)))"

definition readContractStateTableRow ::
  "'abi server_env \<Rightarrow> flux_reader \<Rightarrow> bytes \<Rightarrow> string \<Rightarrow> KeyConverter \<Rightarrow> bool \<Rightarrow> prepared_read \<Rightarrow>
   server_error + tablet_row \<times> 'abi rowSerializationInfo option" where
  "readContractStateTableRow env db tablet primaryKey converter toJSON p =
     bind_res (toContractStatePrimaryKey env primaryKey converter) (\<lambda>primaryKeyBytes.
     bind_res (from_opt SvUnknown (fl_ReadTabletRowAt db (pr_BlockNum p) cstCollection tablet primaryKeyBytes (pr_Writes p))) (\<lambda>r.
     bind_res (from_opt SvNotFound r) (\<lambda>tabletRow.
     bind_res (serialization_for env db tablet toJSON p) (\<lambda>info. Inr (tabletRow, info)))))"

section \<open>Requests\<close>

record GetTableRowRequest =
  gtr_BlockNum :: u64
  gtr_KeyType :: string
  gtr_ToJson :: bool
  gtr_WithBlockNum :: bool
  gtr_IrreversibleOnly :: bool
  gtr_Contract :: string
  gtr_Table :: string
  gtr_Scope :: string
  gtr_PrimaryKey :: string

record GetTableRowResponse =
  gtr_UpToBlock :: BlockRef
  gtr_LastIrreversibleBlock :: BlockRef
  gtr_Row :: TableRowResponse

text \<open>A status other than unknown is returned as it is.\<close>

definition status_of :: "server_error + 'a \<Rightarrow> server_error + 'a" where
  "status_of r = (case r of Inl SvUnknown \<Rightarrow> Inl SvInternal | _ \<Rightarrow> r)"

definition GetTableRow :: "'abi server_env \<Rightarrow> flux_reader \<Rightarrow> GetTableRowRequest \<Rightarrow> server_error + GetTableRowResponse" where
  "GetTableRow env db request =
     bind_res (or_internal (prepareRead db (gtr_BlockNum request) (gtr_IrreversibleOnly request))) (\<lambda>p.
       let keyConverter = getKeyConverterForType (gtr_KeyType request)
       in bind_res (lift_statedb (NewContractStateTablet (sv_env env) (gtr_Contract request) (gtr_Table request) (gtr_Scope request))) (\<lambda>tablet.
          bind_res (status_of (readContractStateTableRow env db tablet (gtr_PrimaryKey request) keyConverter (gtr_ToJson request) p)) (\<lambda>(row, info).
          bind_res (case toTableRowResponse env row keyConverter info (gtr_WithBlockNum request) of
                      Inl _ \<Rightarrow> Inl SvInternal | Inr r \<Rightarrow> Inr r) (\<lambda>response.
          bind_res (from_opt SvPanic (pr_UpTo p)) (\<lambda>upToBlock.
            Inr \<lparr>gtr_UpToBlock = upToBlock, gtr_LastIrreversibleBlock = pr_LastWritten p, gtr_Row = response\<rparr>)))))"

text \<open>A stream is the header it sets, the messages it sends and the error it ends with.\<close>

record StreamReference =
  sr_UpToBlock :: "BlockRef option"
  sr_LastIrreversibleBlock :: BlockRef

fun send_rows ::
  "'abi server_env \<Rightarrow> KeyConverter \<Rightarrow> 'abi rowSerializationInfo option \<Rightarrow> bool \<Rightarrow> tablet_row list \<Rightarrow> TableRowResponse list \<times> server_error option" where
  "send_rows env converter info withBlockNum [] = ([], None)"
| "send_rows env converter info withBlockNum (row # rows) =
     (case toTableRowResponse env row converter info withBlockNum of
        Inl _ \<Rightarrow> ([], Some SvInternal)
      | Inr response \<Rightarrow> (case send_rows env converter info withBlockNum rows of (sent, e) \<Rightarrow> (response # sent, e)))"

definition StreamTableRows ::
  "'abi server_env \<Rightarrow> flux_reader \<Rightarrow> GetTableRowRequest \<Rightarrow> server_error + StreamReference \<times> TableRowResponse list \<times> server_error option" where
  "StreamTableRows env db request =
     bind_res (or_internal (prepareRead db (gtr_BlockNum request) (gtr_IrreversibleOnly request))) (\<lambda>p.
     bind_res (lift_statedb (NewContractStateTablet (sv_env env) (gtr_Contract request) (gtr_Table request) (gtr_Scope request))) (\<lambda>tablet.
     bind_res (case readContractStateTable env db tablet (gtr_ToJson request) p of
                 Inl SvPanic \<Rightarrow> Inl SvPanic | Inl _ \<Rightarrow> Inl SvInternal | Inr r \<Rightarrow> Inr r) (\<lambda>(rows, info).
       Inr (\<lparr>sr_UpToBlock = pr_UpTo p, sr_LastIrreversibleBlock = pr_LastWritten p\<rparr>,
            send_rows env (getKeyConverterForType (gtr_KeyType request)) info (gtr_WithBlockNum request) rows))))"

definition sortedScopes :: "'abi server_env \<Rightarrow> tablet_row list \<Rightarrow> string list" where
  "sortedScopes env rows =
     (if rows = [] then [] else sv_sort env (map (ContractTableScopeRow_Scope (sv_env env)) rows))"

definition fetchScopes :: "'abi server_env \<Rightarrow> flux_reader \<Rightarrow> string \<Rightarrow> string \<Rightarrow> prepared_read \<Rightarrow> server_error + string list" where
  "fetchScopes env db contract table p =
     bind_res (lift_statedb (NewContractTableScopeTablet (sv_env env) contract table)) (\<lambda>tablet.
     bind_res (from_opt SvInternal (fl_ReadTabletAt db (pr_BlockNum p) ctscpCollection tablet (pr_Writes p))) (\<lambda>rows.
       Inr (sortedScopes env rows)))"

definition StreamTableScopes ::
  "'abi server_env \<Rightarrow> flux_reader \<Rightarrow> u64 \<Rightarrow> string \<Rightarrow> string \<Rightarrow> server_error + StreamReference \<times> (u64 \<times> string) list" where
  "StreamTableScopes env db blockNum contract table =
     bind_res (or_internal (prepareRead db blockNum False)) (\<lambda>p.
     bind_res (fetchScopes env db contract table p) (\<lambda>scopes.
     bind_res (if scopes = []
               then bind_res (lift_statedb (NewContractTableScopeTablet (sv_env env) contract table)) (\<lambda>tablet.
                    bind_res (from_opt SvInternal (fl_HasSeenAnyRowForTablet db ctscpCollection tablet)) (\<lambda>seen.
                      if seen then Inr () else Inl SvNotFound))
               else Inr ()) (\<lambda>_.
       Inr (\<lparr>sr_UpToBlock = pr_UpTo p, sr_LastIrreversibleBlock = pr_LastWritten p\<rparr>,
            map (\<lambda>scope. (pr_BlockNum p, scope)) scopes))))"

record GetABIResponse =
  gar_BlockNum :: u64
  gar_RawAbi :: bytes
  gar_JsonAbi :: string

definition GetABI :: "'abi server_env \<Rightarrow> flux_reader \<Rightarrow> string \<Rightarrow> u64 \<Rightarrow> bool \<Rightarrow> server_error + GetABIResponse" where
  "GetABI env db contract blockNum toJson =
     bind_res (case prepareRead db blockNum False of Inl _ \<Rightarrow> Inl SvUnknown | Inr p \<Rightarrow> Inr p) (\<lambda>p.
     bind_res (lift_statedb (NewContractABISinglet (sv_env env) contract)) (\<lambda>singlet.
     bind_res (from_opt SvUnknown (fl_ReadSingletEntryAt db (pr_BlockNum p) abiCollection singlet (pr_Writes p))) (\<lambda>entry.
       case entry of
         None \<Rightarrow> Inr \<lparr>gar_BlockNum = 0, gar_RawAbi = [], gar_JsonAbi = ''''\<rparr>
       | Some e \<Rightarrow>
           if toJson then
             bind_res (lift_statedb (ContractABIEntry_ABI env e)) (\<lambda>abi.
             bind_res (from_opt SvInternal (sv_MarshalABI env abi)) (\<lambda>cnt.
               Inr \<lparr>gar_BlockNum = ent_Height e, gar_RawAbi = [], gar_JsonAbi = cnt\<rparr>))
           else
             bind_res (lift_statedb (ContractABIEntry_RawABI (sv_env env) e)) (\<lambda>raw.
               Inr \<lparr>gar_BlockNum = ent_Height e, gar_RawAbi = raw, gar_JsonAbi = ''''\<rparr>))))"

definition sortedUniqueKeyAccounts :: "'abi server_env \<Rightarrow> tablet_row list \<Rightarrow> string list" where
  "sortedUniqueKeyAccounts env rows =
     (if rows = [] then [] else sv_sort env (remdups (map (\<lambda>r. fst (KeyAccountRow_Explode (sv_env env) r)) rows)))"

definition GetKeyAccounts :: "'abi server_env \<Rightarrow> flux_reader \<Rightarrow> string \<Rightarrow> u64 \<Rightarrow> server_error + u64 \<times> string list" where
  "GetKeyAccounts env db publicKey blockNum =
     bind_res (or_internal (prepareRead db blockNum False)) (\<lambda>p.
     bind_res (lift_statedb (NewKeyAccountTablet publicKey)) (\<lambda>tablet.
     bind_res (from_opt SvInternal (fl_ReadTabletAt db (pr_BlockNum p) kaCollection tablet (pr_Writes p))) (\<lambda>rows.
       let accountNames = sortedUniqueKeyAccounts env rows
       in bind_res (if accountNames = []
                    then bind_res (from_opt SvInternal (fl_HasSeenAnyRowForTablet db kaCollection tablet)) (\<lambda>seen.
                           if seen then Inr () else Inl SvNotFound)
                    else Inr ()) (\<lambda>_. Inr (pr_BlockNum p, accountNames)))))"

record LinkedPermission =
  lp_Contract :: string
  lp_Action :: string
  lp_PermissionName :: string

definition link_less :: "LinkedPermission \<Rightarrow> LinkedPermission \<Rightarrow> bool" where
  "link_less a b =
     (if lp_Contract a = lp_Contract b then string_bytes (lp_Action a) < string_bytes (lp_Action b)
      else string_bytes (lp_Contract a) < string_bytes (lp_Contract b))"

text \<open>\<open>sort.Slice\<close> with the order \<open>link_less\<close> is the parameter \<open>sortLinks\<close>.\<close>

definition GetPermissionLinks ::
  "'abi server_env \<Rightarrow> flux_reader \<Rightarrow> ((LinkedPermission \<Rightarrow> LinkedPermission \<Rightarrow> bool) \<Rightarrow> LinkedPermission list \<Rightarrow> LinkedPermission list) \<Rightarrow>
   string \<Rightarrow> u64 \<Rightarrow> server_error + BlockRef \<times> BlockRef \<times> LinkedPermission list" where
  "GetPermissionLinks env db sortLinks account blockNum =
     bind_res (or_internal (prepareRead db blockNum False)) (\<lambda>p.
     bind_res (lift_statedb (NewAuthLinkTablet (sv_env env) account)) (\<lambda>tablet.
     bind_res (from_opt SvInternal (fl_ReadTabletAt db (pr_BlockNum p) alCollection tablet (pr_Writes p))) (\<lambda>rows.
     bind_res (from_opt SvPanic (pr_UpTo p)) (\<lambda>upToBlock.
     bind_res (fold_res (\<lambda>row out.
                 case AuthLinkRow_Explode (sv_env env) row of (contract, action) \<Rightarrow>
                   bind_res (lift_statedb (AuthLinkRow_Permission (sv_env env) row)) (\<lambda>permission.
                     Inr (out @ [\<lparr>lp_Contract = contract, lp_Action = action, lp_PermissionName = permission\<rparr>]))) rows []) (\<lambda>permissions.
       Inr (upToBlock, pr_LastWritten p, sortLinks link_less permissions))))))"

section \<open>Headers of a stream\<close>

text \<open>Metadata is a map from names to lists of values.\<close>

type_synonym metadata = "string \<Rightarrow> string list"

definition newMetadata :: "BlockRef option \<Rightarrow> BlockRef \<Rightarrow> metadata" where
  "newMetadata upToBlock lastWrittenBlock =
     (let md = (\<lambda>_. []);
          md1 = (case upToBlock of
                   None \<Rightarrow> md
                 | Some b \<Rightarrow> md(''statedb-up-to-block-id'' := [ref_ID b], ''statedb-up-to-block-num'' := [format_nat (unat (ref_Num b))]))
      in md1(''statedb-last-irr-block-id'' := [ref_ID lastWrittenBlock],
             ''statedb-last-irr-block-num'' := [format_nat (unat (ref_Num lastWrittenBlock))]))"

datatype reference_error = ErrStreamReferenceNotFound | LastIrreversibleMissing | InvalidBlockNum

definition ExtractStreamReference :: "metadata \<Rightarrow> reference_error + StreamReference" where
  "ExtractStreamReference header =
     (let upToBlockIDs = header ''statedb-up-to-block-id''; upToBlockNums = header ''statedb-up-to-block-num'';
          lastIrrBlockIDs = header ''statedb-last-irr-block-id''; lastIrrBlockNums = header ''statedb-last-irr-block-num''
      in if upToBlockIDs = [] \<and> upToBlockNums = [] \<and> lastIrrBlockIDs = [] \<and> lastIrrBlockNums = [] then Inl ErrStreamReferenceNotFound
         else if lastIrrBlockIDs = [] \<or> lastIrrBlockNums = [] then Inl LastIrreversibleMissing
         else bind_res (from_opt InvalidBlockNum (ParseUint64 (hd lastIrrBlockNums))) (\<lambda>libNum.
                let lib = \<lparr>ref_ID = hd lastIrrBlockIDs, ref_Num = libNum\<rparr>
                in if upToBlockIDs \<noteq> [] \<and> upToBlockNums \<noteq> []
                   then bind_res (from_opt InvalidBlockNum (ParseUint64 (hd upToBlockNums))) (\<lambda>blockNum.
                          Inr \<lparr>sr_UpToBlock = Some \<lparr>ref_ID = hd upToBlockIDs, ref_Num = blockNum\<rparr>, sr_LastIrreversibleBlock = lib\<rparr>)
                   else Inr \<lparr>sr_UpToBlock = None, sr_LastIrreversibleBlock = lib\<rparr>))"

section \<open>Keys and references\<close>

lemma ExtractStreamReference_newMetadata:
  "ExtractStreamReference (newMetadata upTo lib) = Inr \<lparr>sr_UpToBlock = upTo, sr_LastIrreversibleBlock = lib\<rparr>"
  by (cases upTo) (simp_all add: ExtractStreamReference_def newMetadata_def)

text \<open>C23: A key of the type \<open>uint64\<close> that the server prints is read back as the same key. A key of the types
  \<open>hex\<close> and \<open>hex_be\<close> is printed with its bytes in little endian order and read in big endian order: what is
  read back is the key with its bytes reversed, which is the same row only for keys that are palindromes.\<close>

theorem state_keys_round_trip:
  "KeyConverter_FromString env Uint64KeyConverter (KeyConverter_ToString env Uint64KeyConverter key) = Some key
   \<and> KeyConverter_FromString env HexKeyConverter (KeyConverter_ToString env HexKeyConverter key) = Some (Uint64 (rev (PutUint64 key)))
   \<and> KeyConverter_FromString env HexBEKeyConverter (KeyConverter_ToString env HexBEKeyConverter key) = Some (Uint64 (rev (PutUint64 key)))
   \<and> (Uint64 (rev (PutUint64 key)) = key \<longleftrightarrow> rev (PutUint64 key) = PutUint64 key)"
proof -
  let ?r = "rev (PutUint64 key)"
  have r: "length ?r = 8" by simp
  have ne: "hex_EncodeToString ?r \<noteq> []" using r by (cases ?r) simp_all
  have "be_val ?r < 18446744073709551616" using be_val_less [of ?r] by simp
  then have hex: "ParseUintHex (hex_EncodeToString ?r) = Some (Uint64 ?r)"
    using Uint64_be_val [OF r, of "[]"] hex_digits_val_encode [of 0 ?r]
    by (simp add: ParseUintHex_def ne)
  have "PutUint64 (Uint64 ?r) = ?r" using r by (rule PutUint64_Uint64)
  then have "Uint64 ?r = key \<longleftrightarrow> ?r = PutUint64 key" by (metis PutUint64_inject)
  then show ?thesis using hex by simp
qed

section \<open>Reads\<close>

text \<open>The requests up to a height.\<close>

definition upto_height :: "u64 \<Rightarrow> WriteRequest list \<Rightarrow> WriteRequest list" where
  "upto_height h reqs = filter (\<lambda>r. wr_Height r \<le> h) reqs"

text \<open>What the database promises, with the requests \<open>written\<close> to the storage, of irreversible blocks, and the requests
  \<open>live\<close> of the blocks after them up to the head: the speculative writes are the live requests up to the number
  asked for; a read of a row at a height finds what the stored requests up to this height leave there, with the
  given requests applied on top.\<close>

definition flux_ok :: "flux_reader \<Rightarrow> WriteRequest list \<Rightarrow> WriteRequest list \<Rightarrow> bool" where
  "flux_ok db written live \<longleftrightarrow>
     (\<forall>head n. fl_HeadBlock db = Some head \<longrightarrow> fl_SpeculativeWrites db (ref_ID head) n = upto_height n live)
     \<and> (\<forall>h c t p ws. case fold apply_request ws (fold apply_request (upto_height h written) Map.empty) (c, t, p) of
          None \<Rightarrow> fl_ReadTabletRowAt db h c t p ws = Some None
        | Some v \<Rightarrow> \<exists>r. fl_ReadTabletRowAt db h c t p ws = Some (Some r) \<and> row_Value r = v \<and> row_PrimaryKey r = p)"

text \<open>The state of the chain after its blocks up to a number.\<close>

definition chain_at :: "statedb_env \<Rightarrow> Block list \<Rightarrow> u64 \<Rightarrow> chain_state" where
  "chain_at env blks h = fold (chain_op env) (concat (map matched_ops (filter (\<lambda>b. Block_Num b \<le> h) blks))) Map.empty"

lemma sorted_filter_prefix:
  fixes f :: "'b \<Rightarrow> 'c :: linorder"
  assumes "sorted_wrt (\<lambda>x y. f x < f y) xs"
  shows "filter (\<lambda>x. f x \<le> h) xs = takeWhile (\<lambda>x. f x \<le> h) xs"
  using assms
proof (induction xs)
  case (Cons x xs)
  show ?case
  proof (cases "f x \<le> h")
    case False
    then have "filter (\<lambda>x. f x \<le> h) xs = []" using Cons.prems by (auto simp: filter_empty_conv)
    then show ?thesis using False by simp
  qed (use Cons in simp)
qed simp

lemma stored_empty [simp]: "stored env Map.empty = Map.empty"
  by (simp add: fun_eq_iff stored_def)

lemma stored_at_height:
  assumes "statedb_env_ok env" and "sorted_wrt (\<lambda>b c. Block_Num b < Block_Num c) (past @ recent)"
    and "ops_ok env (concat (map matched_ops (past @ recent))) Map.empty"
    and "list_all2 (\<lambda>b r. BlockMapper_Map env b = Inr r) past written"
    and "list_all2 (\<lambda>b r. BlockMapper_Map env b = Inr r) recent live"
  shows "stored env (fold apply_request (upto_height h live) (fold apply_request (upto_height h written) Map.empty))
    = chain_at env (past @ recent) h"
proof -
  let ?blks = "filter (\<lambda>b. Block_Num b \<le> h) (past @ recent)" and ?P = "\<lambda>b. Block_Num b \<le> h"
  have "list_all2 (\<lambda>b r. BlockMapper_Map env b = Inr r) (past @ recent) (written @ live)"
    using assms(4,5) by (rule list_all2_appendI)
  from mapped_requests_filter [OF this, of "\<lambda>n. n \<le> h"]
  have "list_all2 (\<lambda>b r. BlockMapper_Map env b = Inr r) ?blks (upto_height h (written @ live))" by (simp add: upto_height_def)
  moreover have "ops_ok env (concat (map matched_ops ?blks)) Map.empty"
  proof -
    have "ops_ok env (concat (map matched_ops (takeWhile ?P (past @ recent) @ dropWhile ?P (past @ recent)))) Map.empty"
      unfolding takeWhile_dropWhile_id by (rule assms(3))
    then show ?thesis
      unfolding sorted_filter_prefix [OF assms(2)] map_append concat_append ops_ok_append by (rule conjunct1)
  qed
  ultimately have "stored env (fold apply_request (upto_height h (written @ live)) Map.empty) = chain_at env (past @ recent) h"
    unfolding chain_at_def by (rule requests_refine_ops [OF assms(1), of _ _ Map.empty, unfolded stored_empty])
  then show ?thesis by (simp add: upto_height_def)
qed

text \<open>The key of the chain row a request names.\<close>

definition request_key :: "'abi server_env \<Rightarrow> GetTableRowRequest \<Rightarrow> u64 \<Rightarrow> u64 \<times> u64 \<times> u64 \<times> u64" where
  "request_key env request key =
     (ext_num (sv_env env) (gtr_Contract request), ext_num (sv_env env) (gtr_Table request), ext_num (sv_env env) (gtr_Scope request), key)"

lemma tablet_request:
  assumes "NewContractStateTablet (sv_env env) (gtr_Contract request) (gtr_Table request) (gtr_Scope request) = Inr tablet"
  shows "cst_id (request_key env request key) = (cstCollection, tablet, PutUint64 key)"
  using assms by (auto simp: NewContractStateTablet_def extendedNameToBytes_def res_simps cst_id_def request_key_def ext_num_def)

text \<open>The last of the blocks that are not irreversible up to a number.\<close>

definition up_to :: "Block list \<Rightarrow> u64 \<Rightarrow> BlockRef" where
  "up_to recent h = (case filter (\<lambda>b. Block_Num b \<le> h) recent of [] \<Rightarrow> BlockRefEmpty | bs \<Rightarrow> AsRef (last bs))"

lemma prepared_read:
  assumes "flux_ok db written live" and "list_all2 (\<lambda>b r. BlockMapper_Map env b = Inr r) recent live"
    and "fl_FetchLastWrittenCheckpoint db = Some lib" and "fl_HeadBlock db = Some head"
    and "h = (if blockNum = 0 then ref_Num head else blockNum)" and "h \<le> ref_Num head"
  shows "prepareRead db blockNum False =
    Inr \<lparr>pr_BlockNum = h, pr_LastWritten = lib, pr_UpTo = Some (up_to recent h), pr_Writes = upto_height h live\<rparr>"
proof -
  have refs: "map wr_BlockRef (upto_height h live) = map AsRef (filter (\<lambda>b. Block_Num b \<le> h) recent)"
    using mapped_requests_filter [OF assms(2), of "\<lambda>n. n \<le> h"] by (simp add: upto_height_def)
  have "up_to recent h = (if upto_height h live \<noteq> [] then wr_BlockRef (last (upto_height h live)) else BlockRefEmpty)"
  proof (cases "upto_height h live")
    case Nil
    then show ?thesis using refs by (simp add: up_to_def)
  next
    case (Cons r rs)
    then have ne: "filter (\<lambda>b. Block_Num b \<le> h) recent \<noteq> []" using refs by auto
    have "wr_BlockRef (last (upto_height h live)) = last (map wr_BlockRef (upto_height h live))" using Cons by (simp add: last_map)
    also have "\<dots> = AsRef (last (filter (\<lambda>b. Block_Num b \<le> h) recent))" using ne by (simp add: refs last_map)
    finally show ?thesis using Cons ne by (simp add: up_to_def split: list.split)
  qed
  then show ?thesis using assms(1,3-6) by (auto simp: prepareRead_def flux_ok_def Let_def)
qed

text \<open>C4: A request for a row at a block, or at the head when it gives none, returns the payer and the data that
  the row has in the chain after all the operations of the blocks up to that one, whether they are irreversible or
  not, and an error exactly when the row does not exist then. The response names the last block that is not
  irreversible up to that one, or none. The hypotheses are that the names and the key of the request
  convert, that the blocks grow, and the contract of the database.\<close>

theorem GetTableRow_reads_chain:
  fixes env :: "'abi server_env"
  assumes "statedb_env_ok (sv_env env)" and "sorted_wrt (\<lambda>b c. Block_Num b < Block_Num c) (past @ recent)"
    and "ops_ok (sv_env env) (concat (map matched_ops (past @ recent))) Map.empty"
    and "list_all2 (\<lambda>b r. BlockMapper_Map (sv_env env) b = Inr r) past written"
    and "list_all2 (\<lambda>b r. BlockMapper_Map (sv_env env) b = Inr r) recent live"
    and "flux_ok db written live"
    and "fl_FetchLastWrittenCheckpoint db = Some lib" and "fl_HeadBlock db = Some head"
    and "h = (if gtr_BlockNum request = 0 then ref_Num head else gtr_BlockNum request)" and "h \<le> ref_Num head"
    and "\<not> gtr_IrreversibleOnly request" and "\<not> gtr_ToJson request"
    and "NewContractStateTablet (sv_env env) (gtr_Contract request) (gtr_Table request) (gtr_Scope request) = Inr tablet"
    and "KeyConverter_FromString env (getKeyConverterForType (gtr_KeyType request)) (gtr_PrimaryKey request) = Some key"
  shows "case chain_at (sv_env env) (past @ recent) h (request_key env request key) of
      None \<Rightarrow> \<exists>e. GetTableRow env db request = Inl e \<and> e \<noteq> SvPanic
    | Some (payer, data) \<Rightarrow>
        \<exists>r. GetTableRow env db request = Inr r \<and> gtr_UpToBlock r = up_to recent h \<and> gtr_LastIrreversibleBlock r = lib
          \<and> trr_Payer (gtr_Row r) = se_NameToString (sv_env env) payer \<and> trr_Data (gtr_Row r) = data"
proof -
  let ?i = "(cstCollection, tablet, PutUint64 key)" and ?ws = "upto_height h live"
  define state where "state = fold apply_request ?ws (fold apply_request (upto_height h written) Map.empty)"
  have prepared: "prepareRead db (gtr_BlockNum request) (gtr_IrreversibleOnly request) =
      Inr \<lparr>pr_BlockNum = h, pr_LastWritten = lib, pr_UpTo = Some (up_to recent h), pr_Writes = ?ws\<rparr>"
    using prepared_read [OF assms(6,5,7-10)] assms(11) by simp
  have chain: "chain_at (sv_env env) (past @ recent) h (request_key env request key)
      = Option.bind (state ?i) (se_UnmarshalState (sv_env env))"
    using stored_at_height [OF assms(1-5), of h] tablet_request [OF assms(13), of key]
    by (simp add: state_def stored_def fun_eq_iff flip: stored_at_height [OF assms(1-5)])
  have row: "case state ?i of
      None \<Rightarrow> fl_ReadTabletRowAt db h cstCollection tablet (PutUint64 key) ?ws = Some None
    | Some v \<Rightarrow> \<exists>r. fl_ReadTabletRowAt db h cstCollection tablet (PutUint64 key) ?ws = Some (Some r) \<and> row_Value r = v \<and> row_PrimaryKey r = PutUint64 key"
    using assms(6) [unfolded flux_ok_def, THEN conjunct2, rule_format] unfolding state_def .
  note d = GetTableRow_def prepared or_internal_def assms(13) lift_statedb_def readContractStateTableRow_def toContractStatePrimaryKey_def
    assms(14) serialization_for_def assms(12) status_of_def toTableRowResponse_def ContractStateRow_Info_def Let_def
  show ?thesis
  proof (cases "state ?i")
    case None
    then show ?thesis using row unfolding chain by (simp add: d)
  next
    case (Some v)
    then obtain r where r: "fl_ReadTabletRowAt db h cstCollection tablet (PutUint64 key) ?ws = Some (Some r)" "row_Value r = v"
      using row by auto
    show ?thesis
      unfolding chain using Some r
      by (cases "se_UnmarshalState (sv_env env) v") (auto simp: d)
  qed
qed

text \<open>C24: A request for irreversible data reads at the last irreversible block, whatever block up to it the request
  names, and without speculative writes. It is answered with not found when the row does not exist there; where the
  row exists and decodes the server panics, since the response reads the up to block, which is nil.\<close>

theorem irreversible_read_panics:
  assumes "gtr_IrreversibleOnly request" and "fl_FetchLastWrittenCheckpoint db = Some lib" and "gtr_BlockNum request \<le> ref_Num lib"
    and "NewContractStateTablet (sv_env env) (gtr_Contract request) (gtr_Table request) (gtr_Scope request) = Inr tablet"
    and "KeyConverter_FromString env (getKeyConverterForType (gtr_KeyType request)) (gtr_PrimaryKey request) = Some key"
    and "fl_ReadTabletRowAt db (ref_Num lib) cstCollection tablet (PutUint64 key) [] = Some found"
    and "serialization_for env db tablet (gtr_ToJson request)
      \<lparr>pr_BlockNum = ref_Num lib, pr_LastWritten = lib, pr_UpTo = None, pr_Writes = []\<rparr> = Inr info"
  shows "case found of
      None \<Rightarrow> GetTableRow env db request = Inl SvNotFound
    | Some row \<Rightarrow> GetTableRow env db request = Inl (if isl (ContractStateRow_Info (sv_env env) row) then SvInternal else SvPanic)"
proof -
  have prepared: "prepareRead db (gtr_BlockNum request) (gtr_IrreversibleOnly request) =
      Inr \<lparr>pr_BlockNum = ref_Num lib, pr_LastWritten = lib, pr_UpTo = None, pr_Writes = []\<rparr>"
    using assms(1-3) by (simp add: prepareRead_def)
  note d = GetTableRow_def prepared or_internal_def assms(4-7) lift_statedb_def readContractStateTableRow_def
    toContractStatePrimaryKey_def status_of_def Let_def
  show ?thesis
  proof (cases found)
    case None
    then show ?thesis by (simp add: d)
  next
    case (Some row)
    then show ?thesis
      by (cases "ContractStateRow_Info (sv_env env) row") (auto simp: d toTableRowResponse_def split: option.splits)
  qed
qed

section \<open>Witnesses\<close>

definition sample_server_env :: "unit server_env" where
  "sample_server_env =
     \<lparr>sv_env = sample_statedb_env, sv_UnmarshalABI = (\<lambda>b. None), sv_MarshalABI = (\<lambda>a. None), sv_TableForName = (\<lambda>a t. None),
      sv_DecodeTableRowTyped = (\<lambda>a t d. None), sv_StringToSymbol = (\<lambda>s. None), sv_SymbolToString = (\<lambda>n. ''''),
      sv_StringToSymbolCode = (\<lambda>s. None), sv_SymbolCodeToString = (\<lambda>n. ''''), sv_sort = (\<lambda>xs. xs)\<rparr>"

definition sample_reader :: flux_reader where
  "sample_reader =
     \<lparr>fl_FetchLastWrittenCheckpoint = Some \<lparr>ref_ID = ''f'', ref_Num = 6\<rparr>, fl_HeadBlock = Some \<lparr>ref_ID = ''g'', ref_Num = 7\<rparr>,
      fl_SpeculativeWrites = (\<lambda>i n. upto_height n [sample_state_request]),
      fl_ReadTabletAt = (\<lambda>h c t ws. None),
      fl_ReadTabletRowAt = (\<lambda>h c t p ws. Some (map_option (\<lambda>v. \<lparr>row_Collection = c, row_Identifier = t, row_Height = h,
        row_PrimaryKey = p, row_Value = v\<rparr>) (fold apply_request ws Map.empty (c, t, p)))),
      fl_ReadSingletEntryAt = (\<lambda>h c t ws. None), fl_HasSeenAnyRowForTablet = (\<lambda>c t. None)\<rparr>"

definition sample_row_request :: "bool \<Rightarrow> GetTableRowRequest" where
  "sample_row_request irreversible =
     \<lparr>gtr_BlockNum = 0, gtr_KeyType = ''uint64'', gtr_ToJson = False, gtr_WithBlockNum = False,
      gtr_IrreversibleOnly = irreversible, gtr_Contract = ''eosio'', gtr_Table = ''ta'', gtr_Scope = ''a'', gtr_PrimaryKey = ''1''\<rparr>"

lemma sample_flux_ok: "flux_ok sample_reader [] [sample_state_request]"
  by (simp add: flux_ok_def sample_reader_def upto_height_def split: option.split)

lemma sample_request_converts:
  "NewContractStateTablet (sv_env sample_server_env) (gtr_Contract (sample_row_request i)) (gtr_Table (sample_row_request i)) (gtr_Scope (sample_row_request i))
     = Inr (PutUint64 5 @ PutUint64 2 @ PutUint64 1)"
  "KeyConverter_FromString sample_server_env (getKeyConverterForType (gtr_KeyType (sample_row_request i))) (gtr_PrimaryKey (sample_row_request i)) = Some 1"
proof -
  have key: "getKeyConverterForType ''uint64'' = Uint64KeyConverter" "ParseUint64 ''1'' = Some 1" by code_simp+
  show "NewContractStateTablet (sv_env sample_server_env) (gtr_Contract (sample_row_request i)) (gtr_Table (sample_row_request i)) (gtr_Scope (sample_row_request i))
     = Inr (PutUint64 5 @ PutUint64 2 @ PutUint64 1)"
    by (simp add: sample_server_env_def sample_row_request_def NewContractStateTablet_def extendedNameToBytes_def sample_statedb_env_def)
  show "KeyConverter_FromString sample_server_env (getKeyConverterForType (gtr_KeyType (sample_row_request i))) (gtr_PrimaryKey (sample_row_request i)) = Some 1"
    by (simp add: sample_row_request_def key)
qed

theorem GetTableRow_reads_chain_witness:
  "\<exists>r. GetTableRow sample_server_env sample_reader (sample_row_request False) = Inr r
     \<and> trr_Payer (gtr_Row r) = ''aaa'' \<and> trr_Data (gtr_Row r) = [3] \<and> gtr_UpToBlock r = AsRef sample_state_block"
proof -
  let ?env = "sample_statedb_env" and ?q = "sample_row_request False"
  have env: "sv_env sample_server_env = ?env" by (simp add: sample_server_env_def)
  note d = sample_matched sample_statedb_env_def sample_state_op_def op_ok_def op_key_def std_num_def ext_num_def chain_op_def
  have ok: "ops_ok ?env (concat (map matched_ops ([] @ [sample_state_block]))) Map.empty" by (simp add: d)
  have num: "Block_Num sample_state_block = 7" by (simp add: sample_state_block_def empty_block_def Block_Num_def)
  have name: "se_NameToString ?env 3 = ''aaa''" by (simp add: sample_statedb_env_def) (simp add: numeral_3_eq_3)
  have chain: "chain_at ?env [sample_state_block] 7 (5, 2, 1, 1) = Some (3, [3])" by (simp add: chain_at_def num d)
  have key: "request_key sample_server_env ?q 1 = (5, 2, 1, 1)"
    by (simp add: request_key_def env sample_row_request_def) (simp add: sample_statedb_env_def ext_num_def)
  have up: "up_to [sample_state_block] 7 = AsRef sample_state_block" by (simp add: up_to_def num)
  have q: "\<not> gtr_IrreversibleOnly ?q" "\<not> gtr_ToJson ?q" "gtr_BlockNum ?q = 0" by (simp_all add: sample_row_request_def)
  have db: "fl_FetchLastWrittenCheckpoint sample_reader = Some \<lparr>ref_ID = ''f'', ref_Num = 6\<rparr>"
    "fl_HeadBlock sample_reader = Some \<lparr>ref_ID = ''g'', ref_Num = 7\<rparr>" by (simp_all add: sample_reader_def)
  have "7 = (if gtr_BlockNum ?q = 0 then ref_Num \<lparr>ref_ID = ''g'', ref_Num = 7\<rparr> else gtr_BlockNum ?q)" "(7::u64) \<le> ref_Num \<lparr>ref_ID = ''g'', ref_Num = 7\<rparr>"
    by (simp_all add: q)
  note h = this
  have mapped: "list_all2 (\<lambda>b r. BlockMapper_Map (sv_env sample_server_env) b = Inr r) [] []"
    "list_all2 (\<lambda>b r. BlockMapper_Map (sv_env sample_server_env) b = Inr r) [sample_state_block] [sample_state_request]"
    by (simp_all add: env sample_state_mapped)
  from GetTableRow_reads_chain [OF _ _ _ mapped sample_flux_ok db h q(1,2) sample_request_converts, unfolded env]
  show ?thesis using sample_statedb_env_ok ok by (auto simp: chain key up name)
qed

theorem irreversible_read_panics_witness:
  "gtr_IrreversibleOnly (sample_row_request True)
   \<and> GetTableRow sample_server_env (sample_reader\<lparr>fl_ReadTabletRowAt := \<lambda>h c t p ws. Some (Some
        \<lparr>row_Collection = c, row_Identifier = t, row_Height = h, row_PrimaryKey = p, row_Value = PutUint64 3 @ [3]\<rparr>)\<rparr>) (sample_row_request True)
     = Inl SvPanic"
proof
  let ?row = "\<lambda>h c t p. \<lparr>row_Collection = c, row_Identifier = t, row_Height = h, row_PrimaryKey = p, row_Value = PutUint64 3 @ [3]\<rparr>"
  let ?db = "sample_reader\<lparr>fl_ReadTabletRowAt := \<lambda>h c t p ws. Some (Some (?row h c t p))\<rparr>"
  show q: "gtr_IrreversibleOnly (sample_row_request True)" by (simp add: sample_row_request_def)
  have db: "fl_FetchLastWrittenCheckpoint ?db = Some \<lparr>ref_ID = ''f'', ref_Num = 6\<rparr>" by (simp add: sample_reader_def)
  have le: "gtr_BlockNum (sample_row_request True) \<le> ref_Num \<lparr>ref_ID = ''f'', ref_Num = 6\<rparr>" by (simp add: sample_row_request_def)
  have row: "fl_ReadTabletRowAt ?db 6 c t p [] = Some (Some (?row 6 c t p))" for c t p by simp
  have json: "serialization_for sample_server_env ?db t (gtr_ToJson (sample_row_request True)) p = Inr None" for t p
    by (simp add: serialization_for_def sample_row_request_def)
  have info: "\<not> isl (ContractStateRow_Info (sv_env sample_server_env) (?row 6 c t p))" for c t p
    by (simp add: ContractStateRow_Info_def sample_server_env_def sample_statedb_env_def)
  show "GetTableRow sample_server_env ?db (sample_row_request True) = Inl SvPanic"
    using irreversible_read_panics [OF q db le sample_request_converts, simplified BlockRef.simps, OF row json] info by simp
qed

end
