(* ===== verification/Search.thy ===== *)
theory Search
  imports GoFormat PbHelpers "HOL-Library.AList"
begin

text \<open>
  The EOSIO part of the search, \<open>search\<close>: which terms are indexed, the document of every action, the
  identifiers of the documents, and the collection of the matches of a query. The index itself is the
  library \<open>bleve\<close>; JSON, query strings and hashes are fields of the record \<open>search_env\<close>, and JSON values are of
  the abstract type \<open>'v\<close>. Writing to a nil map and slicing out of range are panics.
  The conversion of a document to fields of the index, \<open>MapDocument\<close>, is left out with its error, and so is
  the cancellation of a query while its matches are collected.
\<close>

section \<open>Environment\<close>

text \<open>The pairs that \<open>sx_Unmarshal\<close> and \<open>sx_ParseQuery\<close> give are in the order in which Go ranges over the map;
  \<open>sx_ord\<close> is this order for the map of the actions of a transaction. \<open>sx_nft\<close> converts a value through the
  structure of the action it is named for.\<close>

record 'v search_env =
  sx_Unmarshal :: "string \<Rightarrow> (string \<times> 'v) list option"
  sx_String :: "'v \<Rightarrow> string option"
  sx_OfString :: "string \<Rightarrow> 'v"
  sx_sha256 :: "bytes \<Rightarrow> bytes"
  sx_nft :: "string \<Rightarrow> 'v \<Rightarrow> 'v option"
  sx_GetData :: "string \<Rightarrow> string \<Rightarrow> string"
  sx_ParseQuery :: "string \<Rightarrow> (string \<times> string list) list option"
  sx_sort :: "string list \<Rightarrow> string list"
  sx_ord :: "u32 list \<Rightarrow> u32 list"

datatype search_error = SxPanic | SxUnknownTerm

section \<open>Indexed terms\<close>

record IndexedTerms =
  ix_Receiver :: bool
  ix_Account :: bool
  ix_Action :: bool
  ix_Auth :: bool
  ix_Scheduled :: bool
  ix_Status :: bool
  ix_Notif :: bool
  ix_Input :: bool
  ix_Event :: bool
  ix_RAMConsumed :: bool
  ix_RAMReleased :: bool
  ix_DBTable :: bool
  ix_DBKey :: bool
  ix_Base :: "string set"
  ix_Data :: "string set"

definition no_terms :: IndexedTerms where
  "no_terms =
     \<lparr>ix_Receiver = False, ix_Account = False, ix_Action = False, ix_Auth = False, ix_Scheduled = False, ix_Status = False,
      ix_Notif = False, ix_Input = False, ix_Event = False, ix_RAMConsumed = False, ix_RAMReleased = False,
      ix_DBTable = False, ix_DBKey = False, ix_Base = {}, ix_Data = {}\<rparr>"

text \<open>Splitting at the expression \<open>(,|\s+)\<close>.\<close>

definition term_separator :: "char \<Rightarrow> bool" where
  "term_separator c \<longleftrightarrow> (of_char c :: nat) \<in> {44, 32, 9, 10, 12, 13}"

fun split_terms :: "string \<Rightarrow> string \<Rightarrow> string list" where
  "split_terms acc [] = [acc]"
| "split_terms acc (c # cs) = (if term_separator c then acc # split_terms [] cs else split_terms (acc @ [c]) cs)"

definition NormalizeDataField :: "string \<Rightarrow> string" where
  "NormalizeDataField fieldName =
     (let segments = Split CHR ''.'' fieldName in if length segments < 2 then fieldName else segments ! 1)"

definition add_term :: "string \<Rightarrow> IndexedTerms \<Rightarrow> search_error + IndexedTerms" where
  "add_term term t =
     (let base = t\<lparr>ix_Base := insert term (ix_Base t)\<rparr>
      in if term = ''receiver'' then Inr (base\<lparr>ix_Receiver := True\<rparr>)
         else if term = ''account'' then Inr (base\<lparr>ix_Account := True\<rparr>)
         else if term = ''action'' then Inr (base\<lparr>ix_Action := True\<rparr>)
         else if term = ''auth'' then Inr (base\<lparr>ix_Auth := True\<rparr>)
         else if term = ''scheduled'' then Inr (base\<lparr>ix_Scheduled := True\<rparr>)
         else if term = ''status'' then Inr (base\<lparr>ix_Status := True\<rparr>)
         else if term = ''notif'' then Inr (base\<lparr>ix_Notif := True\<rparr>)
         else if term = ''input'' then Inr (base\<lparr>ix_Input := True\<rparr>)
         else if term = ''event'' then Inr (base\<lparr>ix_Event := True\<rparr>)
         else if term = ''ram.consumed'' then Inr (base\<lparr>ix_RAMConsumed := True\<rparr>)
         else if term = ''ram.released'' then Inr (base\<lparr>ix_RAMReleased := True\<rparr>)
         else if term = ''db.table'' then Inr (base\<lparr>ix_DBTable := True\<rparr>)
         else if term = ''db.key'' then Inr (base\<lparr>ix_DBKey := True\<rparr>)
         else if HasPrefix term ''data.'' then Inr (t\<lparr>ix_Data := insert (NormalizeDataField term) (ix_Data t)\<rparr>)
         else Inl SxUnknownTerm)"

definition DefaultIndexedTerms :: string where
  "DefaultIndexedTerms =
     ''receiver, account, action, auth, scheduled, status, notif, input, event, ram.consumed, '' @
     ''ram.released, db.key, db.table, data.account, data.active, data.active_key, data.actor, data.amount, data.auth, data.authority, '' @
     ''data.bid, data.bidder, data.canceler, data.creator, data.executer, data.from, data.is_active, data.is_priv, data.isproxy, data.issuer, '' @
     ''data.level, data.location, data.maximum_supply, data.name, data.newname, data.owner, data.parent, data.payer, data.permission, data.producer, '' @
     ''data.producer_key, data.proposal_name, data.proposal_hash, data.proposer, data.proxy, data.public_key, data.producers, data.quant, data.quantity, data.ram_payer, '' @
     ''data.receiver, data.requested, data.requirement, data.symbol, data.threshold, data.to, data.transfer, data.voter, data.voter_name, data.weight, '' @
     ''data.abi, data.code''"

definition NewIndexedTerms :: "string \<Rightarrow> search_error + IndexedTerms" where
  "NewIndexedTerms specs =
     fold_res add_term
       (filter (\<lambda>term. term \<noteq> '''') (map TrimSpace (split_terms [] (if specs = ''*'' \<or> specs = '''' then DefaultIndexedTerms else specs))))
       no_terms"

definition IsIndexed :: "IndexedTerms \<Rightarrow> string \<Rightarrow> bool" where
  "IsIndexed t fieldName =
     (if fieldName \<in> ix_Base t then True
      else if HasPrefix fieldName ''data.'' then NormalizeDataField fieldName \<in> ix_Data t
      else HasPrefix fieldName ''event.'')"

text \<open>The fields of a query that are not indexed, \<open>None\<close> when there are none.\<close>

definition BleveQueryValidator_Validate :: "'v search_env \<Rightarrow> IndexedTerms \<Rightarrow> string list \<Rightarrow> string list option" where
  "BleveQueryValidator_Validate env indexedTerms FieldNames =
     (let unknownFields = filter (\<lambda>fieldName. \<not> IsIndexed indexedTerms fieldName) FieldNames
      in if length unknownFields \<le> 0 then None else Some (sx_sort env unknownFields))"

section \<open>Tokenizer\<close>

record 'v search_doc =
  doc_receiver :: "string option"
  doc_account :: "string option"
  doc_action :: "string option"
  doc_auth :: "string list"
  doc_data :: "(string \<times> 'v) list"
  doc_block_num :: u64
  doc_trx_idx :: u64
  doc_notif :: "bool option"
  doc_input :: "bool option"
  doc_scheduled :: "bool option"
  doc_event :: "(string \<times> string list) list"
  doc_ram :: "string list \<times> string list"
  doc_db :: "string list \<times> string list"

definition dataFieldsToHash :: "string list" where "dataFieldsToHash = [''abi'', ''code'']"
definition CheckNFTField :: "string list" where "CheckNFTField = [''issue'', ''transfer'', ''buy'']"

definition isDataFieldToHash :: "string \<Rightarrow> bool" where
  "isDataFieldToHash name \<longleftrightarrow> name \<in> set dataFieldsToHash"

text \<open>\<open>None\<close> is a field to skip.\<close>

definition normalizeDataValue :: "'v search_env \<Rightarrow> string \<Rightarrow> 'v \<Rightarrow> 'v option" where
  "normalizeDataValue env name v =
     (if isDataFieldToHash name
      then Option.bind (sx_String env v) (\<lambda>val.
           map_option (\<lambda>bytes. sx_OfString env (hex_EncodeToString (sx_sha256 env bytes))) (hex_DecodeString val))
      else Some v)"

definition tokenizeNFTDataField :: "'v search_env \<Rightarrow> string \<Rightarrow> 'v \<Rightarrow> 'v option" where
  "tokenizeNFTDataField env normalizedField v =
     (if normalizedField \<notin> set CheckNFTField then None else sx_nft env normalizedField v)"

definition tokenizeData :: "'v search_env \<Rightarrow> IndexedTerms \<Rightarrow> string \<Rightarrow> string \<Rightarrow> (string \<times> 'v) list" where
  "tokenizeData env terms data account =
     (if data = '''' then []
      else case sx_Unmarshal env data of
             None \<Rightarrow> []
           | Some pairs \<Rightarrow>
               fold (\<lambda>(name, val) out.
                 if IsIndexed terms (''data.'' @ name)
                 then let field = NormalizeDataField name
                      in case normalizeDataValue env field val of
                           None \<Rightarrow> out
                         | Some v \<Rightarrow>
                             AList.update field
                               (if account = ''eosio.nft.ft''
                                then case tokenizeNFTDataField env field v of None \<Rightarrow> v | Some converted \<Rightarrow> converted
                                else v) out
                 else out) pairs [])"

definition tokenizeAuthority :: "PermissionLevel list \<Rightarrow> string list" where
  "tokenizeAuthority auths = concat (map (\<lambda>a. [pl_Actor a, Authorization a]) auths)"

definition tokenize :: "'v search_env \<Rightarrow> IndexedTerms \<Rightarrow> ActionTrace \<Rightarrow> search_error + 'v search_doc" where
  "tokenize env terms act =
     bind_res (if ix_Receiver terms
               then map_sum (\<lambda>e. e) (\<lambda>r. Some (rcpt_Receiver r)) (from_opt SxPanic (at_Receipt act)) else Inr None) (\<lambda>receiver.
       Inr \<lparr>doc_receiver = receiver,
            doc_account = (if ix_Account terms then Some (act_Account (at_Action act)) else None),
            doc_action = (if ix_Action terms then Some (act_Name (at_Action act)) else None),
            doc_auth = (if ix_Auth terms then tokenizeAuthority (act_Authorization (at_Action act)) else []),
            doc_data = (if ix_Data terms \<noteq> {} then tokenizeData env terms (act_JsonData (at_Action act)) (act_Account (at_Action act)) else []),
            doc_block_num = 0, doc_trx_idx = 0, doc_notif = None, doc_input = None, doc_scheduled = None,
            doc_event = [], doc_ram = ([], []), doc_db = ([], [])\<rparr>)"

definition tokenizeEvent :: "'v search_env \<Rightarrow> bool \<Rightarrow> string \<Rightarrow> (string \<times> string list) list" where
  "tokenizeEvent env unrestricted data =
     (case sx_ParseQuery env data of
        None \<Rightarrow> []
      | Some out \<Rightarrow>
          if unrestricted then out
          else if (\<exists>(k, vals)\<in>set out. length k > 16 \<or> (\<exists>v\<in>set vals. length v > 64)) then []
          else if length out > 3 then [] else out)"

section \<open>Mapper\<close>

text \<open>The keys of a map as a sorted list; the maps are lists without repetitions.\<close>

definition toList :: "'v search_env \<Rightarrow> string list \<Rightarrow> string list" where
  "toList env keys = sx_sort env keys"

text \<open>The maps of payers are nil unless their term is indexed.\<close>

definition note_ram :: "IndexedTerms \<Rightarrow> RAMOp \<Rightarrow> string list \<times> string list \<Rightarrow> search_error + string list \<times> string list" where
  "note_ram terms op st =
     (case st of (consumed, released) \<Rightarrow>
        if ram_Delta op = 0 then Inr st
        else if ram_Delta op > 0
        then (if ix_RAMConsumed terms then Inr (List.insert (ram_Payer op) consumed, released) else Inl SxPanic)
        else (if ix_RAMReleased terms then Inr (consumed, List.insert (ram_Payer op) released) else Inl SxPanic))"

definition processRAMOps :: "'v search_env \<Rightarrow> IndexedTerms \<Rightarrow> RAMOp list \<Rightarrow> search_error + string list \<times> string list" where
  "processRAMOps env terms ramOps =
     bind_res (fold_res (note_ram terms) ramOps ([], [])) (\<lambda>(consumed, released).
       Inr (toList env consumed, toList env released))"

definition processDBOps :: "'v search_env \<Rightarrow> IndexedTerms \<Rightarrow> DBOp list \<Rightarrow> string list \<times> string list" where
  "processDBOps env terms dbOps =
     (toList env (if ix_DBKey terms
        then remdups (map (\<lambda>op. db_TableName op @ ''/'' @ db_Scope op @ ''/'' @ db_PrimaryKey op) dbOps) else []),
      toList env (if ix_DBTable terms
        then remdups (concat (map (\<lambda>op. [db_TableName op @ ''/'' @ db_Scope op, db_TableName op]) dbOps)) else []))"

record BlockMapper =
  bm_actionName :: string
  bm_unrestricted :: bool
  bm_indexed :: IndexedTerms

definition NewBlockMapper :: "string \<Rightarrow> bool \<Rightarrow> string \<Rightarrow> search_error + BlockMapper" where
  "NewBlockMapper eventsActionName eventsUnrestricted indexedTermsSpecs =
     bind_res (NewIndexedTerms indexedTermsSpecs) (\<lambda>indexed.
       Inr \<lparr>bm_actionName = eventsActionName, bm_unrestricted = eventsUnrestricted, bm_indexed = indexed\<rparr>)"

definition search_isRequiredSystemAction :: "ActionTrace \<Rightarrow> bool" where
  "search_isRequiredSystemAction a \<longleftrightarrow>
     at_Receiver a = ''eosio'' \<and> act_Account (at_Action a) = ''eosio'' \<and> act_Name (at_Action a) = ''setabi''"

text \<open>The prepared documents of a transaction, by action ordinal: the index of the action and its data. An event
  is added to the document of the action that created it; when this is not among them, the write is to the
  nil map of a zero value.\<close>

type_synonym 'v prepared = "(u32 \<times> nat \<times> 'v search_doc) list"

definition add_event :: "'v search_env \<Rightarrow> BlockMapper \<Rightarrow> ActionTrace \<Rightarrow> 'v prepared \<Rightarrow> search_error + 'v prepared" where
  "add_event env m act docs =
     (if ix_Event (bm_indexed m) \<and> SimpleName act = bm_actionName m \<and> \<not> IsInput act
      then let pairs = tokenizeEvent env (bm_unrestricted m) (sx_GetData env (act_JsonData (at_Action act)) ''data'')
           in if pairs = [] then Inr docs
              else case map_of docs (at_CreatorActionOrdinal act) of
                     None \<Rightarrow> Inl SxPanic
                   | Some (idx, doc) \<Rightarrow> Inr (AList.update (at_CreatorActionOrdinal act) (idx, doc\<lparr>doc_event := pairs\<rparr>) docs)
      else Inr docs)"

definition prepare_action ::
  "'v search_env \<Rightarrow> BlockMapper \<Rightarrow> Block \<Rightarrow> TransactionTrace \<Rightarrow> nat \<times> ActionTrace \<Rightarrow> 'v prepared \<Rightarrow> search_error + 'v prepared" where
  "prepare_action env m blk trx ia docs =
     (case ia of (idx, act) \<Rightarrow>
        let t = trace_of trx; terms = bm_indexed m
        in if \<not> FilteringActionMatcher blk trx [search_isRequiredSystemAction] (at_ExecutionIndex act) then Inr docs
           else
             bind_res (tokenize env terms act) (\<lambda>doc.
             bind_res (if ix_Notif terms then map_sum (\<lambda>e. e) (\<lambda>r. Some (rcpt_Receiver r \<noteq> act_Account (at_Action act))) (from_opt SxPanic (at_Receipt act))
                       else Inr None) (\<lambda>notif.
             bind_res (add_event env m act docs) (\<lambda>docs1.
             bind_res (if ix_RAMConsumed terms \<or> ix_RAMReleased terms
                       then processRAMOps env terms (RAMOpsForAction t (of_nat idx)) else Inr ([], [])) (\<lambda>ram.
               Inr (AList.update (at_ActionOrdinal act)
                 (idx, doc\<lparr>doc_block_num := Block_Num blk, doc_trx_idx := tt_Index t, doc_notif := notif,
                    doc_input := (if ix_Input terms then Some (IsInput act) else None),
                    doc_scheduled := (if ix_Scheduled terms then Some (tt_Scheduled t) else None),
                    doc_ram := ram,
                    doc_db := (if ix_DBKey terms \<or> ix_DBTable terms
                               then processDBOps env terms (DBOpsForAction t (of_nat idx)) else ([], []))\<rparr>) docs1))))))"

definition newDocumentID :: "u64 \<Rightarrow> string \<Rightarrow> nat \<Rightarrow> search_error + string" where
  "newDocumentID blockNum transactionID actionIndex =
     (if length transactionID < 32 then Inl SxPanic
      else Inr (format_hex_padded 16 (unat blockNum) @ '':'' @ take 32 transactionID @ '':'' @ format_hex_padded 4 actionIndex))"

definition prepare_trace ::
  "'v search_env \<Rightarrow> BlockMapper \<Rightarrow> Block \<Rightarrow> TransactionTrace \<Rightarrow> (string \<times> 'v search_doc) list \<Rightarrow> search_error + (string \<times> 'v search_doc) list" where
  "prepare_trace env m blk trx docsList =
     (if HasBeenReverted (trace_of trx) then Inr docsList
      else
        bind_res (fold_res (prepare_action env m blk trx) (enumerate 0 (tt_ActionTraces (trace_of trx))) []) (\<lambda>docs.
          fold_res (\<lambda>ordinal out.
            case the (map_of docs ordinal) of (idx, doc) \<Rightarrow>
              bind_res (newDocumentID (Block_Num blk) (tt_Id (trace_of trx)) idx) (\<lambda>docID. Inr (out @ [(docID, doc)])))
            (sx_ord env (map fst docs)) docsList))"

definition prepareBatchDocuments :: "'v search_env \<Rightarrow> BlockMapper \<Rightarrow> Block \<Rightarrow> search_error + (string \<times> 'v search_doc) list" where
  "prepareBatchDocuments env m blk = fold_res (prepare_trace env m blk) (TransactionTraces blk) []"

text \<open>The documents of a block and, under its own identifier, the number of its actions.\<close>

definition Search_Map :: "'v search_env \<Rightarrow> BlockMapper \<Rightarrow> Block \<Rightarrow> search_error + (string \<times> 'v search_doc) list \<times> string \<times> nat" where
  "Search_Map env m blk =
     bind_res (prepareBatchDocuments env m blk) (\<lambda>docs.
       Inr (docs, ''meta:blknum:'' @ format_nat (unat (Block_Num blk)), length docs))"

section \<open>Collector\<close>

definition fromHexUint32 :: "string \<Rightarrow> u32 option" where
  "fromHexUint32 input = map_option of_nat (parse_hex_below 4294967296 input)"

definition fromHexUint16 :: "string \<Rightarrow> u16 option" where
  "fromHexUint16 input = map_option of_nat (parse_hex_below 65536 input)"

text \<open>\<open>None\<close> is a document to skip.\<close>

definition explodeDocumentID :: "string \<Rightarrow> search_error + (u64 \<times> string \<times> u16) option" where
  "explodeDocumentID ref =
     (case Split CHR '':'' ref of
        [a, b, c] \<Rightarrow>
          if a = ''meta'' then Inr None
          else bind_res (from_opt SxPanic (fromHexUint32 a)) (\<lambda>blockNum32.
               bind_res (from_opt SxPanic (fromHexUint16 c)) (\<lambda>actionIdx.
                 Inr (Some (ucast blockNum32, b, actionIdx))))
      | _ \<Rightarrow> Inr None)"

record SearchMatch =
  sm_TrxIDPrefix :: string
  sm_ActionIndexes :: "u16 list"
  sm_BlockNumber :: u64
  sm_Index :: u64

definition collect_hit ::
  "u64 \<Rightarrow> u64 \<Rightarrow> string \<Rightarrow> (string \<times> u16 list) list \<times> (string \<times> u64) list \<Rightarrow>
   search_error + (string \<times> u16 list) list \<times> (string \<times> u64) list" where
  "collect_hit lowBlockNum highBlockNum el st =
     (case st of (trxs, trxList) \<Rightarrow>
        bind_res (explodeDocumentID el) (\<lambda>r.
          case r of
            None \<Rightarrow> Inr st
          | Some (blockNum, trxID, actionIdx) \<Rightarrow>
              if blockNum < lowBlockNum \<or> blockNum > highBlockNum then Inr st
              else case map_of trxs trxID of
                     None \<Rightarrow> Inr (AList.update trxID [actionIdx] trxs, trxList @ [(trxID, blockNum)])
                   | Some acts \<Rightarrow> Inr (AList.update trxID (acts @ [actionIdx]) trxs, trxList)))"

definition search_collector :: "u64 \<Rightarrow> u64 \<Rightarrow> string list \<Rightarrow> search_error + SearchMatch list" where
  "search_collector lowBlockNum highBlockNum results =
     bind_res (fold_res (collect_hit lowBlockNum highBlockNum) results ([], [])) (\<lambda>(trxs, trxList).
       Inr (map (\<lambda>(trxID, blockNum).
         \<lparr>sm_TrxIDPrefix = trxID, sm_ActionIndexes = sort (the (map_of trxs trxID)), sm_BlockNumber = blockNum, sm_Index = 0\<rparr>) trxList))"

section \<open>Matches\<close>

definition uint16to32s :: "u16 list \<Rightarrow> u32 list" where
  "uint16to32s xs = map ucast xs"

record BlockTrxPayload =
  btp_BlockID :: string
  btp_Trace :: "TransactionTrace option"

record search_Match =
  match_ActionIndexes :: "u32 list"
  match_Block :: "BlockTrxPayload option"

definition buildBlockTrxPayload :: "SearchMatch \<Rightarrow> Block \<Rightarrow> BlockTrxPayload option" where
  "buildBlockTrxPayload m blk =
     (if sm_TrxIDPrefix m = '''' then Some \<lparr>btp_BlockID = blk_Id blk, btp_Trace = None\<rparr>
      else map_option (\<lambda>trx. \<lparr>btp_BlockID = blk_Id blk, btp_Trace = Some trx\<rparr>)
             (find (\<lambda>trx. HasPrefix (tt_Id (trace_of trx)) (sm_TrxIDPrefix m)) (TransactionTraces blk)))"

definition FillProtoSpecific :: "SearchMatch \<Rightarrow> Block option \<Rightarrow> search_Match" where
  "FillProtoSpecific m block =
     (case block of
        None \<Rightarrow> \<lparr>match_ActionIndexes = uint16to32s (sm_ActionIndexes m), match_Block = None\<rparr>
      | Some blk \<Rightarrow>
          if sm_TrxIDPrefix m = '''' then \<lparr>match_ActionIndexes = [], match_Block = buildBlockTrxPayload m blk\<rparr>
          else \<lparr>match_ActionIndexes = uint16to32s (sm_ActionIndexes m), match_Block = buildBlockTrxPayload m blk\<rparr>)"

end
