(* ===== verification/SearchProps.thy ===== *)
theory SearchProps
  imports Search "HOL-Library.Multiset"
begin

text \<open>
  What is indexed is found: the documents of a block are those of the matched actions of its executed
  transactions, and the collector groups any hits among them by transaction.
\<close>

section \<open>Identifiers\<close>

lemma SplitN_Join_all:
  assumes "xs \<noteq> []" and "length xs \<le> n" and "\<forall>x\<in>set xs. sep \<notin> set x"
  shows "SplitN n sep (Join sep xs) = xs"
  using assms
proof (induction sep xs arbitrary: n rule: Join.induct)
  case (2 sep x)
  then show ?case by (cases n; cases "n - 1") (auto simp: SplitN_notin)
next
  case (3 sep x y ys)
  then obtain k where n: "n = Suc (Suc k)" by (metis Suc_le_D length_Cons Suc_le_mono)
  have "SplitN (Suc k) sep (Join sep (y # ys)) = y # ys"
    using "3.prems" n by (intro "3.IH") auto
  then show ?case using "3.prems" n by simp
qed simp

lemma Split_three:
  assumes "sep \<notin> set a" and "sep \<notin> set b" and "sep \<notin> set c"
  shows "Split sep (a @ sep # b @ sep # c) = [a, b, c]"
  using SplitN_Join_all [of "[a, b, c]" "Suc (length (a @ sep # b @ sep # c))" sep] assms by (simp add: Split_def)

definition doc_ok :: "u64 \<times> string \<times> nat \<Rightarrow> bool" where
  "doc_ok h = (case h of (n, t, i) \<Rightarrow> unat n < 4294967296 \<and> 32 \<le> length t \<and> CHR '':'' \<notin> set t \<and> i < 65536)"

definition doc_id :: "u64 \<times> string \<times> nat \<Rightarrow> string" where
  "doc_id h = (case h of (n, t, i) \<Rightarrow> format_hex_padded 16 (unat n) @ '':'' @ take 32 t @ '':'' @ format_hex_padded 4 i)"

lemma newDocumentID_doc_id: "newDocumentID n t i = Inr d \<longleftrightarrow> 32 \<le> length t \<and> d = doc_id (n, t, i)"
  by (auto simp: newDocumentID_def doc_id_def)

lemma explode_doc_id:
  assumes "doc_ok (n, t, i)"
  shows "explodeDocumentID (doc_id (n, t, i)) = Inr (Some (n, take 32 t, of_nat i))"
proof -
  have "CHR '':'' \<notin> set (take 32 t)" using assms by (auto simp: doc_ok_def dest: in_set_takeD)
  then have "Split CHR '':'' (doc_id (n, t, i)) = [format_hex_padded 16 (unat n), take 32 t, format_hex_padded 4 i]"
    using Split_three [of "CHR '':''" "format_hex_padded 16 (unat n)" "take 32 t" "format_hex_padded 4 i"] format_hex_no_colon
    by (simp add: doc_id_def)
  moreover have "16 \<le> length (format_hex_padded 16 (unat n))" by (simp add: format_hex_padded_def)
  then have "format_hex_padded 16 (unat n) \<noteq> ''meta''" by auto
  moreover have "unat (ucast (of_nat m :: u32) :: u64) = m" if "m < 4294967296" for m
    using that by (simp add: unsigned_ucast_eq unsigned_of_nat take_bit_nat_eq_self)
  then have "ucast (of_nat (unat n) :: u32) = n" using assms by (simp only: doc_ok_def word_unat_eq_iff prod.case)
  ultimately show ?thesis
    using assms by (simp add: explodeDocumentID_def fromHexUint32_def fromHexUint16_def doc_ok_def)
qed

section \<open>Terms\<close>

text \<open>The default terms are all known, and cover the base fields and the fields of a transfer.\<close>

lemma default_terms:
  "case NewIndexedTerms [] of
     Inl e \<Rightarrow> False
   | Inr t \<Rightarrow> ix_Receiver t \<and> ix_RAMConsumed t \<and> ix_RAMReleased t \<and> ix_DBKey t \<and>
       list_all (IsIndexed t) [''account'', ''data.from'', ''data.to'', ''data.quantity'', ''event.any''] \<and> \<not> IsIndexed t ''data.memo''"
  by code_simp

text \<open>A payer that releases memory stops the indexing when only the consumed memory is indexed.\<close>

lemma note_ram_panics:
  "\<lbrakk>ram_Delta op < 0; \<not> ix_RAMReleased terms\<rbrakk> \<Longrightarrow> note_ram terms op st = Inl SxPanic"
  "\<lbrakk>0 < ram_Delta op; \<not> ix_RAMConsumed terms\<rbrakk> \<Longrightarrow> note_ram terms op st = Inl SxPanic"
  by (auto simp: note_ram_def split: prod.splits)

section \<open>Collector\<close>

definition in_range :: "u64 \<Rightarrow> u64 \<Rightarrow> u64 \<times> string \<times> nat \<Rightarrow> bool" where
  "in_range low high h \<longleftrightarrow> low \<le> fst h \<and> fst h \<le> high"

definition trx_prefix :: "u64 \<times> string \<times> nat \<Rightarrow> string" where
  "trx_prefix h = take 32 (fst (snd h))"

definition hits_of :: "string \<Rightarrow> (u64 \<times> string \<times> nat) list \<Rightarrow> (u64 \<times> string \<times> nat) list" where
  "hits_of p hits = filter (\<lambda>h. trx_prefix h = p) hits"

text \<open>The elements of a list in the order of their first occurrence.\<close>

definition firsts :: "'a list \<Rightarrow> 'a list" where
  "firsts xs = rev (remdups (rev xs))"

lemma firsts_snoc: "firsts (xs @ [x]) = (if x \<in> set xs then firsts xs else firsts xs @ [x])"
  by (simp add: firsts_def)

lemma set_firsts [simp]: "set (firsts xs) = set xs" "distinct (firsts xs)" "firsts [] = []"
  by (simp_all add: firsts_def)

lemma fold_res_snoc: "fold_res f (xs @ [x]) s = bind_res (fold_res f xs s) (f x)"
proof -
  have "bind_res r (fold_res f []) = r" for r by (cases r) simp_all
  then have "fold_res f [x] = f x" by (simp add: fun_eq_iff)
  then show ?thesis by (simp add: fold_res_append)
qed

lemma collect_hits:
  assumes "\<forall>h\<in>set hits. doc_ok h"
  shows "\<exists>trxs. fold_res (collect_hit low high) (map doc_id hits) ([], []) =
      Inr (trxs, map (\<lambda>p. (p, fst (hd (hits_of p (filter (in_range low high) hits))))) (firsts (map trx_prefix (filter (in_range low high) hits))))
    \<and> (\<forall>p. map_of trxs p = (case hits_of p (filter (in_range low high) hits) of
         [] \<Rightarrow> None | hs \<Rightarrow> Some (map (\<lambda>h. of_nat (snd (snd h))) hs)))"
  using assms
proof (induction hits rule: rev_induct)
  case Nil
  then show ?case by (simp add: hits_of_def)
next
  case (snoc h hits)
  let ?k = "filter (in_range low high) hits"
  obtain n t i where h: "h = (n, t, i)" by (cases h)
  have hi: "snd (snd h) = i" "fst h = n" by (simp_all add: h)
  have p: "trx_prefix h = take 32 t" "in_range low high h \<longleftrightarrow> low \<le> n \<and> n \<le> high" by (simp_all add: h trx_prefix_def in_range_def)
  from snoc obtain trxs where IH: "fold_res (collect_hit low high) (map doc_id hits) ([], []) =
        Inr (trxs, map (\<lambda>p. (p, fst (hd (hits_of p ?k)))) (firsts (map trx_prefix ?k)))"
      "\<forall>p. map_of trxs p = (case hits_of p ?k of [] \<Rightarrow> None | hs \<Rightarrow> Some (map (\<lambda>h. of_nat (snd (snd h))) hs))"
    by auto
  have ex: "explodeDocumentID (doc_id h) = Inr (Some (n, take 32 t, of_nat i))" using snoc.prems explode_doc_id [of n t i] h by simp
  let ?L = "map (\<lambda>p. (p, fst (hd (hits_of p ?k)))) (firsts (map trx_prefix ?k))"
  have step: "fold_res (collect_hit low high) (map doc_id (hits @ [h])) ([], []) = collect_hit low high (doc_id h) (trxs, ?L)"
    using IH(1) by (simp add: fold_res_snoc)
  show ?case
  proof (cases "in_range low high h")
    case False
    then have "collect_hit low high (doc_id h) (trxs, ?L) = Inr (trxs, ?L)" using ex p(2) by (auto simp: collect_hit_def not_le)
    then show ?thesis using IH(2) False unfolding step by auto
  next
    case True
    then have r: "\<not> n < low" "\<not> high < n" using p(2) by auto
    have of: "hits_of q (?k @ [h]) = (if q = take 32 t then hits_of q ?k @ [h] else hits_of q ?k)" for q
      by (auto simp: hits_of_def p(1))
    have mem: "take 32 t \<in> trx_prefix ` set ?k \<longleftrightarrow> hits_of (take 32 t) ?k \<noteq> []"
      by (force simp: hits_of_def filter_empty_conv image_iff)
    have old: "hd (hits_of q (?k @ [h])) = hd (hits_of q ?k)" if "q \<in> trx_prefix ` set ?k" for q
    proof -
      have "hits_of q ?k \<noteq> []" using that by (auto simp: hits_of_def filter_empty_conv)
      then show ?thesis by (auto simp: of)
    qed
    show ?thesis
    proof (cases "hits_of (take 32 t) ?k")
      case Nil
      have "map_of trxs (take 32 t) = None" using IH(2) Nil by simp
      then have "collect_hit low high (doc_id h) (trxs, ?L) = Inr (AList.update (take 32 t) [of_nat i] trxs, ?L @ [(take 32 t, n)])"
        using ex r by (simp add: collect_hit_def)
      moreover have "map (\<lambda>p. (p, fst (hd (hits_of p (?k @ [h]))))) (firsts (map trx_prefix (?k @ [h]))) = ?L @ [(take 32 t, n)]"
        using mem Nil old p(1) of [of "take 32 t"] by (simp add: firsts_snoc) (simp add: h)
      ultimately show ?thesis using IH(2) True Nil unfolding step by (auto simp: update_conv' of hi split: list.split)
    next
      case (Cons h0 hs)
      have "map_of trxs (take 32 t) = Some (map (\<lambda>h. of_nat (snd (snd h))) (h0 # hs))" using IH(2) Cons by simp
      then have "collect_hit low high (doc_id h) (trxs, ?L) = Inr (AList.update (take 32 t) (map (\<lambda>h. of_nat (snd (snd h))) (h0 # hs) @ [of_nat i]) trxs, ?L)"
        using ex r by (simp add: collect_hit_def)
      moreover have "map (\<lambda>p. (p, fst (hd (hits_of p (?k @ [h]))))) (firsts (map trx_prefix (?k @ [h]))) = ?L"
        using mem Cons old p(1) by (simp add: firsts_snoc)
      ultimately show ?thesis using IH(2) True Cons unfolding step by (auto simp: update_conv' of hi split: list.split)
    qed
  qed
qed

lemma search_collector_groups:
  assumes "\<forall>h\<in>set hits. doc_ok h"
  shows "search_collector low high (map doc_id hits) =
     (let kept = filter (in_range low high) hits
      in Inr (map (\<lambda>p. \<lparr>sm_TrxIDPrefix = p, sm_ActionIndexes = sort (map (\<lambda>h. of_nat (snd (snd h))) (hits_of p kept)),
           sm_BlockNumber = fst (hd (hits_of p kept)), sm_Index = 0\<rparr>) (firsts (map trx_prefix kept))))"
proof -
  let ?kept = "filter (in_range low high) hits"
  obtain trxs where trxs: "fold_res (collect_hit low high) (map doc_id hits) ([], []) =
        Inr (trxs, map (\<lambda>p. (p, fst (hd (hits_of p ?kept)))) (firsts (map trx_prefix ?kept)))"
      "\<And>p. map_of trxs p = (case hits_of p ?kept of [] \<Rightarrow> None | hs \<Rightarrow> Some (map (\<lambda>h. of_nat (snd (snd h))) hs))"
    using collect_hits [OF assms, of low high] by auto
  have "the (map_of trxs p) = map (\<lambda>h. of_nat (snd (snd h))) (hits_of p ?kept)" if "p \<in> trx_prefix ` set ?kept" for p
  proof -
    have "hits_of p ?kept \<noteq> []" using that by (force simp: hits_of_def filter_empty_conv)
    then show ?thesis by (simp add: trxs(2) split: list.split)
  qed
  then show ?thesis using trxs(1) by (simp add: search_collector_def Let_def)
qed

section \<open>Documents\<close>

definition matched_actions :: "Block \<Rightarrow> TransactionTrace \<Rightarrow> (nat \<times> ActionTrace) list \<Rightarrow> (nat \<times> ActionTrace) list" where
  "matched_actions blk t ias =
     filter (\<lambda>(i, a). FilteringActionMatcher blk t [search_isRequiredSystemAction] (at_ExecutionIndex a)) ias"

definition trace_hits :: "Block \<Rightarrow> TransactionTrace \<Rightarrow> (u64 \<times> string \<times> nat) list" where
  "trace_hits blk t =
     (if HasBeenReverted (trace_of t) then []
      else map (\<lambda>(i, a). (Block_Num blk, tt_Id (trace_of t), i)) (matched_actions blk t (enumerate 0 (tt_ActionTraces (trace_of t)))))"

text \<open>The documents a block should have.\<close>

definition block_hits :: "Block \<Rightarrow> (u64 \<times> string \<times> nat) list" where
  "block_hits blk = concat (map (trace_hits blk) (TransactionTraces blk))"

definition slots :: "'v prepared \<Rightarrow> (u32 \<times> nat) list" where
  "slots docs = map (\<lambda>(ordinal, idx, doc). (ordinal, idx)) docs"

lemma update_fresh: "k \<notin> fst ` set al \<Longrightarrow> AList.update k v al = al @ [(k, v)]"
  by (induction al) auto

lemma slots_update: "map_of docs k = Some (idx, doc) \<Longrightarrow> slots (AList.update k (idx, doc') docs) = slots docs"
  by (induction docs) (auto simp: slots_def split: if_splits)

lemma add_event_slots: "add_event env m act docs = Inr docs' \<Longrightarrow> slots docs' = slots docs"
  by (auto simp: add_event_def Let_def slots_update split: if_splits option.splits)

lemma slots_keys: "fst ` set (slots docs) = fst ` set docs"
  by (force simp: slots_def image_iff)

lemma prepare_action_slots:
  assumes "prepare_action env m blk t (i, a) docs = Inr docs'"
  shows "slots docs' = slots docs \<or> \<not> matched_actions blk t [(i, a)] = []"
    and "matched_actions blk t [(i, a)] = [] \<Longrightarrow> docs' = docs"
    and "\<lbrakk>matched_actions blk t [(i, a)] \<noteq> []; at_ActionOrdinal a \<notin> fst ` set docs\<rbrakk> \<Longrightarrow> slots docs' = slots docs @ [(at_ActionOrdinal a, i)]"
proof -
  show "matched_actions blk t [(i, a)] = [] \<Longrightarrow> docs' = docs"
    using assms by (auto simp: prepare_action_def matched_actions_def Let_def split: if_splits)
  then show "slots docs' = slots docs \<or> \<not> matched_actions blk t [(i, a)] = []" by blast
  assume m: "matched_actions blk t [(i, a)] \<noteq> []" and fresh: "at_ActionOrdinal a \<notin> fst ` set docs"
  from m have "FilteringActionMatcher blk t [search_isRequiredSystemAction] (at_ExecutionIndex a)"
    by (simp add: matched_actions_def split: if_splits)
  then obtain docs1 doc where d: "add_event env m a docs = Inr docs1" "docs' = AList.update (at_ActionOrdinal a) (i, doc) docs1"
    using assms by (auto simp: prepare_action_def Let_def res_simps)
  have "at_ActionOrdinal a \<notin> fst ` set docs1" using fresh add_event_slots [OF d(1)] slots_keys by metis
  then show "slots docs' = slots docs @ [(at_ActionOrdinal a, i)]"
    using add_event_slots [OF d(1)] by (simp add: d(2) update_fresh) (simp add: slots_def)
qed

lemma prepare_actions_slots:
  "\<lbrakk>fold_res (prepare_action env m blk t) ias docs = Inr docs'; distinct (map (at_ActionOrdinal \<circ> snd) ias);
    fst ` set docs \<inter> set (map (at_ActionOrdinal \<circ> snd) ias) = {}\<rbrakk> \<Longrightarrow>
   slots docs' = slots docs @ map (\<lambda>(i, a). (at_ActionOrdinal a, i)) (matched_actions blk t ias)"
proof (induction ias arbitrary: docs)
  case Nil
  then show ?case by (simp add: matched_actions_def)
next
  case (Cons ia ias)
  obtain i a where ia: "ia = (i, a)" by (cases ia)
  obtain docs1 where d: "prepare_action env m blk t (i, a) docs = Inr docs1" "fold_res (prepare_action env m blk t) ias docs1 = Inr docs'"
    using Cons.prems(1) ia by (auto simp: res_simps)
  note step = prepare_action_slots [OF d(1)]
  show ?case
  proof (cases "matched_actions blk t [(i, a)] = []")
    case True
    then show ?thesis
      using Cons.IH [OF d(2)] Cons.prems step(2) ia by (auto simp: matched_actions_def split: if_splits)
  next
    case False
    have s: "slots docs1 = slots docs @ [(at_ActionOrdinal a, i)]" using step(3) [OF False] Cons.prems(3) ia by auto
    then have "fst ` set docs1 = insert (at_ActionOrdinal a) (fst ` set docs)" by (simp add: slots_keys [symmetric])
    then show ?thesis
      using Cons.IH [OF d(2)] Cons.prems s False ia by (auto simp: matched_actions_def split: if_splits)
  qed
qed


text \<open>The documents of a transaction: one for every slot, in the order of the map.\<close>

lemma emit_docs:
  assumes "fold_res (\<lambda>ordinal out. case the (map_of docs ordinal) of (idx, doc) \<Rightarrow>
              bind_res (newDocumentID n t idx) (\<lambda>docID. Inr (out @ [(docID, doc)]))) ords out = Inr out'"
  shows "map fst out' = map fst out @ map (\<lambda>ordinal. doc_id (n, t, fst (the (map_of docs ordinal)))) ords"
    and "ords \<noteq> [] \<Longrightarrow> 32 \<le> length t"
  using assms
  by (induction ords arbitrary: out) (auto simp: res_simps newDocumentID_doc_id split: prod.splits)

lemma slots_lookup: "map_of docs k = Some (idx, doc) \<Longrightarrow> map_of (slots docs) k = Some idx"
  by (induction docs) (auto simp: slots_def split: if_splits)

lemma slots_indexes:
  assumes "distinct (map fst docs)"
  shows "map (\<lambda>k. fst (the (map_of docs k))) (map fst docs) = map snd (slots docs)"
  using assms by (auto simp: slots_def intro!: map_cong)

lemma prepare_trace_ids:
  assumes run: "prepare_trace env m blk t out = Inr out'" and ord: "\<forall>xs. mset (sx_ord env xs) = mset xs"
    and dist: "distinct (map at_ActionOrdinal (tt_ActionTraces (trace_of t)))"
  shows "mset (map fst out') = mset (map fst out) + mset (map doc_id (trace_hits blk t))"
    and "trace_hits blk t \<noteq> [] \<Longrightarrow> 32 \<le> length (tt_Id (trace_of t))"
proof -
  let ?ias = "enumerate 0 (tt_ActionTraces (trace_of t))"
  have d: "distinct (map (at_ActionOrdinal \<circ> snd) ?ias)" using dist by (simp add: map_map [symmetric] del: map_map)
  have goal: "mset (map fst out') = mset (map fst out) + mset (map doc_id (trace_hits blk t)) \<and>
      (trace_hits blk t \<noteq> [] \<longrightarrow> 32 \<le> length (tt_Id (trace_of t)))"
  proof (cases "HasBeenReverted (trace_of t)")
    case True
    then show ?thesis using run by (simp add: prepare_trace_def trace_hits_def)
  next
    case False
    then obtain docs where docs: "fold_res (prepare_action env m blk t) ?ias [] = Inr docs"
      and emit: "fold_res (\<lambda>ordinal out. case the (map_of docs ordinal) of (idx, doc) \<Rightarrow>
              bind_res (newDocumentID (Block_Num blk) (tt_Id (trace_of t)) idx) (\<lambda>docID. Inr (out @ [(docID, doc)])))
            (sx_ord env (map fst docs)) out = Inr out'"
      using run by (auto simp: prepare_trace_def res_simps)
    have s: "slots docs = map (\<lambda>(i, a). (at_ActionOrdinal a, i)) (matched_actions blk t ?ias)"
      using prepare_actions_slots [OF docs d] by (simp add: slots_def)
    have keys: "map fst docs = map fst (slots docs)" by (auto simp: slots_def)
    also have "\<dots> = map (at_ActionOrdinal \<circ> snd) (matched_actions blk t ?ias)" by (auto simp: s)
    finally have dk: "distinct (map fst docs)"
      using d by (simp add: matched_actions_def distinct_map_filter)
    let ?f = "\<lambda>i. doc_id (Block_Num blk, tt_Id (trace_of t), i)"
    have "mset (map fst out') = mset (map fst out) + image_mset (\<lambda>k. ?f (fst (the (map_of docs k)))) (mset (map fst docs))"
      using emit_docs(1) [OF emit] ord by simp
    also have "image_mset (\<lambda>k. ?f (fst (the (map_of docs k)))) (mset (map fst docs)) = mset (map ?f (map snd (slots docs)))"
      unfolding slots_indexes [OF dk, symmetric] by (simp add: multiset.map_comp o_def)
    also have "map ?f (map snd (slots docs)) = map doc_id (trace_hits blk t)"
      using False by (auto simp: s trace_hits_def)
    finally have "mset (map fst out') = mset (map fst out) + mset (map doc_id (trace_hits blk t))" .
    moreover have "sx_ord env (map fst docs) \<noteq> []" if "trace_hits blk t \<noteq> []"
    proof -
      have "mset (map fst docs) \<noteq> {#}" using that False keys s by (auto simp: trace_hits_def)
      then show ?thesis using ord by (metis mset.simps(1))
    qed
    ultimately show ?thesis using emit_docs(2) [OF emit] by blast
  qed
  then show "mset (map fst out') = mset (map fst out) + mset (map doc_id (trace_hits blk t))" by blast
  show "trace_hits blk t \<noteq> [] \<Longrightarrow> 32 \<le> length (tt_Id (trace_of t))" using goal by blast
qed

lemma prepare_traces_ids:
  assumes "\<forall>xs. mset (sx_ord env xs) = mset xs"
  shows "\<lbrakk>fold_res (prepare_trace env m blk) ts out = Inr out';
    \<forall>t\<in>set ts. distinct (map at_ActionOrdinal (tt_ActionTraces (trace_of t)))\<rbrakk> \<Longrightarrow>
    mset (map fst out') = mset (map fst out) + mset (map doc_id (concat (map (trace_hits blk) ts))) \<and>
    (\<forall>t\<in>set ts. trace_hits blk t \<noteq> [] \<longrightarrow> 32 \<le> length (tt_Id (trace_of t)))"
proof (induction ts arbitrary: out)
  case (Cons t ts)
  then obtain out1 where o1: "prepare_trace env m blk t out = Inr out1" "fold_res (prepare_trace env m blk) ts out1 = Inr out'"
    by (auto simp: res_simps)
  show ?case using Cons.IH [OF o1(2)] Cons.prems(2) prepare_trace_ids [OF o1(1) assms] by auto
qed simp

section \<open>What is indexed is found\<close>

text \<open>The transactions the search can index: their actions have distinct ordinals, at most as many as an index of
  16 bits tells apart, and their identifier has no separator.\<close>

definition indexable :: "TransactionTrace \<Rightarrow> bool" where
  "indexable t \<longleftrightarrow>
     distinct (map at_ActionOrdinal (tt_ActionTraces (trace_of t))) \<and>
     length (tt_ActionTraces (trace_of t)) \<le> 65536 \<and> CHR '':'' \<notin> set (tt_Id (trace_of t))"

lemma trace_hits_bound:
  "h \<in> set (trace_hits blk t) \<Longrightarrow>
   \<exists>i < length (tt_ActionTraces (trace_of t)). h = (Block_Num blk, tt_Id (trace_of t), i)"
  by (auto simp: trace_hits_def matched_actions_def in_set_enumerate_eq split: if_splits)

lemma Block_Num_bound: "unat (Block_Num blk) < 4294967296"
proof -
  have "unat (blk_Number blk) < 4294967296" using unsigned_less [of "blk_Number blk"] by simp
  then show ?thesis by (simp add: Block_Num_def unsigned_ucast_eq take_bit_nat_eq_self)
qed

lemma Search_Map_documents:
  assumes "Search_Map env m blk = Inr (docs, meta, n)" and "\<forall>xs. mset (sx_ord env xs) = mset xs"
    and "\<forall>t\<in>set (TransactionTraces blk). indexable t"
  shows "mset (map fst docs) = mset (map doc_id (block_hits blk))" and "n = length docs" and "\<forall>h\<in>set (block_hits blk). doc_ok h"
proof -
  have run: "fold_res (prepare_trace env m blk) (TransactionTraces blk) [] = Inr docs" and n: "n = length docs"
    using assms(1) by (auto simp: Search_Map_def prepareBatchDocuments_def res_simps)
  have ids: "mset (map fst docs) = mset (map doc_id (block_hits blk))"
    "\<forall>t\<in>set (TransactionTraces blk). trace_hits blk t \<noteq> [] \<longrightarrow> 32 \<le> length (tt_Id (trace_of t))"
    using prepare_traces_ids [OF assms(2) run] assms(3) by (auto simp: indexable_def block_hits_def)
  show "mset (map fst docs) = mset (map doc_id (block_hits blk))" by (fact ids(1))
  show "n = length docs" by (fact n)
  show "\<forall>h\<in>set (block_hits blk). doc_ok h"
  proof
    fix h assume "h \<in> set (block_hits blk)"
    then obtain t where t: "t \<in> set (TransactionTraces blk)" "h \<in> set (trace_hits blk t)" by (auto simp: block_hits_def)
    then have "trace_hits blk t \<noteq> []" by auto
    then show "doc_ok h"
      using trace_hits_bound [OF t(2)] ids(2) t(1) assms(3) Block_Num_bound by (auto simp: doc_ok_def indexable_def)
  qed
qed

lemma doc_id_determines:
  assumes "doc_ok h" and "doc_ok h'" and "doc_id h = doc_id h'"
  shows "trx_prefix h = trx_prefix h' \<and> (of_nat (snd (snd h)) :: u16) = of_nat (snd (snd h'))"
  using assms explode_doc_id [of "fst h" "fst (snd h)" "snd (snd h)"] explode_doc_id [of "fst h'" "fst (snd h')" "snd (snd h')"]
  by (auto simp: trx_prefix_def)

lemma collector_finds:
  assumes ok: "\<forall>h\<in>set hits. doc_ok h" and same: "\<forall>h\<in>set hits. fst h = b" and range: "low \<le> b" "b \<le> high"
  shows "\<exists>out. search_collector low high (map doc_id hits) = Inr out \<and> distinct (map sm_TrxIDPrefix out) \<and>
    (\<forall>s\<in>set out. sm_BlockNumber s = b \<and> sorted (sm_ActionIndexes s)) \<and>
    (\<forall>p i. (\<exists>s\<in>set out. sm_TrxIDPrefix s = p \<and> i \<in> set (sm_ActionIndexes s)) \<longleftrightarrow>
       (\<exists>h\<in>set hits. trx_prefix h = p \<and> i = of_nat (snd (snd h))))"
proof -
  let ?match = "\<lambda>p. \<lparr>sm_TrxIDPrefix = p, sm_ActionIndexes = sort (map (\<lambda>h. of_nat (snd (snd h)) :: u16) (hits_of p hits)),
         sm_BlockNumber = fst (hd (hits_of p hits)), sm_Index = 0\<rparr>"
  let ?out = "map ?match (firsts (map trx_prefix hits))"
  have kept: "filter (in_range low high) hits = hits" using same range by (auto simp: in_range_def filter_id_conv)
  have num: "fst (hd (hits_of p hits)) = b" if "p \<in> trx_prefix ` set hits" for p
  proof -
    have "hits_of p hits \<noteq> []" using that by (force simp: hits_of_def filter_empty_conv)
    then have "hd (hits_of p hits) \<in> set hits" using hd_in_set [of "hits_of p hits"] by (auto simp: hits_of_def)
    then show ?thesis using same by simp
  qed
  have "search_collector low high (map doc_id hits) = Inr ?out" using search_collector_groups [OF ok] kept by (simp add: Let_def)
  moreover have "distinct (map sm_TrxIDPrefix ?out)" by (simp add: o_def)
  moreover have "\<forall>s\<in>set ?out. sm_BlockNumber s = b \<and> sorted (sm_ActionIndexes s)" using num by auto
  moreover have "(\<exists>s\<in>set ?out. sm_TrxIDPrefix s = p \<and> i \<in> set (sm_ActionIndexes s)) \<longleftrightarrow>
       (\<exists>h\<in>set hits. trx_prefix h = p \<and> i = of_nat (snd (snd h)))" for p i
    by (auto simp: hits_of_def)
  ultimately show ?thesis by blast
qed

text \<open>C3: The documents that \<open>Map\<close> gives to the index are those of the matched actions of the executed
  transactions of the block, each under an identifier of its own block, transaction and position. When a query
  of the index returns any of these identifiers, in any order and any number of times, the collector returns,
  for a range with the block in it, one match for every transaction, with the number of the block; the sorted
  indexes of the matches are the positions of the actions whose documents were returned, and no others.\<close>

theorem search_finds_matched_actions:
  assumes "Search_Map env m blk = Inr (docs, meta, n)" and "\<forall>xs. mset (sx_ord env xs) = mset xs"
    and "\<forall>t\<in>set (TransactionTraces blk). indexable t"
    and "set results \<subseteq> set (map fst docs)" and "low \<le> Block_Num blk" and "Block_Num blk \<le> high"
  shows "mset (map fst docs) = mset (map doc_id (block_hits blk)) \<and> n = length (block_hits blk) \<and>
    (\<exists>out. search_collector low high results = Inr out \<and> distinct (map sm_TrxIDPrefix out) \<and>
      (\<forall>s\<in>set out. sm_BlockNumber s = Block_Num blk \<and> sorted (sm_ActionIndexes s)) \<and>
      (\<forall>p i. (\<exists>s\<in>set out. sm_TrxIDPrefix s = p \<and> i \<in> set (sm_ActionIndexes s)) \<longleftrightarrow>
         (\<exists>h\<in>set (block_hits blk). doc_id h \<in> set results \<and> trx_prefix h = p \<and> i = of_nat (snd (snd h)))))"
proof -
  note docs = Search_Map_documents [OF assms(1-3)]
  have "set results \<subseteq> doc_id ` set (block_hits blk)" using assms(4) mset_eq_setD [OF docs(1)] by simp
  then have "\<forall>r\<in>set results. \<exists>h. h \<in> set (block_hits blk) \<and> doc_id h = r" by blast
  from bchoice [OF this] obtain pick where pick: "\<And>r. r \<in> set results \<Longrightarrow> pick r \<in> set (block_hits blk) \<and> doc_id (pick r) = r"
    by blast
  let ?hits = "map pick results"
  have ids: "map doc_id ?hits = results" using pick by (simp add: map_idI)
  have num: "\<forall>h\<in>set (block_hits blk). fst h = Block_Num blk" by (auto simp: block_hits_def dest: trace_hits_bound)
  have ok: "\<forall>h\<in>set ?hits. doc_ok h" "\<forall>h\<in>set ?hits. fst h = Block_Num blk"
    unfolding set_map ball_simps using pick docs(3) num by blast+
  have same: "(\<exists>h\<in>set ?hits. trx_prefix h = p \<and> i = of_nat (snd (snd h))) \<longleftrightarrow>
      (\<exists>h\<in>set (block_hits blk). doc_id h \<in> set results \<and> trx_prefix h = p \<and> i = (of_nat (snd (snd h)) :: u16))" for p i
  proof
    assume "\<exists>h\<in>set (block_hits blk). doc_id h \<in> set results \<and> trx_prefix h = p \<and> i = (of_nat (snd (snd h)) :: u16)"
    then obtain h where h: "h \<in> set (block_hits blk)" "doc_id h \<in> set results" "trx_prefix h = p" "i = of_nat (snd (snd h))" by blast
    then show "\<exists>h\<in>set ?hits. trx_prefix h = p \<and> i = of_nat (snd (snd h))"
      using doc_id_determines [of "pick (doc_id h)" h] pick [OF h(2)] docs(3) by auto
  next
    assume "\<exists>h\<in>set ?hits. trx_prefix h = p \<and> i = of_nat (snd (snd h))"
    then obtain r where r: "r \<in> set results" "trx_prefix (pick r) = p" "i = of_nat (snd (snd (pick r)))" by auto
    then show "\<exists>h\<in>set (block_hits blk). doc_id h \<in> set results \<and> trx_prefix h = p \<and> i = (of_nat (snd (snd h)) :: u16)"
      using pick [OF r(1)] by (intro bexI [of _ "pick r"]) simp_all
  qed
  have "n = length (block_hits blk)" using docs(1,2) by (metis length_map size_mset)
  with docs(1) show ?thesis using collector_finds [OF ok assms(5,6)] by (simp only: ids same)
qed

definition sample_search_env :: "string search_env" where
  "sample_search_env =
     \<lparr>sx_Unmarshal = (\<lambda>s. Some [(''to'', s)]), sx_String = Some, sx_OfString = (\<lambda>s. s), sx_sha256 = (\<lambda>bs. bs),
      sx_nft = (\<lambda>_ v. Some v), sx_GetData = (\<lambda>s _. s), sx_ParseQuery = (\<lambda>s. Some [(s, [])]), sx_sort = sort_key length, sx_ord = rev\<rparr>"

definition sample_search_mapper :: BlockMapper where
  "sample_search_mapper = \<lparr>bm_actionName = ''dfuseiohooks:event'', bm_unrestricted = False,
     bm_indexed = no_terms\<lparr>ix_Account := True, ix_Action := True, ix_Input := True, ix_Data := {''to''}\<rparr>\<rparr>"

definition sample_search_action :: "nat \<Rightarrow> bool \<Rightarrow> ActionTrace" where
  "sample_search_action i matched =
     \<lparr>at_Receiver = ''b'', at_Receipt = None,
      at_Action = \<lparr>act_ref = 0, act_Account = ''b'', act_Name = ''transfer'', act_Authorization = [], act_JsonData = ''bob'', act_RawData = []\<rparr>,
      at_Console = [], at_ActionOrdinal = of_nat (Suc i), at_CreatorActionOrdinal = 0, at_ClosestUnnotifiedAncestorActionOrdinal = 0, at_ExecutionIndex = of_nat i,
      at_FilteringMatched = matched, at_FilteringMatchedSystemActionFilter = False\<rparr>"

definition sample_search_block :: Block where
  "sample_search_block = empty_block\<lparr>blk_Number := 5, blk_FilteringApplied := True, blk_FilteredTransactionTraces :=
     [TransactionTrace (empty_trace_fields\<lparr>tt_Id := replicate 32 CHR ''a'', tt_Receipt := Some \<lparr>trh_Status = TRANSACTIONSTATUS_EXECUTED,
         trh_CpuUsageMicroSeconds = 0, trh_NetUsageWords = 0\<rparr>,
         tt_ActionTraces := [sample_search_action 0 True, sample_search_action 1 False, sample_search_action 2 True]\<rparr>) None]\<rparr>"

lemma sample_search_documents:
  "map_sum (\<lambda>e. e) (\<lambda>(docs, meta, n). map fst docs) (Search_Map sample_search_env sample_search_mapper sample_search_block) =
     Inr [''0000000000000005:aaaaaaaaaaaaaaaaaaaaaaaaaaaaaaaa:0002'', ''0000000000000005:aaaaaaaaaaaaaaaaaaaaaaaaaaaaaaaa:0000'']"
  by code_simp

lemma sample_search_hits: "block_hits sample_search_block = [(5, replicate 32 CHR ''a'', 0), (5, replicate 32 CHR ''a'', 2)]"
  by code_simp

lemma sample_search_indexable: "list_all indexable (TransactionTraces sample_search_block)"
  by code_simp

theorem search_finds_matched_actions_witness:
  "\<exists>out. search_collector 0 9 [''0000000000000005:aaaaaaaaaaaaaaaaaaaaaaaaaaaaaaaa:0002''] = Inr out \<and>
     distinct (map sm_TrxIDPrefix out) \<and> (\<forall>s\<in>set out. sm_BlockNumber s = 5) \<and>
     (\<forall>p i. (\<exists>s\<in>set out. sm_TrxIDPrefix s = p \<and> i \<in> set (sm_ActionIndexes s)) \<longleftrightarrow> p = replicate 32 CHR ''a'' \<and> i = 2)"
proof -
  let ?id = "''0000000000000005:aaaaaaaaaaaaaaaaaaaaaaaaaaaaaaaa:0002''"
  obtain docs meta n where m: "Search_Map sample_search_env sample_search_mapper sample_search_block = Inr (docs, meta, n)"
      "?id \<in> set (map fst docs)"
    using sample_search_documents by (cases "Search_Map sample_search_env sample_search_mapper sample_search_block") auto
  have num: "Block_Num sample_search_block = 5" by code_simp
  have ids: "doc_id (5, replicate 32 CHR ''a'', 2) = ?id" "doc_id (5, replicate 32 CHR ''a'', 0) \<noteq> ?id" by code_simp+
  have prefix: "trx_prefix (5, replicate 32 CHR ''a'', 2) = replicate 32 CHR ''a''" by code_simp
  have "\<forall>t\<in>set (TransactionTraces sample_search_block). indexable t"
    using sample_search_indexable by (simp add: list_all_iff)
  from search_finds_matched_actions [OF m(1) _ this, of "[?id]" 0 9] m(2) show ?thesis
    by (auto simp: num sample_search_hits ids prefix sample_search_env_def)
qed

end
