(* ===== verification/EoswsMdl.thy ===== *)
theory EoswsMdl
  imports EosToProto MergeEvents GoFormat
begin

text \<open>
  \<open>eosws/mdl/transaction.go\<close> and \<open>eosws/mdl/dbop.go\<close> with the conversions of \<open>codec/eos_to_proto.go\<close> they call:
  the lifecycle of a transaction in the shape of the version 1 of the API. The actions of a trace become a
  forest again, built by appending to the parents on a stack; an action is named by its position in the order of
  execution, and the forest is its roots and the children of every action. Marshalling of JSON and the parsing of
  keys and signatures are fields of the record \<open>mdl_env\<close>; exceptions, times, sequences and RAM deltas are copied
  only and left out.
\<close>

section \<open>Environment\<close>

record mdl_env =
  mx_MarshalTrx :: "SignedTransaction \<Rightarrow> string option"
  mx_MarshalTrace :: "ActionTrace \<Rightarrow> string option"
  mx_SetInline :: "string \<Rightarrow> string \<Rightarrow> string option"
  mx_NewSignature :: "string \<Rightarrow> string option"
  mx_NewPublicKey :: "string \<Rightarrow> string"
  mx_JsonOk :: "string \<Rightarrow> bool"
  mx_sortTraces :: "(ActionTrace \<Rightarrow> ActionTrace \<Rightarrow> bool) \<Rightarrow> ActionTrace list \<Rightarrow> ActionTrace list"

datatype mdl_error = MdPanic | MdMarshal

section \<open>Conversions\<close>

definition ActionToEOS :: "mdl_env \<Rightarrow> Action \<Rightarrow> mdl_error + Action" where
  "ActionToEOS env action =
     (if act_JsonData action \<noteq> '''' \<and> \<not> mx_JsonOk env (act_JsonData action) then Inl MdPanic else Inr action)"

definition TransactionToEOS :: "mdl_env \<Rightarrow> Transaction \<Rightarrow> mdl_error + Transaction" where
  "TransactionToEOS env trx =
     bind_res (map_res (ActionToEOS env) (tx_ContextFreeActions trx)) (\<lambda>contextFreeActions.
     bind_res (map_res (ActionToEOS env) (tx_Actions trx)) (\<lambda>actions.
       Inr \<lparr>tx_ContextFreeActions = contextFreeActions, tx_Actions = actions\<rparr>))"

definition SignaturesToEOS :: "mdl_env \<Rightarrow> string list \<Rightarrow> mdl_error + string list" where
  "SignaturesToEOS env signatures = map_res (\<lambda>s. from_opt MdPanic (mx_NewSignature env s)) signatures"

text \<open>The transaction is dereferenced without a test.\<close>

definition SignedTransactionToEOS :: "mdl_env \<Rightarrow> SignedTransaction option \<Rightarrow> mdl_error + SignedTransaction" where
  "SignedTransactionToEOS env trx =
     bind_res (from_opt MdPanic trx) (\<lambda>t.
     bind_res (TransactionToEOS env (st_Transaction t)) (\<lambda>transaction.
     bind_res (SignaturesToEOS env (st_Signatures t)) (\<lambda>signatures.
       Inr \<lparr>st_Transaction = transaction, st_Signatures = signatures\<rparr>)))"

definition PublicKeysToEOS :: "mdl_env \<Rightarrow> string list \<Rightarrow> string list" where
  "PublicKeysToEOS env keys = map (mx_NewPublicKey env) keys"

definition TransactionStatusToEOS :: "TransactionStatus \<Rightarrow> eosTransactionStatus" where
  "TransactionStatusToEOS status =
     (case status of
        TRANSACTIONSTATUS_EXECUTED \<Rightarrow> EosExecuted
      | TRANSACTIONSTATUS_SOFTFAIL \<Rightarrow> EosSoftFail
      | TRANSACTIONSTATUS_HARDFAIL \<Rightarrow> EosHardFail
      | TRANSACTIONSTATUS_DELAYED \<Rightarrow> EosDelayed
      | TRANSACTIONSTATUS_EXPIRED \<Rightarrow> EosExpired
      | _ \<Rightarrow> EosUnknownStatus)"

definition TransactionReceiptHeaderToEOS :: "TransactionReceiptHeader \<Rightarrow> eosTransactionReceiptHeader" where
  "TransactionReceiptHeaderToEOS r =
     \<lparr>eth_Status = TransactionStatusToEOS (trh_Status r), eth_CPUUsageMicroSeconds = trh_CpuUsageMicroSeconds r,
      eth_NetUsageWords = trh_NetUsageWords r\<rparr>"

lemma TransactionReceiptHeaderToEOS_round_trip: "TransactionReceiptHeaderToEOS (TransactionReceiptHeaderToDEOS r) = r"
  by (cases "eth_Status r")
    (simp_all add: TransactionReceiptHeaderToEOS_def TransactionReceiptHeaderToDEOS_def TransactionStatusToEOS_def TransactionStatusToDEOS_def)

section \<open>Operations\<close>

definition lower_char :: "char \<Rightarrow> char" where
  "lower_char c = (let n = (of_char c :: nat) in if 65 \<le> n \<and> n \<le> 90 then char_of (n + 32) else c)"

definition ToLower :: "string \<Rightarrow> string" where
  "ToLower s = map lower_char s"

definition TrimPrefix :: "string \<Rightarrow> string \<Rightarrow> string" where
  "TrimPrefix s p = (if HasPrefix s p then drop (length p) s else s)"

text \<open>The name of a value of an enumeration, and the number of a value that has none.\<close>

definition enum_name :: "(string \<times> int) list \<Rightarrow> int \<Rightarrow> string" where
  "enum_name values n =
     (case find (\<lambda>(name, k). k = n) values of
        Some (name, _) \<Rightarrow> name
      | None \<Rightarrow> (if n < 0 then CHR ''-'' # format_nat (nat (- n)) else format_nat (nat n)))"

definition DTrxOp_Operation_String :: "DTrxOp_Operation \<Rightarrow> string" where
  "DTrxOp_Operation_String operation =
     (case find (\<lambda>(name, k). k = operation) DTrxOp_Operation_value of Some (name, _) \<Rightarrow> name | None \<Rightarrow> [])"

text \<open>All the names begin with the prefix, so the first occurrence is the prefix.\<close>

definition DTrxOp_LegacyOperation :: "DTrxOp \<Rightarrow> string" where
  "DTrxOp_LegacyOperation op = TrimPrefix (DTrxOp_Operation_String (dtrx_Operation op)) ''OPERATION_''"

definition RAMOp_LegacyOperation :: "RAMOp \<Rightarrow> mdl_error + string" where
  "RAMOp_LegacyOperation op =
     (case SplitN 2 CHR ''_'' (enum_name RAMOp_Operation_value (ram_Operation op)) of
        _ # part # _ \<Rightarrow> Inr (ToLower part)
      | _ \<Rightarrow> Inl MdPanic)"

record v1_DBRow =
  row_Payer :: string
  row_Hex :: string

record v1_DBOp =
  v1db_Op :: string
  v1db_ActionIndex :: u32
  v1db_Account :: string
  v1db_Table :: string
  v1db_Scope :: string
  v1db_Key :: string
  v1db_New :: v1_DBRow
  v1db_Old :: v1_DBRow

definition ToV1DBRow :: "bytes \<Rightarrow> string \<Rightarrow> v1_DBRow" where
  "ToV1DBRow data payer = \<lparr>row_Payer = payer, row_Hex = hex_EncodeToString data\<rparr>"

definition ToV1DBOp :: "DBOp \<Rightarrow> v1_DBOp" where
  "ToV1DBOp op =
     \<lparr>v1db_Op = DBOp_LegacyOperation op, v1db_ActionIndex = db_ActionIndex op, v1db_Account = db_Code op,
      v1db_Table = db_TableName op, v1db_Scope = db_Scope op, v1db_Key = db_PrimaryKey op,
      v1db_New = ToV1DBRow (db_NewData op) (db_NewPayer op), v1db_Old = ToV1DBRow (db_OldData op) (db_OldPayer op)\<rparr>"

definition ToV1DBOps :: "DBOp list \<Rightarrow> v1_DBOp list" where
  "ToV1DBOps ops = map ToV1DBOp ops"

record v1_TableOp =
  v1tbl_Operation :: string
  v1tbl_ActionIndex :: u32
  v1tbl_Payer :: string
  v1tbl_Path :: string

definition ToV1TableOps :: "TableOp list \<Rightarrow> v1_TableOp list" where
  "ToV1TableOps ops =
     map (\<lambda>i. \<lparr>v1tbl_Operation = TableOp_LegacyOperation i, v1tbl_ActionIndex = tbl_ActionIndex i,
       v1tbl_Payer = tbl_Payer i, v1tbl_Path = TableOp_Path i\<rparr>) ops"

definition ToV1CreationTree :: "CreationFlatNodePb list \<Rightarrow> (nat \<times> int \<times> u32) list" where
  "ToV1CreationTree tree =
     map (\<lambda>(idx, node). (idx, sint (CreatorActionIndex node), ExecutionActionIndex node)) (enumerate 0 tree)"

record v1_RAMOp =
  v1ram_Operation :: string
  v1ram_Family :: string
  v1ram_Action :: string
  v1ram_ActionIndex :: u32
  v1ram_Payer :: string
  v1ram_Delta :: int
  v1ram_Usage :: u64

definition namespaceToFamily :: "RAMOp_Namespace \<Rightarrow> string" where
  "namespaceToFamily ns = ToLower (TrimPrefix (enum_name RAMOp_Namespace_value ns) ''NAMESPACE_'')"

definition ToV1RAMOp :: "RAMOp \<Rightarrow> mdl_error + v1_RAMOp" where
  "ToV1RAMOp op =
     bind_res (RAMOp_LegacyOperation op) (\<lambda>operation.
       Inr \<lparr>v1ram_Operation = operation, v1ram_Family = namespaceToFamily (ram_Namespace op),
            v1ram_Action = ToLower (TrimPrefix (enum_name RAMOp_Action_value (ram_Action op)) ''ACTION_''),
            v1ram_ActionIndex = ram_ActionIndex op, v1ram_Payer = ram_Payer op, v1ram_Delta = ram_Delta op, v1ram_Usage = ram_Usage op\<rparr>)"

definition ToV1RAMOps :: "RAMOp list \<Rightarrow> mdl_error + v1_RAMOp list" where
  "ToV1RAMOps ops = map_res ToV1RAMOp ops"

record v1_DTrxOp =
  v1dt_Operation :: string
  v1dt_ActionIndex :: u32
  v1dt_Sender :: string
  v1dt_SenderID :: string
  v1dt_Payer :: string
  v1dt_PublishedAt :: string
  v1dt_DelayUntil :: string
  v1dt_ExpirationAt :: string
  v1dt_TrxID :: string
  v1dt_Trx :: string

definition ToV1DTrxOp :: "mdl_env \<Rightarrow> DTrxOp \<Rightarrow> mdl_error + v1_DTrxOp" where
  "ToV1DTrxOp env op =
     bind_res (SignedTransactionToEOS env (dtrx_Transaction op)) (\<lambda>trx.
     bind_res (from_opt MdMarshal (mx_MarshalTrx env trx)) (\<lambda>rawTrx.
       Inr \<lparr>v1dt_Operation = DTrxOp_LegacyOperation op, v1dt_ActionIndex = dtrx_ActionIndex op, v1dt_Sender = dtrx_Sender op,
            v1dt_SenderID = dtrx_SenderId op, v1dt_Payer = dtrx_Payer op, v1dt_PublishedAt = dtrx_PublishedAt op,
            v1dt_DelayUntil = dtrx_DelayUntil op, v1dt_ExpirationAt = dtrx_ExpirationAt op,
            v1dt_TrxID = dtrx_TransactionId op, v1dt_Trx = rawTrx\<rparr>))"

definition ToV1DTrxOps :: "mdl_env \<Rightarrow> DTrxOp list \<Rightarrow> mdl_error + v1_DTrxOp list" where
  "ToV1DTrxOps env ops = map_res (ToV1DTrxOp env) ops"

record v1_ExtDTrxOp =
  v1ext_SourceTransactionID :: string
  v1ext_BlockNum :: u32
  v1ext_BlockID :: string
  v1ext_DTrxOp :: v1_DTrxOp

definition ToV1ExtDTrxOp :: "mdl_env \<Rightarrow> ExtDTrxOp option \<Rightarrow> mdl_error + v1_ExtDTrxOp option" where
  "ToV1ExtDTrxOp env ext =
     (case ext of
        None \<Rightarrow> Inr None
      | Some e \<Rightarrow>
          bind_res (ToV1DTrxOp env (ext_DtrxOp e)) (\<lambda>op.
            Inr (Some \<lparr>v1ext_SourceTransactionID = ext_SourceTransactionId e, v1ext_BlockNum = ucast (ext_BlockNum e),
                       v1ext_BlockID = ext_BlockId e, v1ext_DTrxOp = op\<rparr>)))"

section \<open>Action traces\<close>

definition executionOrdinal :: "ActionTrace \<Rightarrow> u64" where
  "executionOrdinal act =
     (case at_Receipt act of
        None \<Rightarrow> - 1
      | Some r \<Rightarrow> if rcpt_GlobalSequence r = 0 then - 1 else rcpt_GlobalSequence r)"

definition ToV1ActionTrace :: "mdl_env \<Rightarrow> ActionTrace \<Rightarrow> mdl_error + ActionTrace" where
  "ToV1ActionTrace env act = bind_res (ActionToEOS env (at_Action act)) (\<lambda>action. Inr (act\<lparr>at_Action := action\<rparr>))"

record v1_forest =
  vf_roots :: "nat list"
  vf_inline :: "(nat \<times> nat) list"
  vf_stack :: "nat list"
  vf_last :: "(nat \<times> u32) option"

definition new_forest :: v1_forest where
  "new_forest = \<lparr>vf_roots = [], vf_inline = [], vf_stack = [], vf_last = None\<rparr>"

definition MustPop :: "nat list \<Rightarrow> mdl_error + nat list" where
  "MustPop stack = (case stack of [] \<Rightarrow> Inl MdPanic | _ # rest \<Rightarrow> Inr rest)"

definition MustPeek :: "nat list \<Rightarrow> mdl_error + nat" where
  "MustPeek stack = (case stack of [] \<Rightarrow> Inl MdPanic | p # _ \<Rightarrow> Inr p)"

definition add_trace :: "nat \<times> ActionTrace \<Rightarrow> v1_forest \<Rightarrow> mdl_error + v1_forest" where
  "add_trace ia f =
     (case ia of (i, act) \<Rightarrow>
        let cuaOrdinal = at_ClosestUnnotifiedAncestorActionOrdinal act
        in if cuaOrdinal = 0
           then Inr (f\<lparr>vf_roots := vf_roots f @ [i], vf_stack := i # vf_stack f, vf_last := Some (i, cuaOrdinal)\<rparr>)
           else case vf_last f of
                  None \<Rightarrow> Inl MdPanic
                | Some (lastTrace, lastCUAOrdinal) \<Rightarrow>
                    let stack1 = (if cuaOrdinal > lastCUAOrdinal then lastTrace # vf_stack f else vf_stack f)
                    in bind_res (if cuaOrdinal < lastCUAOrdinal then MustPop stack1 else Inr stack1) (\<lambda>stack2.
                       bind_res (MustPeek stack2) (\<lambda>parentTrace.
                         Inr (f\<lparr>vf_inline := vf_inline f @ [(parentTrace, i)], vf_stack := stack2, vf_last := Some (i, cuaOrdinal)\<rparr>))))"

record v1_ActionTraces =
  va_traces :: "ActionTrace list"
  va_roots :: "nat list"
  va_inline :: "(nat \<times> nat) list"

definition InlineTraces :: "v1_ActionTraces \<Rightarrow> nat \<Rightarrow> nat list" where
  "InlineTraces v p = map snd (filter (\<lambda>(parent, i). parent = p) (va_inline v))"

definition ToV1ActionTraces :: "mdl_env \<Rightarrow> ActionTrace list \<Rightarrow> mdl_error + v1_ActionTraces" where
  "ToV1ActionTraces env acts =
     (let inByExecutionOrder = mx_sortTraces env (\<lambda>a b. executionOrdinal a < executionOrdinal b) acts
      in bind_res (map_res (ToV1ActionTrace env) inByExecutionOrder) (\<lambda>traces.
         bind_res (fold_res add_trace (enumerate 0 inByExecutionOrder) new_forest) (\<lambda>f.
           Inr \<lparr>va_traces = traces, va_roots = vf_roots f, va_inline = vf_inline f\<rparr>)))"

text \<open>The raw JSON of an action with its inline traces follows the list of the actions: the children are the
  actions after the parent up to the first one that is not a child. The recursion is on fuel; \<open>None\<close> is its end.\<close>

definition potential_children :: "ActionTrace \<Rightarrow> ActionTrace list \<Rightarrow> ActionTrace list" where
  "potential_children parent actions =
     takeWhile (\<lambda>child. at_ClosestUnnotifiedAncestorActionOrdinal child = at_ActionOrdinal parent)
       (drop (unat (at_ExecutionIndex parent + 1)) actions)"

definition set_inline :: "mdl_env \<Rightarrow> ActionTrace \<Rightarrow> string list \<Rightarrow> mdl_error + string" where
  "set_inline env parent rawChildren =
     bind_res (ActionToEOS env (at_Action parent)) (\<lambda>_.
     bind_res (from_opt MdMarshal (mx_MarshalTrace env parent)) (\<lambda>rawTrace.
       from_opt MdMarshal (mx_SetInline env rawTrace (''['' @ Join CHR '','' rawChildren @ '']''))))"

fun ToV1ActionTraceRaw :: "nat \<Rightarrow> mdl_env \<Rightarrow> ActionTrace \<Rightarrow> ActionTrace list \<Rightarrow> bool \<Rightarrow> (mdl_error + string) option" where
  "ToV1ActionTraceRaw 0 env parent actions withInlines = None"
| "ToV1ActionTraceRaw (Suc fuel) env parent actions withInlines =
     (if length actions < unat (at_ExecutionIndex parent + 1) then Some (Inl MdPanic)
      else if withInlines
      then map_option (\<lambda>raws. bind_res (map_res (\<lambda>r. r) raws) (set_inline env parent))
             (those (map (\<lambda>child. ToV1ActionTraceRaw fuel env child actions True) (potential_children parent actions)))
      else Some (set_inline env parent []))"

section \<open>Traces and lifecycles\<close>

record v1_trace_fields =
  v1tt_ID :: string
  v1tt_BlockNum :: u32
  v1tt_ProducerBlockID :: string
  v1tt_Scheduled :: bool
  v1tt_ActionTraces :: v1_ActionTraces
  v1tt_Receipt :: "eosTransactionReceiptHeader option"

datatype v1_TransactionTrace = V1TransactionTrace (v1_trace_of: v1_trace_fields) (v1_FailedDTrxTrace: "v1_TransactionTrace option")

fun ToV1TransactionTrace :: "mdl_env \<Rightarrow> TransactionTrace \<Rightarrow> mdl_error + v1_TransactionTrace" where
  "ToV1TransactionTrace env (TransactionTrace t failed) =
     bind_res (ToV1ActionTraces env (tt_ActionTraces t)) (\<lambda>actionTraces.
     bind_res (case failed of
                 None \<Rightarrow> Inr None
               | Some f \<Rightarrow> bind_res (ToV1TransactionTrace env f) (\<lambda>f'. Inr (Some f'))) (\<lambda>failedTrace.
       Inr (V1TransactionTrace
         \<lparr>v1tt_ID = tt_Id t, v1tt_BlockNum = ucast (tt_BlockNum t), v1tt_ProducerBlockID = tt_ProducerBlockId t,
          v1tt_Scheduled = tt_Scheduled t, v1tt_ActionTraces = actionTraces, v1tt_Receipt = map_option TransactionReceiptHeaderToEOS (tt_Receipt t)\<rparr> failedTrace)))"

record v1_TransactionLifecycle =
  v1_TransactionStatus :: eosTransactionStatus
  v1_ID :: string
  v1_Transaction :: "SignedTransaction option"
  v1_PubKeys :: "string list"
  v1_CreatedBy :: "v1_ExtDTrxOp option"
  v1_CanceledBy :: "v1_ExtDTrxOp option"
  v1_ExecutionIrreversible :: bool
  v1_DTrxCreationIrreversible :: bool
  v1_DTrxCancelationIrreversible :: bool
  v1_ExecutionTrace :: "v1_TransactionTrace option"
  v1_DBOps :: "v1_DBOp list"
  v1_RAMOps :: "v1_RAMOp list"
  v1_TableOps :: "v1_TableOp list"
  v1_DTrxOps :: "v1_DTrxOp list"
  v1_CreationTree :: "(nat \<times> int \<times> u32) list"

definition with_execution :: "mdl_env \<Rightarrow> TransactionTrace \<Rightarrow> v1_TransactionLifecycle \<Rightarrow> mdl_error + v1_TransactionLifecycle" where
  "with_execution env trace out =
     (let t = trace_of trace
      in bind_res (ToV1TransactionTrace env trace) (\<lambda>executionTrace.
         bind_res (ToV1RAMOps (tt_RamOps t)) (\<lambda>ramOps.
         bind_res (ToV1DTrxOps env (tt_DtrxOps t)) (\<lambda>dtrxOps.
           Inr (out\<lparr>v1_ExecutionTrace := Some executionTrace, v1_DBOps := ToV1DBOps (tt_DbOps t), v1_RAMOps := ramOps,
                    v1_TableOps := ToV1TableOps (tt_TableOps t), v1_DTrxOps := dtrxOps,
                    v1_CreationTree := ToV1CreationTree (tt_CreationTree t)\<rparr>)))))"

definition ToV1TransactionLifecycle :: "mdl_env \<Rightarrow> TransactionLifecycle \<Rightarrow> mdl_error + v1_TransactionLifecycle" where
  "ToV1TransactionLifecycle env lc =
     bind_res (ToV1ExtDTrxOp env (lc_CreatedBy lc)) (\<lambda>createdBy.
     bind_res (ToV1ExtDTrxOp env (lc_CanceledBy lc)) (\<lambda>canceledBy.
     bind_res (case lc_Transaction lc of
                 None \<Rightarrow> Inr None
               | t \<Rightarrow> bind_res (SignedTransactionToEOS env t) (\<lambda>t'. Inr (Some t'))) (\<lambda>eosSignedTransaction.
       let out = \<lparr>v1_TransactionStatus = TransactionStatusToEOS (lc_TransactionStatus lc), v1_ID = lc_Id lc,
             v1_Transaction = eosSignedTransaction, v1_PubKeys = PublicKeysToEOS env (lc_PublicKeys lc),
             v1_CreatedBy = createdBy, v1_CanceledBy = canceledBy,
             v1_ExecutionIrreversible = lc_ExecutionIrreversible lc,
             v1_DTrxCreationIrreversible = lc_CreationIrreversible lc,
             v1_DTrxCancelationIrreversible = lc_CancelationIrreversible lc,
             v1_ExecutionTrace = None, v1_DBOps = [], v1_RAMOps = [], v1_TableOps = [], v1_DTrxOps = [], v1_CreationTree = []\<rparr>
       in case lc_ExecutionTrace lc of None \<Rightarrow> Inr out | Some t \<Rightarrow> with_execution env t out)))"

section \<open>The forest\<close>

abbreviation "cua \<equiv> at_ClosestUnnotifiedAncestorActionOrdinal"

text \<open>Actions in the order of their execution, each a root, a child of the action before it, a sibling of it, or a
  sibling of its parent: the returns to an earlier level are of one level.\<close>

definition single_returns :: "ActionTrace list \<Rightarrow> bool" where
  "single_returns acts \<longleftrightarrow>
     distinct (map at_ActionOrdinal acts) \<and>
     (\<forall>i<length acts. cua (acts ! i) < at_ActionOrdinal (acts ! i)) \<and>
     (\<forall>i<length acts. cua (acts ! i) \<noteq> 0 \<longrightarrow> 0 < i \<and>
        (cua (acts ! i) = at_ActionOrdinal (acts ! (i - 1)) \<or> cua (acts ! i) = cua (acts ! (i - 1)) \<or>
         (\<exists>j<i. at_ActionOrdinal (acts ! j) = cua (acts ! (i - 1)) \<and> cua (acts ! i) = cua (acts ! j))))"

text \<open>The stack below an action: its parent, and the stack below the parent.\<close>

inductive ancestors :: "ActionTrace list \<Rightarrow> nat \<Rightarrow> nat list \<Rightarrow> bool" for acts where
  root: "cua (acts ! l) = 0 \<Longrightarrow> ancestors acts l (l # rest)"
| child: "\<lbrakk>cua (acts ! l) \<noteq> 0; p < l; at_ActionOrdinal (acts ! p) = cua (acts ! l); ancestors acts p rest\<rbrakk> \<Longrightarrow> ancestors acts l (p # rest)"

inductive_cases ancestors_cases: "ancestors acts l stack"

definition forest_inv :: "ActionTrace list \<Rightarrow> nat \<Rightarrow> v1_forest \<Rightarrow> bool" where
  "forest_inv acts n f \<longleftrightarrow>
     vf_roots f = filter (\<lambda>i. cua (acts ! i) = 0) [0..<n] \<and>
     map snd (vf_inline f) = filter (\<lambda>i. cua (acts ! i) \<noteq> 0) [0..<n] \<and>
     (\<forall>(p, i)\<in>set (vf_inline f). p < i \<and> at_ActionOrdinal (acts ! p) = cua (acts ! i)) \<and>
     (case vf_last f of None \<Rightarrow> n = 0 | Some (l, c) \<Rightarrow> n = Suc l \<and> c = cua (acts ! l) \<and> ancestors acts l (vf_stack f))"

lemma ancestors_top:
  assumes "ancestors acts l stack" and "cua (acts ! l) \<noteq> 0"
  obtains p rest where "stack = p # rest" "p < l" "at_ActionOrdinal (acts ! p) = cua (acts ! l)" "ancestors acts p rest"
  using assms by (auto elim: ancestors_cases)

lemma add_trace_forest:
  assumes acts: "single_returns acts" and n: "n < length acts" and inv: "forest_inv acts n f"
  shows "\<exists>f'. add_trace (n, acts ! n) f = Inr f' \<and> forest_inv acts (Suc n) f'"
proof (cases "cua (acts ! n) = 0")
  case True
  then show ?thesis using inv by (auto simp: add_trace_def forest_inv_def intro: ancestors.root)
next
  case False
  let ?c = "cua (acts ! n)"
  have n0: "0 < n" using acts n False by (auto simp: single_returns_def)
  then obtain l where l: "vf_last f = Some (l, cua (acts ! l))" "n = Suc l" and anc: "ancestors acts l (vf_stack f)"
    using inv by (auto simp: forest_inv_def split: option.splits)
  have less: "cua (acts ! l) < at_ActionOrdinal (acts ! l)" using acts n l by (auto simp: single_returns_def)
  have inline: "forest_inv acts (Suc n) (f\<lparr>vf_inline := vf_inline f @ [(p, n)], vf_stack := p # rest, vf_last := Some (n, ?c)\<rparr>)"
    if "p < n" "at_ActionOrdinal (acts ! p) = ?c" "ancestors acts p rest" for p rest
    using inv that False ancestors.child [OF False that] by (auto simp: forest_inv_def)
  consider "?c = at_ActionOrdinal (acts ! l)" | "?c = cua (acts ! l)"
    | j where "j < n" "at_ActionOrdinal (acts ! j) = cua (acts ! l)" "?c = cua (acts ! j)"
    using acts n False l by (auto simp: single_returns_def)
  then show ?thesis
  proof cases
    case 1
    then show ?thesis using inline [of l "vf_stack f"] anc False l less order.asym [OF less] by (auto simp: add_trace_def MustPeek_def Let_def)
  next
    case 2
    then obtain p rest where s: "vf_stack f = p # rest" "p < l" "at_ActionOrdinal (acts ! p) = ?c" "ancestors acts p rest"
      using ancestors_top [OF anc] False by metis
    then show ?thesis using inline [of p rest] False l 2 by (auto simp: add_trace_def MustPeek_def Let_def)
  next
    case 3
    have "cua (acts ! j) < at_ActionOrdinal (acts ! j)" using acts 3(1) n by (simp add: single_returns_def)
    then have lt: "?c < cua (acts ! l)" using 3 by simp
    then have "cua (acts ! l) \<noteq> 0" by (metis word_not_simps(1))
    then obtain q rest where q: "vf_stack f = q # rest" "q < l" "at_ActionOrdinal (acts ! q) = cua (acts ! l)" "ancestors acts q rest"
      using ancestors_top [OF anc] by metis
    have "q = j"
      using nth_eq_iff_index_eq [of "map at_ActionOrdinal acts" q j] acts q(2,3) 3(1,2) l(2) n by (simp add: single_returns_def)
    then obtain p rest' where p: "rest = p # rest'" "p < q" "at_ActionOrdinal (acts ! p) = ?c" "ancestors acts p rest'"
      using ancestors_top [OF q(4)] False 3(3) by metis
    then show ?thesis using inline [of p rest'] q False l lt order.asym [OF lt] by (auto simp: add_trace_def MustPeek_def MustPop_def Let_def)
  qed
qed

lemma add_traces_forest:
  assumes "single_returns acts" and "n \<le> length acts"
  shows "\<exists>f. fold_res add_trace (enumerate 0 (take n acts)) new_forest = Inr f \<and> forest_inv acts n f"
  using assms(2)
proof (induction n)
  case 0
  then show ?case by (simp add: forest_inv_def new_forest_def)
next
  case (Suc n)
  then obtain f where f: "fold_res add_trace (enumerate 0 (take n acts)) new_forest = Inr f" "forest_inv acts n f" by auto
  have "enumerate 0 (take (Suc n) acts) = enumerate 0 (take n acts) @ [(n, acts ! n)]"
    using Suc.prems by (simp add: take_Suc_conv_app_nth enumerate_append_eq min_def)
  then show ?case using add_trace_forest [OF assms(1) _ f(2)] Suc.prems f(1) by (auto simp: fold_res_append)
qed

text \<open>C25: The inline traces of a transaction. When the actions come in the order of a depth-first execution whose
  returns are of one level, the conversion succeeds, the top-level actions are the actions without an ancestor in
  the order of execution, and every other action is an inline trace of exactly one action, an earlier one whose
  ordinal is the ancestor it names; inline traces are in the order of execution.\<close>

theorem inline_traces_forest:
  assumes "single_returns (mx_sortTraces env (\<lambda>a b. executionOrdinal a < executionOrdinal b) acts)"
    and "\<forall>a\<in>set (mx_sortTraces env (\<lambda>a b. executionOrdinal a < executionOrdinal b) acts).
      act_JsonData (at_Action a) = [] \<or> mx_JsonOk env (act_JsonData (at_Action a))"
  shows "\<exists>v. ToV1ActionTraces env acts = Inr v \<and>
    va_traces v = mx_sortTraces env (\<lambda>a b. executionOrdinal a < executionOrdinal b) acts \<and>
    va_roots v = filter (\<lambda>i. cua (va_traces v ! i) = 0) [0..<length (va_traces v)] \<and>
    map snd (va_inline v) = filter (\<lambda>i. cua (va_traces v ! i) \<noteq> 0) [0..<length (va_traces v)] \<and>
    (\<forall>p i. i \<in> set (InlineTraces v p) \<longrightarrow> p < i \<and> at_ActionOrdinal (va_traces v ! p) = cua (va_traces v ! i)) \<and>
    (\<forall>p. sorted_wrt (<) (InlineTraces v p))"
proof -
  let ?order = "mx_sortTraces env (\<lambda>a b. executionOrdinal a < executionOrdinal b) acts"
  obtain f where f: "fold_res add_trace (enumerate 0 ?order) new_forest = Inr f" "forest_inv ?order (length ?order) f"
    using add_traces_forest [OF assms(1), of "length ?order"] by auto
  have "map_res (ToV1ActionTrace env) xs = Inr xs"
    if "\<forall>a\<in>set xs. act_JsonData (at_Action a) = [] \<or> mx_JsonOk env (act_JsonData (at_Action a))" for xs
    using that by (induction xs) (auto simp: ToV1ActionTrace_def ActionToEOS_def)
  then have run: "ToV1ActionTraces env acts = Inr \<lparr>va_traces = ?order, va_roots = vf_roots f, va_inline = vf_inline f\<rparr>" (is "_ = Inr ?v")
    using assms(2) f(1) by (simp add: ToV1ActionTraces_def Let_def)
  have "i \<in> set (InlineTraces ?v p) \<Longrightarrow> p < i \<and> at_ActionOrdinal (?order ! p) = cua (?order ! i)" for p i
    using f(2) by (auto simp: InlineTraces_def forest_inv_def)
  moreover have "sorted_wrt (<) (map snd (filter P (vf_inline f)))" for P
  proof -
    have "sorted_wrt (<) (map snd (vf_inline f))"
      using f(2) by (simp add: forest_inv_def sorted_wrt_filter)
    then show ?thesis by (simp add: sorted_wrt_map sorted_wrt_filter)
  qed
  ultimately show ?thesis using run f(2) by (auto simp: forest_inv_def InlineTraces_def)
qed

definition sample_mdl_env :: mdl_env where
  "sample_mdl_env =
     \<lparr>mx_MarshalTrx = (\<lambda>t. Some (concat (st_Signatures t))), mx_MarshalTrace = (\<lambda>a. Some (act_Name (at_Action a))),
      mx_SetInline = (\<lambda>raw inline. Some (raw @ inline)), mx_NewSignature = Some, mx_NewPublicKey = (\<lambda>k. k),
      mx_JsonOk = (\<lambda>j. True), mx_sortTraces = (\<lambda>less acts. foldr (insert_less less) acts [])\<rparr>"

definition sample_inline :: "char \<Rightarrow> u32 \<Rightarrow> u32 \<Rightarrow> u32 \<Rightarrow> ActionTrace" where
  "sample_inline name position ordinal ancestor =
     \<lparr>at_Receiver = [], at_Receipt = Some \<lparr>rcpt_Receiver = [], rcpt_GlobalSequence = ucast position + 1, rcpt_RecvSequence = 0\<rparr>,
      at_Action = \<lparr>act_ref = 0, act_Account = ''b'', act_Name = [name], act_Authorization = [], act_JsonData = ''x'', act_RawData = []\<rparr>,
      at_Console = [], at_ActionOrdinal = ordinal, at_CreatorActionOrdinal = 0, at_ClosestUnnotifiedAncestorActionOrdinal = ancestor,
      at_ExecutionIndex = position, at_FilteringMatched = False, at_FilteringMatchedSystemActionFilter = False\<rparr>"

text \<open>An action \<open>a\<close> with the inline actions \<open>b\<close> and \<open>d\<close>, where \<open>b\<close> has the inline action \<open>c\<close>.\<close>

definition sample_inlines :: "ActionTrace list" where
  "sample_inlines = [sample_inline CHR ''c'' 2 4 2, sample_inline CHR ''a'' 0 1 0, sample_inline CHR ''d'' 3 3 1, sample_inline CHR ''b'' 1 2 1]"

lemma sample_inlines_filters:
  "single_returns (mx_sortTraces sample_mdl_env (\<lambda>a b. executionOrdinal a < executionOrdinal b) sample_inlines)"
  "list_all (\<lambda>a. act_JsonData (at_Action a) = [] \<or> mx_JsonOk sample_mdl_env (act_JsonData (at_Action a)))
     (mx_sortTraces sample_mdl_env (\<lambda>a b. executionOrdinal a < executionOrdinal b) sample_inlines)"
  "let v = mx_sortTraces sample_mdl_env (\<lambda>a b. executionOrdinal a < executionOrdinal b) sample_inlines
   in filter (\<lambda>i. cua (v ! i) = 0) [0..<length v] = [0] \<and> filter (\<lambda>i. cua (v ! i) \<noteq> 0) [0..<length v] = [1, 2, 3]"
  by code_simp+

theorem inline_traces_forest_witness:
  "\<exists>v. ToV1ActionTraces sample_mdl_env sample_inlines = Inr v \<and> va_roots v = [0] \<and> map snd (va_inline v) = [1, 2, 3]"
proof -
  note ok = sample_inlines_filters(2) [unfolded list_all_iff]
  from inline_traces_forest [OF sample_inlines_filters(1) ok] obtain v where
    v: "ToV1ActionTraces sample_mdl_env sample_inlines = Inr v"
      "va_traces v = mx_sortTraces sample_mdl_env (\<lambda>a b. executionOrdinal a < executionOrdinal b) sample_inlines"
      "va_roots v = filter (\<lambda>i. cua (va_traces v ! i) = 0) [0..<length (va_traces v)]"
      "map snd (va_inline v) = filter (\<lambda>i. cua (va_traces v ! i) \<noteq> 0) [0..<length (va_traces v)]"
    by blast
  then show ?thesis using sample_inlines_filters(3) by (intro exI [of _ v]) (simp only: v Let_def simp_thms)
qed

text \<open>A return of two levels: after \<open>a\<close>, its inline \<open>b\<close>, the inline \<open>c\<close> of \<open>b\<close> and the inline \<open>d\<close> of \<open>c\<close>, the second
  inline \<open>e\<close> of \<open>a\<close> becomes one of \<open>b\<close>, since one element of the stack is popped only.\<close>

lemma two_level_return:
  "ToV1ActionTraces sample_mdl_env
     [sample_inline CHR ''a'' 0 1 0, sample_inline CHR ''b'' 1 2 1, sample_inline CHR ''c'' 2 4 2, sample_inline CHR ''d'' 3 5 4,
      sample_inline CHR ''e'' 4 3 1] =
   Inr \<lparr>va_traces = [sample_inline CHR ''a'' 0 1 0, sample_inline CHR ''b'' 1 2 1, sample_inline CHR ''c'' 2 4 2,
          sample_inline CHR ''d'' 3 5 4, sample_inline CHR ''e'' 4 3 1],
        va_roots = [0], va_inline = [(0, 1), (1, 2), (2, 3), (1, 4)]\<rparr>"
  by code_simp

text \<open>The raw conversion stops at the first action that is not a child: the inline \<open>d\<close> of \<open>a\<close> after the inline \<open>c\<close> of
  \<open>b\<close> is lost.\<close>

lemma raw_inline_lost:
  "ToV1ActionTraceRaw 4 sample_mdl_env (sample_inline CHR ''a'' 0 1 0)
     [sample_inline CHR ''a'' 0 1 0, sample_inline CHR ''b'' 1 2 1, sample_inline CHR ''c'' 2 4 2, sample_inline CHR ''d'' 3 3 1] True =
   Some (Inr ''a[b[c[]]]'')"
  by code_simp

text \<open>The raw conversion ends: with the actions at their execution indexes, as many calls as there are actions
  after the parent suffice.\<close>

lemma those_defined: "\<forall>x\<in>set xs. f x \<noteq> None \<Longrightarrow> those (map f xs) \<noteq> None"
  by (induction xs) auto

lemma raw_terminates:
  assumes "length actions < 2 ^ 32" and "\<forall>i<length actions. unat (at_ExecutionIndex (actions ! i)) = i"
  shows "\<lbrakk>i < length actions; length actions - i \<le> fuel\<rbrakk> \<Longrightarrow> ToV1ActionTraceRaw fuel env (actions ! i) actions withInlines \<noteq> None"
proof (induction fuel arbitrary: i withInlines)
  case (Suc fuel)
  have idx: "unat (at_ExecutionIndex (actions ! i) + 1) = Suc i"
    using assms Suc.prems(1) by (simp add: unat_word_ariths unsigned_1)
  have "ToV1ActionTraceRaw fuel env child actions True \<noteq> None" if "child \<in> set (potential_children (actions ! i) actions)" for child
  proof -
    have "child \<in> set (drop (Suc i) actions)" using that idx by (auto simp: potential_children_def dest: set_takeWhileD)
    then obtain j where j: "j < length actions - Suc i" "child = actions ! (Suc i + j)" by (auto simp: in_set_conv_nth)
    then show ?thesis using Suc.IH [of "Suc i + j"] Suc.prems by auto
  qed
  then have "those (map (\<lambda>child. ToV1ActionTraceRaw fuel env child actions True) (potential_children (actions ! i) actions)) \<noteq> None"
    by (intro those_defined) simp
  then show ?case by simp
qed simp

end
