(* ===== verification/RecentTx.thy ===== *)
theory RecentTx
  imports EoswsMdl TrxDb
begin

text \<open>
  \<open>eosws/recenttxhub.go\<close>, a ring of the transactions seen last, fed by the live blocks: a block is prepared to
  lifecycles, which enter the ring and its index by block; an undone block leaves it, a block that becomes
  irreversible is marked, and a snapshot reads the newest entries. Opaque cursors and the number in a block
  identifier are fields of the record \<open>hub_env\<close>. Reduplication writes fields of a trace that are not part of the
  model, and the lock, the metrics and the clock are left out: the time of a block is an argument.
\<close>

section \<open>State\<close>

record hub_env =
  hx_trx :: trxdb_env
  hx_mdl :: mdl_env
  hx_sortSlice :: "(TransactionEvent \<Rightarrow> TransactionEvent \<Rightarrow> bool) \<Rightarrow> TransactionEvent list \<Rightarrow> TransactionEvent list"
  hx_ToOpaque :: "string \<Rightarrow> string"
  hx_BlockNum :: "string \<Rightarrow> u32"

record ringEntry =
  re_blockID :: string
  re_blockNum :: u32
  re_lc :: "v1_TransactionLifecycle option"

definition no_entry :: ringEntry where
  "no_entry = \<lparr>re_blockID = [], re_blockNum = 0, re_lc = None\<rparr>"

record RecentTxHub =
  hub_ring :: "ringEntry list"
  hub_head :: nat
  hub_count :: nat
  hub_blockIdx :: "string \<rightharpoonup> nat list"
  hub_size :: nat
  hub_chainID :: bytes
  hub_ready :: bool
  hub_lastBlockNano :: int

datatype hub_error = HubPanic

definition NewRecentTxHub :: "int \<Rightarrow> bytes \<Rightarrow> hub_error + RecentTxHub" where
  "NewRecentTxHub ringSize chainID =
     (if ringSize \<le> 0 then Inl HubPanic
      else Inr \<lparr>hub_ring = replicate (nat ringSize) no_entry, hub_head = 0, hub_count = 0, hub_blockIdx = Map.empty,
                hub_size = nat ringSize, hub_chainID = chainID, hub_ready = False, hub_lastBlockNano = 0\<rparr>)"

section \<open>Lifecycles of a block\<close>

definition receiptByID :: "Block \<Rightarrow> string \<rightharpoonup> TransactionReceipt" where
  "receiptByID blk =
     fold (\<lambda>r m. if tr_PackedTransaction r = None then m else m(tr_Id r \<mapsto> r)) (Transactions blk) Map.empty"

definition implicitByID :: "Block \<Rightarrow> string \<rightharpoonup> TrxOp" where
  "implicitByID blk = fold (\<lambda>op m. m(trx_TransactionId op \<mapsto> op)) (ImplicitTransactionOps blk) Map.empty"

definition hub_event :: "Block \<Rightarrow> TransactionTrace \<Rightarrow> trx_event \<Rightarrow> TransactionEvent" where
  "hub_event blk trxTrace ev =
     \<lparr>ev_Id = tt_Id (trace_of trxTrace), ev_BlockId = blk_Id blk, ev_BlockNum = blk_Number blk, ev_Irreversible = False, ev_Event = Some ev\<rparr>"

text \<open>The events of an explicit or of an implicit transaction; \<open>None\<close> is a transaction that is skipped.\<close>

definition trace_events :: "hub_env \<Rightarrow> bytes \<Rightarrow> Block \<Rightarrow> TransactionTrace \<Rightarrow> hub_error + TransactionEvent list option" where
  "trace_events env chainID blk trxTrace =
     (let trxID = tt_Id (trace_of trxTrace); execution = hub_event blk trxTrace (EvExecution trxTrace)
      in case receiptByID blk trxID of
           Some receipt \<Rightarrow>
             (case ExtractEOSSignedTransactionFromReceipt (hx_trx env) (the (tr_PackedTransaction receipt)) of
                Inl _ \<Rightarrow> Inr None
              | Inr signedTx \<Rightarrow>
                  (case SignedTransactionToDEOS (te_hydrator (hx_trx env)) signedTx of
                     Inl _ \<Rightarrow> Inl HubPanic
                   | Inr deosSignedTx \<Rightarrow>
                       Inr (Some [hub_event blk trxTrace (EvAddition receipt (Some deosSignedTx)
                                    (Some (GetPublicKeysFromSignedTransaction (hx_trx env) chainID signedTx))), execution])))
         | None \<Rightarrow>
             (case implicitByID blk trxID of
                Some op \<Rightarrow> Inr (Some [hub_event blk trxTrace (EvInternalAddition (Some (trx_Transaction op))), execution])
              | None \<Rightarrow> Inr None))"

definition alwaysCanonical :: "string \<Rightarrow> bool" where
  "alwaysCanonical _ = True"

definition prepare_lifecycle :: "hub_env \<Rightarrow> bytes \<Rightarrow> Block \<Rightarrow> TransactionTrace \<Rightarrow> hub_error + v1_TransactionLifecycle option" where
  "prepare_lifecycle env chainID blk trxTrace =
     bind_res (trace_events env chainID blk trxTrace) (\<lambda>events.
       case events of
         None \<Rightarrow> Inr None
       | Some evs \<Rightarrow>
           (case MergeTransactionEvents (hx_sortSlice env) evs alwaysCanonical of
              Inl _ \<Rightarrow> Inl HubPanic
            | Inr None \<Rightarrow> Inr None
            | Inr (Some lifecycle) \<Rightarrow>
                (case ToV1TransactionLifecycle (hx_mdl env) lifecycle of
                   Inl MdPanic \<Rightarrow> Inl HubPanic
                 | Inl MdMarshal \<Rightarrow> Inr None
                 | Inr v1tx \<Rightarrow> Inr (Some v1tx))))"

definition prepare_block :: "hub_env \<Rightarrow> bytes \<Rightarrow> Block \<Rightarrow> hub_error + v1_TransactionLifecycle list" where
  "prepare_block env chainID blk =
     bind_res (map_res (prepare_lifecycle env chainID blk) (TransactionTraces blk)) (\<lambda>prep. Inr (List.map_filter (\<lambda>p. p) prep))"

section \<open>Ring\<close>

definition removeBlockIdxLocked :: "string \<Rightarrow> nat \<Rightarrow> RecentTxHub \<Rightarrow> RecentTxHub" where
  "removeBlockIdxLocked blockID idx h =
     (let indices = remove1 idx (case hub_blockIdx h blockID of None \<Rightarrow> [] | Some is \<Rightarrow> is)
      in h\<lparr>hub_blockIdx := (if indices = [] then (hub_blockIdx h)(blockID := None) else (hub_blockIdx h)(blockID \<mapsto> indices))\<rparr>)"

definition appendLocked :: "string \<Rightarrow> u32 \<Rightarrow> v1_TransactionLifecycle \<Rightarrow> RecentTxHub \<Rightarrow> RecentTxHub" where
  "appendLocked blockID blockNum lc h =
     (let idx = hub_head h; prior = hub_ring h ! idx;
          h1 = (if re_lc prior \<noteq> None then removeBlockIdxLocked (re_blockID prior) idx h else h)
      in h1\<lparr>hub_ring := (hub_ring h1)[idx := \<lparr>re_blockID = blockID, re_blockNum = blockNum, re_lc = Some lc\<rparr>],
            hub_blockIdx := (hub_blockIdx h1)(blockID \<mapsto>
              (case hub_blockIdx h1 blockID of None \<Rightarrow> [] | Some is \<Rightarrow> is) @ [idx]),
            hub_head := (hub_head h1 + 1) mod hub_size h1,
            hub_count := (if hub_count h1 < hub_size h1 then hub_count h1 + 1 else hub_count h1)\<rparr>)"

definition onStepNew :: "hub_env \<Rightarrow> Block \<Rightarrow> RecentTxHub \<Rightarrow> hub_error + RecentTxHub" where
  "onStepNew env blk h =
     bind_res (prepare_block env (hub_chainID h) blk) (\<lambda>prep.
       Inr (fold (appendLocked (blk_Id blk) (blk_Number blk)) prep h))"

definition flip_irreversible :: "ringEntry \<Rightarrow> ringEntry" where
  "flip_irreversible e = e\<lparr>re_lc := map_option (\<lambda>lc. lc\<lparr>v1_ExecutionIrreversible := True\<rparr>) (re_lc e)\<rparr>"

definition onStepIrreversible :: "string \<Rightarrow> RecentTxHub \<Rightarrow> RecentTxHub" where
  "onStepIrreversible blockID h =
     (case hub_blockIdx h blockID of
        None \<Rightarrow> h
      | Some indices \<Rightarrow>
          h\<lparr>hub_ring := fold (\<lambda>idx r. r[idx := flip_irreversible (r ! idx)]) indices (hub_ring h),
            hub_blockIdx := (hub_blockIdx h)(blockID := None)\<rparr>)"

definition onStepUndo :: "string \<Rightarrow> RecentTxHub \<Rightarrow> RecentTxHub" where
  "onStepUndo blockID h =
     (case hub_blockIdx h blockID of
        None \<Rightarrow> h
      | Some indices \<Rightarrow>
          h\<lparr>hub_ring := fold (\<lambda>idx r. r[idx := no_entry]) indices (hub_ring h),
            hub_blockIdx := (hub_blockIdx h)(blockID := None)\<rparr>)"

section \<open>Stream\<close>

datatype fork_step = StepNew | StepRedo | StepIrreversible | StepUndo

definition hub_step :: "hub_env \<Rightarrow> fork_step \<times> Block \<Rightarrow> RecentTxHub \<Rightarrow> hub_error + RecentTxHub" where
  "hub_step env sb h =
     (case sb of
        (StepNew, blk) \<Rightarrow> onStepNew env blk h
      | (StepRedo, blk) \<Rightarrow> onStepNew env blk h
      | (StepIrreversible, blk) \<Rightarrow> Inr (onStepIrreversible (blk_Id blk) h)
      | (StepUndo, blk) \<Rightarrow> Inr (onStepUndo (blk_Id blk) h))"

text \<open>What happens to the hub: a block at a time, or a tick of the watchdog.\<close>

datatype hub_input = BlockReceived int fork_step Block | WatchdogTick int

definition watchdogStall :: int where "watchdogStall = 2 * 1000000000"

definition handle_block :: "hub_env \<Rightarrow> int \<Rightarrow> fork_step \<Rightarrow> Block \<Rightarrow> RecentTxHub \<Rightarrow> hub_error + RecentTxHub" where
  "handle_block env now step blk h =
     bind_res (hub_step env (step, blk) (h\<lparr>hub_lastBlockNano := now\<rparr>)) (\<lambda>h1. Inr (h1\<lparr>hub_ready := True\<rparr>))"

definition watchdog_tick :: "int \<Rightarrow> RecentTxHub \<Rightarrow> RecentTxHub" where
  "watchdog_tick now h =
     (if hub_lastBlockNano h = 0 then h
      else if now - hub_lastBlockNano h > watchdogStall then h\<lparr>hub_ready := False\<rparr>
      else h)"

definition hub_handle :: "hub_env \<Rightarrow> hub_input \<Rightarrow> RecentTxHub \<Rightarrow> hub_error + RecentTxHub" where
  "hub_handle env input h =
     (case input of
        BlockReceived now step blk \<Rightarrow> handle_block env now step blk h
      | WatchdogTick now \<Rightarrow> Inr (watchdog_tick now h))"

section \<open>Snapshot\<close>

definition zero56 :: string where "zero56 = replicate 56 CHR ''0''"

definition syntheticPrevBlockID :: "u32 \<Rightarrow> string" where
  "syntheticPrevBlockID blockNum =
     (if blockNum = 0 then ''00000000'' @ zero56 else format_hex_padded 8 (unat (blockNum - 1)) @ zero56)"

definition hexUint16 :: "u16 \<Rightarrow> string" where
  "hexUint16 v =
     [hex_digit (unat v div 4096 mod 16), hex_digit (unat v div 256 mod 16), hex_digit (unat v div 16 mod 16), hex_digit (unat v mod 16)]"

record TransactionList =
  tl_Cursor :: string
  tl_Transactions :: "v1_TransactionLifecycle list"

definition snapshot_step :: "nat \<Rightarrow> RecentTxHub \<Rightarrow> nat \<Rightarrow> v1_TransactionLifecycle list \<times> u32 \<Rightarrow> v1_TransactionLifecycle list \<times> u32" where
  "snapshot_step limit h i st =
     (case st of (out, lastBlockNum) \<Rightarrow>
        if length out < limit
        then let entry = hub_ring h ! ((hub_head h + hub_size h - 1 - i) mod hub_size h)
             in case re_lc entry of
                  None \<Rightarrow> (out, lastBlockNum)
                | Some lc \<Rightarrow> (out @ [lc], re_blockNum entry)
        else (out, lastBlockNum))"

definition Snapshot :: "hub_env \<Rightarrow> int \<Rightarrow> RecentTxHub \<Rightarrow> TransactionList option" where
  "Snapshot env limit h =
     (if limit \<le> 0 then None
      else if \<not> hub_ready h then None
      else if int (hub_count h) < limit then None
      else case fold (snapshot_step (nat limit) h) [0..<hub_count h] ([], 0) of
             (out, lastBlockNum) \<Rightarrow>
               if int (length out) < limit then None
               else Some \<lparr>tl_Cursor = hx_ToOpaque env (syntheticPrevBlockID lastBlockNum @ '':'' @ hexUint16 0xffff),
                          tl_Transactions = out\<rparr>)"

end
