(* ===== verification/RecentTxProps.thy ===== *)
theory RecentTxProps
  imports RecentTx TrxDbProps "HOL-Library.Sublist"
begin

text \<open>
  The ring against the chain: what the hub answers are the newest transactions of the canonical chain, in order
  and with the blocks that became irreversible marked, whatever blocks were undone. The index of the ring by block
  is an invariant; the chain is the list of all transactions of the blocks that were not undone.
\<close>

section \<open>The chain\<close>

definition on_block :: "string \<Rightarrow> (ringEntry \<Rightarrow> ringEntry) \<Rightarrow> ringEntry \<Rightarrow> ringEntry" where
  "on_block b f e = (if re_blockID e = b then f e else e)"

definition block_entries :: "hub_env \<Rightarrow> bytes \<Rightarrow> Block \<Rightarrow> ringEntry list" where
  "block_entries env chainID blk =
     (case prepare_block env chainID blk of
        Inl _ \<Rightarrow> []
      | Inr prep \<Rightarrow> map (\<lambda>lc. \<lparr>re_blockID = blk_Id blk, re_blockNum = blk_Number blk, re_lc = Some lc\<rparr>) prep)"

text \<open>The transactions of the chain, the newest first.\<close>

definition chain_step :: "hub_env \<Rightarrow> bytes \<Rightarrow> fork_step \<times> Block \<Rightarrow> ringEntry list \<Rightarrow> ringEntry list" where
  "chain_step env chainID sb chain =
     (case sb of
        (StepNew, blk) \<Rightarrow> rev (block_entries env chainID blk) @ chain
      | (StepRedo, blk) \<Rightarrow> rev (block_entries env chainID blk) @ chain
      | (StepIrreversible, blk) \<Rightarrow> map (on_block (blk_Id blk) flip_irreversible) chain
      | (StepUndo, blk) \<Rightarrow> filter (\<lambda>e. re_blockID e \<noteq> blk_Id blk) chain)"

fun chain_input :: "hub_env \<Rightarrow> bytes \<Rightarrow> hub_input \<Rightarrow> ringEntry list \<Rightarrow> ringEntry list" where
  "chain_input env chainID (BlockReceived now step blk) chain = chain_step env chainID (step, blk) chain"
| "chain_input env chainID (WatchdogTick now) chain = chain"

definition chain_of :: "hub_env \<Rightarrow> bytes \<Rightarrow> hub_input list \<Rightarrow> ringEntry list" where
  "chain_of env chainID inputs = fold (chain_input env chainID) inputs []"

text \<open>The stream never undoes a block that it declared irreversible.\<close>

fun stream_ok :: "string set \<Rightarrow> hub_input list \<Rightarrow> bool" where
  "stream_ok irr [] \<longleftrightarrow> True"
| "stream_ok irr (BlockReceived now StepIrreversible blk # xs) \<longleftrightarrow> stream_ok (insert (blk_Id blk) irr) xs"
| "stream_ok irr (BlockReceived now StepUndo blk # xs) \<longleftrightarrow> blk_Id blk \<notin> irr \<and> stream_ok irr xs"
| "stream_ok irr (_ # xs) \<longleftrightarrow> stream_ok irr xs"

section \<open>The ring in order\<close>

definition newest_first :: "RecentTxHub \<Rightarrow> ringEntry list" where
  "newest_first h = take (hub_count h) (rev (rotate (hub_head h) (hub_ring h)))"

abbreviation live :: "ringEntry list \<Rightarrow> ringEntry list" where
  "live es \<equiv> filter (\<lambda>e. re_lc e \<noteq> None) es"

definition ring_ok :: "RecentTxHub \<Rightarrow> bool" where
  "ring_ok h \<longleftrightarrow>
     length (hub_ring h) = hub_size h \<and> 0 < hub_size h \<and> hub_head h < hub_size h \<and> hub_count h \<le> hub_size h \<and>
     (\<forall>e\<in>set (hub_ring h). re_lc e = None \<longrightarrow> e = no_entry)"

definition idx_list :: "RecentTxHub \<Rightarrow> string \<Rightarrow> nat list" where
  "idx_list h b = (case hub_blockIdx h b of None \<Rightarrow> [] | Some is \<Rightarrow> is)"

definition index_ok :: "RecentTxHub \<Rightarrow> bool" where
  "index_ok h \<longleftrightarrow>
     (\<forall>b. distinct (idx_list h b) \<and>
        (\<forall>i\<in>set (idx_list h b). i < hub_size h \<and> re_lc (hub_ring h ! i) \<noteq> None \<and> re_blockID (hub_ring h ! i) = b))"

lemma index_okD:
  "\<lbrakk>index_ok h; i \<in> set (idx_list h b)\<rbrakk> \<Longrightarrow> i < hub_size h \<and> re_lc (hub_ring h ! i) \<noteq> None \<and> re_blockID (hub_ring h ! i) = b"
  unfolding index_ok_def by blast

definition indexed :: "RecentTxHub \<Rightarrow> nat \<Rightarrow> bool" where
  "indexed h i \<longleftrightarrow> i \<in> set (idx_list h (re_blockID (hub_ring h ! i)))"

definition covered :: "string set \<Rightarrow> RecentTxHub \<Rightarrow> bool" where
  "covered irr h \<longleftrightarrow>
     (\<forall>i<hub_size h. re_lc (hub_ring h ! i) \<noteq> None \<longrightarrow>
        indexed h i \<or> re_blockID (hub_ring h ! i) \<in> irr \<and> flip_irreversible (hub_ring h ! i) = hub_ring h ! i)"

lemma append_newest:
  assumes "ring_ok h" and "hub_ring h' = (hub_ring h)[hub_head h := e]" and "hub_head h' = (hub_head h + 1) mod hub_size h"
    and "hub_count h' = (if hub_count h < hub_size h then hub_count h + 1 else hub_count h)"
  shows "newest_first h' = take (hub_size h) (e # newest_first h)"
proof -
  let ?r = "rotate (hub_head h) (hub_ring h)"
  have len: "length ?r = hub_size h" "?r \<noteq> []" using assms(1) by (auto simp: ring_ok_def)
  have "rotate (hub_head h) (hub_ring h') = e # tl ?r"
    using assms(1,2) by (auto simp: ring_ok_def rotate_drop_take upd_conv_take_nth_drop Cons_nth_drop_Suc [symmetric] tl_append
        split: list.splits)
  then have "rotate (Suc (hub_head h)) (hub_ring h') = tl ?r @ [e]" by (simp add: rotate_def)
  moreover have "length (hub_ring h') = hub_size h" using assms(1,2) by (simp add: ring_ok_def)
  then have "rotate (hub_head h') (hub_ring h') = rotate (Suc (hub_head h)) (hub_ring h')"
    unfolding assms(3) by (metis rotate_conv_mod add.commute plus_1_eq_Suc mod_mod_trivial)
  ultimately have rot: "rev (rotate (hub_head h') (hub_ring h')) = e # butlast (rev ?r)"
    by (simp add: butlast_rev)
  show ?thesis
  proof (cases "hub_count h < hub_size h")
    case True
    then show ?thesis using len assms(4) unfolding newest_first_def rot by (simp add: take_butlast min_def del: butlast_rev)
  next
    case False
    then have "hub_count h = hub_size h" using assms(1) by (simp add: ring_ok_def)
    then show ?thesis using len assms(4) unfolding newest_first_def rot
      by (cases "hub_size h") (simp_all add: butlast_conv_take del: butlast_rev)
  qed
qed

lemma map_newest:
  assumes "hub_ring h' = map f (hub_ring h)" and "hub_head h' = hub_head h" and "hub_count h' = hub_count h"
  shows "newest_first h' = map f (newest_first h)"
  using assms by (simp add: newest_first_def rotate_map rev_map take_map)

lemma fold_update_nth:
  assumes "distinct is" and "\<forall>i\<in>set is. i < length r"
  shows "length (fold (\<lambda>i r. r[i := f (r ! i)]) is r) = length r \<and>
    (\<forall>j<length r. fold (\<lambda>i r. r[i := f (r ! i)]) is r ! j = (if j \<in> set is then f (r ! j) else r ! j))"
  using assms by (induction "is" arbitrary: r) (auto simp: nth_list_update)

text \<open>An update of the indexed entries of a block is an update of its entries.\<close>

lemma update_block:
  assumes ring: "ring_ok h" and idx: "index_ok h"
    and rest: "\<forall>i<hub_size h. re_blockID (hub_ring h ! i) = b \<and> i \<notin> set (idx_list h b) \<longrightarrow> f (hub_ring h ! i) = hub_ring h ! i"
  shows "fold (\<lambda>i r. r[i := f (r ! i)]) (idx_list h b) (hub_ring h) = map (on_block b f) (hub_ring h)"
proof (rule nth_equalityI)
  have i: "distinct (idx_list h b)" "\<forall>i\<in>set (idx_list h b). i < length (hub_ring h) \<and> re_blockID (hub_ring h ! i) = b"
    using ring idx by (auto simp: ring_ok_def index_ok_def)
  note upd = fold_update_nth [of "idx_list h b" "hub_ring h" f]
  show "length (fold (\<lambda>i r. r[i := f (r ! i)]) (idx_list h b) (hub_ring h)) = length (map (on_block b f) (hub_ring h))" using upd i by simp
  show "fold (\<lambda>i r. r[i := f (r ! i)]) (idx_list h b) (hub_ring h) ! j = map (on_block b f) (hub_ring h) ! j"
    if "j < length (fold (\<lambda>i r. r[i := f (r ! i)]) (idx_list h b) (hub_ring h))" for j
    using that upd i rest ring by (auto simp: on_block_def ring_ok_def)
qed

section \<open>The operations keep the invariant\<close>

definition hub_inv :: "string set \<Rightarrow> ringEntry list \<Rightarrow> RecentTxHub \<Rightarrow> bool" where
  "hub_inv irr chain h \<longleftrightarrow> ring_ok h \<and> index_ok h \<and> covered irr h \<and> prefix (live (newest_first h)) chain"

lemma idx_list_append:
  "idx_list (appendLocked b n lc h) b' =
     (let prior = hub_ring h ! hub_head h;
          l = (if re_lc prior \<noteq> None \<and> b' = re_blockID prior then remove1 (hub_head h) (idx_list h b') else idx_list h b')
      in if b' = b then l @ [hub_head h] else l)"
  by (auto simp: idx_list_def appendLocked_def removeBlockIdxLocked_def Let_def split: option.splits)

lemma appendLocked_fields:
  "hub_ring (appendLocked b n lc h) = (hub_ring h)[hub_head h := \<lparr>re_blockID = b, re_blockNum = n, re_lc = Some lc\<rparr>]"
  "hub_head (appendLocked b n lc h) = (hub_head h + 1) mod hub_size h"
  "hub_count (appendLocked b n lc h) = (if hub_count h < hub_size h then hub_count h + 1 else hub_count h)"
  "hub_size (appendLocked b n lc h) = hub_size h" "hub_chainID (appendLocked b n lc h) = hub_chainID h"
  by (simp_all add: appendLocked_def removeBlockIdxLocked_def Let_def)

lemma idx_list_append_set:
  assumes "index_ok h"
  shows "distinct (idx_list (appendLocked b n lc h) b')"
    and "set (idx_list (appendLocked b n lc h) b') = set (idx_list h b') - {hub_head h} \<union> (if b' = b then {hub_head h} else {})"
proof -
  define c where "c \<longleftrightarrow> re_lc (hub_ring h ! hub_head h) \<noteq> None \<and> b' = re_blockID (hub_ring h ! hub_head h)"
  define l where "l = (if c then remove1 (hub_head h) (idx_list h b') else idx_list h b')"
  have d: "distinct (idx_list h b')" using assms by (simp add: index_ok_def)
  have out: "hub_head h \<in> set (idx_list h b') \<longrightarrow> c" using assms by (simp add: index_ok_def c_def)
  have l: "distinct l" "set l = set (idx_list h b') - {hub_head h}"
    subgoal using d by (simp add: l_def)
    subgoal using d out by (simp add: l_def) blast
    done
  have "idx_list (appendLocked b n lc h) b' = (if b' = b then l @ [hub_head h] else l)"
    unfolding l_def c_def idx_list_append Let_def by (rule refl)
  then show "distinct (idx_list (appendLocked b n lc h) b')"
    "set (idx_list (appendLocked b n lc h) b') = set (idx_list h b') - {hub_head h} \<union> (if b' = b then {hub_head h} else {})"
    using l by simp_all
qed

lemma live_take_prefix: "prefix (live (take k xs)) (live xs)"
  by (metis append_take_drop_id filter_append prefixI)

lemma appendLocked_inv:
  assumes "hub_inv irr chain h"
  shows "hub_inv irr (\<lparr>re_blockID = b, re_blockNum = n, re_lc = Some lc\<rparr> # chain) (appendLocked b n lc h)" (is "hub_inv irr (?e # chain) ?h")
proof -
  have ring: "ring_ok h" and idx: "index_ok h" and cov: "covered irr h" and pre: "prefix (live (newest_first h)) chain"
    using assms by (auto simp: hub_inv_def)
  have head: "hub_head h < length (hub_ring h)" using ring by (simp add: ring_ok_def)
  have "ring_ok ?h"
    using ring head set_update_subset_insert [of "hub_ring h" "hub_head h" ?e] by (auto simp: ring_ok_def appendLocked_fields)
  moreover have "index_ok ?h"
    unfolding index_ok_def
  proof (intro allI conjI ballI)
    fix b' i assume "i \<in> set (idx_list ?h b')"
    then have "i \<noteq> hub_head h \<and> i \<in> set (idx_list h b') \<or> i = hub_head h \<and> b' = b"
      unfolding idx_list_append_set [OF idx] by (auto split: if_splits)
    then have "i < hub_size ?h \<and> re_lc (hub_ring ?h ! i) \<noteq> None \<and> re_blockID (hub_ring ?h ! i) = b'"
    proof
      assume "i = hub_head h \<and> b' = b"
      then show ?thesis using head ring by (simp add: appendLocked_fields ring_ok_def)
    next
      assume "i \<noteq> hub_head h \<and> i \<in> set (idx_list h b')"
      then show ?thesis using index_okD [OF idx, of i b'] by (simp add: appendLocked_fields)
    qed
    then show "i < hub_size ?h" "re_lc (hub_ring ?h ! i) \<noteq> None" "re_blockID (hub_ring ?h ! i) = b'" by blast+
  qed (rule idx_list_append_set [OF idx])
  moreover have "covered irr ?h"
    unfolding covered_def
  proof (intro allI impI)
    fix i assume i: "i < hub_size ?h" "re_lc (hub_ring ?h ! i) \<noteq> None"
    show "indexed ?h i \<or> re_blockID (hub_ring ?h ! i) \<in> irr \<and> flip_irreversible (hub_ring ?h ! i) = hub_ring ?h ! i"
    proof (cases "i = hub_head h")
      case True
      then show ?thesis using head by (simp add: indexed_def idx_list_append_set [OF idx] appendLocked_fields)
    next
      case False
      then have "hub_ring ?h ! i = hub_ring h ! i" by (simp add: appendLocked_fields)
      then show ?thesis
        using cov i False by (auto simp: covered_def indexed_def idx_list_append_set [OF idx] appendLocked_fields)
    qed
  qed
  moreover have "prefix (live (newest_first ?h)) (?e # chain)"
  proof -
    have "newest_first ?h = take (hub_size h) (?e # newest_first h)"
      using append_newest [OF ring] by (simp add: appendLocked_fields)
    then have "prefix (live (newest_first ?h)) (?e # live (newest_first h))"
      using live_take_prefix [of "hub_size h" "?e # newest_first h"] by simp
    moreover have "prefix (?e # live (newest_first h)) (?e # chain)" using pre by simp
    ultimately show ?thesis by (rule prefix_order.trans)
  qed
  ultimately show ?thesis by (simp add: hub_inv_def)
qed

lemma appends_inv:
  "hub_inv irr chain h \<Longrightarrow>
   hub_inv irr (rev (map (\<lambda>lc. \<lparr>re_blockID = b, re_blockNum = n, re_lc = Some lc\<rparr>) lcs) @ chain) (fold (appendLocked b n) lcs h)"
  by (induction lcs arbitrary: chain h) (auto dest: appendLocked_inv)

lemma step_fields:
  "hub_ring (onStepIrreversible b h) = fold (\<lambda>i r. r[i := flip_irreversible (r ! i)]) (idx_list h b) (hub_ring h)"
  "hub_ring (onStepUndo b h) = fold (\<lambda>i r. r[i := no_entry]) (idx_list h b) (hub_ring h)"
  "idx_list (onStepIrreversible b h) b' = (if b' = b then [] else idx_list h b')"
  "idx_list (onStepUndo b h) b' = (if b' = b then [] else idx_list h b')"
  "hub_head (onStepIrreversible b h) = hub_head h" "hub_head (onStepUndo b h) = hub_head h"
  "hub_count (onStepIrreversible b h) = hub_count h" "hub_count (onStepUndo b h) = hub_count h"
  "hub_size (onStepIrreversible b h) = hub_size h" "hub_size (onStepUndo b h) = hub_size h"
  "hub_chainID (onStepIrreversible b h) = hub_chainID h" "hub_chainID (onStepUndo b h) = hub_chainID h"
  by (auto simp: onStepIrreversible_def onStepUndo_def idx_list_def split: option.splits)

lemma flip_simps [simp]:
  "flip_irreversible no_entry = no_entry" "flip_irreversible (flip_irreversible e) = flip_irreversible e"
  "re_blockID (flip_irreversible e) = re_blockID e" "re_lc (flip_irreversible e) = None \<longleftrightarrow> re_lc e = None" "re_lc no_entry = None"
  "(\<exists>lc. re_lc (flip_irreversible e) = Some lc) \<longleftrightarrow> (\<exists>lc. re_lc e = Some lc)"
  by (cases "re_lc e"; simp add: flip_irreversible_def no_entry_def)+

lemma live_map: "(\<And>e. re_lc e = None \<Longrightarrow> re_lc (g e) = None) \<Longrightarrow> live (map g (live es)) = live (map g es)"
  by (induction es) auto

text \<open>An update of the entries of a block that marks them or empties them.\<close>

lemma block_update_inv:
  assumes inv: "hub_inv irr chain h" and ring': "hub_ring h' = map (on_block b f) (hub_ring h)"
    and h': "\<And>b'. idx_list h' b' = (if b' = b then [] else idx_list h b')" "hub_head h' = hub_head h" "hub_count h' = hub_count h" "hub_size h' = hub_size h"
    and f: "(\<forall>e. f e = no_entry) \<or> f = flip_irreversible \<and> b \<in> irr'" and irr': "irr \<subseteq> irr'"
    and chain': "prefix (live (map (on_block b f) (live (newest_first h)))) chain'"
  shows "hub_inv irr' chain' h'"
proof -
  have ring: "ring_ok h" and idx: "index_ok h" and cov: "covered irr h" using inv by (auto simp: hub_inv_def)
  have dead: "re_lc e = None \<Longrightarrow> re_lc (on_block b f e) = None" for e using f by (auto simp: on_block_def)
  have len: "hub_size h = length (hub_ring h)" using ring by (simp add: ring_ok_def)
  have "ring_ok h'"
    using ring h' f by (auto simp: ring_ok_def ring' on_block_def)
  moreover have "index_ok h'"
    unfolding index_ok_def
  proof (intro allI conjI ballI)
    fix b' i assume "i \<in> set (idx_list h' b')"
    then have "b' \<noteq> b" and i: "i \<in> set (idx_list h b')" by (auto simp: h' split: if_splits)
    then show "i < hub_size h'" "re_lc (hub_ring h' ! i) \<noteq> None" "re_blockID (hub_ring h' ! i) = b'"
      using index_okD [OF idx i] h' len by (simp_all add: ring' on_block_def)
  qed (use idx h' in \<open>simp add: index_ok_def\<close>)
  moreover have "covered irr' h'"
    unfolding covered_def
  proof (intro allI impI)
    fix i assume i: "i < hub_size h'" "re_lc (hub_ring h' ! i) \<noteq> None"
    then have e: "hub_ring h' ! i = on_block b f (hub_ring h ! i)" "i < hub_size h" using h' len by (simp_all add: ring')
    show "indexed h' i \<or> re_blockID (hub_ring h' ! i) \<in> irr' \<and> flip_irreversible (hub_ring h' ! i) = hub_ring h' ! i"
    proof (cases "re_blockID (hub_ring h ! i) = b")
      case True
      then show ?thesis using f i(2) e(1) by (auto simp: on_block_def)
    next
      case False
      then have "hub_ring h' ! i = hub_ring h ! i" using e by (simp add: on_block_def)
      then show ?thesis using cov e(2) i(2) irr' False by (auto simp: covered_def indexed_def h')
    qed
  qed
  moreover have "live (newest_first h') = live (map (on_block b f) (live (newest_first h)))"
    using map_newest [OF ring' h'(2,3)] live_map [OF dead] by simp
  ultimately show ?thesis using chain' by (simp add: hub_inv_def)
qed

lemma uncovered_entry:
  assumes "hub_inv irr chain h" and "i < hub_size h" and "re_blockID (hub_ring h ! i) = b" and "i \<notin> set (idx_list h b)"
  shows "hub_ring h ! i = no_entry \<or> b \<in> irr \<and> flip_irreversible (hub_ring h ! i) = hub_ring h ! i"
proof (cases "re_lc (hub_ring h ! i) = None")
  case True
  then show ?thesis using assms by (auto simp: hub_inv_def ring_ok_def)
next
  case False
  then show ?thesis using assms by (auto simp: hub_inv_def covered_def indexed_def)
qed

lemma onStepIrreversible_inv:
  assumes inv: "hub_inv irr chain h"
  shows "hub_inv (insert b irr) (map (on_block b flip_irreversible) chain) (onStepIrreversible b h)"
    and "hub_ring (onStepIrreversible b h) = map (on_block b flip_irreversible) (hub_ring h)"
proof -
  have "ring_ok h" "index_ok h" using inv by (auto simp: hub_inv_def)
  moreover have "flip_irreversible (hub_ring h ! i) = hub_ring h ! i"
    if "i < hub_size h" "re_blockID (hub_ring h ! i) = b" "i \<notin> set (idx_list h b)" for i
    using uncovered_entry [OF inv that] by (elim disjE) simp_all
  ultimately show ring: "hub_ring (onStepIrreversible b h) = map (on_block b flip_irreversible) (hub_ring h)"
    unfolding step_fields by (intro update_block) blast+
  have "live (map (on_block b flip_irreversible) (live es)) = map (on_block b flip_irreversible) (live es)" for es
    by (induction es) (auto simp: on_block_def)
  then have "prefix (live (map (on_block b flip_irreversible) (live (newest_first h)))) (map (on_block b flip_irreversible) chain)"
    using inv by (simp add: hub_inv_def map_mono_prefix)
  then show "hub_inv (insert b irr) (map (on_block b flip_irreversible) chain) (onStepIrreversible b h)"
    by (intro block_update_inv [OF inv ring]) (auto simp: step_fields)
qed

lemma filter_prefix: "prefix xs ys \<Longrightarrow> prefix (filter P xs) (filter P ys)"
  by (auto simp: prefix_def)

lemma onStepUndo_inv:
  assumes inv: "hub_inv irr chain h" and "b \<notin> irr"
  shows "hub_inv irr (filter (\<lambda>e. re_blockID e \<noteq> b) chain) (onStepUndo b h)"
proof -
  have "ring_ok h" "index_ok h" using inv by (auto simp: hub_inv_def)
  moreover have "no_entry = hub_ring h ! i"
    if "i < hub_size h" "re_blockID (hub_ring h ! i) = b" "i \<notin> set (idx_list h b)" for i
    using uncovered_entry [OF inv that] assms(2) by simp
  ultimately have ring: "hub_ring (onStepUndo b h) = map (on_block b (\<lambda>_. no_entry)) (hub_ring h)"
    unfolding step_fields using update_block [of h b "\<lambda>_. no_entry"] by blast
  have "live (map (on_block b (\<lambda>_. no_entry)) (live es)) = filter (\<lambda>e. re_blockID e \<noteq> b) (live es)" for es
    by (induction es) (auto simp: on_block_def)
  then have "prefix (live (map (on_block b (\<lambda>_. no_entry)) (live (newest_first h)))) (filter (\<lambda>e. re_blockID e \<noteq> b) chain)"
    using inv filter_prefix [of "live (newest_first h)" chain "\<lambda>e. re_blockID e \<noteq> b"] by (simp only: hub_inv_def)
  then show ?thesis by (intro block_update_inv [OF inv ring]) (auto simp: step_fields)
qed

section \<open>Runs\<close>

text \<open>After inputs without an undone block the ring has the newest transactions of the chain, as many as fit.\<close>

definition no_undo :: "hub_input list \<Rightarrow> bool" where
  "no_undo inputs \<longleftrightarrow> (\<forall>now blk. BlockReceived now StepUndo blk \<notin> set inputs)"

definition full :: "ringEntry list \<Rightarrow> RecentTxHub \<Rightarrow> bool" where
  "full chain h \<longleftrightarrow> newest_first h = take (hub_size h) chain"

lemma appends_full:
  "\<lbrakk>ring_ok h; full chain h\<rbrakk> \<Longrightarrow>
   full (rev (map (\<lambda>lc. \<lparr>re_blockID = b, re_blockNum = n, re_lc = Some lc\<rparr>) lcs) @ chain) (fold (appendLocked b n) lcs h)"
proof (induction lcs arbitrary: chain h)
  case (Cons lc lcs)
  let ?e = "\<lparr>re_blockID = b, re_blockNum = n, re_lc = Some lc\<rparr>"
  have "newest_first (appendLocked b n lc h) = take (hub_size h) (?e # newest_first h)"
    using append_newest [OF Cons.prems(1)] by (simp add: appendLocked_fields)
  then have "full (?e # chain) (appendLocked b n lc h)"
    using Cons.prems(2) by (cases "hub_size h") (simp_all add: full_def appendLocked_fields)
  moreover have "ring_ok (appendLocked b n lc h)"
    using Cons.prems(1) set_update_subset_insert [of "hub_ring h" "hub_head h" ?e] by (auto simp: ring_ok_def appendLocked_fields)
  ultimately show ?case using Cons.IH by simp
qed simp

lemma appends_fields:
  "hub_size (fold (appendLocked b n) lcs h) = hub_size h \<and> hub_chainID (fold (appendLocked b n) lcs h) = hub_chainID h"
  by (induction lcs arbitrary: h) (simp_all add: appendLocked_fields)

lemma hub_inv_more: "hub_inv irr chain (h\<lparr>hub_lastBlockNano := t\<rparr>) = hub_inv irr chain h"
  "hub_inv irr chain (h\<lparr>hub_ready := r\<rparr>) = hub_inv irr chain h"
  "full chain (h\<lparr>hub_lastBlockNano := t\<rparr>) = full chain h" "full chain (h\<lparr>hub_ready := r\<rparr>) = full chain h"
  by (simp_all add: hub_inv_def ring_ok_def index_ok_def covered_def indexed_def idx_list_def newest_first_def full_def)

fun irr_after :: "string set \<Rightarrow> hub_input \<Rightarrow> string set" where
  "irr_after irr (BlockReceived now StepIrreversible blk) = insert (blk_Id blk) irr"
| "irr_after irr _ = irr"

lemma onStepNew_inv:
  assumes "onStepNew env blk h = Inr h'" and "hub_inv irr chain h"
  shows "hub_inv irr (rev (block_entries env (hub_chainID h) blk) @ chain) h'" "hub_size h' = hub_size h" "hub_chainID h' = hub_chainID h"
    and "full chain h \<Longrightarrow> full (rev (block_entries env (hub_chainID h) blk) @ chain) h'"
proof -
  obtain prep where prep: "prepare_block env (hub_chainID h) blk = Inr prep" "h' = fold (appendLocked (blk_Id blk) (blk_Number blk)) prep h"
    using assms(1) by (auto simp: onStepNew_def res_simps)
  show "hub_inv irr (rev (block_entries env (hub_chainID h) blk) @ chain) h'"
    using appends_inv [OF assms(2)] prep by (simp add: block_entries_def)
  show "hub_size h' = hub_size h" "hub_chainID h' = hub_chainID h" using prep(2) appends_fields by simp_all
  show "full chain h \<Longrightarrow> full (rev (block_entries env (hub_chainID h) blk) @ chain) h'"
    using appends_full [of h chain] assms(2) prep by (simp add: block_entries_def hub_inv_def)
qed

lemma onStepIrreversible_full:
  "\<lbrakk>hub_inv irr chain h; full chain h\<rbrakk> \<Longrightarrow> full (map (on_block b flip_irreversible) chain) (onStepIrreversible b h)"
  using map_newest [OF onStepIrreversible_inv(2)] by (simp add: full_def step_fields take_map)

lemma hub_input_inv:
  assumes run: "hub_handle env inp h = Inr h'" and inv: "hub_inv irr chain h" and ok: "stream_ok irr (inp # xs)"
  shows "hub_inv (irr_after irr inp) (chain_input env (hub_chainID h) inp chain) h' \<and> stream_ok (irr_after irr inp) xs
    \<and> hub_size h' = hub_size h \<and> hub_chainID h' = hub_chainID h
    \<and> (full chain h \<and> no_undo [inp] \<longrightarrow> full (chain_input env (hub_chainID h) inp chain) h')"
proof (cases inp)
  case (WatchdogTick now)
  then show ?thesis using run inv ok by (auto simp: hub_handle_def handle_block_def watchdog_tick_def hub_inv_more split: if_splits)
next
  case (BlockReceived now step blk)
  let ?h = "h\<lparr>hub_lastBlockNano := now\<rparr>"
  obtain h1 where h1: "hub_step env (step, blk) ?h = Inr h1" "h' = h1\<lparr>hub_ready := True\<rparr>"
    using run BlockReceived by (auto simp: hub_handle_def handle_block_def watchdog_tick_def res_simps)
  have inv1: "hub_inv irr chain ?h" using inv by (simp add: hub_inv_more)
  have new: ?thesis if "onStepNew env blk ?h = Inr h1" "step \<noteq> StepIrreversible" "step \<noteq> StepUndo"
    using onStepNew_inv [OF that(1) inv1] that(2,3) ok BlockReceived h1(2)
    by (cases step) (auto simp: chain_step_def hub_inv_more no_undo_def)
  show ?thesis
  proof (cases step)
    case StepIrreversible
    then show ?thesis
      using onStepIrreversible_inv(1) [OF inv1] onStepIrreversible_full [OF inv1] ok BlockReceived h1
      by (auto simp: hub_step_def chain_step_def hub_inv_more step_fields)
  next
    case StepUndo
    then show ?thesis
      using onStepUndo_inv [OF inv1] ok BlockReceived h1
      by (auto simp: hub_step_def chain_step_def hub_inv_more step_fields no_undo_def)
  qed (use new h1 in \<open>simp_all add: hub_step_def\<close>)
qed

lemma hub_run_inv:
  "\<lbrakk>fold_res (hub_handle env) inputs h = Inr h'; hub_inv irr chain h; stream_ok irr inputs\<rbrakk> \<Longrightarrow>
   \<exists>irr'. hub_inv irr' (fold (chain_input env (hub_chainID h)) inputs chain) h' \<and> hub_size h' = hub_size h
     \<and> (full chain h \<and> no_undo inputs \<longrightarrow> full (fold (chain_input env (hub_chainID h)) inputs chain) h')"
proof (induction inputs arbitrary: h irr chain)
  case (Cons inp xs)
  then obtain h1 where h1: "hub_handle env inp h = Inr h1" "fold_res (hub_handle env) xs h1 = Inr h'" by (auto simp: res_simps)
  note step = hub_input_inv [OF h1(1) Cons.prems(2,3)]
  have split: "no_undo (inp # xs) \<longleftrightarrow> no_undo [inp] \<and> no_undo xs" by (auto simp: no_undo_def)
  show ?case using Cons.IH [OF h1(2)] step unfolding split by auto
qed auto

lemma new_hub_inv:
  assumes "NewRecentTxHub n chainID = Inr h"
  shows "hub_inv {} [] h" "full [] h" "hub_chainID h = chainID" "hub_size h = nat n"
  using assms
  by (auto simp: NewRecentTxHub_def hub_inv_def ring_ok_def index_ok_def covered_def idx_list_def newest_first_def full_def split: if_splits)

section \<open>Snapshots\<close>

definition snap :: "nat \<Rightarrow> ringEntry \<Rightarrow> v1_TransactionLifecycle list \<times> u32 \<Rightarrow> v1_TransactionLifecycle list \<times> u32" where
  "snap limit e st =
     (case st of (out, n) \<Rightarrow>
        if length out < limit then case re_lc e of None \<Rightarrow> (out, n) | Some lc \<Rightarrow> (out @ [lc], re_blockNum e) else (out, n))"

lemma fold_snap:
  "length out \<le> limit \<Longrightarrow> fold (snap limit) es (out, n) =
     (out @ map (the \<circ> re_lc) (take (limit - length out) (live es)),
      re_blockNum (last (\<lparr>re_blockID = [], re_blockNum = n, re_lc = None\<rparr> # take (limit - length out) (live es))))"
proof (induction es arbitrary: out n)
  case (Cons e es)
  then show ?case
    by (cases "length out < limit"; cases "re_lc e") (auto simp: snap_def Suc_diff_Suc [symmetric] Suc_le_eq)
qed simp

lemma snapshot_fold:
  assumes "ring_ok h"
  shows "fold (snapshot_step limit h) [0..<hub_count h] st = fold (snap limit) (newest_first h) st"
proof -
  let ?r = "rev (rotate (hub_head h) (hub_ring h))"
  have len: "length (hub_ring h) = hub_size h" "hub_count h \<le> hub_size h" using assms by (auto simp: ring_ok_def)
  have nth: "hub_ring h ! ((hub_head h + hub_size h - Suc i) mod hub_size h) = ?r ! i" if "i < hub_count h" for i
    using that len by (simp add: rev_nth nth_rotate add.commute)
  have "newest_first h = map ((!) ?r) [0..<hub_count h]"
    using len by (intro nth_equalityI) (simp_all add: newest_first_def)
  then have "fold (snap limit) (newest_first h) st = fold (\<lambda>i. snap limit (?r ! i)) [0..<hub_count h] st"
    by (simp add: fold_map o_def)
  also have "\<dots> = fold (snapshot_step limit h) [0..<hub_count h] st"
    by (intro fold_cong) (auto simp: snapshot_step_def snap_def nth Let_def fun_eq_iff)
  finally show ?thesis ..
qed

lemma Snapshot_live:
  assumes "ring_ok h"
  shows "Snapshot env limit h =
    (let es = live (newest_first h)
     in if 0 < limit \<and> hub_ready h \<and> nat limit \<le> length es
        then Some \<lparr>tl_Cursor = hx_ToOpaque env (syntheticPrevBlockID (re_blockNum (es ! (nat limit - 1))) @ '':'' @ hexUint16 0xffff),
                   tl_Transactions = map (the \<circ> re_lc) (take (nat limit) es)\<rparr>
        else None)"
proof -
  let ?es = "live (newest_first h)"
  let ?none = "\<lparr>re_blockID = [], re_blockNum = 0, re_lc = None\<rparr> :: ringEntry"
  have f: "fold (snapshot_step (nat limit) h) [0..<hub_count h] ([], 0) =
      (map (the \<circ> re_lc) (take (nat limit) ?es), re_blockNum (last (?none # take (nat limit) ?es)))"
    using snapshot_fold [OF assms, of "nat limit" "([], 0)"] fold_snap [of "[]" "nat limit" "newest_first h" 0] by simp
  have le: "length ?es \<le> hub_count h"
    using length_filter_le [of "\<lambda>e. re_lc e \<noteq> None" "newest_first h"] by (simp add: newest_first_def)
  show ?thesis
  proof (cases "0 < limit \<and> hub_ready h \<and> nat limit \<le> length ?es")
    case True
    then have "last (?none # take (nat limit) ?es) = ?es ! (nat limit - 1)"
      by (auto simp: last_conv_nth)
    moreover have "\<not> int (hub_count h) < limit" "\<not> int (length (map (the \<circ> re_lc) (take (nat limit) ?es))) < limit" "\<not> limit \<le> 0"
      using True le by (linarith, simp, simp)
    ultimately show ?thesis using True unfolding Snapshot_def Let_def f by simp
  next
    case False
    then show ?thesis unfolding Snapshot_def Let_def f by auto
  qed
qed

lemma chain_input_live:
  assumes "\<forall>e\<in>set chain. re_lc e \<noteq> None"
  shows "\<forall>e\<in>set (chain_input env chainID inp chain). re_lc e \<noteq> None"
proof -
  have "re_lc (on_block b flip_irreversible e) \<noteq> None" if "e \<in> set chain" for b e
    using assms that by (simp add: on_block_def)
  moreover have "re_lc e \<noteq> None" if "e \<in> set (block_entries env chainID blk)" for e blk
    using that by (auto simp: block_entries_def split: sum.splits)
  ultimately have "\<forall>e\<in>set (chain_step env chainID (step, blk) chain). re_lc e \<noteq> None" for step blk
    using assms by (cases step) (simp_all add: chain_step_def ball_Un)
  then show ?thesis using assms by (cases inp) simp_all
qed

lemma chain_live: "\<forall>e\<in>set (chain_of env chainID inputs). re_lc e \<noteq> None"
proof -
  have "\<forall>e\<in>set chain. re_lc e \<noteq> None \<Longrightarrow> \<forall>e\<in>set (fold (chain_input env chainID) inputs chain). re_lc e \<noteq> None" for chain
  proof (induction inputs arbitrary: chain)
    case (Cons inp xs)
    show ?case unfolding fold_Cons comp_apply by (rule Cons.IH [OF chain_input_live [OF Cons.prems]])
  qed simp
  from this [of "[]"] show ?thesis by (simp add: chain_of_def)
qed

text \<open>C2: The answers of the hub. After any inputs, with a stream that never undoes an irreversible block, the
  ring keeps the newest transactions of the chain: an answer is given exactly when the hub is ready and has that
  many transactions left, and then it is the newest transactions of the chain, in order, with the irreversible
  ones marked, and a cursor before the block of the last of them. Without undone blocks the hub has as many as
  the chain has and its ring holds.\<close>

theorem snapshot_is_chain_head:
  assumes "NewRecentTxHub n chainID = Inr h0" and "fold_res (hub_handle env) inputs h0 = Inr h" and "stream_ok {} inputs"
  shows "\<exists>held. held \<le> length (chain_of env chainID inputs) \<and> held \<le> nat n \<and>
    (no_undo inputs \<longrightarrow> held = min (nat n) (length (chain_of env chainID inputs))) \<and>
    (\<forall>limit. Snapshot env limit h =
       (if 0 < limit \<and> hub_ready h \<and> nat limit \<le> held
        then Some \<lparr>tl_Cursor = hx_ToOpaque env
                      (syntheticPrevBlockID (re_blockNum (chain_of env chainID inputs ! (nat limit - 1))) @ '':'' @ hexUint16 0xffff),
                   tl_Transactions = map (the \<circ> re_lc) (take (nat limit) (chain_of env chainID inputs))\<rparr>
        else None))"
proof -
  let ?chain = "chain_of env chainID inputs" and ?es = "live (newest_first h)"
  note h0 = new_hub_inv [OF assms(1)]
  obtain irr where inv: "hub_inv irr ?chain h" "hub_size h = nat n" "no_undo inputs \<Longrightarrow> full ?chain h"
    using hub_run_inv [OF assms(2) h0(1) assms(3)] h0 by (auto simp: chain_of_def)
  then obtain rest where rest: "?chain = ?es @ rest" and ring: "ring_ok h" by (auto simp: hub_inv_def prefix_def)
  have size: "length ?es \<le> nat n"
    using length_filter_le [of "\<lambda>e. re_lc e \<noteq> None" "newest_first h"] ring inv(2) by (simp add: newest_first_def ring_ok_def)
  have "length ?es = min (nat n) (length ?chain)" if "no_undo inputs"
  proof -
    have "newest_first h = take (nat n) ?chain" using inv(2,3) that by (simp add: full_def)
    moreover from this have "?es = newest_first h" using chain_live [of env chainID inputs] by (auto simp: filter_id_conv dest: in_set_takeD)
    ultimately show ?thesis by simp
  qed
  moreover have "take (nat limit) ?chain = take (nat limit) ?es \<and> ?chain ! (nat limit - 1) = ?es ! (nat limit - 1)"
    if "0 < limit" "nat limit \<le> length ?es" for limit
    using that unfolding rest by (simp add: nth_append)
  ultimately show ?thesis
    using size Snapshot_live [OF ring] rest by (intro exI [of _ "length ?es"]) (auto simp: Let_def)
qed

definition sample_hub_env :: hub_env where
  "sample_hub_env =
     \<lparr>hx_trx = sample_trxdb_env, hx_mdl = sample_mdl_env, hx_sortSlice = insertion_sort, hx_ToOpaque = (\<lambda>s. s), hx_BlockNum = (\<lambda>s. 0)\<rparr>"

definition sample_hub_block :: "string \<Rightarrow> u32 \<Rightarrow> string list \<Rightarrow> Block" where
  "sample_hub_block blockID number trxs = empty_block\<lparr>blk_Id := blockID, blk_Number := number,
     blk_UnfilteredImplicitTransactionOps := map (\<lambda>trx. \<lparr>trx_Operation = TrxOp_OPERATION_CREATE, trx_Name = ''onblock'', trx_TransactionId = trx,
       trx_Transaction = \<lparr>st_Transaction = \<lparr>tx_ContextFreeActions = [], tx_Actions = []\<rparr>, st_Signatures = []\<rparr>\<rparr>) trxs,
     blk_UnfilteredTransactionTraces := map (\<lambda>trx. TransactionTrace (empty_trace_fields\<lparr>tt_Id := trx\<rparr>) None) trxs\<rparr>"

text \<open>Two blocks, of which the first becomes irreversible, in a ring for two of their three transactions.\<close>

abbreviation "sample_block_a \<equiv> sample_hub_block ''a'' 1 [''t1'', ''t2'']"
abbreviation "sample_block_b \<equiv> sample_hub_block ''b'' 2 [''t3'']"

definition sample_hub_inputs :: "hub_input list" where
  "sample_hub_inputs = [BlockReceived 1 StepNew sample_block_a, BlockReceived 2 StepNew sample_block_b, WatchdogTick 3,
     BlockReceived 4 StepIrreversible sample_block_a]"

lemma sample_hub_chain:
  "map (\<lambda>e. (map_option v1_ID (re_lc e), map_option v1_ExecutionIrreversible (re_lc e))) (chain_of sample_hub_env [] sample_hub_inputs) =
     [(Some ''t3'', Some False), (Some ''t2'', Some True), (Some ''t1'', Some True)]"
  by code_simp

lemma sample_hub_prepared:
  "case prepare_block sample_hub_env [] sample_block_a of Inl _ \<Rightarrow> False | Inr _ \<Rightarrow> True"
  "case prepare_block sample_hub_env [] sample_block_b of Inl _ \<Rightarrow> False | Inr _ \<Rightarrow> True"
  by code_simp+

lemma sample_hub_runs:
  "\<exists>h0 h. NewRecentTxHub 2 [] = Inr h0 \<and> fold_res (hub_handle sample_hub_env) sample_hub_inputs h0 = Inr h \<and> hub_ready h"
proof -
  obtain p q where pq: "prepare_block sample_hub_env [] sample_block_a = Inr p" "prepare_block sample_hub_env [] sample_block_b = Inr q"
    using sample_hub_prepared that
    by (cases "prepare_block sample_hub_env [] sample_block_a"; cases "prepare_block sample_hub_env [] sample_block_b") simp_all
  let ?h0 = "\<lparr>hub_ring = replicate 2 no_entry, hub_head = 0, hub_count = 0, hub_blockIdx = Map.empty, hub_size = 2, hub_chainID = [],
    hub_ready = False, hub_lastBlockNano = 0\<rparr>"
  have "NewRecentTxHub 2 [] = Inr ?h0" by (simp add: NewRecentTxHub_def)
  moreover have "\<exists>h. fold_res (hub_handle sample_hub_env) sample_hub_inputs ?h0 = Inr h \<and> hub_ready h"
    using pq appends_fields by (simp add: sample_hub_inputs_def hub_handle_def handle_block_def watchdog_tick_def hub_step_def onStepNew_def watchdogStall_def)
  ultimately show ?thesis by blast
qed

theorem snapshot_is_chain_head_witness:
  "\<exists>h0 h answer. NewRecentTxHub 2 [] = Inr h0 \<and> fold_res (hub_handle sample_hub_env) sample_hub_inputs h0 = Inr h \<and>
     Snapshot sample_hub_env 2 h = Some answer \<and>
     map (\<lambda>lc. (v1_ID lc, v1_ExecutionIrreversible lc)) (tl_Transactions answer) = [(''t3'', False), (''t2'', True)]"
proof -
  obtain h0 h where h: "NewRecentTxHub 2 [] = Inr h0" "fold_res (hub_handle sample_hub_env) sample_hub_inputs h0 = Inr h" "hub_ready h"
    using sample_hub_runs by blast
  let ?chain = "chain_of sample_hub_env [] sample_hub_inputs"
  have ok: "stream_ok {} sample_hub_inputs" "no_undo sample_hub_inputs" by (simp_all add: sample_hub_inputs_def no_undo_def)
  obtain x y z where xyz: "?chain = [x, y, z]" "map_option v1_ID (re_lc x) = Some ''t3''" "map_option v1_ExecutionIrreversible (re_lc x) = Some False"
      "map_option v1_ID (re_lc y) = Some ''t2''" "map_option v1_ExecutionIrreversible (re_lc y) = Some True"
    using sample_hub_chain by (auto simp: map_eq_Cons_conv)
  obtain held where held: "held = min (nat 2) (length ?chain)"
      "Snapshot sample_hub_env 2 h = (if 0 < (2::int) \<and> hub_ready h \<and> nat 2 \<le> held
        then Some \<lparr>tl_Cursor = hx_ToOpaque sample_hub_env (syntheticPrevBlockID (re_blockNum (?chain ! (nat 2 - 1))) @ '':'' @ hexUint16 0xffff),
                   tl_Transactions = map (the \<circ> re_lc) (take (nat 2) ?chain)\<rparr> else None)"
    using snapshot_is_chain_head [OF h(1,2) ok(1)] ok(2) by blast
  then have "Snapshot sample_hub_env 2 h = Some
      \<lparr>tl_Cursor = hx_ToOpaque sample_hub_env (syntheticPrevBlockID (re_blockNum y) @ '':'' @ hexUint16 0xffff),
       tl_Transactions = [the (re_lc x), the (re_lc y)]\<rparr>"
    unfolding xyz(1) using h(3) by simp
  then show ?thesis using h(1,2) xyz by auto
qed

end
