(* ===== verification/TrxLists.thy ===== *)
theory TrxLists
  imports RecentTxProps
begin

text \<open>
  The queries for transactions of \<open>eosws/db.go\<close>, over a reader of the transaction database, and the handler of
  \<open>eosws/rest/list_transactions.go\<close> that answers from the ring first. The reader is a record of operations, as the
  code has it; the hexadecimal encoding of indexes in cursors is that of another repository. The loop over the
  blocks may not end for every reader: it is on fuel, and \<open>None\<close> is its end.
\<close>

section \<open>Reader\<close>

record trx_reader =
  rd_GetTransactionEvents :: "string \<Rightarrow> trxdb_error + TransactionEvent list"
  rd_GetTransactionEventsBatch :: "string list \<Rightarrow> trxdb_error + TransactionEvent list list"
  rd_GetBlock :: "string \<Rightarrow> trxdb_error + BlockWithRefs"
  rd_ListBlocks :: "u32 \<Rightarrow> nat \<Rightarrow> trxdb_error + BlockWithRefs list"
  rd_HexUint16 :: "u16 \<Rightarrow> string"
  rd_FromHexUint16 :: "string \<Rightarrow> u16 option"

datatype list_error = LsPanic | LsNotFound | LsInvalidCursor | LsReader trxdb_error | LsConversion

definition of_reader :: "trxdb_error + 'a \<Rightarrow> list_error + 'a" where
  "of_reader r = map_sum LsReader (\<lambda>x. x) r"

text \<open>The discriminator of the constructor lets every block through.\<close>

definition chainDiscriminator :: "string \<Rightarrow> bool" where
  "chainDiscriminator blockID = True"

definition merged :: "hub_env \<Rightarrow> TransactionEvent list \<Rightarrow> list_error + TransactionLifecycle option" where
  "merged env evs =
     (case MergeTransactionEvents (hx_sortSlice env) evs chainDiscriminator of Inl _ \<Rightarrow> Inl LsPanic | Inr lc \<Rightarrow> Inr lc)"

text \<open>An error of the reader that is not \<open>not found\<close>.\<close>

definition found_events :: "trxdb_error + TransactionEvent list \<Rightarrow> list_error + TransactionEvent list" where
  "found_events r =
     (case r of
        Inl e \<Rightarrow> if e = DbNotFound then Inl LsNotFound else Inl (LsReader e)
      | Inr evs \<Rightarrow> if evs = [] then Inl LsNotFound else Inr evs)"

definition GetTransactionWithExpectedBlockID ::
  "hub_env \<Rightarrow> trx_reader \<Rightarrow> string \<Rightarrow> string \<Rightarrow> list_error + TransactionLifecycle option" where
  "GetTransactionWithExpectedBlockID env db trxID expectedBlockID =
     bind_res (found_events (rd_GetTransactionEvents db trxID)) (\<lambda>evs.
       if \<exists>ev\<in>set evs. ev_BlockId ev = expectedBlockID then merged env evs else Inl LsNotFound)"

definition GetTransaction :: "hub_env \<Rightarrow> trx_reader \<Rightarrow> string \<Rightarrow> list_error + TransactionLifecycle option" where
  "GetTransaction env db trxID = bind_res (found_events (rd_GetTransactionEvents db trxID)) (merged env)"

definition GetTransactions :: "hub_env \<Rightarrow> trx_reader \<Rightarrow> string list \<Rightarrow> list_error + TransactionLifecycle option list" where
  "GetTransactions env db ids =
     bind_res (of_reader (rd_GetTransactionEventsBatch db ids)) (\<lambda>evs.
       map_res (\<lambda>ev. if ev = [] then Inl LsNotFound else merged env ev) evs)"

definition to_v1 :: "hub_env \<Rightarrow> TransactionEvent list \<Rightarrow> list_error + v1_TransactionLifecycle" where
  "to_v1 env evs =
     bind_res (merged env evs) (\<lambda>lc.
     bind_res (from_opt LsPanic lc) (\<lambda>l.
       case ToV1TransactionLifecycle (hx_mdl env) l of
         Inl MdPanic \<Rightarrow> Inl LsPanic
       | Inl MdMarshal \<Rightarrow> Inl LsConversion
       | Inr v \<Rightarrow> Inr v))"

section \<open>Transactions of a block\<close>

definition allRefsHashes :: "BlockWithRefs \<Rightarrow> bytes list" where
  "allRefsHashes blk = bwr_ImplicitTransactionRefs blk @ bwr_TransactionTraceRefs blk"

text \<open>The loop over the identifiers, with its index of sixteen bits and the early end.\<close>

fun collect_ids :: "nat \<Rightarrow> u16 \<Rightarrow> (nat \<times> bytes) list \<Rightarrow> string list \<Rightarrow> u16 \<Rightarrow> string list \<times> u16" where
  "collect_ids limit startTrxIndex [] trxIDs nextTrxIndex = (trxIDs, nextTrxIndex)"
| "collect_ids limit startTrxIndex ((trxIndex, trxIDBytes) # refs) trxIDs nextTrxIndex =
     (if (of_nat trxIndex :: u16) < startTrxIndex then collect_ids limit startTrxIndex refs trxIDs nextTrxIndex
      else if length trxIDs \<ge> limit + 1 then (trxIDs, of_nat trxIndex)
      else collect_ids limit startTrxIndex refs (trxIDs @ [hex_EncodeToString trxIDBytes]) (of_nat trxIndex))"

definition ListTransactionsForBlockID ::
  "hub_env \<Rightarrow> trx_reader \<Rightarrow> string \<Rightarrow> string \<Rightarrow> int \<Rightarrow> list_error + TransactionList" where
  "ListTransactionsForBlockID env db blockID startKey limit =
     (if limit < 1 then Inr \<lparr>tl_Cursor = hx_ToOpaque env startKey, tl_Transactions = []\<rparr>
      else
        bind_res (of_reader (rd_GetBlock db blockID)) (\<lambda>block.
        bind_res (if startKey \<noteq> '''' then from_opt LsInvalidCursor (rd_FromHexUint16 db startKey) else Inr 0) (\<lambda>startTrxIndex.
          case collect_ids (nat limit) startTrxIndex (enumerate 0 (allRefsHashes block)) [] 0 of
            (trxIDs, nextTrxIndex) \<Rightarrow>
              bind_res (of_reader (rd_GetTransactionEventsBatch db trxIDs)) (\<lambda>trxList.
              bind_res (map_res (\<lambda>evs. if evs = [] then Inl LsNotFound else to_v1 env evs) trxList) (\<lambda>lifecycles.
                Inr \<lparr>tl_Cursor = hx_ToOpaque env (rd_HexUint16 db nextTrxIndex), tl_Transactions = take (nat limit) lifecycles\<rparr>)))))"

section \<open>Most recent transactions\<close>

definition fromCursorKey :: "trx_reader \<Rightarrow> string \<Rightarrow> list_error + string \<times> u16" where
  "fromCursorKey db startKey =
     (case Split CHR '':'' startKey of
        [blockID, rawTrxIndex] \<Rightarrow> map_sum (\<lambda>e. e) (\<lambda>i. (blockID, i)) (from_opt LsInvalidCursor (map_option of_nat (parse_hex_below 65536 rawTrxIndex)))
      | _ \<Rightarrow> Inl LsInvalidCursor)"

record recent_state =
  rs_list :: "TransactionEvent list list"
  rs_seenTrx :: "string \<rightharpoonup> u16 \<times> string"
  rs_seenBlock :: "string set"
  rs_next :: u32

text \<open>The identifiers of a block that are new, the last one first.\<close>

definition fetch_step ::
  "BlockWithRefs \<Rightarrow> string \<times> u16 \<Rightarrow> nat \<Rightarrow> string list \<times> (string \<rightharpoonup> u16 \<times> string) \<Rightarrow> string list \<times> (string \<rightharpoonup> u16 \<times> string)" where
  "fetch_step blk start trxIndex st =
     (case (start, st) of ((startBlockID, startTrxIndex), (fetchTransactions, seenTrx)) \<Rightarrow>
        let trxID = hex_EncodeToString (allRefsHashes blk ! trxIndex)
        in if bwr_Id blk = startBlockID \<and> trxIndex > unat startTrxIndex then st
           else if seenTrx trxID = None
           then (fetchTransactions @ [trxID], seenTrx(trxID \<mapsto> (of_nat trxIndex, bwr_Id blk)))
           else st)"

definition fetchTransactions :: "BlockWithRefs \<Rightarrow> string \<times> u16 \<Rightarrow> (string \<rightharpoonup> u16 \<times> string) \<Rightarrow> string list \<times> (string \<rightharpoonup> u16 \<times> string)" where
  "fetchTransactions blk start seenTrx = fold (fetch_step blk start) (rev [0..<length (allRefsHashes blk)]) ([], seenTrx)"

fun recent_blocks ::
  "hub_env \<Rightarrow> trx_reader \<Rightarrow> nat \<Rightarrow> string \<times> u16 \<Rightarrow> BlockWithRefs list \<Rightarrow> recent_state \<Rightarrow> list_error + recent_state" where
  "recent_blocks env db limit start [] st = Inr st"
| "recent_blocks env db limit start (blk # blks) st =
     (if length (rs_list st) > limit + 1 then Inr st
      else if bwr_Id blk \<in> rs_seenBlock st then Inr st
      else
        let st1 = st\<lparr>rs_seenBlock := insert (bwr_Id blk) (rs_seenBlock st)\<rparr>
        in if \<not> chainDiscriminator (bwr_Id blk) then recent_blocks env db limit start blks st1
           else case fetchTransactions blk start (rs_seenTrx st1) of
                  (fetch, seenTrx) \<Rightarrow>
                    bind_res (of_reader (rd_GetTransactionEventsBatch db fetch)) (\<lambda>responses.
                      recent_blocks env db limit start blks
                        (st1\<lparr>rs_seenTrx := seenTrx, rs_list := rs_list st1 @ filter (\<lambda>resp. resp \<noteq> []) responses,
                             rs_next := hx_BlockNum env (bwr_Id blk) - 1\<rparr>)))"

definition blockCount :: nat where "blockCount = 5"

fun recent_loop ::
  "nat \<Rightarrow> hub_env \<Rightarrow> trx_reader \<Rightarrow> nat \<Rightarrow> string \<times> u16 \<Rightarrow> recent_state \<Rightarrow> (list_error + recent_state) option" where
  "recent_loop 0 env db limit start st = None"
| "recent_loop (Suc fuel) env db limit start st =
     (if length (rs_list st) \<ge> limit + 1 then Some (Inr st)
      else case rd_ListBlocks db (rs_next st) blockCount of
             Inl e \<Rightarrow> Some (Inl (LsReader e))
           | Inr blks \<Rightarrow>
               (case recent_blocks env db limit start blks st of
                  Inl e \<Rightarrow> Some (Inl e)
                | Inr st1 \<Rightarrow> if length blks < blockCount then Some (Inr st1) else recent_loop fuel env db limit start st1))"

definition finish_recent :: "hub_env \<Rightarrow> trx_reader \<Rightarrow> nat \<Rightarrow> recent_state \<Rightarrow> list_error + TransactionList" where
  "finish_recent env db limit st =
     bind_res (if length (rs_list st) > limit
               then bind_res (from_opt LsNotFound (rs_seenTrx st (ev_Id (hd (rs_list st ! limit))))) (\<lambda>(idx, blockID).
                      Inr (hx_ToOpaque env (blockID @ '':'' @ rd_HexUint16 db idx)))
               else Inr []) (\<lambda>cursor.
     bind_res (map_res (to_v1 env) (if length (rs_list st) < limit then rs_list st else take limit (rs_list st))) (\<lambda>transactions.
       Inr \<lparr>tl_Cursor = cursor, tl_Transactions = transactions\<rparr>))"

definition ListMostRecentTransactions ::
  "nat \<Rightarrow> hub_env \<Rightarrow> trx_reader \<Rightarrow> string \<Rightarrow> int \<Rightarrow> (list_error + TransactionList) option" where
  "ListMostRecentTransactions fuel env db startKey limit =
     (if limit < 1 then Some (Inr \<lparr>tl_Cursor = hx_ToOpaque env startKey, tl_Transactions = []\<rparr>)
      else case (if startKey \<noteq> '''' then map_sum (\<lambda>e. e) (\<lambda>(b, i). (hx_BlockNum env b, b, i)) (fromCursorKey db startKey)
                 else Inr (- 1, [], 0)) of
             Inl e \<Rightarrow> Some (Inl e)
           | Inr (nextBlockNum, start) \<Rightarrow>
               map_option (\<lambda>r. bind_res r (finish_recent env db (nat limit)))
                 (recent_loop fuel env db (nat limit) start
                    \<lparr>rs_list = [], rs_seenTrx = Map.empty, rs_seenBlock = {}, rs_next = nextBlockNum\<rparr>))"

section \<open>Handler\<close>

definition ListTransactionsHandler ::
  "nat \<Rightarrow> hub_env \<Rightarrow> trx_reader \<Rightarrow> RecentTxHub option \<Rightarrow> string \<Rightarrow> int \<Rightarrow> (list_error + TransactionList) option" where
  "ListTransactionsHandler fuel env db recentTx cursor limit =
     (case (if cursor = '''' then Option.bind recentTx (Snapshot env limit) else None) of
        Some list \<Rightarrow> Some (Inr list)
      | None \<Rightarrow> ListMostRecentTransactions fuel env db cursor limit)"

section \<open>Pages of a block\<close>

lemma collect_ids_from:
  "\<lbrakk>k + length refs \<le> 65536; unat start \<le> k; length ids + m = limit + 1; m < length refs\<rbrakk> \<Longrightarrow>
   collect_ids limit start (enumerate k refs) ids next = (ids @ map hex_EncodeToString (take m refs), of_nat (k + m))"
proof (induction refs arbitrary: k ids m "next")
  case (Cons r refs)
  have k: "\<not> (of_nat k :: u16) < start" using Cons.prems(1,2)
    by (simp add: word_less_nat_alt unsigned_of_nat take_bit_nat_eq_self)
  show ?case
  proof (cases m)
    case 0
    then show ?thesis using Cons.prems k by simp
  next
    case (Suc m')
    then have "collect_ids limit start (enumerate (Suc k) refs) (ids @ [hex_EncodeToString r]) (of_nat k) =
        ((ids @ [hex_EncodeToString r]) @ map hex_EncodeToString (take m' refs), of_nat (Suc k + m'))"
      using Cons.prems by (intro Cons.IH) auto
    then show ?thesis using Cons.prems k Suc by simp
  qed
qed simp

lemma collect_ids_page:
  assumes "length refs \<le> 65536" and "unat start + limit + 1 < length refs"
  shows "collect_ids limit start (enumerate 0 refs) [] 0 =
    (map hex_EncodeToString (take (limit + 1) (drop (unat start) refs)), of_nat (unat start + limit + 1))"
proof -
  have s: "unat start < 65536" using unsigned_less [of start] by simp
  have skip: "collect_ids limit start (enumerate k xs @ ys) [] 0 = collect_ids limit start ys [] 0"
    if "k + length xs \<le> unat start" for k and xs :: "bytes list" and ys
    using that
  proof (induction xs arbitrary: k)
    case (Cons x xs)
    have "(of_nat k :: u16) < start"
      using Cons.prems s by (simp add: word_less_nat_alt unsigned_of_nat take_bit_nat_eq_self)
    then show ?case using Cons by simp
  qed simp
  have "enumerate 0 refs = enumerate 0 (take (unat start) refs) @ enumerate (unat start) (drop (unat start) refs)"
    using assms(2) enumerate_append_eq [of 0 "take (unat start) refs" "drop (unat start) refs"] by simp
  then show ?thesis
    using skip [of 0 "take (unat start) refs"] collect_ids_from [of "unat start" "drop (unat start) refs" start "[]" "limit + 1" limit 0] assms
    by simp
qed

text \<open>A reader that finds every transaction: the lifecycle of an identifier is \<open>lc\<close>.\<close>

definition reader_finds :: "hub_env \<Rightarrow> trx_reader \<Rightarrow> (string \<Rightarrow> v1_TransactionLifecycle) \<Rightarrow> bool" where
  "reader_finds env db lc \<longleftrightarrow>
     (\<forall>ids. \<exists>evs. rd_GetTransactionEventsBatch db ids = Inr evs \<and>
        map_res (\<lambda>e. if e = [] then Inl LsNotFound else to_v1 env e) evs = Inr (map lc ids)) \<and>
     (\<forall>i. rd_HexUint16 db i \<noteq> [] \<and> rd_FromHexUint16 db (rd_HexUint16 db i) = Some i)"

lemma block_page:
  assumes "reader_finds env db lc" and "rd_GetBlock db b = Inr block" and "length (allRefsHashes block) \<le> 65536" and "0 < limit"
    and "unat start + limit + 1 < length (allRefsHashes block)" and "key = rd_HexUint16 db start \<or> key = [] \<and> start = 0"
  shows "ListTransactionsForBlockID env db b key (int limit) =
    Inr \<lparr>tl_Cursor = hx_ToOpaque env (rd_HexUint16 db (of_nat (unat start + limit + 1))),
         tl_Transactions = map (lc \<circ> hex_EncodeToString) (take limit (drop (unat start) (allRefsHashes block)))\<rparr>"
proof -
  let ?ids = "map hex_EncodeToString (take (limit + 1) (drop (unat start) (allRefsHashes block)))"
  obtain evs where evs: "rd_GetTransactionEventsBatch db ?ids = Inr evs"
      "map_res (\<lambda>e. if e = [] then Inl LsNotFound else to_v1 env e) evs = Inr (map lc ?ids)"
    using assms(1) unfolding reader_finds_def by blast
  have key: "(if key \<noteq> [] then from_opt LsInvalidCursor (rd_FromHexUint16 db key) else Inr 0) = Inr start"
    using assms(1,6) by (auto simp: reader_finds_def)
  have "take limit (map lc ?ids) = map (lc \<circ> hex_EncodeToString) (take limit (drop (unat start) (allRefsHashes block)))"
    by (simp add: take_map)
  then show ?thesis
    using assms(2,4) evs collect_ids_page [OF assms(3,5)] key
    by (simp add: ListTransactionsForBlockID_def of_reader_def)
qed

text \<open>C27: Paging through the transactions of a block loses transactions. A page that starts at an index has the
  limit of transactions from there, but its cursor is one more than the index after the last of them: the page
  after it starts there, and the transaction between the two is on neither page.\<close>

theorem block_pages_skip:
  assumes "reader_finds env db lc" and "rd_GetBlock db b = Inr block" and "length (allRefsHashes block) \<le> 65536" and "0 < limit"
    and "unat start + 2 * (limit + 1) < length (allRefsHashes block)" and "key = rd_HexUint16 db start \<or> key = [] \<and> start = 0"
  shows "\<exists>nextKey nextPage. ListTransactionsForBlockID env db b key (int limit) =
      Inr \<lparr>tl_Cursor = hx_ToOpaque env nextKey,
           tl_Transactions = map (lc \<circ> hex_EncodeToString) (take limit (drop (unat start) (allRefsHashes block)))\<rparr> \<and>
    ListTransactionsForBlockID env db b nextKey (int limit) = Inr nextPage \<and>
    tl_Transactions nextPage = map (lc \<circ> hex_EncodeToString) (take limit (drop (Suc (unat start + limit)) (allRefsHashes block)))"
proof -
  define nx where "nx = (of_nat (unat start + limit + 1) :: u16)"
  have n: "unat nx = Suc (unat start + limit)"
    using assms(3,5) unfolding nx_def by (simp only: unsigned_of_nat) (simp add: take_bit_nat_eq_self)
  have a: "unat start + limit + 1 < length (allRefsHashes block)" using assms(5) by simp
  have b: "unat nx + limit + 1 < length (allRefsHashes block)" unfolding n using assms(5) by simp
  show ?thesis
    using block_page [OF assms(1-4) a assms(6), folded nx_def] block_page [OF assms(1-4) b disjI1 [OF refl], unfolded n]
    by (intro exI [of _ "rd_HexUint16 db nx"]) auto
qed

section \<open>The loop over the blocks\<close>

text \<open>A reader that lists blocks as documented: at most at the number asked for, the highest first. Blocks are
  numbered from one.\<close>

definition lists_down :: "hub_env \<Rightarrow> trx_reader \<Rightarrow> bool" where
  "lists_down env db \<longleftrightarrow>
     (\<forall>n blks. rd_ListBlocks db n blockCount = Inr blks \<longrightarrow>
        sorted_wrt (\<lambda>x y. hx_BlockNum env (bwr_Id y) \<le> hx_BlockNum env (bwr_Id x)) blks \<and>
        (\<forall>blk\<in>set blks. 0 < hx_BlockNum env (bwr_Id blk) \<and> hx_BlockNum env (bwr_Id blk) \<le> n))"

definition seen_above :: "hub_env \<Rightarrow> recent_state \<Rightarrow> bool" where
  "seen_above env st \<longleftrightarrow> (\<forall>b\<in>rs_seenBlock st. rs_next st < hx_BlockNum env b)"

lemma word_pred_less:
  assumes "0 < (n::u32)"
  shows "n - 1 < n" and "\<lbrakk>0 < k; k \<le> n\<rbrakk> \<Longrightarrow> k - 1 \<le> n - 1"
proof -
  have pred: "unat (m - 1) = unat m - 1" if "0 < m" for m :: u32 using that by (intro unat_minus_one) auto
  show "n - 1 < n" using assms pred [OF assms] by (simp add: word_less_nat_alt)
  show "k - 1 \<le> n - 1" if "0 < k" "k \<le> n" using that pred [OF that(1)] pred [OF assms] by (simp add: word_le_nat_alt)
qed

lemma recent_blocks_above:
  assumes "recent_blocks env db limit start blks st = Inr st'" and "seen_above env st"
    and "sorted_wrt (\<lambda>x y. hx_BlockNum env (bwr_Id y) \<le> hx_BlockNum env (bwr_Id x)) blks"
    and "\<forall>blk\<in>set blks. 0 < hx_BlockNum env (bwr_Id blk)"
    and "\<forall>blk\<in>set blks. hx_BlockNum env (bwr_Id blk) - 1 \<le> rs_next st"
  shows "seen_above env st' \<and> rs_next st' \<le> rs_next st"
  using assms
proof (induction blks arbitrary: st)
  case (Cons blk blks)
  let ?n = "hx_BlockNum env (bwr_Id blk)"
  show ?case
  proof (cases "length (rs_list st) > limit + 1 \<or> bwr_Id blk \<in> rs_seenBlock st")
    case True
    then have "st' = st" using Cons.prems(1) by (simp split: if_splits)
    then show ?thesis using Cons.prems(2) by simp
  next
    case False
    obtain fetch seenTrx where f: "fetchTransactions blk start (rs_seenTrx st) = (fetch, seenTrx)" by fastforce
    obtain responses where r: "recent_blocks env db limit start blks
          (st\<lparr>rs_seenBlock := insert (bwr_Id blk) (rs_seenBlock st), rs_seenTrx := seenTrx,
              rs_list := rs_list st @ filter (\<lambda>resp. resp \<noteq> []) responses, rs_next := ?n - 1\<rparr>) = Inr st'"
      using Cons.prems(1) False f by (auto simp: chainDiscriminator_def res_simps Let_def)
    have n: "0 < ?n" "?n - 1 \<le> rs_next st" using Cons.prems(4,5) by auto
    have "?n - 1 < ?n" by (rule word_pred_less(1) [OF n(1)])
    then have "\<forall>b\<in>insert (bwr_Id blk) (rs_seenBlock st). ?n - 1 < hx_BlockNum env b"
      using Cons.prems(2) n(2) by (auto simp: seen_above_def)
    then show ?thesis
      using Cons.IH [OF r] Cons.prems(3,4) n word_pred_less(2) [OF n(1)] by (auto simp: seen_above_def)
  qed
qed simp

text \<open>The first block of a batch is always new, so the next number decreases.\<close>

lemma recent_blocks_decrease:
  assumes "recent_blocks env db limit start (blk # blks) st = Inr st'" and "seen_above env st" and "length (rs_list st) \<le> limit"
    and "sorted_wrt (\<lambda>x y. hx_BlockNum env (bwr_Id y) \<le> hx_BlockNum env (bwr_Id x)) (blk # blks)"
    and "\<forall>b\<in>set (blk # blks). 0 < hx_BlockNum env (bwr_Id b) \<and> hx_BlockNum env (bwr_Id b) \<le> rs_next st"
  shows "seen_above env st' \<and> rs_next st' < rs_next st"
proof -
  let ?n = "hx_BlockNum env (bwr_Id blk)"
  obtain fetch seenTrx where f: "fetchTransactions blk start (rs_seenTrx st) = (fetch, seenTrx)" by fastforce
  have "bwr_Id blk \<notin> rs_seenBlock st" using assms(2,5) by (auto simp: seen_above_def)
  then obtain responses where r: "recent_blocks env db limit start blks
          (st\<lparr>rs_seenBlock := insert (bwr_Id blk) (rs_seenBlock st), rs_seenTrx := seenTrx,
              rs_list := rs_list st @ filter (\<lambda>resp. resp \<noteq> []) responses, rs_next := ?n - 1\<rparr>) = Inr st'" (is "recent_blocks _ _ _ _ _ ?st = _")
    using assms(1,3) f by (auto simp: chainDiscriminator_def res_simps Let_def)
  have n: "0 < ?n" "?n \<le> rs_next st" using assms(5) by auto
  have less: "?n - 1 < ?n" by (rule word_pred_less(1) [OF n(1)])
  have "seen_above env ?st" using assms(2) less n(2) by (auto simp: seen_above_def)
  then have "seen_above env st' \<and> rs_next st' \<le> ?n - 1"
    using recent_blocks_above [OF r] assms(4,5) word_pred_less(2) [OF n(1)] by auto
  then show ?thesis using less n(2) by auto
qed

lemma recent_loop_ends:
  assumes "lists_down env db"
  shows "\<lbrakk>seen_above env st; unat (rs_next st) < fuel\<rbrakk> \<Longrightarrow> recent_loop (Suc fuel) env db limit start st \<noteq> None"
proof (induction fuel arbitrary: st)
  case (Suc fuel)
  show ?case
  proof (cases "length (rs_list st) \<ge> limit + 1 \<or> (\<exists>e. rd_ListBlocks db (rs_next st) blockCount = Inl e)")
    case True
    then show ?thesis by auto
  next
    case False
    then obtain blks where blks: "rd_ListBlocks db (rs_next st) blockCount = Inr blks" by (cases "rd_ListBlocks db (rs_next st) blockCount") auto
    show ?thesis
    proof (cases "recent_blocks env db limit start blks st")
      case (Inl e)
      then show ?thesis using False blks by simp
    next
      case (Inr st1)
      show ?thesis
      proof (cases blks)
        case Nil
        then show ?thesis using False blks by (simp add: blockCount_def)
      next
        case (Cons blk rest)
        have len: "length (rs_list st) \<le> limit" using False by simp
        have "sorted_wrt (\<lambda>x y. hx_BlockNum env (bwr_Id y) \<le> hx_BlockNum env (bwr_Id x)) (blk # rest)"
            "\<forall>b\<in>set (blk # rest). 0 < hx_BlockNum env (bwr_Id b) \<and> hx_BlockNum env (bwr_Id b) \<le> rs_next st"
          using assms blks Cons unfolding lists_down_def by blast+
        then have "seen_above env st1 \<and> rs_next st1 < rs_next st"
          using recent_blocks_decrease [OF Inr [unfolded Cons] Suc.prems(1) len] by blast
        then have "recent_loop (Suc fuel) env db limit start st1 \<noteq> None"
          using Suc.prems(2) by (intro Suc.IH) (auto simp: word_less_nat_alt)
        then show ?thesis using False blks Inr by (simp del: recent_loop.simps(2) add: recent_loop.simps(2) [of "Suc fuel"])
      qed
    qed
  qed
qed simp

text \<open>C26: The search for the most recent transactions ends. With a reader that lists blocks as documented, the loop
  of \<open>ListMostRecentTransactions\<close> makes at most one round for every block number below its start, for any cursor
  and limit, so the request is answered, with a list or with an error, and a list has at most the limit of
  transactions.\<close>

theorem most_recent_terminates:
  assumes "lists_down env db" and "2 ^ 32 < fuel"
  shows "\<exists>r. ListMostRecentTransactions fuel env db startKey limit = Some r \<and>
    (\<forall>list. r = Inr list \<longrightarrow> int (length (tl_Transactions list)) \<le> max 0 limit)"
proof -
  have bound: "int (length (tl_Transactions list)) \<le> max 0 limit" if "finish_recent env db (nat limit) st = Inr list" for st list
  proof -
    have len: "map_res f xs = Inr ys \<Longrightarrow> length ys = length xs" for f :: "TransactionEvent list \<Rightarrow> list_error + v1_TransactionLifecycle" and xs ys
      by (induction xs arbitrary: ys) (auto simp: res_simps)
    show ?thesis using that by (auto simp: finish_recent_def res_simps dest!: len)
  qed
  obtain fuel' where fuel': "fuel = Suc fuel'" "2 ^ 32 \<le> fuel'" using assms(2) by (cases fuel) auto
  have ends: "recent_loop fuel env db l start \<lparr>rs_list = [], rs_seenTrx = Map.empty, rs_seenBlock = {}, rs_next = n\<rparr> \<noteq> None" for l start n
    unfolding fuel'(1) using unsigned_less [of n] fuel'(2)
    by (intro recent_loop_ends [OF assms(1)]) (auto simp: seen_above_def intro: less_le_trans)
  show ?thesis
  proof (cases "ListMostRecentTransactions fuel env db startKey limit")
    case None
    then show ?thesis by (auto simp: ListMostRecentTransactions_def ends split: if_splits sum.splits)
  next
    case (Some r)
    have "int (length (tl_Transactions list)) \<le> max 0 limit" if "r = Inr list" for list
      using Some that by (auto simp: ListMostRecentTransactions_def res_simps split: if_splits sum.splits dest!: bound)
    then show ?thesis using Some by blast
  qed
qed

section \<open>Example\<close>

definition sample_ref :: "nat \<Rightarrow> bytes" where "sample_ref i = [of_nat i]"

definition sample_block_refs :: BlockWithRefs where
  "sample_block_refs = \<lparr>bwr_Id = ''b'', bwr_Block = empty_block, bwr_ImplicitTransactionRefs = [sample_ref 0],
     bwr_TransactionRefs = [], bwr_TransactionTraceRefs = map sample_ref [1, 2, 3, 4, 5, 6], bwr_Irreversible = False\<rparr>"

definition sample_trx_event :: "string \<Rightarrow> TransactionEvent" where
  "sample_trx_event trxID = \<lparr>ev_Id = trxID, ev_BlockId = ''b'', ev_BlockNum = 7, ev_Irreversible = False,
     ev_Event = Some (EvExecution (TransactionTrace (empty_trace_fields\<lparr>tt_Id := trxID\<rparr>) None))\<rparr>"

definition sample_trx_reader :: trx_reader where
  "sample_trx_reader =
     \<lparr>rd_GetTransactionEvents = (\<lambda>trxID. Inr [sample_trx_event trxID]),
      rd_GetTransactionEventsBatch = (\<lambda>ids. Inr (map (\<lambda>trxID. [sample_trx_event trxID]) ids)),
      rd_GetBlock = (\<lambda>b. Inr sample_block_refs), rd_ListBlocks = (\<lambda>n k. if 7 \<le> n then Inr [sample_block_refs] else Inr []),
      rd_HexUint16 = (\<lambda>i. format_hex_padded 4 (unat i)), rd_FromHexUint16 = (\<lambda>s. map_option of_nat (parse_hex_below 65536 s))\<rparr>"

definition sample_list_env :: hub_env where
  "sample_list_env = sample_hub_env\<lparr>hx_BlockNum := (\<lambda>b. 7)\<rparr>"

definition sample_v1 :: "string \<Rightarrow> v1_TransactionLifecycle" where
  "sample_v1 trxID = (case to_v1 sample_list_env [sample_trx_event trxID] of Inl _ \<Rightarrow> undefined | Inr v \<Rightarrow> v)"

lemma sample_to_v1: "to_v1 sample_list_env [sample_trx_event trxID] = Inr (sample_v1 trxID)"
proof -
  have "\<exists>v. to_v1 sample_list_env [sample_trx_event trxID] = Inr v"
    by (simp add: to_v1_def merged_def MergeTransactionEvents_def sortEvents_def sample_list_env_def sample_hub_env_def
        insertion_sort_def merge_event_def sample_trx_event_def skip_def chainDiscriminator_def apply_event_def merge_execution_def
        empty_lifecycle_def finish_lifecycle_def ToV1TransactionLifecycle_def ToV1ExtDTrxOp_def with_execution_def
        empty_trace_fields_def ToV1ActionTraces_def sample_mdl_env_def new_forest_def ToV1RAMOps_def ToV1DTrxOps_def Let_def)
  then show ?thesis by (auto simp: sample_v1_def)
qed

lemma sample_reader_finds: "reader_finds sample_list_env sample_trx_reader sample_v1"
proof -
  have u: "unat (i :: u16) < 65536" for i using unsigned_less [of i] by simp
  have "map_res (\<lambda>e. if e = [] then Inl LsNotFound else to_v1 sample_list_env e) (map (\<lambda>trxID. [sample_trx_event trxID]) ids) =
      Inr (map sample_v1 ids)" for ids
    by (induction ids) (simp_all add: sample_to_v1)
  moreover have "format_hex_padded 4 (unat i) \<noteq> []" for i :: u16
    using parse_hex_padded [of 65536 4 "unat i"] u [of i] by (auto simp: parse_hex_below_def)
  ultimately show ?thesis by (simp add: reader_finds_def sample_trx_reader_def u)
qed

theorem block_pages_skip_witness:
  "\<exists>nextKey nextPage. ListTransactionsForBlockID sample_list_env sample_trx_reader ''b'' [] 2 =
      Inr \<lparr>tl_Cursor = hx_ToOpaque sample_list_env nextKey, tl_Transactions = [sample_v1 ''00'', sample_v1 ''01'']\<rparr> \<and>
    ListTransactionsForBlockID sample_list_env sample_trx_reader ''b'' nextKey 2 = Inr nextPage \<and>
    tl_Transactions nextPage = [sample_v1 ''03'', sample_v1 ''04'']"
proof -
  have refs: "allRefsHashes sample_block_refs = map sample_ref [0, 1, 2, 3, 4, 5, 6]"
    by (simp add: allRefsHashes_def sample_block_refs_def)
  have ids: "hex_EncodeToString (sample_ref 0) = ''00''" "hex_EncodeToString (sample_ref 1) = ''01''"
      "hex_EncodeToString (sample_ref 3) = ''03''" "hex_EncodeToString (sample_ref 4) = ''04''" by code_simp+
  have "rd_GetBlock sample_trx_reader ''b'' = Inr sample_block_refs" by (simp add: sample_trx_reader_def)
  moreover have "map (sample_v1 \<circ> hex_EncodeToString) (take 2 (allRefsHashes sample_block_refs)) = [sample_v1 ''00'', sample_v1 ''01'']"
      "map (sample_v1 \<circ> hex_EncodeToString) (take 2 (drop (Suc (Suc (Suc 0))) (allRefsHashes sample_block_refs))) = [sample_v1 ''03'', sample_v1 ''04'']"
    unfolding refs by (simp_all add: ids [simplified])
  moreover have "length (allRefsHashes sample_block_refs) = 7" by (simp add: refs)
  ultimately show ?thesis using block_pages_skip [OF sample_reader_finds, of "''b''" sample_block_refs 2 0 "[]"] by simp
qed

theorem most_recent_terminates_witness:
  "\<exists>r. ListMostRecentTransactions (2 ^ 32 + 1) sample_list_env sample_trx_reader [] 25 = Some r \<and>
    (\<forall>list. r = Inr list \<longrightarrow> int (length (tl_Transactions list)) \<le> 25)"
proof -
  have "lists_down sample_list_env sample_trx_reader"
    by (auto simp: lists_down_def sample_list_env_def sample_trx_reader_def split: if_splits)
  from most_recent_terminates [OF this, of "2 ^ 32 + 1" "[]" 25] show ?thesis by simp
qed

end
