(* ===== verification/Spec2Isabelle.thy ===== *)
theory Spec2Isabelle
  imports ConsoleReaderProps AccountHistServer AccountHistPurge TrxDbProps TrxDbLoader TokenMeta FilteringProps AbiCodec
    StateDbServer SearchProps TrxLists
begin

text \<open>
  A verification library for \<open>dfuse-eosio\<close>, the EOSIO data services of dfuse: a
  supervised \<open>nodeos\<close> prints a deep mind log, the codec turns the log into protobuf blocks, and a
  set of services index these blocks.

  \<^bold>\<open>Codec.\<close> \<open>codec/consolereader.go\<close> parses the log line by line into a parse context; each
  transaction collects the operations printed before it, each accepted block the transactions
  recorded since its start. The ABI decoder (\<open>codec/abi_decoder.go\<close>) receives the transactions and
  decodes the binary data of the actions with the ABI active at the sequence number of each
  action, which it takes from the versioned cache of \<open>codec/abi_cache.go\<close>. The creation
  operations of a transaction become a tree (\<open>codec/creation_tree.go\<close>).

  \<^bold>\<open>Account history.\<close> \<open>accounthist/injector\<close> writes one row for every account that an
  irreversible action touches, keeps the newest rows of each account only, and records a
  checkpoint; its writes go through a cache (\<open>injector/rwcache.go\<close>) to a key-value store. The
  \<open>purger\<close> removes rows of older shards, and \<open>grpc\<close> serves pages of the rows.

  \<^bold>\<open>Transaction database.\<close> \<open>trxdb/kv\<close> writes the receipts, traces and deferred transactions of every
  block, in all forks, to a key-value store, and a mark for every irreversible block; the queries
  return blocks, accounts, and the events of a transaction, which
  \<open>pb/dfuse/eosio/codec/v1/merge_events.go\<close> merges into one lifecycle with the marks deciding which fork
  counts. \<open>trxdb-loader\<close> feeds it the blocks and flushes with retries.

  \<^bold>\<open>Filtering.\<close> \<open>filtering\<close> reduces a block to the transactions and actions that pass an include, an
  exclude and a system filter, chosen by block number; a block may be filtered several times.

  \<^bold>\<open>Token metadata.\<close> \<open>tokenmeta\<close> follows the irreversible blocks and keeps the tokens, balances and
  holders of all token contracts in the cache of \<open>tokenmeta/cache\<close>.

  \<^bold>\<open>ABI codec.\<close> \<open>abicodec\<close> keeps the ABIs of all accounts by block number, with undone blocks removed, and
  decodes on request.

  \<^bold>\<open>State database.\<close> \<open>statedb/mapper.go\<close> turns a block into one write request with the last row of every
  table entry, table scope, key of an account, link of a permission and ABI that the block changes; the
  library \<open>fluxdb\<close> stores the requests by block number, and \<open>statedb/grpc\<close> reads the state at any block, with the
  requests of the blocks that are not yet irreversible applied on top.

  \<^bold>\<open>Search.\<close> \<open>search/mapper.go\<close> turns the matched actions of a block into documents for the index of the
  library \<open>bleve\<close>, whose fields are the indexed terms; a query returns identifiers of documents, which
  \<open>search/collector.go\<close> groups by transaction.

  \<^bold>\<open>Transactions in the API.\<close> \<open>eosws/recenttxhub.go\<close> keeps a ring of the newest transactions, fed by the live
  blocks, their undos and the blocks that become irreversible; \<open>eosws/db.go\<close> lists transactions of a block or of the
  newest blocks from the transaction database, page by page, and the REST handler answers from the ring
  when it is ready. \<open>eosws/mdl\<close> converts a merged lifecycle to the version 1 of the API, where the
  actions form a forest of inline traces.

  The theories, in the order of the code:

  \<^item> \<open>Prelude\<close>, \<open>GoStd\<close>: results as sums, folds with an error, and the functions of the Go library
    that the sources call (\<open>strings\<close>, \<open>strconv\<close>, \<open>encoding/hex\<close>, \<open>base64\<close>, \<open>binary\<close>).
  \<^item> \<open>VersionedIndex\<close>: the interface of an index that is written in increasing sequence order,
    looked up at a sequence and truncated; the laws are a locale that the ABI cache interprets and
    the decoder uses.
  \<^item> \<open>AbiCache\<close>: the three operations of the cache, and a refinement of a plain history of changes.
  \<^item> \<open>CreationTree\<close>: the tree as a store of nodes that the operations mutate, and its flattening.
    The recursions run on fuel, the number of operations plus one; the fuel always suffices
    (\<open>computeCreationTree_terminates\<close>).
  \<^item> \<open>PbCodec\<close>, \<open>PbHelpers\<close>: the messages of \<open>codec.pb.go\<close> and the methods of \<open>codec.go\<close>.
  \<^item> \<open>AbiDecoder\<close>: the decoder as a record with a pool of jobs. The worker goroutines are the
    step relation \<open>schedule\<close>, which interleaves transactions and jobs; the memory the jobs write
    is a map from action references to decoded text. What the schedule cannot change, and what it
    can, is one theorem.
  \<^item> \<open>EosToProto\<close>, \<open>DeepMindTypes\<close>: conversions of the unpacked structures, and the hydrators.
  \<^item> \<open>ConsoleReader\<close>, \<open>ConsoleReaderProps\<close>: the parse context, one reader for every kind of line,
    the dispatch and the \<open>Read\<close> loop; the invariant of the reachable contexts, the operations of the log
    against the traces and the block they end up in, and the properties of the readers.

  \<^item> \<open>KvStore\<close>: the key-value store as a record of operations with three locales for its laws (what
    reads see, what a flush will make visible, ranges in key order), a store in memory that
    interprets them, and the order of big-endian keys.
  \<^item> \<open>AccountHistKeys\<close>, \<open>RWCache\<close>, \<open>AccountHist\<close>: keys and facets, the write cache, which over a store that
    accepts all puts is again a store by a sublocale, with what its flush does when a put is rejected, the
    injector, its checkpoints and summaries, and the purger.
  \<^item> \<open>AccountHistProps\<close>: the invariant of the windows of rows, restart after a flush, bounds.
  \<^item> \<open>AccountHistServer\<close>, \<open>AccountHistPurge\<close>: the queries with their cursors, and the purger against
    its specification.
  \<^item> \<open>Dedupe\<close>: the traces are stored without the parts that repeat, and the round trip.
  \<^item> \<open>MergeEvents\<close>: the lifecycle of a transaction, against a reference that filters first.
  \<^item> \<open>TrxDbKeys\<close>, \<open>TrxDb\<close>, \<open>TrxDbProps\<close>: the keys, the operations of the database on a list of stores
    whose positions are the roles, and what a reader gets of what was written; the lemmas are proved
    in the locales of \<open>KvStore\<close>.
  \<^item> \<open>TrxDbLoader\<close>: the jobs of the loader on that database, and its retries. The sleep between two
    attempts is left out; what the attempts do to the store is the store's.
  \<^item> \<open>TokenCache\<close>, \<open>TokenCacheProps\<close>, \<open>TokenMeta\<close>: the cache with its mutations and queries, its
    invariant, and the processing of blocks that keeps it. The two comparators that call each other
    run on fuel; two calls suffice whenever they return at all (\<open>compare_assets_terminates\<close>).
  \<^item> \<open>Filtering\<close>, \<open>FilteringProps\<close>: filter expressions, the names they read, the transformation of a
    block, and the composition of filters.
  \<^item> \<open>AbiCodec\<close>: the cache as a refinement of a map from block numbers, the syncer and the decoder.
  \<^item> \<open>GoFormat\<close>: numbers in decimal and hexadecimal text, \<open>strings.TrimSpace\<close>.
  \<^item> \<open>StateDb\<close>, \<open>StateDbProps\<close>: rows and their keys, the mapper with its coalescing of the operations of
    a row, and the refinement: applying the request of a block is applying its operations one by one.
  \<^item> \<open>StateDbServer\<close>: the requests of the server on a reader of the storage, what a request for a row
    returns at any block of a chain that the mapper has written, the round trip of the keys, and the
    irreversible reads.
  \<^item> \<open>Search\<close>, \<open>SearchProps\<close>: terms, tokenizer, documents and their identifiers, the collector, and that
    the collector finds exactly the actions whose documents the index returns.
  \<^item> \<open>EoswsMdl\<close>: the conversions of the API, and the forest of the inline traces against the ordinals of
    the actions. The conversion of a raw trace runs on fuel, which suffices when the actions are listed at their
    execution indexes (\<open>raw_terminates\<close>).
  \<^item> \<open>RecentTx\<close>, \<open>RecentTxProps\<close>: the ring with its index by block and the events that reach it, its
    invariant, and the refinement: a snapshot holds the newest transactions of the canonical chain.
  \<^item> \<open>TrxLists\<close>: the queries on a reader of the transaction database, what the pages of a block hold
    together, and the loop over the newest blocks on fuel. A round that continues lowers a block number of 32 bits,
    so that \<open>2 ^ 32 + 1\<close> rounds suffice (\<open>most_recent_terminates\<close>).

  Unpacking binary structures, decoding with an ABI and JSON are done by other repositories
  (\<open>eos-go\<close>, \<open>gjson\<close>, the protobuf runtime): they are fields of the records \<open>abi_env\<close>,
  \<open>hydrator_env\<close>, \<open>reader_env\<close>, \<open>hist_env\<close>, \<open>keys_env\<close>, \<open>trxdb_env\<close>, \<open>token_env\<close>,
  \<open>tokenmeta_env\<close>, \<open>filter_env\<close>, \<open>abicodec_env\<close>, \<open>statedb_env\<close>, \<open>flux_reader\<close>, \<open>server_env\<close>,
  \<open>search_env\<close>, \<open>mdl_env\<close>, \<open>hub_env\<close> and \<open>trx_reader\<close>, which the definitions take as arguments. A filter
  expression of the CEL library is a function of the names it reads. \<open>sort.Slice\<close> promises a
  sorted permutation only, so it is a parameter as well, with this law as a hypothesis.

  \<^bold>\<open>Not modelled.\<close> Logging, metrics, flags, process supervision, HTTP, gRPC and GraphQL plumbing
  are I/O. Fields of a block header that are copied and never read by the modelled code are left
  out. The error of the log scanner is not modelled: a log ends with the end of the stream. Of the state
  database the REST server and the streams over many scopes or contracts, which run on a pool of workers,
  are left out, and of the search the index. Of the websocket and REST server \<open>eosws\<close> the connections, their messages, prices and
  the tally of votes are left out. The GraphQL server
  \<open>dgraphql\<close>, the \<open>booter\<close>, the node manager, the command line and the operator \<open>tools\<close> are not modelled: they
  mostly connect the services above to networks, processes and files.
\<close>

end
